(* ===== verification/Prelude.thy ===== *)
theory Prelude
  imports Main "HOL-Library.Word" "HOL-Library.AList"
begin

section \<open>Prelude: the Rust vocabulary the components share\<close>

text \<open>
  What every theory of the development uses: \<open>Result\<close> as a sum, fixed width integers as
  words with the checked and saturating operations of the standard library, byte strings,
  and \<open>BTreeMap\<close>s as association lists with distinct keys.

  \<^item> \<open>Result<T, E>\<close> is \<open>'e + 't\<close>; \<open>Ok\<close> and \<open>Err\<close> abbreviate the injections, and
    \<open>and_then\<close> is both \<open>Result::and_then\<close> and the \<open>?\<close> operator.
  \<^item> \<open>u64\<close>, \<open>u32\<close>, \<open>u16\<close>, \<open>u8\<close> are words. A \<open>usize\<close> that counts items of a bounded
    container is a \<open>nat\<close>. An \<open>i64\<close> is an \<open>int\<close> kept in range by saturating operations.
  \<^item> \<open>String\<close>, \<open>&str\<close>, \<open>Vec<u8>\<close> and \<open>&[u8]\<close> are lists of bytes (\<open>string\<close>); a \<open>String\<close>
    holds its UTF-8 bytes, so \<open>length\<close> is Rust's \<open>len()\<close>.
\<close>

subsection \<open>Named collections of facts\<close>

named_theorems result_simps \<open>unfolding of \<open>?\<close> chains that return \<open>Ok\<close>\<close>
named_theorems num_simps \<open>checked and saturating arithmetic, read through unat\<close>
named_theorems amap_simps \<open>lookup, length and keys of an updated association list\<close>

subsection \<open>Results\<close>

type_synonym ('e, 'a) result = "'e + 'a"

abbreviation Ok :: "'a \<Rightarrow> 'e + 'a" where "Ok \<equiv> Inr"
abbreviation Err :: "'e \<Rightarrow> 'e + 'a" where "Err \<equiv> Inl"

definition and_then :: "'e + 'a \<Rightarrow> ('a \<Rightarrow> 'e + 'b) \<Rightarrow> 'e + 'b" where
  "and_then r f = (case r of Err e \<Rightarrow> Err e | Ok x \<Rightarrow> f x)"

definition map_err :: "('e \<Rightarrow> 'f) \<Rightarrow> 'e + 'a \<Rightarrow> 'f + 'a" where
  "map_err g r = (case r of Err e \<Rightarrow> Err (g e) | Ok x \<Rightarrow> Ok x)"

definition map_ok :: "('a \<Rightarrow> 'b) \<Rightarrow> 'e + 'a \<Rightarrow> 'e + 'b" where
  "map_ok g r = (case r of Err e \<Rightarrow> Err e | Ok x \<Rightarrow> Ok (g x))"

definition ok_or :: "'e \<Rightarrow> 'a option \<Rightarrow> 'e + 'a" where
  "ok_or e x = (case x of None \<Rightarrow> Err e | Some y \<Rightarrow> Ok y)"

definition is_ok :: "'e + 'a \<Rightarrow> bool" where
  "is_ok r = (case r of Err _ \<Rightarrow> False | Ok _ \<Rightarrow> True)"

text \<open>\<open>if c { return Err(e) }\<close> as a statement of a \<open>?\<close> chain.\<close>

definition ensure :: "bool \<Rightarrow> 'e \<Rightarrow> 'e + unit" where
  "ensure c e = (if c then Ok () else Err e)"

lemma and_then_simps [simp]:
  "and_then (Ok x) f = f x"
  "and_then (Err e) f = Err e"
  by (simp_all add: and_then_def)

lemma and_then_Ok [result_simps]:
  "and_then r f = Ok y \<longleftrightarrow> (\<exists>x. r = Ok x \<and> f x = Ok y)"
  by (cases r) simp_all

lemma and_then_Err [result_simps]:
  "and_then r f = Err e \<longleftrightarrow> r = Err e \<or> (\<exists>x. r = Ok x \<and> f x = Err e)"
  by (cases r) simp_all

lemma map_err_simps [simp]:
  "map_err g (Ok x) = Ok x"
  "map_err g (Err e) = Err (g e)"
  by (simp_all add: map_err_def)

lemma map_err_Ok [result_simps]: "map_err g r = Ok y \<longleftrightarrow> r = Ok y"
  by (cases r) simp_all

lemma map_ok_simps [simp]:
  "map_ok g (Ok x) = Ok (g x)"
  "map_ok g (Err e) = Err e"
  by (simp_all add: map_ok_def)

lemma map_ok_Ok [result_simps]: "map_ok g r = Ok y \<longleftrightarrow> (\<exists>x. r = Ok x \<and> y = g x)"
  by (cases r) auto

lemma ok_or_simps [simp]:
  "ok_or e (Some x) = Ok x"
  "ok_or e None = Err e"
  by (simp_all add: ok_or_def)

lemma ok_or_Ok [result_simps]: "ok_or e r = Ok y \<longleftrightarrow> r = Some y"
  by (cases r) simp_all

lemma ok_or_Err [result_simps]: "ok_or e r = Err f \<longleftrightarrow> r = None \<and> f = e"
  by (cases r) auto

lemma is_ok_simps [simp]: "is_ok (Ok x)" "\<not> is_ok (Err e)"
  by (simp_all add: is_ok_def)

lemma is_ok_iff [result_simps]: "is_ok r \<longleftrightarrow> (\<exists>x. r = Ok x)"
  by (cases r) simp_all

lemma ensure_simps [simp]:
  "ensure True e = Ok ()"
  "ensure False e = Err e"
  by (simp_all add: ensure_def)

lemma ensure_Ok [result_simps]: "ensure c e = Ok u \<longleftrightarrow> c"
  by (simp add: ensure_def)

lemma ensure_Err [result_simps]: "ensure c e = Err f \<longleftrightarrow> \<not> c \<and> f = e"
  by (auto simp: ensure_def)

subsection \<open>Stateful methods\<close>

text \<open>
  A method on \<open>&mut self\<close> returns the new state beside its result. \<open>try_st\<close> is \<open>?\<close> there: an
  error returns with the state the failing step left.
\<close>

definition try_st :: "'s \<times> ('e + 'a) \<Rightarrow> ('s \<Rightarrow> 'a \<Rightarrow> 's \<times> ('e + 'b)) \<Rightarrow> 's \<times> ('e + 'b)" where
  "try_st m f = (case m of (s, Err e) \<Rightarrow> (s, Err e) | (s, Ok x) \<Rightarrow> f s x)"

lemma try_st_simps [simp]:
  "try_st (s, Err e) f = (s, Err e)"
  "try_st (s, Ok x) f = f s x"
  by (simp_all add: try_st_def)

lemma try_st_eq:
  "try_st m f = (s', r) \<longleftrightarrow> (\<exists>e. m = (s', Err e) \<and> r = Err e) \<or> (\<exists>s x. m = (s, Ok x) \<and> f s x = (s', r))"
  by (auto simp: try_st_def split: prod.splits sum.splits)

lemma try_st_Ok [result_simps]:
  "try_st m f = (s', Ok y) \<longleftrightarrow> (\<exists>s x. m = (s, Ok x) \<and> f s x = (s', Ok y))"
  by (auto simp: try_st_eq)

lemma try_st_cases:
  assumes "try_st m f = (s', r)"
  obtains (error) e where "m = (s', Err e)" "r = Err e" | (step) s x where "m = (s, Ok x)" "f s x = (s', r)"
  using assms by (auto simp: try_st_eq)

subsection \<open>Fixed width integers\<close>

type_synonym u8 = "8 word"
type_synonym u16 = "16 word"
type_synonym u32 = "32 word"
type_synonym u64 = "64 word"

definition checked_add :: "u64 \<Rightarrow> u64 \<Rightarrow> u64 option" where
  "checked_add a b = (if unat a + unat b < 2 ^ 64 then Some (a + b) else None)"

definition saturating_add :: "u64 \<Rightarrow> u64 \<Rightarrow> u64" where
  "saturating_add a b = (if unat a + unat b < 2 ^ 64 then a + b else - 1)"

definition checked_sub :: "u64 \<Rightarrow> u64 \<Rightarrow> u64 option" where
  "checked_sub a b = (if unat b \<le> unat a then Some (a - b) else None)"

text \<open>\<open>u64::try_from(n).unwrap_or(u64::MAX)\<close> on a \<open>usize\<close>.\<close>

definition u64_of_usize :: "nat \<Rightarrow> u64" where
  "u64_of_usize n = (if n < 2 ^ 64 then of_nat n else - 1)"

definition i64_max :: int where "i64_max = 9223372036854775807"
definition i64_min :: int where "i64_min = - 9223372036854775808"

definition saturating_sub_i64 :: "int \<Rightarrow> int \<Rightarrow> int" where
  "saturating_sub_i64 a b = max i64_min (min i64_max (a - b))"

lemma unat_u64_less: "unat (a :: u64) < 18446744073709551616"
  using unsigned_less [of a] by simp

lemma checked_add_Some [num_simps]:
  "checked_add a b = Some c \<longleftrightarrow> unat a + unat b < 2 ^ 64 \<and> c = a + b"
  by (auto simp: checked_add_def)

lemma checked_add_unat:
  "checked_add a b = Some c \<Longrightarrow> unat c = unat a + unat b"
  by (auto simp: checked_add_def unat_word_ariths split: if_splits)

lemma checked_add_None [num_simps]:
  "checked_add a b = None \<longleftrightarrow> 2 ^ 64 \<le> unat a + unat b"
  by (auto simp: checked_add_def)

lemma saturating_add_unat [num_simps]:
  "unat (saturating_add a b) = min (unat a + unat b) (2 ^ 64 - 1)"
  by (auto simp: saturating_add_def unat_word_ariths unsigned_minus_1_eq_mask mask_eq_exp_minus_1)

lemma checked_sub_unat:
  "checked_sub a b = Some c \<Longrightarrow> unat c = unat a - unat b"
  by (auto simp: checked_sub_def unat_sub word_le_nat_alt split: if_splits)

subsection \<open>Search in lists\<close>

text \<open>\<open>iter().position(p)\<close>: the index of the first element that satisfies the predicate.\<close>

fun position :: "('a \<Rightarrow> bool) \<Rightarrow> 'a list \<Rightarrow> nat option" where
  "position p [] = None"
| "position p (x # xs) = (if p x then Some 0 else map_option Suc (position p xs))"

lemma position_None: "position p xs = None \<longleftrightarrow> (\<forall>x\<in>set xs. \<not> p x)"
  by (induction xs) auto

lemma position_Some:
  "position p xs = Some i \<Longrightarrow> i < length xs \<and> p (xs ! i) \<and> (\<forall>j<i. \<not> p (xs ! j))"
proof (induction xs arbitrary: i)
  case Nil
  then show ?case by simp
next
  case (Cons x xs)
  show ?case
  proof (cases "p x")
    case True
    with Cons.prems show ?thesis by simp
  next
    case False
    with Cons.prems obtain k where k: "position p xs = Some k" and i: "i = Suc k" by auto
    from Cons.IH [OF k] show ?thesis using False i by (auto simp: less_Suc_eq_0_disj)
  qed
qed

subsection \<open>Maps with distinct keys\<close>

text \<open>
  A \<open>BTreeMap\<close> is an association list whose keys are distinct: \<open>get\<close> is \<open>map_of\<close>,
  \<open>insert\<close> is \<open>AList.update\<close>, \<open>remove\<close> is \<open>AList.delete\<close> and \<open>len\<close> is \<open>length\<close>. No
  modelled operation depends on the iteration order of a map where the source's order
  (by key) would differ.
\<close>

definition keys :: "('k \<times> 'v) list \<Rightarrow> 'k list" where
  "keys m = map fst m"

definition distinct_keys :: "('k \<times> 'v) list \<Rightarrow> bool" where
  "distinct_keys m \<longleftrightarrow> distinct (keys m)"

definition contains_key :: "('k \<times> 'v) list \<Rightarrow> 'k \<Rightarrow> bool" where
  "contains_key m k \<longleftrightarrow> map_of m k \<noteq> None"

lemma contains_key_iff [amap_simps]: "contains_key m k \<longleftrightarrow> k \<in> set (keys m)"
  by (simp add: contains_key_def keys_def map_of_eq_None_iff)

lemma distinct_keys_Nil [simp]: "distinct_keys []"
  by (simp add: distinct_keys_def keys_def)

lemma distinct_keys_update [simp]: "distinct_keys m \<Longrightarrow> distinct_keys (AList.update k v m)"
  by (simp add: distinct_keys_def keys_def distinct_update)

lemma distinct_keys_delete [simp]: "distinct_keys m \<Longrightarrow> distinct_keys (AList.delete k m)"
  by (simp add: distinct_keys_def keys_def distinct_delete)

lemma map_of_update [amap_simps]:
  "map_of (AList.update k v m) j = (if j = k then Some v else map_of m j)"
  by (simp add: update_conv')

lemma map_of_delete [amap_simps]:
  "map_of (AList.delete k m) j = (if j = k then None else map_of m j)"
  by (simp add: delete_conv')

lemma length_update [amap_simps]:
  "length (AList.update k v m) = (if map_of m k = None then Suc (length m) else length m)"
  by (induction m) auto

text \<open>
  Sums over the values of a map, the shape of every accounting invariant (counts and bytes
  held over all producers).
\<close>

definition total_of :: "('v \<Rightarrow> nat) \<Rightarrow> ('k \<times> 'v) list \<Rightarrow> nat" where
  "total_of w m = sum_list (map (w \<circ> snd) m)"

lemma total_of_Nil [simp]: "total_of w [] = 0"
  by (simp add: total_of_def)

lemma total_of_update_new: "map_of m k = None \<Longrightarrow> total_of w (AList.update k v m) = total_of w m + w v"
  by (induction m) (auto simp: total_of_def)

lemma total_of_update_old:
  "map_of m k = Some u \<Longrightarrow> total_of w (AList.update k v m) + w u = total_of w m + w v"
  by (induction m) (auto simp: total_of_def split: if_splits)

lemma delete_absent: "map_of m k = None \<Longrightarrow> AList.delete k m = m"
  by (induction m) (auto simp: AList.delete_eq split: if_splits)

lemma delete_update_new: "map_of m k = None \<Longrightarrow> AList.delete k (AList.update k v m) = m"
  by (induction m) (auto simp: AList.delete_simps split: if_splits)

lemma update_update: "AList.update k u (AList.update k v m) = AList.update k u m"
  by (induction m) auto

lemma update_append_new: "map_of m k = None \<Longrightarrow> AList.update k v m = m @ [(k, v)]"
  by (induction m) (auto split: if_splits)

lemma total_of_delete:
  "distinct_keys m \<Longrightarrow> map_of m k = Some u \<Longrightarrow> total_of w (AList.delete k m) + w u = total_of w m"
proof (induction m)
  case Nil
  then show ?case by simp
next
  case (Cons a m)
  obtain j v where a: "a = (j, v)" by (cases a)
  from Cons.prems a have dk: "distinct_keys m" and j: "j \<notin> set (keys m)"
    by (auto simp: distinct_keys_def keys_def)
  show ?case
  proof (cases "j = k")
    case True
    with j have "map_of m k = None" by (simp add: keys_def map_of_eq_None_iff)
    then have "AList.delete k m = m" by (rule delete_absent)
    with Cons.prems a True show ?thesis by (simp add: total_of_def)
  next
    case False
    with Cons.prems a have "map_of m k = Some u" by simp
    from Cons.IH [OF dk this] False a show ?thesis by (simp add: total_of_def)
  qed
qed

lemma total_of_member: "map_of m k = Some u \<Longrightarrow> w u \<le> total_of w m"
  by (induction m) (auto simp: total_of_def split: if_splits)

subsection \<open>The first row that matches\<close>

named_theorems find_simps \<open>the first match in an extended or updated table\<close>

lemma find_append [find_simps]: "find P (xs @ ys) = (case find P xs of None \<Rightarrow> find P ys | Some x \<Rightarrow> Some x)"
  by (induction xs) auto

lemma find_map_same [find_simps]:
  "(\<And>x. x \<in> set xs \<Longrightarrow> P (f x) = P x) \<Longrightarrow> find P (map f xs) = map_option f (find P xs)"
  by (induction xs) auto

lemma find_filter_same:
  "(\<And>x. x \<in> set xs \<Longrightarrow> P x \<Longrightarrow> Q x) \<Longrightarrow> find P (filter Q xs) = find P xs"
  by (induction xs) auto

lemma find_SomeD: "find P xs = Some x \<Longrightarrow> x \<in> set xs \<and> P x"
  by (auto simp: find_Some_iff)

lemma find_unique:
  assumes "distinct (map key xs)" and "x \<in> set xs" and "P x" and "\<And>y. P y \<Longrightarrow> key y = key x"
  shows "find P xs = Some x"
  using assms(1,2)
proof (induction xs)
  case (Cons y ys)
  show ?case
  proof (cases "P y")
    case True
    then have "key y = key x" by (rule assms(4))
    with Cons.prems have "y = x" by (auto simp: image_iff)
    with True show ?thesis by simp
  next
    case False
    with assms(3) have "x \<noteq> y" by auto
    with Cons False show ?thesis by simp
  qed
qed simp

end
