(* ===== verification/Identity.thy ===== *)
theory Identity
  imports Prelude
begin

section \<open>Wire identities, bounded strings, decimals, fresh generations\<close>

text \<open>
  The model of \<open>protocol/identity.rs\<close>, of the error type of \<open>protocol/mod.rs\<close> and of
  \<open>generation.rs\<close>. Each newtype that the macro \<open>string_type!\<close> generates is a datatype
  over a byte string, with one constructor (the private tuple field) and one selector
  (\<open>as_str\<close>); the macro's \<open>from_str\<close> is \<open>string_type_from_str\<close> at the type's validator.
  The source builds such a value only through \<open>from_str\<close>, so its string satisfies the
  validator; a lemma that needs this names it. The laws of the macro are proved once in the
  locale \<open>string_newtype\<close> and interpreted at every type.
\<close>

subsection \<open>Protocol errors (protocol/mod.rs)\<close>

datatype ProtocolError =
    UnsupportedVersion | InvalidFrame | UnknownProducer | StaleGeneration | SequenceGap
  | CapabilityUnavailable | StaleTarget | PermissionDenied | Conflict | ResourceExhausted
  | PersistenceUnavailable

fun ProtocolError_display :: "ProtocolError \<Rightarrow> string" where
  "ProtocolError_display UnsupportedVersion = ''unsupported_version''"
| "ProtocolError_display InvalidFrame = ''invalid_frame''"
| "ProtocolError_display UnknownProducer = ''unknown_producer''"
| "ProtocolError_display StaleGeneration = ''stale_generation''"
| "ProtocolError_display SequenceGap = ''sequence_gap''"
| "ProtocolError_display CapabilityUnavailable = ''capability_unavailable''"
| "ProtocolError_display StaleTarget = ''stale_target''"
| "ProtocolError_display PermissionDenied = ''permission_denied''"
| "ProtocolError_display Conflict = ''conflict''"
| "ProtocolError_display ResourceExhausted = ''resource_exhausted''"
| "ProtocolError_display PersistenceUnavailable = ''persistence_unavailable''"

definition MAX_FRAME_BYTES :: nat where "MAX_FRAME_BYTES = 16384"
definition MAX_JSON_DEPTH :: nat where "MAX_JSON_DEPTH = 8"

subsection \<open>Bytes of a string\<close>

abbreviation byte :: "char \<Rightarrow> nat" where "byte c \<equiv> of_char c"

definition is_ascii_digit :: "char \<Rightarrow> bool" where
  "is_ascii_digit c \<longleftrightarrow> 48 \<le> byte c \<and> byte c \<le> 57"

text \<open>
  \<open>char::is_control\<close> holds of U+0000 to U+001F and U+007F to U+009F; in UTF-8 the first
  and U+007F are single bytes, and U+0080 to U+009F are the byte C2 followed by 80 to 9F.
\<close>

fun has_control :: "string \<Rightarrow> bool" where
  "has_control [] = False"
| "has_control (c # cs) =
     (byte c < 32 \<or> byte c = 127 \<or>
      (byte c = 194 \<and> cs \<noteq> [] \<and> 128 \<le> byte (hd cs) \<and> byte (hd cs) < 160) \<or>
      has_control cs)"

subsection \<open>Validators\<close>

definition is_lower_hex :: "char \<Rightarrow> bool" where
  "is_lower_hex c \<longleftrightarrow> is_ascii_digit c \<or> (byte CHR ''a'' \<le> byte c \<and> byte c \<le> byte CHR ''f'')"

definition canonical_uuid :: "string \<Rightarrow> bool" where
  "canonical_uuid value \<longleftrightarrow> length value = 36 \<and>
     list_all (\<lambda>(index, c).
       if index = 8 \<or> index = 13 \<or> index = 18 \<or> index = 23 then c = CHR ''-''
       else is_lower_hex c)
       (List.enumerate 0 value)"

definition opaque :: "string \<Rightarrow> nat \<Rightarrow> bool" where
  "opaque value maximum \<longleftrightarrow> value \<noteq> [] \<and> length value \<le> maximum \<and> \<not> has_control value"

definition local_path_valid :: "string \<Rightarrow> bool" where
  "local_path_valid s \<longleftrightarrow> take 1 s = ''/'' \<and> opaque s 4096"

subsection \<open>The generated string types\<close>

definition string_type_from_str ::
    "(string \<Rightarrow> bool) \<Rightarrow> (string \<Rightarrow> 'a) \<Rightarrow> string \<Rightarrow> ProtocolError + 'a" where
  "string_type_from_str validator wrap value =
     (if validator value then Ok (wrap value) else Err InvalidFrame)"

datatype ProjectId = ProjectId (ProjectId_as_str: string)
datatype TaskId = TaskId (TaskId_as_str: string)
datatype RunId = RunId (RunId_as_str: string)
datatype ProducerId = ProducerId (ProducerId_as_str: string)
datatype EventId = EventId (EventId_as_str: string)
datatype RequestId = RequestId (RequestId_as_str: string)
datatype ProducerGeneration = ProducerGeneration (ProducerGeneration_as_str: string)
datatype TurnId = TurnId (TurnId_as_str: string)
datatype HarnessSessionId = HarnessSessionId (HarnessSessionId_as_str: string)
datatype AdapterVersion = AdapterVersion (AdapterVersion_as_str: string)
datatype SnapshotCursor = SnapshotCursor (SnapshotCursor_as_str: string)
datatype TaskLabel = TaskLabel (TaskLabel_as_str: string)
datatype LocalPath = LocalPath (LocalPath_as_str: string)

definition ProjectId_from_str :: "string \<Rightarrow> ProtocolError + ProjectId" where
  "ProjectId_from_str = string_type_from_str canonical_uuid ProjectId"
definition TaskId_from_str :: "string \<Rightarrow> ProtocolError + TaskId" where
  "TaskId_from_str = string_type_from_str canonical_uuid TaskId"
definition RunId_from_str :: "string \<Rightarrow> ProtocolError + RunId" where
  "RunId_from_str = string_type_from_str canonical_uuid RunId"
definition ProducerId_from_str :: "string \<Rightarrow> ProtocolError + ProducerId" where
  "ProducerId_from_str = string_type_from_str canonical_uuid ProducerId"
definition EventId_from_str :: "string \<Rightarrow> ProtocolError + EventId" where
  "EventId_from_str = string_type_from_str canonical_uuid EventId"
definition RequestId_from_str :: "string \<Rightarrow> ProtocolError + RequestId" where
  "RequestId_from_str = string_type_from_str canonical_uuid RequestId"
definition ProducerGeneration_from_str :: "string \<Rightarrow> ProtocolError + ProducerGeneration" where
  "ProducerGeneration_from_str = string_type_from_str canonical_uuid ProducerGeneration"
definition TurnId_from_str :: "string \<Rightarrow> ProtocolError + TurnId" where
  "TurnId_from_str = string_type_from_str (\<lambda>s. opaque s 256) TurnId"
definition HarnessSessionId_from_str :: "string \<Rightarrow> ProtocolError + HarnessSessionId" where
  "HarnessSessionId_from_str = string_type_from_str (\<lambda>s. opaque s 256) HarnessSessionId"
definition AdapterVersion_from_str :: "string \<Rightarrow> ProtocolError + AdapterVersion" where
  "AdapterVersion_from_str = string_type_from_str (\<lambda>s. opaque s 64) AdapterVersion"
definition SnapshotCursor_from_str :: "string \<Rightarrow> ProtocolError + SnapshotCursor" where
  "SnapshotCursor_from_str = string_type_from_str (\<lambda>s. opaque s 256) SnapshotCursor"
definition TaskLabel_from_str :: "string \<Rightarrow> ProtocolError + TaskLabel" where
  "TaskLabel_from_str = string_type_from_str (\<lambda>s. opaque s 1024) TaskLabel"
definition LocalPath_from_str :: "string \<Rightarrow> ProtocolError + LocalPath" where
  "LocalPath_from_str = string_type_from_str local_path_valid LocalPath"

text \<open>The laws every generated type shares: what parses, and both round trips.\<close>

locale string_newtype =
  fixes validator :: "string \<Rightarrow> bool"
    and wrap :: "string \<Rightarrow> 'a"
    and as_str :: "'a \<Rightarrow> string"
    and from_str :: "string \<Rightarrow> ProtocolError + 'a"
  assumes as_str_wrap: "as_str (wrap s) = s"
    and wrap_as_str: "wrap (as_str x) = x"
    and from_str_eq: "from_str = string_type_from_str validator wrap"
begin

lemma from_str_Ok: "from_str s = Ok x \<longleftrightarrow> validator s \<and> as_str x = s"
  by (auto simp: from_str_eq string_type_from_str_def as_str_wrap) (metis wrap_as_str)

lemma from_str_Err: "from_str s = Err e \<longleftrightarrow> \<not> validator s \<and> e = InvalidFrame"
  by (auto simp: from_str_eq string_type_from_str_def)

lemma parse_as_str: "validator (as_str x) \<Longrightarrow> from_str (as_str x) = Ok x"
  by (simp add: from_str_Ok)

lemma as_str_inj: "as_str x = as_str y \<longleftrightarrow> x = y"
  by (metis wrap_as_str)

end

interpretation ProjectId: string_newtype canonical_uuid ProjectId ProjectId_as_str ProjectId_from_str
  by unfold_locales (simp_all add: ProjectId_from_str_def)
interpretation TaskId: string_newtype canonical_uuid TaskId TaskId_as_str TaskId_from_str
  by unfold_locales (simp_all add: TaskId_from_str_def)
interpretation RunId: string_newtype canonical_uuid RunId RunId_as_str RunId_from_str
  by unfold_locales (simp_all add: RunId_from_str_def)
interpretation ProducerId: string_newtype canonical_uuid ProducerId ProducerId_as_str ProducerId_from_str
  by unfold_locales (simp_all add: ProducerId_from_str_def)
interpretation EventId: string_newtype canonical_uuid EventId EventId_as_str EventId_from_str
  by unfold_locales (simp_all add: EventId_from_str_def)
interpretation RequestId: string_newtype canonical_uuid RequestId RequestId_as_str RequestId_from_str
  by unfold_locales (simp_all add: RequestId_from_str_def)
interpretation Generation: string_newtype canonical_uuid ProducerGeneration
    ProducerGeneration_as_str ProducerGeneration_from_str
  by unfold_locales (simp_all add: ProducerGeneration_from_str_def)
interpretation TurnId: string_newtype "\<lambda>s. opaque s 256" TurnId TurnId_as_str TurnId_from_str
  by unfold_locales (simp_all add: TurnId_from_str_def)
interpretation HarnessSessionId: string_newtype "\<lambda>s. opaque s 256" HarnessSessionId
    HarnessSessionId_as_str HarnessSessionId_from_str
  by unfold_locales (simp_all add: HarnessSessionId_from_str_def)
interpretation AdapterVersion: string_newtype "\<lambda>s. opaque s 64" AdapterVersion
    AdapterVersion_as_str AdapterVersion_from_str
  by unfold_locales (simp_all add: AdapterVersion_from_str_def)
interpretation SnapshotCursor: string_newtype "\<lambda>s. opaque s 256" SnapshotCursor
    SnapshotCursor_as_str SnapshotCursor_from_str
  by unfold_locales (simp_all add: SnapshotCursor_from_str_def)
interpretation TaskLabel: string_newtype "\<lambda>s. opaque s 1024" TaskLabel TaskLabel_as_str TaskLabel_from_str
  by unfold_locales (simp_all add: TaskLabel_from_str_def)
interpretation LocalPath: string_newtype local_path_valid LocalPath LocalPath_as_str LocalPath_from_str
  by unfold_locales (simp_all add: LocalPath_from_str_def)

subsection \<open>Decimal u64 types\<close>

text \<open>
  \<open>u64\<close>'s own \<open>Display\<close> and \<open>parse\<close> are the standard library's: the shortest decimal
  numeral, and the value of a digit string or an error when it exceeds \<open>u64::MAX\<close>.
\<close>

fun show_nat :: "nat \<Rightarrow> string" where
  "show_nat n = (if n < 10 then [char_of (48 + n)] else show_nat (n div 10) @ [char_of (48 + n mod 10)])"

declare show_nat.simps [simp del]

definition digits_value :: "string \<Rightarrow> nat" where
  "digits_value s = foldl (\<lambda>a c. 10 * a + (byte c - 48)) 0 s"

definition u64_display :: "u64 \<Rightarrow> string" where
  "u64_display n = show_nat (unat n)"

definition u64_parse :: "string \<Rightarrow> u64 option" where
  "u64_parse s = (if s \<noteq> [] \<and> list_all is_ascii_digit s \<and> digits_value s < 2 ^ 64
     then Some (of_nat (digits_value s)) else None)"

definition decimal_from_str :: "(u64 \<Rightarrow> 'a) \<Rightarrow> string \<Rightarrow> ProtocolError + 'a" where
  "decimal_from_str wrap value =
     (if value = [] \<or> (1 < length value \<and> take 1 value = ''0'') \<or> \<not> list_all is_ascii_digit value
      then Err InvalidFrame
      else map_ok wrap (ok_or InvalidFrame (u64_parse value)))"

datatype Seq = Seq (Seq_value: u64)
datatype Revision = Revision (Revision_value: u64)

definition Seq_from_str :: "string \<Rightarrow> ProtocolError + Seq" where
  "Seq_from_str = decimal_from_str Seq"
definition Revision_from_str :: "string \<Rightarrow> ProtocolError + Revision" where
  "Revision_from_str = decimal_from_str Revision"
definition Seq_display :: "Seq \<Rightarrow> string" where
  "Seq_display s = u64_display (Seq_value s)"
definition Revision_display :: "Revision \<Rightarrow> string" where
  "Revision_display r = u64_display (Revision_value r)"
definition Seq_checked_next :: "Seq \<Rightarrow> Seq option" where
  "Seq_checked_next s = map_option Seq (checked_add (Seq_value s) 1)"
definition Revision_checked_next :: "Revision \<Rightarrow> Revision option" where
  "Revision_checked_next r = map_option Revision (checked_add (Revision_value r) 1)"

text \<open>The derived orders compare the values.\<close>

instantiation Seq :: linorder
begin
definition less_eq_Seq :: "Seq \<Rightarrow> Seq \<Rightarrow> bool" where
  "less_eq_Seq a b \<longleftrightarrow> Seq_value a \<le> Seq_value b"
definition less_Seq :: "Seq \<Rightarrow> Seq \<Rightarrow> bool" where
  "less_Seq a b \<longleftrightarrow> Seq_value a < Seq_value b"
instance
  by standard (auto simp: less_eq_Seq_def less_Seq_def Seq.expand)
end

instantiation Revision :: linorder
begin
definition less_eq_Revision :: "Revision \<Rightarrow> Revision \<Rightarrow> bool" where
  "less_eq_Revision a b \<longleftrightarrow> Revision_value a \<le> Revision_value b"
definition less_Revision :: "Revision \<Rightarrow> Revision \<Rightarrow> bool" where
  "less_Revision a b \<longleftrightarrow> Revision_value a < Revision_value b"
instance
  by standard (auto simp: less_eq_Revision_def less_Revision_def Revision.expand)
end

subsection \<open>Decimal numerals\<close>

lemma byte_digit_char [simp]: "(d :: nat) < 10 \<Longrightarrow> byte (char_of (48 + d)) = 48 + d"
  by simp

lemma byte_not_zero_digit: "c \<noteq> CHR ''0'' \<Longrightarrow> byte c \<noteq> 48"
proof -
  assume "c \<noteq> CHR ''0''"
  then have "byte c \<noteq> byte CHR ''0''" by (simp only: of_char_eq_iff not_False_eq_True)
  then show "byte c \<noteq> 48" by simp
qed

lemma unat_of_nat_u64: "n < 2 ^ 64 \<Longrightarrow> unat (of_nat n :: u64) = n"
  by (simp add: unat_of_nat)

lemma digit_char_is_digit [simp]: "(d :: nat) < 10 \<Longrightarrow> is_ascii_digit (char_of (48 + d))"
  by (simp add: is_ascii_digit_def)

lemma digits_value_snoc: "digits_value (xs @ [c]) = 10 * digits_value xs + (byte c - 48)"
  by (simp add: digits_value_def)

lemma show_nat_not_Nil: "show_nat n \<noteq> []"
  by (subst show_nat.simps) simp

lemma show_nat_digits: "list_all is_ascii_digit (show_nat n)"
proof (induction n rule: show_nat.induct)
  case (1 n)
  then show ?case by (subst show_nat.simps) simp
qed

lemma digits_value_show_nat: "digits_value (show_nat n) = n"
proof (induction n rule: show_nat.induct)
  case (1 n)
  show ?case
  proof (cases "n < 10")
    case True
    then show ?thesis by (subst show_nat.simps) (simp add: digits_value_def)
  next
    case False
    have "byte (char_of (48 + n mod 10)) = 48 + n mod 10" by (rule byte_digit_char) simp
    with 1 False show ?thesis by (subst show_nat.simps) (simp add: digits_value_snoc)
  qed
qed

lemma show_nat_leading: "0 < n \<Longrightarrow> hd (show_nat n) \<noteq> CHR ''0''"
proof (induction n rule: show_nat.induct)
  case (1 n)
  show ?case
  proof (cases "n < 10")
    case True
    have "byte (char_of (48 + n)) \<noteq> byte CHR ''0''" using True 1 by simp
    then have "char_of (48 + n) \<noteq> CHR ''0''" by metis
    with True show ?thesis by (subst show_nat.simps) simp
  next
    case False
    with 1 show ?thesis by (subst show_nat.simps) (simp add: show_nat_not_Nil)
  qed
qed

definition canonical_decimal :: "string \<Rightarrow> bool" where
  "canonical_decimal s \<longleftrightarrow> s \<noteq> [] \<and> \<not> (1 < length s \<and> hd s = CHR ''0'') \<and> list_all is_ascii_digit s"

lemma take_1_hd: "s \<noteq> [] \<Longrightarrow> take 1 s = [c] \<longleftrightarrow> hd s = c"
  by (cases s) simp_all

lemma canonical_show_nat: "canonical_decimal (show_nat n)"
proof (cases "n = 0")
  case True
  then show ?thesis by (simp add: canonical_decimal_def show_nat.simps is_ascii_digit_def)
next
  case False
  then show ?thesis
    by (simp add: canonical_decimal_def show_nat_not_Nil show_nat_digits show_nat_leading)
qed

lemma is_ascii_digit_char: "is_ascii_digit c \<Longrightarrow> char_of (48 + (byte c - 48)) = c"
  by (auto simp: is_ascii_digit_def)

lemma is_ascii_digit_bound: "is_ascii_digit c \<Longrightarrow> byte c - 48 < 10"
  by (auto simp: is_ascii_digit_def)

lemma digits_value_pos:
  assumes "list_all is_ascii_digit s" and "s \<noteq> []" and "hd s \<noteq> CHR ''0''"
  shows "0 < digits_value s"
  using assms
proof (induction s rule: rev_induct)
  case Nil
  then show ?case by simp
next
  case (snoc c s)
  show ?case
  proof (cases "s = []")
    case True
    with snoc.prems have "is_ascii_digit c" and "c \<noteq> CHR ''0''" by auto
    then have "byte c \<noteq> 48" and "48 \<le> byte c"
      by (auto simp: is_ascii_digit_def byte_not_zero_digit)
    with True show ?thesis by (simp add: digits_value_def)
  next
    case False
    with snoc show ?thesis by (simp add: digits_value_snoc)
  qed
qed

lemma show_nat_digits_value: "canonical_decimal s \<Longrightarrow> show_nat (digits_value s) = s"
proof (induction s rule: rev_induct)
  case Nil
  then show ?case by (simp add: canonical_decimal_def)
next
  case (snoc c s)
  then have c: "is_ascii_digit c" by (simp add: canonical_decimal_def)
  show ?case
  proof (cases "s = []")
    case True
    with c show ?thesis
      by (simp add: digits_value_def show_nat.simps is_ascii_digit_char is_ascii_digit_bound)
  next
    case False
    with snoc.prems have s: "list_all is_ascii_digit s" "hd s \<noteq> CHR ''0''"
      by (auto simp: canonical_decimal_def)
    with False have "canonical_decimal s" by (simp add: canonical_decimal_def)
    then have IH: "show_nat (digits_value s) = s" by (rule snoc.IH)
    have pos: "0 < digits_value s" using s False by (intro digits_value_pos)
    let ?d = "byte c - 48"
    have d: "?d < 10" using c by (rule is_ascii_digit_bound)
    have v: "digits_value (s @ [c]) = 10 * digits_value s + ?d" by (rule digits_value_snoc)
    from pos have ge: "\<not> 10 * digits_value s + ?d < 10" by simp
    have "(10 * digits_value s + ?d) div 10 = digits_value s"
      and "(10 * digits_value s + ?d) mod 10 = ?d" using d by simp_all
    with ge show ?thesis
      unfolding v by (subst show_nat.simps) (simp only: IH is_ascii_digit_char [OF c] if_False)
  qed
qed

lemma decimal_from_str_canonical:
  "decimal_from_str wrap s =
     (if canonical_decimal s \<and> digits_value s < 2 ^ 64 then Ok (wrap (of_nat (digits_value s)))
      else Err InvalidFrame)"
  by (cases s) (auto simp: decimal_from_str_def u64_parse_def canonical_decimal_def)

text \<open>
  The laws of both types the macro \<open>decimal_type!\<close> generates: the numeral of a value parses
  back to it, an accepted string is the numeral of its value, and \<open>checked_next\<close> is the
  successor, absent exactly at \<open>u64::MAX\<close>.
\<close>

locale decimal_newtype =
  fixes wrap :: "u64 \<Rightarrow> 'a"
    and val :: "'a \<Rightarrow> u64"
    and from_str :: "string \<Rightarrow> ProtocolError + 'a"
    and display :: "'a \<Rightarrow> string"
    and checked_next :: "'a \<Rightarrow> 'a option"
  assumes val_wrap: "val (wrap n) = n"
    and wrap_val: "wrap (val x) = x"
    and from_str_eq: "from_str = decimal_from_str wrap"
    and display_eq: "display x = u64_display (val x)"
    and checked_next_eq: "checked_next x = map_option wrap (checked_add (val x) 1)"
begin

lemma parse_display: "from_str (display x) = Ok x"
  using unat_u64_less [of "val x"]
  by (simp add: from_str_eq display_eq decimal_from_str_canonical u64_display_def
      canonical_show_nat digits_value_show_nat wrap_val)

lemma display_parse: "from_str s = Ok x \<Longrightarrow> display x = s"
  by (auto simp: from_str_eq display_eq decimal_from_str_canonical u64_display_def val_wrap
      unat_of_nat_u64 show_nat_digits_value split: if_splits)

lemma from_str_bound: "from_str s = Ok x \<longleftrightarrow> canonical_decimal s \<and> digits_value s = unat (val x)"
proof
  assume ok: "from_str s = Ok x"
  then show "canonical_decimal s \<and> digits_value s = unat (val x)"
    by (auto simp: from_str_eq decimal_from_str_canonical val_wrap unat_of_nat_u64
        split: if_splits)
next
  assume "canonical_decimal s \<and> digits_value s = unat (val x)"
  with unat_u64_less [of "val x"] show "from_str s = Ok x"
    by (simp add: from_str_eq decimal_from_str_canonical wrap_val)
qed

lemma checked_next_Some:
  "checked_next x = Some y \<Longrightarrow> unat (val y) = Suc (unat (val x))"
  by (auto simp: checked_next_eq val_wrap dest!: checked_add_unat)

lemma checked_next_None: "checked_next x = None \<longleftrightarrow> unat (val x) = 2 ^ 64 - 1"
  using unat_u64_less [of "val x"] by (auto simp: checked_next_eq num_simps)

lemma checked_next_eq_Some:
  "checked_next x = Some y \<longleftrightarrow> unat (val y) = Suc (unat (val x))"
proof
  assume a: "unat (val y) = Suc (unat (val x))"
  with unat_u64_less [of "val y"] have "checked_next x \<noteq> None"
    by (simp add: checked_next_None)
  then obtain z where z: "checked_next x = Some z" by auto
  with checked_next_Some [OF z] a have "val z = val y" by (simp add: word_unat_eq_iff)
  with z show "checked_next x = Some y" by (metis wrap_val)
qed (rule checked_next_Some)

end

interpretation Seq: decimal_newtype Seq Seq_value Seq_from_str Seq_display Seq_checked_next
  by unfold_locales (simp_all add: Seq_from_str_def Seq_display_def Seq_checked_next_def)
interpretation Revision: decimal_newtype Revision Revision_value Revision_from_str
    Revision_display Revision_checked_next
  by unfold_locales
    (simp_all add: Revision_from_str_def Revision_display_def Revision_checked_next_def)

end
