(* ===== verification/Wire.thy ===== *)
theory Wire
  imports Identity
begin

section \<open>The strict JSON boundary (protocol/strict.rs)\<close>

text \<open>
  Every frame the manager reads passes \<open>decode\<close>: byte limits, no bare line breaks, one JSON
  object of at most eight nested containers with no repeated key, and protocol version 0.

  The JSON tokenizer is \<open>serde_json\<close>'s, which is not under src/. It is the argument
  \<open>from_slice\<close>: the tree of visitor calls it makes for the bytes (\<open>raw\<close>: what
  \<open>visit_bool\<close>, \<open>visit_u64\<close>, \<open>visit_seq\<close>, \<open>visit_map\<close> and so on are called with,
  repeated keys included), or \<open>None\<close> for bytes that are not exactly one JSON text. The visitor
  \<open>StrictValue\<close>, which is this crate's, is modelled on that tree. A \<open>f64\<close> is its IEEE 754 bits.
\<close>

datatype raw =
    RBool bool | RI64 int | RU64 u64 | RF64 u64 | RStr string | RUnit
  | RSeq "raw list" | RMap "(string \<times> raw) list"

datatype number = PosInt u64 | NegInt int | Float u64

datatype Value =
    Null | Bool bool | Number number | String string
  | Array "Value list" | Object "(string \<times> Value) list"

definition f64_is_finite :: "u64 \<Rightarrow> bool" where
  "f64_is_finite bits \<longleftrightarrow> (unat bits div 2 ^ 52) mod 2 ^ 11 \<noteq> 2047"

subsection \<open>StrictValue\<close>

text \<open>
  \<open>None\<close> is any deserialization error; \<open>decode\<close> maps each of them to \<open>InvalidFrame\<close>. The
  map case keeps the set of keys already seen, as the source does.
\<close>

function (sequential) visit :: "nat \<Rightarrow> raw \<Rightarrow> Value option"
  and visit_seq :: "nat \<Rightarrow> raw list \<Rightarrow> Value list option"
  and visit_map :: "nat \<Rightarrow> string set \<Rightarrow> (string \<times> raw) list \<Rightarrow> (string \<times> Value) list option"
where
  "visit depth (RBool b) = Some (Bool b)"
| "visit depth (RI64 i) = Some (Number (if i < 0 then NegInt i else PosInt (of_int i)))"
| "visit depth (RU64 n) = Some (Number (PosInt n))"
| "visit depth (RF64 f) = (if f64_is_finite f then Some (Number (Float f)) else None)"
| "visit depth (RStr s) = Some (String s)"
| "visit depth RUnit = Some Null"
| "visit depth (RSeq xs) =
     (if MAX_JSON_DEPTH \<le> depth then None
      else map_option Array (visit_seq (depth + 1) xs))"
| "visit depth (RMap kvs) =
     (if MAX_JSON_DEPTH \<le> depth then None
      else map_option Object (visit_map (depth + 1) {} kvs))"
| "visit_seq depth [] = Some []"
| "visit_seq depth (x # xs) =
     (case visit depth x of None \<Rightarrow> None
      | Some v \<Rightarrow> map_option ((#) v) (visit_seq depth xs))"
| "visit_map depth seen [] = Some []"
| "visit_map depth seen ((k, x) # kvs) =
     (if k \<in> seen then None
      else case visit depth x of None \<Rightarrow> None
      | Some v \<Rightarrow> map_option ((#) (k, v)) (visit_map depth (insert k seen) kvs))"
  by pat_completeness auto
termination
  by (relation "measure (\<lambda>x. case x of Inl (d, r) \<Rightarrow> size r
        | Inr (Inl (d, rs)) \<Rightarrow> size_list size rs
        | Inr (Inr (d, s, kvs)) \<Rightarrow> size_list (size_prod (\<lambda>_. 0) size) kvs)") auto

subsection \<open>Frames\<close>

definition newline :: char where "newline = CHR 0x0A"
definition carriage_return :: char where "carriage_return = CHR 0x0D"

definition is_object :: "Value \<Rightarrow> bool" where
  "is_object v = (case v of Object _ \<Rightarrow> True | _ \<Rightarrow> False)"

definition Value_get :: "Value \<Rightarrow> string \<Rightarrow> Value option" where
  "Value_get v key = (case v of Object kvs \<Rightarrow> map_of kvs key | _ \<Rightarrow> None)"

definition as_u64 :: "Value \<Rightarrow> u64 option" where
  "as_u64 v = (case v of Number (PosInt n) \<Rightarrow> Some n | _ \<Rightarrow> None)"

definition decode :: "(string \<Rightarrow> raw option) \<Rightarrow> string \<Rightarrow> ProtocolError + Value" where
  "decode from_slice frame =
     (if MAX_FRAME_BYTES < length frame \<or> frame = [] \<or> last frame \<noteq> newline then Err InvalidFrame
      else
        let json = take (length frame - 1) frame in
        if newline \<in> set json \<or> carriage_return \<in> set json then Err InvalidFrame
        else case from_slice json of
          None \<Rightarrow> Err InvalidFrame
        | Some raw \<Rightarrow> (case visit 0 raw of
            None \<Rightarrow> Err InvalidFrame
          | Some v \<Rightarrow>
              if \<not> is_object v then Err InvalidFrame
              else case Option.bind (Value_get v ''protocol'') as_u64 of
                None \<Rightarrow> Err InvalidFrame
              | Some n \<Rightarrow> if n = 0 then Ok v else Err UnsupportedVersion))"

text \<open>\<open>serde_json::from_value\<close> at the type a caller asks for is an argument too.\<close>

definition typed :: "(Value \<Rightarrow> 'a option) \<Rightarrow> Value \<Rightarrow> ProtocolError + 'a" where
  "typed from_value v = ok_or InvalidFrame (from_value v)"

text \<open>
  The serializer hands \<open>FrameWriter\<close> the text in pieces; the writer takes a piece only when
  the piece and the final line feed still fit.
\<close>

definition FrameWriter_write :: "string \<Rightarrow> string \<Rightarrow> string option" where
  "FrameWriter_write buffer bytes =
     (if MAX_FRAME_BYTES - length buffer \<le> length bytes then None else Some (buffer @ bytes))"

fun to_writer :: "string \<Rightarrow> string list \<Rightarrow> string option" where
  "to_writer buffer [] = Some buffer"
| "to_writer buffer (piece # pieces) =
     (case FrameWriter_write buffer piece of None \<Rightarrow> None | Some b \<Rightarrow> to_writer b pieces)"

text \<open>\<open>pieces\<close> is what the serializer of the value writes, \<open>None\<close> when it refuses the value.\<close>

definition encode_frame :: "(string \<Rightarrow> raw option) \<Rightarrow> string list option \<Rightarrow> ProtocolError + string" where
  "encode_frame from_slice pieces =
     (case Option.bind pieces (to_writer []) of
        None \<Rightarrow> Err InvalidFrame
      | Some buffer \<Rightarrow>
          let bytes = buffer @ [newline] in
          and_then (decode from_slice bytes) (\<lambda>_. Ok bytes))"

subsection \<open>What the boundary accepts\<close>

text \<open>The nesting of containers, and the trees without a repeated key or a nonfinite number.\<close>

fun raw_depth :: "raw \<Rightarrow> nat" where
  "raw_depth (RSeq xs) = Suc (fold max (map raw_depth xs) 0)"
| "raw_depth (RMap kvs) = Suc (fold max (map (\<lambda>(k, x). raw_depth x) kvs) 0)"
| "raw_depth _ = 0"

fun raw_strict :: "raw \<Rightarrow> bool" where
  "raw_strict (RF64 f) = f64_is_finite f"
| "raw_strict (RSeq xs) = list_all raw_strict xs"
| "raw_strict (RMap kvs) = (distinct (map fst kvs) \<and> list_all (\<lambda>(k, x). raw_strict x) kvs)"
| "raw_strict _ = True"

lemma fold_max_le: "fold max ns m \<le> (b :: nat) \<longleftrightarrow> m \<le> b \<and> (\<forall>n\<in>set ns. n \<le> b)"
  by (induction ns arbitrary: m) auto

lemma Suc_fold_max_le:
  "Suc (d + fold max ns 0) \<le> m \<longleftrightarrow> Suc d \<le> m \<and> (\<forall>n\<in>set ns. Suc (d + n) \<le> m)"
proof -
  have "Suc (d + fold max ns 0) \<le> m \<longleftrightarrow> Suc d \<le> m \<and> fold max ns 0 \<le> m - Suc d" by arith
  also have "\<dots> \<longleftrightarrow> Suc d \<le> m \<and> (\<forall>n\<in>set ns. n \<le> m - Suc d)" by (simp add: fold_max_le)
  also have "\<dots> \<longleftrightarrow> Suc d \<le> m \<and> (\<forall>n\<in>set ns. Suc (d + n) \<le> m)" by (auto simp: le_diff_conv2)
  finally show ?thesis .
qed

lemma visit_seq_accepts: "visit_seq d xs \<noteq> None \<longleftrightarrow> (\<forall>x\<in>set xs. visit d x \<noteq> None)"
  by (induction xs) (auto split: option.splits)

lemma visit_map_accepts:
  "visit_map d seen kvs \<noteq> None \<longleftrightarrow>
     distinct (map fst kvs) \<and> set (map fst kvs) \<inter> seen = {} \<and> (\<forall>(k, x)\<in>set kvs. visit d x \<noteq> None)"
proof (induction kvs arbitrary: seen)
  case Nil
  then show ?case by simp
next
  case (Cons a kvs)
  obtain k x where a: "a = (k, x)" by (cases a)
  have "visit_map d seen (a # kvs) \<noteq> None \<longleftrightarrow>
      k \<notin> seen \<and> visit d x \<noteq> None \<and> visit_map d (insert k seen) kvs \<noteq> None"
    by (simp add: a split: option.split)
  then show ?case unfolding Cons.IH a by auto
qed

lemma visit_seq_values: "visit_seq d xs = Some vs \<Longrightarrow> map (visit d) xs = map Some vs"
  by (induction xs arbitrary: vs) (auto split: option.splits)

lemma visit_map_values:
  "visit_map d seen kvs = Some ms \<Longrightarrow> map fst ms = map fst kvs \<and> map (visit d \<circ> snd) kvs = map (Some \<circ> snd) ms"
  by (induction kvs arbitrary: seen ms) (auto split: option.splits if_splits)

lemma visit_accepts:
  "d \<le> MAX_JSON_DEPTH \<Longrightarrow>
     visit d r \<noteq> None \<longleftrightarrow> d + raw_depth r \<le> MAX_JSON_DEPTH \<and> raw_strict r"
proof (induction r arbitrary: d)
  case (RSeq xs)
  show ?case
  proof (cases "d < MAX_JSON_DEPTH")
    case False
    with RSeq.prems show ?thesis by simp
  next
    case True
    then have "(visit (d + 1) x \<noteq> None) = (d + 1 + raw_depth x \<le> MAX_JSON_DEPTH \<and> raw_strict x)"
      if "x \<in> set xs" for x using RSeq.IH [OF that, of "d + 1"] by simp
    then have "(visit_seq (d + 1) xs \<noteq> None)
        = (\<forall>x\<in>set xs. d + 1 + raw_depth x \<le> MAX_JSON_DEPTH \<and> raw_strict x)"
      by (simp only: visit_seq_accepts cong: ball_cong)
    with True show ?thesis
      by (auto simp: Suc_fold_max_le list_all_iff)
  qed
next
  case (RMap kvs)
  show ?case
  proof (cases "d < MAX_JSON_DEPTH")
    case False
    with RMap.prems show ?thesis by simp
  next
    case True
    then have "(visit (d + 1) (snd kx) \<noteq> None)
        = (d + 1 + raw_depth (snd kx) \<le> MAX_JSON_DEPTH \<and> raw_strict (snd kx))"
      if "kx \<in> set kvs" for kx using RMap.IH [OF that, of "snd kx" "d + 1"] by (simp add: snds.simps)
    then have "(visit_map (d + 1) {} kvs \<noteq> None) = (distinct (map fst kvs) \<and>
        (\<forall>kx\<in>set kvs. d + 1 + raw_depth (snd kx) \<le> MAX_JSON_DEPTH \<and> raw_strict (snd kx)))"
      by (simp only: visit_map_accepts case_prod_beta cong: ball_cong) simp
    with True show ?thesis
      by (auto simp: Suc_fold_max_le list_all_iff case_prod_beta)
  qed
qed auto

text \<open>A frame is accepted exactly when the bytes, the tree and the version are right.\<close>

definition frame_shape :: "string \<Rightarrow> bool" where
  "frame_shape frame \<longleftrightarrow> length frame \<le> MAX_FRAME_BYTES \<and> frame \<noteq> [] \<and> last frame = newline \<and>
     newline \<notin> set (butlast frame) \<and> carriage_return \<notin> set (butlast frame)"

lemma take_butlast: "take (length xs - Suc 0) xs = butlast xs"
  by (simp add: butlast_conv_take)

lemma decode_Ok:
  "decode from_slice frame = Ok v \<longleftrightarrow>
     frame_shape frame \<and>
     (\<exists>r. from_slice (butlast frame) = Some r \<and> visit 0 r = Some v) \<and>
     is_object v \<and> Option.bind (Value_get v ''protocol'') as_u64 = Some 0"
  by (auto simp: decode_def frame_shape_def Let_def take_butlast split: option.splits if_splits)

lemma decode_unsupported:
  "decode from_slice frame = Err UnsupportedVersion \<longleftrightarrow>
     frame_shape frame \<and>
     (\<exists>r v n. from_slice (butlast frame) = Some r \<and> visit 0 r = Some v \<and> is_object v \<and>
       Option.bind (Value_get v ''protocol'') as_u64 = Some n \<and> n \<noteq> 0)"
  by (auto simp: decode_def frame_shape_def Let_def take_butlast split: option.splits if_splits)

lemma to_writer_concat:
  "length b < MAX_FRAME_BYTES \<Longrightarrow> to_writer b ps =
     (if length b + length (concat ps) < MAX_FRAME_BYTES then Some (b @ concat ps) else None)"
proof (induction ps arbitrary: b)
  case Nil
  then show ?case by simp
next
  case (Cons p ps)
  show ?case
  proof (cases "length b + length p < MAX_FRAME_BYTES")
    case True
    then have "to_writer b (p # ps) = to_writer (b @ p) ps"
      by (simp add: FrameWriter_write_def le_diff_conv)
    with True Cons.IH [of "b @ p"] show ?thesis by (simp add: add.assoc)
  next
    case False
    then have "to_writer b (p # ps) = None" by (simp add: FrameWriter_write_def le_diff_conv)
    with False show ?thesis by simp
  qed
qed

lemma encode_frame_Ok:
  "encode_frame from_slice pieces = Ok bytes \<longleftrightarrow>
     (\<exists>ps. pieces = Some ps \<and> bytes = concat ps @ [newline]) \<and>
     (\<exists>v. decode from_slice bytes = Ok v)"
proof (cases pieces)
  case None
  then show ?thesis by (simp add: encode_frame_def)
next
  case (Some ps)
  have m: "length ([] :: string) < MAX_FRAME_BYTES" by (simp add: MAX_FRAME_BYTES_def)
  show ?thesis
    using Some by (auto simp: encode_frame_def to_writer_concat [OF m] result_simps Let_def
        decode_Ok frame_shape_def split: if_splits)
qed

end
