(* ===== verification/Event.thy ===== *)
theory Event
  imports Wire
begin

section \<open>Producer events and negotiation (protocol/event.rs)\<close>

text \<open>
  The typed event vocabulary, the envelope, and the two parsers of the event channel. What
  \<open>serde_json::from_value\<close> returns for each derived type is an argument (the record
  \<open>event_codec\<close>); the checks of this file around it (\<open>decode\<close> of the payload by kind, the
  bounded distinct signal lists) are modelled. Record fields carry a short prefix of their
  struct, since Isabelle fields share one name space: \<open>ev_\<close> for \<open>EventEnvelope\<close>,
  \<open>eh_\<close> for \<open>EventHandshake\<close>.
\<close>

datatype HarnessKind = Hermes | Claude | Codex

datatype EventKind =
    RunStarted | RunExited | TurnStarted | TurnAwaitingInput | TurnAwaitingApproval
  | TurnCompleted | TurnFailed | TurnInterrupted | ProducerHealth

definition EventKind_ALL :: "EventKind list" where
  "EventKind_ALL = [EventKind.RunStarted, EventKind.RunExited, EventKind.TurnStarted,
     EventKind.TurnAwaitingInput, EventKind.TurnAwaitingApproval, EventKind.TurnCompleted,
     EventKind.TurnFailed, EventKind.TurnInterrupted, EventKind.ProducerHealth]"

record RunStartedPayload =
  rs_harness_session_id :: "HarnessSessionId option"

datatype TerminationReason = Signaled | Lost | Unknown

datatype RunExitedPayload = ExitCode int | Terminated TerminationReason

record TurnPayload =
  tp_turn_id :: TurnId

datatype FailureReason = HarnessError | Cancelled | TimedOut | Unknown

record TurnFailedPayload =
  tf_turn_id :: TurnId
  tf_reason :: FailureReason

record HealthPayload =
  hp_adapter_version :: AdapterVersion
  hp_signals :: "EventKind list"

datatype EventPayload =
    RunStarted RunStartedPayload
  | RunExited RunExitedPayload
  | TurnStarted TurnPayload
  | TurnAwaitingInput TurnPayload
  | TurnAwaitingApproval TurnPayload
  | TurnCompleted TurnPayload
  | TurnFailed TurnFailedPayload
  | TurnInterrupted TurnPayload
  | ProducerHealth HealthPayload

fun EventPayload_turn_id :: "EventPayload \<Rightarrow> TurnId option" where
  "EventPayload_turn_id (TurnStarted v) = Some (tp_turn_id v)"
| "EventPayload_turn_id (TurnAwaitingInput v) = Some (tp_turn_id v)"
| "EventPayload_turn_id (TurnAwaitingApproval v) = Some (tp_turn_id v)"
| "EventPayload_turn_id (TurnCompleted v) = Some (tp_turn_id v)"
| "EventPayload_turn_id (TurnInterrupted v) = Some (tp_turn_id v)"
| "EventPayload_turn_id (TurnFailed v) = Some (tf_turn_id v)"
| "EventPayload_turn_id (RunStarted v) = None"
| "EventPayload_turn_id (RunExited v) = None"
| "EventPayload_turn_id (ProducerHealth v) = None"

fun EventPayload_kind :: "EventPayload \<Rightarrow> EventKind" where
  "EventPayload_kind (RunStarted v) = EventKind.RunStarted"
| "EventPayload_kind (RunExited v) = EventKind.RunExited"
| "EventPayload_kind (TurnStarted v) = EventKind.TurnStarted"
| "EventPayload_kind (TurnAwaitingInput v) = EventKind.TurnAwaitingInput"
| "EventPayload_kind (TurnAwaitingApproval v) = EventKind.TurnAwaitingApproval"
| "EventPayload_kind (TurnCompleted v) = EventKind.TurnCompleted"
| "EventPayload_kind (TurnFailed v) = EventKind.TurnFailed"
| "EventPayload_kind (TurnInterrupted v) = EventKind.TurnInterrupted"
| "EventPayload_kind (ProducerHealth v) = EventKind.ProducerHealth"

text \<open>A list accepted as a bounded set: the \<open>BTreeSet\<close> of its values has its length.\<close>

definition unique_bounded :: "'a list \<Rightarrow> nat \<Rightarrow> ProtocolError + unit" where
  "unique_bounded values maximum =
     (if maximum < length values \<or> card (set values) \<noteq> length values then Err InvalidFrame
      else Ok ())"

record EventEnvelope =
  ev_event_id :: EventId
  ev_producer_id :: ProducerId
  ev_generation :: ProducerGeneration
  ev_seq :: Seq
  ev_run_id :: RunId
  ev_event :: EventPayload

record RawEvent =
  re_event_id :: EventId
  re_producer_id :: ProducerId
  re_generation :: ProducerGeneration
  re_seq :: Seq
  re_run_id :: RunId
  re_kind :: EventKind
  re_payload :: Value

record EventHandshake =
  eh_producer_id :: ProducerId
  eh_generation :: ProducerGeneration
  eh_run_id :: RunId
  eh_harness :: HarnessKind
  eh_requested_signals :: "EventKind list"

text \<open>
  The derived deserializers. \<open>RawEvent\<close> and the wire handshake also carry the version, the
  channel and the operation, unit types whose values say nothing; they are left out.
\<close>

record event_codec =
  ec_from_slice :: "string \<Rightarrow> raw option"
  ec_raw_event :: "Value \<Rightarrow> RawEvent option"
  ec_run_started :: "Value \<Rightarrow> RunStartedPayload option"
  ec_run_exited :: "Value \<Rightarrow> RunExitedPayload option"
  ec_turn :: "Value \<Rightarrow> TurnPayload option"
  ec_turn_failed :: "Value \<Rightarrow> TurnFailedPayload option"
  ec_health :: "Value \<Rightarrow> HealthPayload option"
  ec_handshake :: "Value \<Rightarrow> EventHandshake option"

definition EventPayload_decode :: "event_codec \<Rightarrow> EventKind \<Rightarrow> Value \<Rightarrow> ProtocolError + EventPayload" where
  "EventPayload_decode c kind payload = (case kind of
     EventKind.RunStarted \<Rightarrow> map_ok RunStarted (typed (ec_run_started c) payload)
   | EventKind.RunExited \<Rightarrow> map_ok RunExited (typed (ec_run_exited c) payload)
   | EventKind.TurnStarted \<Rightarrow> map_ok TurnStarted (typed (ec_turn c) payload)
   | EventKind.TurnAwaitingInput \<Rightarrow> map_ok TurnAwaitingInput (typed (ec_turn c) payload)
   | EventKind.TurnAwaitingApproval \<Rightarrow> map_ok TurnAwaitingApproval (typed (ec_turn c) payload)
   | EventKind.TurnCompleted \<Rightarrow> map_ok TurnCompleted (typed (ec_turn c) payload)
   | EventKind.TurnFailed \<Rightarrow> map_ok TurnFailed (typed (ec_turn_failed c) payload)
   | EventKind.TurnInterrupted \<Rightarrow> map_ok TurnInterrupted (typed (ec_turn c) payload)
   | EventKind.ProducerHealth \<Rightarrow>
       and_then (typed (ec_health c) payload) (\<lambda>health.
       and_then (unique_bounded (hp_signals health) (length EventKind_ALL)) (\<lambda>_.
       Ok (ProducerHealth health))))"

definition parse_event :: "event_codec \<Rightarrow> string \<Rightarrow> ProtocolError + EventEnvelope" where
  "parse_event c frame =
     and_then (decode (ec_from_slice c) frame) (\<lambda>value.
     and_then (typed (ec_raw_event c) value) (\<lambda>raw.
     and_then (EventPayload_decode c (re_kind raw) (re_payload raw)) (\<lambda>event.
     Ok \<lparr> ev_event_id = re_event_id raw, ev_producer_id = re_producer_id raw,
          ev_generation = re_generation raw, ev_seq = re_seq raw,
          ev_run_id = re_run_id raw, ev_event = event \<rparr>)))"

definition parse_event_handshake :: "event_codec \<Rightarrow> string \<Rightarrow> ProtocolError + EventHandshake" where
  "parse_event_handshake c frame =
     and_then (decode (ec_from_slice c) frame) (\<lambda>value.
     and_then (typed (ec_handshake c) value) (\<lambda>raw.
     and_then (unique_bounded (eh_requested_signals raw) (length EventKind_ALL)) (\<lambda>_.
     Ok raw)))"

subsection \<open>Facts\<close>

lemma EventKind_ALL_set: "set EventKind_ALL = UNIV" "distinct EventKind_ALL" "length EventKind_ALL = 9"
proof -
  have "k \<in> set EventKind_ALL" for k by (cases k) (simp_all add: EventKind_ALL_def)
  then show "set EventKind_ALL = UNIV" by auto
qed (simp_all add: EventKind_ALL_def)

lemma distinct_card_iff: "card (set xs) = length xs \<longleftrightarrow> distinct xs"
  by (metis card_distinct distinct_card)

lemma unique_bounded_Ok: "unique_bounded xs n = Ok u \<longleftrightarrow> length xs \<le> n \<and> distinct xs"
  by (auto simp: unique_bounded_def distinct_card_iff)

lemma EventPayload_decode_kind:
  "EventPayload_decode c kind payload = Ok event \<Longrightarrow> EventPayload_kind event = kind"
  by (auto simp: EventPayload_decode_def result_simps split: EventKind.splits)

lemma EventPayload_decode_signals:
  "EventPayload_decode c kind payload = Ok (ProducerHealth h) \<Longrightarrow> distinct (hp_signals h)"
  by (auto simp: EventPayload_decode_def result_simps unique_bounded_Ok split: EventKind.splits)

lemma turn_id_None_iff:
  "EventPayload_turn_id p = None \<longleftrightarrow>
     EventPayload_kind p \<in> {EventKind.RunStarted, EventKind.RunExited, EventKind.ProducerHealth}"
  by (cases p) simp_all

end
