(* ===== verification/Domain.thy ===== *)
theory Domain
  imports Event
begin

section \<open>The lifecycle domain (domain/)\<close>

text \<open>
  The pure part of the manager: the lifecycle vocabulary (\<open>types.rs\<close>), the observation
  policy (\<open>policy.rs\<close>), the checks of causal identity (\<open>evidence.rs\<close>), the reducer
  (\<open>reducer.rs\<close>) and the reconciliation of independently acquired evidence
  (\<open>reconciliation.rs\<close>). The reducer's helpers mutate an \<open>Effects\<close> value; here each
  returns the updated record. Field prefixes: \<open>rp_\<close> \<open>RunProjection\<close>, \<open>tk_\<close> \<open>TurnKey\<close>,
  \<open>te_\<close> \<open>TombstoneEvidence\<close>, \<open>st_\<close> \<open>ReductionState\<close>, \<open>fx_\<close> \<open>Effects\<close>.
\<close>

subsection \<open>Vocabulary (domain/types.rs, domain/mod.rs)\<close>

datatype ProcessState = Unknown | Alive | Exited | Zombie
datatype ObservationState = Fresh | Stale | Disconnected | Unsupported
datatype TurnState =
    Unknown | Working | AwaitingInput | AwaitingApproval | Completed | Failed | Interrupted

fun is_terminal :: "TurnState \<Rightarrow> bool" where
  "is_terminal Completed = True"
| "is_terminal Failed = True"
| "is_terminal Interrupted = True"
| "is_terminal _ = False"

datatype AttentionReason = Input | NativeApproval | Failure | ConnectionUncertainty | Completion
datatype DeliveryState = Pending | AttemptedUncertain | Acknowledged | Expired | Overflowed

record RunProjection =
  rp_run_id :: RunId
  rp_process :: ProcessState
  rp_observation :: ObservationState
  rp_turn :: TurnState
  rp_turn_id :: "TurnId option"

record TurnKey =
  tk_producer_id :: ProducerId
  tk_generation :: ProducerGeneration
  tk_run_id :: RunId
  tk_turn_id :: TurnId

record TombstoneEvidence =
  te_key :: TurnKey
  te_outcome_id :: EventId
  te_terminal :: "TurnState option"

record ReductionState =
  st_projection :: RunProjection
  st_current_turn :: "TurnKey option"
  st_tombstone :: "TombstoneEvidence option"

record Effects =
  fx_projection :: RunProjection
  fx_current_turn :: "TurnKey option"
  fx_attention :: "AttentionReason list"
  fx_resolve_transient :: "TurnKey option"
  fx_tombstone :: "TombstoneEvidence option"
  fx_reconciliation_required :: bool

subsection \<open>Observation policy (domain/policy.rs)\<close>

datatype DomainError = InvalidEvidence | InvalidScope | UnsupportedSignal

record ObservationPolicy =
  op_supported :: "bool list"
  op_freshness :: ObservationState

text \<open>
  The loop over the signals: each takes its slot of the nine flags, and a slot taken twice is
  refused (\<open>mem::replace\<close> returns the old flag).
\<close>

fun mark_signals :: "bool list \<Rightarrow> EventKind list \<Rightarrow> DomainError + bool list" where
  "mark_signals supported [] = Ok supported"
| "mark_signals supported (signal # signals) =
     and_then (ok_or InvalidEvidence (position (\<lambda>v. v = signal) EventKind_ALL)) (\<lambda>i.
       if supported ! i then Err InvalidEvidence
       else mark_signals (supported[i := True]) signals)"

definition ObservationPolicy_new ::
    "EventKind list \<Rightarrow> ObservationState \<Rightarrow> DomainError + ObservationPolicy" where
  "ObservationPolicy_new signals freshness =
     (let supported = replicate 9 False in
      if length supported < length signals then Err InvalidEvidence
      else map_ok (\<lambda>s. \<lparr> op_supported = s, op_freshness = freshness \<rparr>)
             (mark_signals supported signals))"

definition supports :: "ObservationPolicy \<Rightarrow> EventKind \<Rightarrow> bool" where
  "supports policy signal = (case position (\<lambda>v. v = signal) EventKind_ALL of
     None \<Rightarrow> False | Some i \<Rightarrow> op_supported policy ! i)"

subsection \<open>Causal identity (domain/evidence.rs)\<close>

definition same_scope :: "TurnKey \<Rightarrow> EventEnvelope \<Rightarrow> bool" where
  "same_scope key event \<longleftrightarrow> tk_run_id key = ev_run_id event
     \<and> tk_producer_id key = ev_producer_id event
     \<and> tk_generation key = ev_generation event"

definition turn_key :: "EventEnvelope \<Rightarrow> TurnKey option" where
  "turn_key event = map_option (\<lambda>turn.
     \<lparr> tk_producer_id = ev_producer_id event, tk_generation = ev_generation event,
       tk_run_id = ev_run_id event, tk_turn_id = turn \<rparr>) (EventPayload_turn_id (ev_event event))"

fun turn_state :: "EventPayload \<Rightarrow> TurnState" where
  "turn_state (TurnStarted _) = Working"
| "turn_state (TurnAwaitingInput _) = AwaitingInput"
| "turn_state (TurnAwaitingApproval _) = AwaitingApproval"
| "turn_state (TurnCompleted _) = Completed"
| "turn_state (TurnFailed _) = Failed"
| "turn_state (TurnInterrupted _) = Interrupted"
| "turn_state _ = TurnState.Unknown"

definition current_terminal :: "ReductionState \<Rightarrow> EventEnvelope \<Rightarrow> DomainError + unit" where
  "current_terminal state event =
     (if st_current_turn state \<noteq> turn_key event then Ok ()
      else case st_tombstone state of
        Some terminal \<Rightarrow>
          if (case te_terminal terminal of None \<Rightarrow> False | Some kind \<Rightarrow> kind \<noteq> rp_turn (st_projection state))
            \<or> (te_terminal terminal = None \<and> \<not> is_terminal (rp_turn (st_projection state))
                \<and> rp_turn (st_projection state) \<noteq> TurnState.Unknown)
          then Err InvalidEvidence else Ok ()
      | None \<Rightarrow> if is_terminal (rp_turn (st_projection state)) then Err InvalidEvidence else Ok ())"

definition validate :: "ReductionState \<Rightarrow> EventEnvelope \<Rightarrow> ObservationPolicy \<Rightarrow> DomainError + unit" where
  "validate state event policy =
     (if rp_run_id (st_projection state) \<noteq> ev_run_id event
        \<or> (case st_current_turn state of None \<Rightarrow> False | Some current \<Rightarrow> \<not> same_scope current event)
      then Err InvalidScope
      else if rp_turn_id (st_projection state) \<noteq> map_option tk_turn_id (st_current_turn state)
        \<or> (st_current_turn state = None \<and> rp_turn (st_projection state) \<noteq> TurnState.Unknown)
        \<or> (case st_tombstone state of None \<Rightarrow> False
           | Some terminal \<Rightarrow> Some (te_key terminal) \<noteq> turn_key event
               \<or> (case te_terminal terminal of None \<Rightarrow> False | Some kind \<Rightarrow> \<not> is_terminal kind))
      then Err InvalidEvidence
      else
        and_then (current_terminal state event) (\<lambda>_.
        if \<not> supports policy (EventPayload_kind (ev_event event)) then Err UnsupportedSignal
        else Ok ()))"

subsection \<open>The reducer (domain/reducer.rs)\<close>

definition stale_unless_explicit :: "ObservationPolicy \<Rightarrow> ObservationState" where
  "stale_unless_explicit policy =
     (if op_freshness policy = Fresh then Stale else op_freshness policy)"

definition uncertain :: "Effects \<Rightarrow> ObservationState \<Rightarrow> bool \<Rightarrow> Effects" where
  "uncertain effects freshness lose_current =
     (let attention = (if ConnectionUncertainty \<in> set (fx_attention effects) then fx_attention effects
            else fx_attention effects @ [ConnectionUncertainty]);
          projection = (fx_projection effects)\<lparr> rp_observation := freshness \<rparr>;
          projection = (if lose_current \<and> \<not> is_terminal (rp_turn projection)
            then projection\<lparr> rp_turn := TurnState.Unknown \<rparr> else projection)
      in effects\<lparr> fx_attention := attention, fx_projection := projection,
           fx_reconciliation_required := True \<rparr>)"

definition progress :: "TurnKey \<Rightarrow> TurnState \<Rightarrow> Effects \<Rightarrow> Effects" where
  "progress key observed effects =
     (let same = (fx_current_turn effects = Some key) in
      if \<not> same \<and> fx_current_turn effects \<noteq> None \<and> \<not> is_terminal (rp_turn (fx_projection effects))
      then uncertain effects Stale False
      else if same \<and> observed = Working \<and> rp_turn (fx_projection effects) \<noteq> Working
      then effects
      else
        let effects =
          (if \<not> same \<or> rp_turn (fx_projection effects) \<noteq> observed then
             let effects = (if \<not> same
               then effects\<lparr> fx_resolve_transient := fx_current_turn effects \<rparr> else effects)
             in (case observed of
                   AwaitingInput \<Rightarrow> effects\<lparr> fx_attention := fx_attention effects @ [Input] \<rparr>
                 | AwaitingApproval \<Rightarrow> effects\<lparr> fx_attention := fx_attention effects @ [NativeApproval] \<rparr>
                 | _ \<Rightarrow> effects)
           else effects);
          projection = fx_projection effects;
          projection = (if \<not> same \<or> rp_turn projection \<noteq> AwaitingApproval
            then projection\<lparr> rp_turn := observed \<rparr> else projection);
          projection = projection\<lparr> rp_turn_id := Some (tk_turn_id key), rp_observation := Fresh \<rparr>
        in effects\<lparr> fx_projection := projection, fx_current_turn := Some key \<rparr>)"

definition terminal_turn :: "EventEnvelope \<Rightarrow> TurnKey \<Rightarrow> TurnState \<Rightarrow> Effects \<Rightarrow> Effects" where
  "terminal_turn event key observed effects =
     (let effects = effects\<lparr>
            fx_tombstone := Some \<lparr> te_key = key, te_outcome_id = ev_event_id event,
              te_terminal = Some observed \<rparr>,
            fx_resolve_transient := Some key,
            fx_attention := fx_attention effects @
              [if observed = Completed then Completion else Failure] \<rparr>
      in if fx_current_turn effects = None \<or> fx_current_turn effects = Some key
         then effects\<lparr>
           fx_projection := (fx_projection effects)\<lparr> rp_turn := observed,
             rp_turn_id := Some (tk_turn_id key) \<rparr>,
           fx_current_turn := Some key \<rparr>
         else effects)"

definition reduce_turn ::
    "ReductionState \<Rightarrow> EventEnvelope \<Rightarrow> TurnKey \<Rightarrow> ObservationPolicy \<Rightarrow> Effects \<Rightarrow> Effects" where
  "reduce_turn state event key policy effects =
     (let observed = turn_state (ev_event event) in
      case st_tombstone state of
        Some terminal \<Rightarrow>
          if is_terminal observed \<and> te_terminal terminal \<noteq> Some observed
          then uncertain effects (stale_unless_explicit policy) False
          else effects
      | None \<Rightarrow>
          if is_terminal observed then terminal_turn event key observed effects
          else if op_freshness policy \<noteq> Fresh then uncertain effects (op_freshness policy) True
          else if rp_process (fx_projection effects) = Exited
               \<or> rp_process (fx_projection effects) = Zombie
          then uncertain effects Stale True
          else progress key observed effects)"

definition reduce_run :: "EventEnvelope \<Rightarrow> ObservationPolicy \<Rightarrow> Effects \<Rightarrow> Effects" where
  "reduce_run event policy effects = (case ev_event event of
     RunExited exit \<Rightarrow>
       let process = (case exit of
             ExitCode _ \<Rightarrow> Exited
           | Terminated reason \<Rightarrow> if reason = Signaled then Exited else ProcessState.Unknown);
           effects = effects\<lparr> fx_projection := (fx_projection effects)\<lparr> rp_process := process \<rparr> \<rparr>
       in uncertain effects (stale_unless_explicit policy) True
   | ProducerHealth health \<Rightarrow>
       let missing = list_ex (\<lambda>signal. supports policy signal \<and> signal \<notin> set (hp_signals health))
             EventKind_ALL
       in if missing \<or> op_freshness policy \<noteq> Fresh
          then uncertain effects (if missing then Unsupported else op_freshness policy) True
          else effects
   | _ \<Rightarrow> effects)"

definition reduce :: "ReductionState \<Rightarrow> EventEnvelope \<Rightarrow> ObservationPolicy \<Rightarrow> DomainError + Effects" where
  "reduce state event policy =
     and_then (validate state event policy) (\<lambda>_.
       let effects = \<lparr> fx_projection = st_projection state, fx_current_turn = st_current_turn state,
             fx_attention = [], fx_resolve_transient = None, fx_tombstone = None,
             fx_reconciliation_required = False \<rparr>;
           effects = (if op_freshness policy \<noteq> Fresh
             then uncertain effects (op_freshness policy) True else effects)
       in Ok (case turn_key event of
            Some key \<Rightarrow> reduce_turn state event key policy effects
          | None \<Rightarrow> reduce_run event policy effects))"

subsection \<open>Reconciliation of evidence (domain/reconciliation.rs)\<close>

record ReconciliationScope =
  sc_producer_id :: ProducerId
  sc_previous_generation :: "ProducerGeneration option"
  sc_run_id :: RunId
  sc_harness :: HarnessKind

record RuntimeIdentity =
  ri_boot_id :: "u8 list"
  ri_pid :: u32
  ri_start_ticks :: u64

datatype CurrentTurnEvidence =
    KnownNone | Known TurnId TurnState | Unavailable | Conflicting

record ReconciliationEvidence =
  rv_expected_scope :: ReconciliationScope
  rv_observed_scope :: ReconciliationScope
  rv_expected_runtime :: RuntimeIdentity
  rv_observed_runtime :: RuntimeIdentity
  rv_current_boot :: "u8 list"
  rv_process :: ProcessState
  rv_freshness :: ObservationState
  rv_current_turn :: CurrentTurnEvidence

definition reconcile_projection :: "ReconciliationEvidence \<Rightarrow> DomainError + RunProjection" where
  "reconcile_projection e =
     (if rv_expected_scope e \<noteq> rv_observed_scope e
        \<or> rv_expected_runtime e \<noteq> rv_observed_runtime e
        \<or> ri_boot_id (rv_expected_runtime e) \<noteq> rv_current_boot e
      then Err InvalidScope
      else if rv_process e \<noteq> Alive \<or> rv_freshness e \<noteq> Fresh
        \<or> ri_pid (rv_expected_runtime e) = 0 \<or> ri_start_ticks (rv_expected_runtime e) = 0
        \<or> rv_current_boot e = replicate 16 0
      then Err InvalidEvidence
      else
        and_then
          (case rv_current_turn e of
             KnownNone \<Rightarrow> Ok (TurnState.Unknown, None)
           | Known turn_id state \<Rightarrow>
               if state = Working \<or> state = AwaitingInput \<or> state = AwaitingApproval
               then Ok (state, Some turn_id) else Err InvalidEvidence
           | _ \<Rightarrow> Err InvalidEvidence)
          (\<lambda>(turn, turn_id). Ok \<lparr> rp_run_id = sc_run_id (rv_expected_scope e),
             rp_process = Alive, rp_observation = Fresh, rp_turn = turn, rp_turn_id = turn_id \<rparr>))"

subsection \<open>The observation policy\<close>

lemma position_EventKind: "\<exists>i. position (\<lambda>v. v = k) EventKind_ALL = Some i \<and> i < 9 \<and> EventKind_ALL ! i = k"
proof -
  have "k \<in> set EventKind_ALL" by (simp add: EventKind_ALL_set)
  then have "position (\<lambda>v. v = k) EventKind_ALL \<noteq> None" by (auto simp: position_None)
  then obtain i where i: "position (\<lambda>v. v = k) EventKind_ALL = Some i" by auto
  from position_Some [OF i] i show ?thesis by (auto simp: EventKind_ALL_set)
qed

definition kind_index :: "EventKind \<Rightarrow> nat" where
  "kind_index k = the (position (\<lambda>v. v = k) EventKind_ALL)"

lemma kind_index: "position (\<lambda>v. v = k) EventKind_ALL = Some (kind_index k)" "kind_index k < 9"
    "EventKind_ALL ! kind_index k = k"
  using position_EventKind [of k] by (auto simp: kind_index_def)

lemma kind_index_inj: "kind_index k = kind_index l \<longleftrightarrow> k = l"
  by (metis kind_index(3))

lemma supports_nth: "supports p k = op_supported p ! kind_index k"
  by (simp add: supports_def kind_index)

lemma mark_signals_Ok:
  "length flags = 9 \<Longrightarrow> mark_signals flags ks = Ok out \<longleftrightarrow>
     distinct ks \<and> (\<forall>k\<in>set ks. \<not> flags ! kind_index k) \<and> length out = 9 \<and>
     (\<forall>k. out ! kind_index k = (flags ! kind_index k \<or> k \<in> set ks))
     \<and> out = fold (\<lambda>k f. f[kind_index k := True]) ks flags"
proof (induction ks arbitrary: flags)
  case Nil
  then show ?case by auto
next
  case (Cons k ks)
  have upd: "flags[kind_index k := True] ! kind_index l = (flags ! kind_index l \<or> l = k)" for l
    using Cons.prems kind_index(2) by (cases "l = k") (auto simp: nth_list_update kind_index_inj)
  have "length (flags[kind_index k := True]) = 9" using Cons.prems by simp
  from Cons.IH [OF this] show ?case
    by (auto simp: kind_index upd kind_index_inj)
qed

lemma ObservationPolicy_new_Ok:
  "ObservationPolicy_new signals freshness = Ok policy \<Longrightarrow>
     distinct signals \<and> op_freshness policy = freshness \<and> (\<forall>k. supports policy k \<longleftrightarrow> k \<in> set signals)"
  by (auto simp: ObservationPolicy_new_def Let_def result_simps mark_signals_Ok supports_nth
      kind_index split: if_splits)

lemma distinct_kinds_length: "distinct (ks :: EventKind list) \<Longrightarrow> length ks \<le> 9"
proof -
  assume d: "distinct ks"
  have "set ks \<subseteq> set EventKind_ALL" by (simp only: EventKind_ALL_set(1) subset_UNIV)
  from card_mono [OF finite_set this] have "card (set ks) \<le> card (set EventKind_ALL)" .
  also have "card (set EventKind_ALL) = length EventKind_ALL"
    by (rule distinct_card) (simp only: EventKind_ALL_set)
  also have "length EventKind_ALL = 9" by (simp only: EventKind_ALL_set)
  finally show ?thesis using d by (simp add: distinct_card)
qed

lemma ObservationPolicy_new_total:
  "distinct signals \<Longrightarrow> \<exists>policy. ObservationPolicy_new signals freshness = Ok policy"
proof -
  assume d: "distinct signals"
  define out where "out = fold (\<lambda>k f. f[kind_index k := True]) signals (replicate 9 False)"
  have len: "length (fold (\<lambda>k f. f[kind_index k := True]) ks f) = length f" for ks and f :: "bool list"
    by (induction ks arbitrary: f) simp_all
  have nth: "length f = 9 \<Longrightarrow> fold (\<lambda>k f. f[kind_index k := True]) ks f ! kind_index l = (f ! kind_index l \<or> l \<in> set ks)"
    for ks l and f :: "bool list"
  proof (induction ks arbitrary: f)
    case Nil
    then show ?case by simp
  next
    case (Cons k ks)
    then show ?case using kind_index(2) [of k]
      by (cases "l = k") (auto simp: nth_list_update kind_index_inj)
  qed
  have "mark_signals (replicate 9 False) signals = Ok out"
    using d by (simp add: mark_signals_Ok out_def len nth kind_index)
  with distinct_kinds_length [OF d] show ?thesis
    by (simp add: ObservationPolicy_new_def Let_def)
qed

subsection \<open>What the durable owner may rely on\<close>

text \<open>
  The contract of a reduction: the effects of an event speak of that event's run, producer and
  generation only, name a tombstone only for the event's own turn and terminal kind, ask for
  each attention reason once, and ask for reconciliation exactly when they report uncertainty.
\<close>

definition effects_ok :: "EventEnvelope \<Rightarrow> Effects \<Rightarrow> bool" where
  "effects_ok event fx \<longleftrightarrow>
     distinct (fx_attention fx)
     \<and> rp_run_id (fx_projection fx) = ev_run_id event
     \<and> rp_turn_id (fx_projection fx) = map_option tk_turn_id (fx_current_turn fx)
     \<and> (fx_current_turn fx = None \<longrightarrow> rp_turn (fx_projection fx) = TurnState.Unknown)
     \<and> (\<forall>key. fx_current_turn fx = Some key \<longrightarrow> same_scope key event)
     \<and> (\<forall>key. fx_resolve_transient fx = Some key \<longrightarrow> same_scope key event)
     \<and> (\<forall>item. fx_tombstone fx = Some item \<longrightarrow> turn_key event = Some (te_key item)
          \<and> te_outcome_id item = ev_event_id event
          \<and> te_terminal item = Some (turn_state (ev_event event))
          \<and> is_terminal (turn_state (ev_event event)))
     \<and> (fx_reconciliation_required fx \<longleftrightarrow> ConnectionUncertainty \<in> set (fx_attention fx))"

definition initial_effects :: "ReductionState \<Rightarrow> ObservationPolicy \<Rightarrow> Effects" where
  "initial_effects state policy =
     (let effects = \<lparr> fx_projection = st_projection state, fx_current_turn = st_current_turn state,
             fx_attention = [], fx_resolve_transient = None, fx_tombstone = None,
             fx_reconciliation_required = False \<rparr>
      in if op_freshness policy \<noteq> Fresh then uncertain effects (op_freshness policy) True else effects)"

lemma reduce_Ok:
  "reduce state event policy = Ok fx \<longleftrightarrow> validate state event policy = Ok () \<and>
     fx = (case turn_key event of
        Some key \<Rightarrow> reduce_turn state event key policy (initial_effects state policy)
      | None \<Rightarrow> reduce_run event policy (initial_effects state policy))"
  unfolding reduce_def Let_def initial_effects_def [unfolded Let_def]
  by (auto simp: result_simps split: sum.splits)

lemma turn_key_Some:
  "turn_key event = Some key \<longleftrightarrow> same_scope key event \<and>
     EventPayload_turn_id (ev_event event) = Some (tk_turn_id key)"
  by (auto simp: turn_key_def same_scope_def)

lemma uncertain_fields [simp]:
  "fx_current_turn (uncertain fx f l) = fx_current_turn fx"
  "fx_resolve_transient (uncertain fx f l) = fx_resolve_transient fx"
  "fx_tombstone (uncertain fx f l) = fx_tombstone fx"
  "fx_reconciliation_required (uncertain fx f l)"
  "set (fx_attention (uncertain fx f l)) = insert ConnectionUncertainty (set (fx_attention fx))"
  "rp_observation (fx_projection (uncertain fx f l)) = f"
  "rp_run_id (fx_projection (uncertain fx f l)) = rp_run_id (fx_projection fx)"
  "rp_process (fx_projection (uncertain fx f l)) = rp_process (fx_projection fx)"
  "rp_turn_id (fx_projection (uncertain fx f l)) = rp_turn_id (fx_projection fx)"
  "rp_turn (fx_projection (uncertain fx f l)) =
     (if l \<and> \<not> is_terminal (rp_turn (fx_projection fx)) then TurnState.Unknown
      else rp_turn (fx_projection fx))"
  "distinct (fx_attention (uncertain fx f l)) \<longleftrightarrow> distinct (fx_attention fx)"
  by (auto simp: uncertain_def Let_def)

lemma uncertain_ok: "effects_ok event fx \<Longrightarrow> effects_ok event (uncertain fx f l)"
  by (auto simp: effects_ok_def)

lemma validate_Ok:
  "validate state event policy = Ok u \<longleftrightarrow>
     rp_run_id (st_projection state) = ev_run_id event
     \<and> (\<forall>current. st_current_turn state = Some current \<longrightarrow> same_scope current event)
     \<and> rp_turn_id (st_projection state) = map_option tk_turn_id (st_current_turn state)
     \<and> (st_current_turn state = None \<longrightarrow> rp_turn (st_projection state) = TurnState.Unknown)
     \<and> (\<forall>t. st_tombstone state = Some t \<longrightarrow> turn_key event = Some (te_key t)
          \<and> (\<forall>kind. te_terminal t = Some kind \<longrightarrow> is_terminal kind))
     \<and> current_terminal state event = Ok ()
     \<and> supports policy (EventPayload_kind (ev_event event))"
  by (auto simp: validate_def result_simps split: option.splits if_splits)

lemma initial_effects_fields:
  "fx_current_turn (initial_effects s p) = st_current_turn s"
  "fx_resolve_transient (initial_effects s p) = None"
  "fx_tombstone (initial_effects s p) = None"
  "set (fx_attention (initial_effects s p)) = (if op_freshness p = Fresh then {} else {ConnectionUncertainty})"
  "fx_reconciliation_required (initial_effects s p) \<longleftrightarrow> op_freshness p \<noteq> Fresh"
  "distinct (fx_attention (initial_effects s p))"
  "rp_run_id (fx_projection (initial_effects s p)) = rp_run_id (st_projection s)"
  "rp_process (fx_projection (initial_effects s p)) = rp_process (st_projection s)"
  "rp_turn_id (fx_projection (initial_effects s p)) = rp_turn_id (st_projection s)"
  "rp_turn (fx_projection (initial_effects s p)) =
     (if op_freshness p \<noteq> Fresh \<and> \<not> is_terminal (rp_turn (st_projection s)) then TurnState.Unknown
      else rp_turn (st_projection s))"
  "rp_observation (fx_projection (initial_effects s p)) =
     (if op_freshness p = Fresh then rp_observation (st_projection s) else op_freshness p)"
  by (simp_all add: initial_effects_def Let_def)

lemma initial_ok: "validate s event p = Ok () \<Longrightarrow> effects_ok event (initial_effects s p)"
  by (auto simp: effects_ok_def initial_effects_fields validate_Ok)

lemma progress_ok:
  assumes "effects_ok event fx" and "turn_key event = Some key"
    and "set (fx_attention fx) \<subseteq> {ConnectionUncertainty}"
    and "fx_tombstone fx = None" and "fx_resolve_transient fx = None"
  shows "effects_ok event (progress key observed fx)"
  using assms
  by (auto simp: progress_def Let_def effects_ok_def turn_key_Some split: TurnState.splits)

lemma terminal_ok:
  assumes "effects_ok event fx" and "turn_key event = Some key"
    and "set (fx_attention fx) \<subseteq> {ConnectionUncertainty}"
    and "is_terminal (turn_state (ev_event event))"
  shows "effects_ok event (terminal_turn event key (turn_state (ev_event event)) fx)"
  using assms
  by (auto simp: terminal_turn_def Let_def effects_ok_def turn_key_Some)

lemma reduce_run_ok: "effects_ok event fx \<Longrightarrow> effects_ok event (reduce_run event policy fx)"
proof (cases "ev_event event")
  case (RunExited exit)
  assume ok: "effects_ok event fx"
  have "effects_ok event (fx\<lparr> fx_projection := (fx_projection fx)\<lparr> rp_process := p \<rparr> \<rparr>)" for p
    using ok by (simp add: effects_ok_def)
  then show ?thesis by (auto simp: reduce_run_def Let_def RunExited uncertain_ok)
qed (auto simp: reduce_run_def Let_def uncertain_ok)

lemma reduce_effects_ok: "reduce state event policy = Ok fx \<Longrightarrow> effects_ok event fx"
proof -
  assume "reduce state event policy = Ok fx"
  then have v: "validate state event policy = Ok ()" and
    fx: "fx = (case turn_key event of
        Some key \<Rightarrow> reduce_turn state event key policy (initial_effects state policy)
      | None \<Rightarrow> reduce_run event policy (initial_effects state policy))"
    by (simp_all add: reduce_Ok)
  note ok = initial_ok [OF v]
  show ?thesis
  proof (cases "turn_key event")
    case None
    with fx ok show ?thesis by (simp add: reduce_run_ok)
  next
    case (Some key)
    have "effects_ok event (reduce_turn state event key policy (initial_effects state policy))"
      using ok Some
      by (auto simp: reduce_turn_def Let_def initial_effects_fields
          intro!: uncertain_ok progress_ok terminal_ok split: option.splits)
    with fx Some show ?thesis by simp
  qed
qed

subsection \<open>What a reduction may change\<close>

lemma reduce_tombstone:
  assumes "reduce state event policy = Ok fx" and "st_tombstone state = Some t"
  shows "fx_tombstone fx = None" and "fx_resolve_transient fx = None"
    and "fx_current_turn fx = st_current_turn state"
    and "rp_process (fx_projection fx) = rp_process (st_projection state)"
    and "rp_turn (fx_projection fx) = (if op_freshness policy \<noteq> Fresh
           \<and> \<not> is_terminal (rp_turn (st_projection state)) then TurnState.Unknown
         else rp_turn (st_projection state))"
    and "fx_reconciliation_required fx \<longleftrightarrow> op_freshness policy \<noteq> Fresh
          \<or> is_terminal (turn_state (ev_event event)) \<and> te_terminal t \<noteq> Some (turn_state (ev_event event))"
    and "set (fx_attention fx) \<subseteq> {ConnectionUncertainty}"
proof -
  from assms have v: "validate state event policy = Ok ()" by (simp add: reduce_Ok)
  with assms(2) have k: "turn_key event = Some (te_key t)" by (auto simp: validate_Ok)
  with assms have fx: "fx = reduce_turn state event (te_key t) policy (initial_effects state policy)"
    by (simp add: reduce_Ok)
  show "fx_tombstone fx = None" "fx_resolve_transient fx = None"
    "fx_current_turn fx = st_current_turn state"
    "rp_process (fx_projection fx) = rp_process (st_projection state)"
    "rp_turn (fx_projection fx) = (if op_freshness policy \<noteq> Fresh
           \<and> \<not> is_terminal (rp_turn (st_projection state)) then TurnState.Unknown
         else rp_turn (st_projection state))"
    "fx_reconciliation_required fx \<longleftrightarrow> op_freshness policy \<noteq> Fresh
          \<or> is_terminal (turn_state (ev_event event)) \<and> te_terminal t \<noteq> Some (turn_state (ev_event event))"
    "set (fx_attention fx) \<subseteq> {ConnectionUncertainty}"
    using assms(2) by (auto simp: fx reduce_turn_def Let_def initial_effects_fields)
qed

lemma stale_unless_explicit_not_fresh [simp]: "stale_unless_explicit p \<noteq> Fresh"
  by (simp add: stale_unless_explicit_def)

lemma terminal_turn_fields:
  "rp_observation (fx_projection (terminal_turn e k o1 fx)) = rp_observation (fx_projection fx)"
  "fx_reconciliation_required (terminal_turn e k o1 fx) = fx_reconciliation_required fx"
  "rp_process (fx_projection (terminal_turn e k o1 fx)) = rp_process (fx_projection fx)"
  "rp_turn (fx_projection (terminal_turn e k o1 fx)) =
     (if fx_current_turn fx = None \<or> fx_current_turn fx = Some k then o1 else rp_turn (fx_projection fx))"
  "fx_current_turn (terminal_turn e k o1 fx) =
     (if fx_current_turn fx = None \<or> fx_current_turn fx = Some k then Some k else fx_current_turn fx)"
  by (auto simp: terminal_turn_def Let_def)

lemma reduce_not_fresh:
  assumes "reduce state event policy = Ok fx" and nf: "op_freshness policy \<noteq> Fresh"
  shows "rp_observation (fx_projection fx) \<noteq> Fresh \<and> fx_reconciliation_required fx \<and>
    (rp_turn (fx_projection fx) = TurnState.Unknown \<or> is_terminal (rp_turn (fx_projection fx)))"
proof (cases "turn_key event")
  case None
  with assms have "fx = reduce_run event policy (initial_effects state policy)" by (simp add: reduce_Ok)
  with nf show ?thesis
    by (cases "ev_event event") (auto simp: reduce_run_def Let_def initial_effects_fields stale_unless_explicit_def)
next
  case (Some key)
  with assms have fx: "fx = reduce_turn state event key policy (initial_effects state policy)" by (simp add: reduce_Ok)
  show ?thesis using nf
    by (auto simp: fx reduce_turn_def Let_def initial_effects_fields terminal_turn_fields split: option.splits)
qed

lemma turn_state_approval [simp]:
  "turn_state p = AwaitingApproval \<longleftrightarrow> (\<exists>t. p = TurnAwaitingApproval t)"
  by (cases p) auto

lemma reduce_keeps_approval:
  assumes "reduce state event policy = Ok fx"
    and "rp_turn (st_projection state) = AwaitingApproval" and "st_current_turn state = Some key"
    and "turn_key event = Some key" and "op_freshness policy = Fresh"
    and "\<not> is_terminal (turn_state (ev_event event))"
    and "rp_process (st_projection state) = Alive \<or> rp_process (st_projection state) = ProcessState.Unknown"
  shows "rp_turn (fx_projection fx) = AwaitingApproval \<and> fx_current_turn fx = Some key"
proof -
  from assms have fx: "fx = reduce_turn state event key policy (initial_effects state policy)" by (simp add: reduce_Ok)
  show ?thesis using assms(2-)
    by (auto simp: fx reduce_turn_def Let_def initial_effects_fields progress_def split: option.splits TurnState.splits)
qed

lemma reduce_other_run_turn:
  assumes "reduce state event policy = Ok fx" and "turn_key event = None"
  shows "fx_current_turn fx = st_current_turn state \<and> fx_tombstone fx = None \<and> fx_resolve_transient fx = None
    \<and> set (fx_attention fx) \<subseteq> {ConnectionUncertainty}
    \<and> (rp_turn (fx_projection fx) = rp_turn (st_projection state) \<or> rp_turn (fx_projection fx) = TurnState.Unknown
        \<and> \<not> is_terminal (rp_turn (st_projection state)))"
proof -
  from assms have "fx = reduce_run event policy (initial_effects state policy)" by (simp add: reduce_Ok)
  then show ?thesis
    by (cases "ev_event event") (auto simp: reduce_run_def Let_def initial_effects_fields)
qed

lemma reconcile_projection_Ok:
  "reconcile_projection e = Ok p \<longleftrightarrow>
     rv_expected_scope e = rv_observed_scope e \<and> rv_expected_runtime e = rv_observed_runtime e
     \<and> ri_boot_id (rv_expected_runtime e) = rv_current_boot e \<and> rv_current_boot e \<noteq> replicate 16 0
     \<and> ri_pid (rv_expected_runtime e) \<noteq> 0 \<and> ri_start_ticks (rv_expected_runtime e) \<noteq> 0
     \<and> rv_process e = Alive \<and> rv_freshness e = Fresh
     \<and> p = \<lparr> rp_run_id = sc_run_id (rv_expected_scope e), rp_process = Alive, rp_observation = Fresh,
             rp_turn = rp_turn p, rp_turn_id = rp_turn_id p \<rparr>
     \<and> (case rv_current_turn e of
          KnownNone \<Rightarrow> rp_turn p = TurnState.Unknown \<and> rp_turn_id p = None
        | Known turn_id state \<Rightarrow> rp_turn_id p = Some turn_id \<and> rp_turn p = state
            \<and> state \<in> {Working, AwaitingInput, AwaitingApproval}
        | _ \<Rightarrow> False)"
  by (cases p) (auto simp: reconcile_projection_def result_simps split: CurrentTurnEvidence.splits if_splits)

end
