(* ===== verification/Samples.thy ===== *)
theory Samples
  imports Domain
begin

section \<open>Concrete values the witnesses evaluate\<close>

text \<open>
  One run, one producer, two turns and a few events, all canonical identifiers. The witnesses
  instantiate the properties here.
\<close>

definition sample_run :: RunId where
  "sample_run = RunId ''0195f2d0-0000-7000-8000-000000000001''"
definition sample_producer :: ProducerId where
  "sample_producer = ProducerId ''0195f2d0-0000-7000-8000-000000000002''"
definition sample_generation :: ProducerGeneration where
  "sample_generation = ProducerGeneration ''0195f2d0-0000-4000-8000-000000000003''"
definition sample_event_id :: "nat \<Rightarrow> EventId" where
  "sample_event_id n = EventId (''0195f2d0-0000-7000-8000-00000000001'' @ show_nat n)"
definition sample_turn :: TurnId where "sample_turn = TurnId ''turn-1''"

definition sample_event :: "nat \<Rightarrow> EventPayload \<Rightarrow> EventEnvelope" where
  "sample_event n payload = \<lparr> ev_event_id = sample_event_id n, ev_producer_id = sample_producer,
     ev_generation = sample_generation, ev_seq = Seq (of_nat n), ev_run_id = sample_run,
     ev_event = payload \<rparr>"

definition sample_key :: TurnKey where
  "sample_key = \<lparr> tk_producer_id = sample_producer, tk_generation = sample_generation,
     tk_run_id = sample_run, tk_turn_id = sample_turn \<rparr>"

abbreviation started :: EventPayload where
  "started \<equiv> TurnStarted \<lparr> tp_turn_id = sample_turn \<rparr>"
abbreviation approval :: EventPayload where
  "approval \<equiv> TurnAwaitingApproval \<lparr> tp_turn_id = sample_turn \<rparr>"
abbreviation completed :: EventPayload where
  "completed \<equiv> TurnCompleted \<lparr> tp_turn_id = sample_turn \<rparr>"
abbreviation interrupted :: EventPayload where
  "interrupted \<equiv> TurnInterrupted \<lparr> tp_turn_id = sample_turn \<rparr>"

definition sample_policy :: "ObservationState \<Rightarrow> ObservationPolicy" where
  "sample_policy freshness = \<lparr> op_supported = replicate 9 True, op_freshness = freshness \<rparr>"

definition sample_projection :: "TurnState \<Rightarrow> RunProjection" where
  "sample_projection turn = \<lparr> rp_run_id = sample_run, rp_process = Alive, rp_observation = Fresh,
     rp_turn = turn, rp_turn_id = Some sample_turn \<rparr>"

definition sample_state :: "TurnState \<Rightarrow> TombstoneEvidence option \<Rightarrow> ReductionState" where
  "sample_state turn tombstone = \<lparr> st_projection = sample_projection turn,
     st_current_turn = Some sample_key, st_tombstone = tombstone \<rparr>"

definition sample_tombstone :: TombstoneEvidence where
  "sample_tombstone = \<lparr> te_key = sample_key, te_outcome_id = sample_event_id 2,
     te_terminal = Some Completed \<rparr>"

lemmas sample_defs = sample_event_def sample_key_def sample_policy_def sample_projection_def
  sample_state_def sample_tombstone_def

lemma sample_supports [simp]: "supports (sample_policy f) k"
  using kind_index(2) [of k] by (simp add: supports_nth sample_policy_def)

lemma sample_turn_key [simp]:
  "turn_key (sample_event n started) = Some sample_key"
  "turn_key (sample_event n approval) = Some sample_key"
  "turn_key (sample_event n completed) = Some sample_key"
  "turn_key (sample_event n interrupted) = Some sample_key"
  by (simp_all add: turn_key_def sample_defs)

text \<open>A codec whose parser recognises one frame, the first event of the sample turn, of a given kind.\<close>

definition sample_frame :: string where
  "sample_frame = [CHR ''{'', CHR ''}'', newline]"

definition sample_codec_of :: "EventKind \<Rightarrow> event_codec" where
  "sample_codec_of kind = \<lparr>
     ec_from_slice = (\<lambda>_. Some (RMap [(''protocol'', RU64 0)])),
     ec_raw_event = (\<lambda>_. Some \<lparr> re_event_id = sample_event_id 1, re_producer_id = sample_producer,
       re_generation = sample_generation, re_seq = Seq 1, re_run_id = sample_run,
       re_kind = kind, re_payload = Null \<rparr>),
     ec_run_started = (\<lambda>_. None), ec_run_exited = (\<lambda>_. None),
     ec_turn = (\<lambda>_. Some \<lparr> tp_turn_id = sample_turn \<rparr>), ec_turn_failed = (\<lambda>_. None),
     ec_health = (\<lambda>_. None), ec_handshake = (\<lambda>_. None) \<rparr>"

abbreviation sample_codec :: event_codec where
  "sample_codec \<equiv> sample_codec_of EventKind.TurnStarted"

lemma sample_parse:
  "parse_event sample_codec sample_frame = Ok (sample_event 1 started)"
  "parse_event (sample_codec_of EventKind.TurnAwaitingApproval) sample_frame = Ok (sample_event 1 approval)"
  "parse_event (sample_codec_of EventKind.TurnCompleted) sample_frame = Ok (sample_event 1 completed)"
  by (simp_all add: parse_event_def decode_def sample_frame_def newline_def carriage_return_def MAX_FRAME_BYTES_def
      MAX_JSON_DEPTH_def sample_codec_of_def is_object_def Value_get_def as_u64_def typed_def
      EventPayload_decode_def sample_event_def)

end
