(* ===== verification/Lifecycle.thy ===== *)
theory Lifecycle
  imports Samples
begin

section \<open>The durable owner of a run's lifecycle: specification of the reducer's caller\<close>

text \<open>
  The reducer is called by the durable owner, which hands it the stored projection, the current
  turn and the tombstone of the event's own turn, and stores the effects. This theory states that
  owner abstractly: one projection, one current turn, and a tombstone per turn key. It is the
  specification the storage transaction is compared with: which owners are well formed, that the
  reducer never refuses an in-scope event of a well-formed owner, and that the tombstone of a turn
  is the first terminal event the owner accepted for it.
\<close>

record Owner =
  ow_projection :: RunProjection
  ow_current :: "TurnKey option"
  ow_tombstones :: "TurnKey \<Rightarrow> TombstoneEvidence option"

definition new_owner :: "RunId \<Rightarrow> Owner" where
  "new_owner run = \<lparr>
     ow_projection = \<lparr> rp_run_id = run, rp_process = ProcessState.Unknown, rp_observation = Stale,
       rp_turn = TurnState.Unknown, rp_turn_id = None \<rparr>,
     ow_current = None, ow_tombstones = (\<lambda>_. None) \<rparr>"

definition owner_state :: "Owner \<Rightarrow> EventEnvelope \<Rightarrow> ReductionState" where
  "owner_state ow event = \<lparr> st_projection = ow_projection ow, st_current_turn = ow_current ow,
     st_tombstone = Option.bind (turn_key event) (ow_tombstones ow) \<rparr>"

definition store_effects :: "Owner \<Rightarrow> Effects \<Rightarrow> Owner" where
  "store_effects ow fx = \<lparr> ow_projection = fx_projection fx, ow_current = fx_current_turn fx,
     ow_tombstones = (case fx_tombstone fx of None \<Rightarrow> ow_tombstones ow
       | Some t \<Rightarrow> (ow_tombstones ow)(te_key t \<mapsto> t)) \<rparr>"

definition owner_apply :: "Owner \<Rightarrow> EventEnvelope \<Rightarrow> ObservationPolicy \<Rightarrow> DomainError + Owner" where
  "owner_apply ow event policy =
     map_ok (store_effects ow) (reduce (owner_state ow event) event policy)"

fun owner_run :: "Owner \<Rightarrow> (EventEnvelope \<times> ObservationPolicy) list \<Rightarrow> DomainError + Owner" where
  "owner_run ow [] = Ok ow"
| "owner_run ow ((event, policy) # steps) =
     and_then (owner_apply ow event policy) (\<lambda>ow. owner_run ow steps)"

text \<open>Well-formed owners.\<close>

definition settled :: "TombstoneEvidence option \<Rightarrow> TurnState \<Rightarrow> bool" where
  "settled tombstone turn = (case tombstone of
     None \<Rightarrow> \<not> is_terminal turn
   | Some t \<Rightarrow> (case te_terminal t of
       None \<Rightarrow> is_terminal turn \<or> turn = TurnState.Unknown
     | Some kind \<Rightarrow> kind = turn))"

definition owner_ok :: "RunId \<Rightarrow> Owner \<Rightarrow> bool" where
  "owner_ok run ow \<longleftrightarrow>
     rp_run_id (ow_projection ow) = run
     \<and> rp_turn_id (ow_projection ow) = map_option tk_turn_id (ow_current ow)
     \<and> (ow_current ow = None \<longrightarrow> rp_turn (ow_projection ow) = TurnState.Unknown)
     \<and> (\<forall>key t. ow_tombstones ow key = Some t \<longrightarrow> te_key t = key
          \<and> (\<forall>kind. te_terminal t = Some kind \<longrightarrow> is_terminal kind))
     \<and> (\<forall>key. ow_current ow = Some key \<longrightarrow>
          settled (ow_tombstones ow key) (rp_turn (ow_projection ow)))"

definition in_scope :: "Owner \<Rightarrow> EventEnvelope \<Rightarrow> ObservationPolicy \<Rightarrow> bool" where
  "in_scope ow event policy \<longleftrightarrow>
     ev_run_id event = rp_run_id (ow_projection ow)
     \<and> (\<forall>key. ow_current ow = Some key \<longrightarrow> same_scope key event)
     \<and> supports policy (EventPayload_kind (ev_event event))"

text \<open>The owners a sequence of accepted events reaches.\<close>

inductive reachable :: "RunId \<Rightarrow> Owner \<Rightarrow> bool" for run where
  start: "reachable run (new_owner run)"
| step: "reachable run ow \<Longrightarrow> owner_apply ow event policy = Ok ow' \<Longrightarrow> reachable run ow'"

inductive_cases reachable_cases: "reachable run ow"

lemma new_owner_ok: "owner_ok run (new_owner run)"
  by (simp add: owner_ok_def new_owner_def)

lemma reduce_accepts:
  assumes "owner_ok run ow" and "in_scope ow event policy"
  shows "validate (owner_state ow event) event policy = Ok ()"
proof -
  have "current_terminal (owner_state ow event) event = Ok ()"
  proof (cases "ow_current ow = turn_key event \<and> turn_key event \<noteq> None")
    case True
    then obtain key where key: "turn_key event = Some key" "ow_current ow = Some key" by auto
    with assms(1) have "settled (ow_tombstones ow key) (rp_turn (ow_projection ow))"
      by (simp add: owner_ok_def)
    with key show ?thesis
      by (auto simp: current_terminal_def owner_state_def settled_def split: option.splits)
  next
    case False
    moreover have "ow_current ow = None \<Longrightarrow> rp_turn (ow_projection ow) = TurnState.Unknown"
      using assms(1) by (simp add: owner_ok_def)
    ultimately show ?thesis
      by (auto simp: current_terminal_def owner_state_def)
  qed
  moreover have "turn_key event = Some (te_key t) \<and> (\<forall>kind. te_terminal t = Some kind \<longrightarrow> is_terminal kind)"
    if "st_tombstone (owner_state ow event) = Some t" for t
    using that assms(1) by (auto simp: owner_state_def owner_ok_def bind_eq_Some_conv)
  ultimately show ?thesis
    using assms by (auto simp: validate_Ok owner_ok_def in_scope_def owner_state_def)
qed

lemma owner_apply_Ok:
  "owner_apply ow event policy = Ok ow' \<longleftrightarrow>
     (\<exists>fx. reduce (owner_state ow event) event policy = Ok fx \<and> ow' = store_effects ow fx)"
  by (auto simp: owner_apply_def result_simps)

lemma reduce_tombstone_stored:
  assumes "reduce state event policy = Ok fx"
  shows "fx_tombstone fx = (case turn_key event of None \<Rightarrow> None | Some key \<Rightarrow>
     if st_tombstone state = None \<and> is_terminal (turn_state (ev_event event))
     then Some \<lparr> te_key = key, te_outcome_id = ev_event_id event,
            te_terminal = Some (turn_state (ev_event event)) \<rparr> else None)"
proof (cases "turn_key event")
  case None
  with reduce_other_run_turn [OF assms] show ?thesis by simp
next
  case (Some key)
  with assms have fx: "fx = reduce_turn state event key policy (initial_effects state policy)"
    by (simp add: reduce_Ok)
  show ?thesis
    by (auto simp: fx Some reduce_turn_def Let_def initial_effects_fields terminal_turn_def progress_def
        split: option.splits TurnState.splits)
qed

lemma owner_tombstones:
  assumes "owner_apply ow event policy = Ok ow'"
  shows "ow_tombstones ow' key = (if ow_tombstones ow key = None \<and> turn_key event = Some key
       \<and> is_terminal (turn_state (ev_event event))
     then Some \<lparr> te_key = key, te_outcome_id = ev_event_id event,
            te_terminal = Some (turn_state (ev_event event)) \<rparr>
     else ow_tombstones ow key)"
proof -
  from assms obtain fx where fx: "reduce (owner_state ow event) event policy = Ok fx"
    and ow': "ow' = store_effects ow fx" by (auto simp: owner_apply_Ok)
  from reduce_tombstone_stored [OF fx] show ?thesis
    by (auto simp: ow' store_effects_def owner_state_def split: option.splits if_splits)
qed

text \<open>How the current turn of the effects relates to the stored one.\<close>

lemma progress_turn:
  assumes "\<not> is_terminal observed"
  shows "\<not> is_terminal (rp_turn (fx_projection (progress key observed fx)))
       \<and> fx_current_turn (progress key observed fx) = Some key
     \<or> fx_current_turn (progress key observed fx) = fx_current_turn fx
       \<and> fx_current_turn fx \<noteq> Some key
       \<and> rp_turn (fx_projection (progress key observed fx)) = rp_turn (fx_projection fx)
     \<or> fx_current_turn fx = Some key \<and> fx_current_turn (progress key observed fx) = Some key
       \<and> rp_turn (fx_projection (progress key observed fx)) = rp_turn (fx_projection fx)"
  using assms by (auto simp: progress_def Let_def split: TurnState.splits)

definition kept_turn :: "TurnState \<Rightarrow> TurnState \<Rightarrow> bool" where
  "kept_turn before after \<longleftrightarrow> after = before \<or> \<not> is_terminal before \<and> after = TurnState.Unknown"

lemma kept_settled: "kept_turn before after \<Longrightarrow> settled t before \<Longrightarrow>
    (\<And>x. t = Some x \<Longrightarrow> \<forall>kind. te_terminal x = Some kind \<longrightarrow> is_terminal kind) \<Longrightarrow> settled t after"
  by (auto simp: kept_turn_def settled_def split: option.splits)

lemma initial_kept: "kept_turn (rp_turn (st_projection s)) (rp_turn (fx_projection (initial_effects s p)))"
  by (simp add: kept_turn_def initial_effects_fields)

lemma reduce_current:
  assumes "reduce state event policy = Ok fx" and "fx_current_turn fx = Some key"
  shows "st_current_turn state = Some key
       \<and> kept_turn (rp_turn (st_projection state)) (rp_turn (fx_projection fx))
       \<and> (st_tombstone state \<noteq> None \<or> turn_key event \<noteq> Some key
          \<or> \<not> is_terminal (turn_state (ev_event event)))
     \<or> turn_key event = Some key \<and> st_tombstone state = None
       \<and> (if is_terminal (turn_state (ev_event event))
           then rp_turn (fx_projection fx) = turn_state (ev_event event)
           else \<not> is_terminal (rp_turn (fx_projection fx)))"
proof (cases "turn_key event")
  case None
  with reduce_other_run_turn [OF assms(1)] assms(2) show ?thesis by (auto simp: kept_turn_def)
next
  case (Some mine)
  with assms have fx: "fx = reduce_turn state event mine policy (initial_effects state policy)"
    by (simp add: reduce_Ok)
  show ?thesis
  proof (cases "st_tombstone state")
    case (Some t)
    with reduce_tombstone [OF assms(1) Some] assms(2) show ?thesis by (auto simp: kept_turn_def)
  next
    case None
    note kept = initial_kept [of state policy]
    show ?thesis
    proof (cases "is_terminal (turn_state (ev_event event))")
      case True
      with fx None have "fx = terminal_turn event mine (turn_state (ev_event event)) (initial_effects state policy)"
        by (simp add: reduce_turn_def)
      with assms(2) True Some None kept show ?thesis
        by (auto simp: terminal_turn_fields initial_effects_fields(1) split: if_splits)
    next
      case False
      then have eff: "fx = uncertain (initial_effects state policy) (op_freshness policy) True
          \<or> fx = uncertain (initial_effects state policy) Stale True
          \<or> fx = progress mine (turn_state (ev_event event)) (initial_effects state policy)"
        using fx None by (simp add: reduce_turn_def)
      have "kept_turn (rp_turn (st_projection state))
          (rp_turn (fx_projection (uncertain (initial_effects state policy) f True)))" for f
        using kept by (auto simp: kept_turn_def)
      with eff progress_turn [OF False, of mine "initial_effects state policy"] assms(2) Some None kept False
      show ?thesis by (auto simp: initial_effects_fields(1))
    qed
  qed
qed

lemma owner_apply_ok:
  assumes ok: "owner_ok run ow" and "owner_apply ow event policy = Ok ow'"
  shows "owner_ok run ow'"
proof -
  from assms(2) obtain fx where fx: "reduce (owner_state ow event) event policy = Ok fx"
    and ow': "ow' = store_effects ow fx" by (auto simp: owner_apply_Ok)
  have eff: "effects_ok event fx" by (rule reduce_effects_ok [OF fx])
  from fx ok have run: "ev_run_id event = run"
    by (auto simp: reduce_Ok validate_Ok owner_state_def owner_ok_def)
  note tombs = owner_tombstones [OF assms(2)]
  have proj: "ow_projection ow' = fx_projection fx" by (simp add: ow' store_effects_def)
  have keys: "te_key t = key \<and> (\<forall>kind. te_terminal t = Some kind \<longrightarrow> is_terminal kind)"
    if "ow_tombstones ow' key = Some t" for key t
    using that ok by (auto simp: tombs owner_ok_def split: if_splits)
  have "settled (ow_tombstones ow' key) (rp_turn (ow_projection ow'))" if cur: "ow_current ow' = Some key" for key
  proof -
    from cur have "fx_current_turn fx = Some key" by (simp add: ow' store_effects_def)
    from reduce_current [OF fx this] show ?thesis
    proof (rule disjE, goal_cases)
      case 1
      then have kept: "kept_turn (rp_turn (st_projection (owner_state ow event))) (rp_turn (fx_projection fx))"
        and "st_current_turn (owner_state ow event) = Some key"
        and same: "st_tombstone (owner_state ow event) \<noteq> None \<or> turn_key event \<noteq> Some key
          \<or> \<not> is_terminal (turn_state (ev_event event))"
        by simp_all
      then have "settled (ow_tombstones ow key) (rp_turn (ow_projection ow))"
        using ok by (simp add: owner_state_def owner_ok_def)
      moreover have "ow_tombstones ow' key = ow_tombstones ow key"
        using same by (auto simp: tombs owner_state_def)
      ultimately show ?thesis
        using kept ok by (auto simp: ow' store_effects_def owner_state_def owner_ok_def intro: kept_settled)
    next
      case 2
      then show ?thesis
        by (auto simp: tombs proj owner_state_def settled_def split: if_splits option.splits)
    qed
  qed
  moreover have "ow_current ow' = fx_current_turn fx" by (simp add: ow' store_effects_def)
  ultimately show ?thesis
    using eff run unfolding owner_ok_def effects_ok_def proj by (intro conjI allI impI) (simp_all add: keys)
qed

lemma reachable_ok: "reachable run ow \<Longrightarrow> owner_ok run ow"
  by (induction rule: reachable.induct) (auto simp: new_owner_ok intro: owner_apply_ok)

lemma owner_apply_total:
  assumes "owner_ok run ow" and "in_scope ow event policy"
  shows "\<exists>ow'. owner_apply ow event policy = Ok ow'"
  using reduce_accepts [OF assms] by (auto simp: owner_apply_Ok reduce_Ok)

lemma owner_run_ok: "owner_run ow steps = Ok ow' \<Longrightarrow> owner_ok run ow \<Longrightarrow> owner_ok run ow'"
  by (induction steps arbitrary: ow) (fastforce simp: result_simps dest: owner_apply_ok)+

lemma owner_run_reachable: "owner_run ow steps = Ok ow' \<Longrightarrow> reachable run ow \<Longrightarrow> reachable run ow'"
  by (induction steps arbitrary: ow) (fastforce simp: result_simps dest: reachable.step)+

text \<open>The log-based reading of tombstones: the first terminal event of a turn decides.\<close>

definition first_terminal :: "(EventEnvelope \<times> ObservationPolicy) list \<Rightarrow> TurnKey \<Rightarrow> TombstoneEvidence option" where
  "first_terminal steps key = map_option (\<lambda>(event, _).
     \<lparr> te_key = key, te_outcome_id = ev_event_id event, te_terminal = Some (turn_state (ev_event event)) \<rparr>)
     (find (\<lambda>(event, _). turn_key event = Some key \<and> is_terminal (turn_state (ev_event event))) steps)"

lemma owner_run_tombstones:
  "owner_run ow steps = Ok ow' \<Longrightarrow>
     ow_tombstones ow' key = (case ow_tombstones ow key of Some t \<Rightarrow> Some t | None \<Rightarrow> first_terminal steps key)"
proof (induction steps arbitrary: ow)
  case Nil
  then show ?case by (auto simp: first_terminal_def split: option.splits)
next
  case (Cons step steps)
  obtain event policy where step: "step = (event, policy)" by (cases step)
  from Cons.prems obtain mid where mid: "owner_apply ow event policy = Ok mid" and "owner_run mid steps = Ok ow'"
    by (auto simp: step result_simps)
  from Cons.IH [OF this(2)] owner_tombstones [OF mid, of key]
  show ?case by (auto simp: step first_terminal_def split: option.splits)
qed

subsection \<open>Properties of the reducer and its owner\<close>

text \<open>C1: The reducer never refuses an in-scope, supported event of an owner that was reached by
  storing its own effects, and the owner it leaves is well formed again: the evidence checks
  of \<open>evidence::validate\<close> cannot get the durable owner stuck.\<close>

theorem reducer_never_stuck:
  assumes "reachable run ow" and "in_scope ow event policy"
  shows "\<exists>ow'. owner_apply ow event policy = Ok ow' \<and> reachable run ow' \<and> owner_ok run ow'"
  using owner_apply_total [OF reachable_ok [OF assms(1)] assms(2)]
    reachable.step [OF assms(1)] reachable_ok by blast

lemma reducer_never_stuck_witness:
  "\<exists>ow'. owner_apply (new_owner sample_run) (sample_event 1 started) (sample_policy Fresh) = Ok ow'
     \<and> reachable sample_run ow' \<and> owner_ok sample_run ow'"
  by (rule reducer_never_stuck [OF reachable.start])
     (simp add: in_scope_def new_owner_def sample_event_def)

text \<open>C2: Whatever sequence of events the owner of a run accepts, the tombstone of a turn is the
  first terminal event accepted for that turn and is never replaced; while the turn is the
  current one, the projection shows exactly that terminal kind, and without a terminal event it
  shows no terminal state.\<close>

theorem first_terminal_event_decides:
  assumes "owner_run (new_owner run) steps = Ok ow"
  shows "ow_tombstones ow key = first_terminal steps key
    \<and> (ow_current ow = Some key \<longrightarrow> (case first_terminal steps key of
         Some t \<Rightarrow> te_terminal t = Some (rp_turn (ow_projection ow))
       | None \<Rightarrow> \<not> is_terminal (rp_turn (ow_projection ow))))"
proof -
  have tombs: "ow_tombstones ow key = first_terminal steps key"
    using owner_run_tombstones [OF assms, of key] by (simp add: new_owner_def)
  have "owner_ok run ow" by (rule owner_run_ok [OF assms new_owner_ok])
  then have "settled (first_terminal steps key) (rp_turn (ow_projection ow))" if "ow_current ow = Some key"
    using that tombs by (auto simp: owner_ok_def)
  moreover have "te_terminal t \<noteq> None" if "first_terminal steps key = Some t" for t
    using that by (auto simp: first_terminal_def)
  ultimately show ?thesis using tombs by (auto simp: settled_def split: option.splits)
qed

lemma first_terminal_event_decides_witness:
  "\<exists>ow. owner_run (new_owner sample_run)
      [(sample_event 1 started, sample_policy Fresh), (sample_event 2 completed, sample_policy Fresh),
       (sample_event 3 interrupted, sample_policy Fresh)] = Ok ow
     \<and> ow_current ow = Some sample_key \<and> rp_turn (ow_projection ow) = Completed
     \<and> ow_tombstones ow sample_key = Some sample_tombstone"
proof -
  let ?steps = "[(sample_event 1 started, sample_policy Fresh), (sample_event 2 completed, sample_policy Fresh),
       (sample_event 3 interrupted, sample_policy Fresh)]"
  have "map_ok ow_current (owner_run (new_owner sample_run) ?steps) = Ok (Some sample_key)" by code_simp
  then obtain ow where ow: "owner_run (new_owner sample_run) ?steps = Ok ow" and cur: "ow_current ow = Some sample_key"
    by (auto simp: result_simps)
  have "first_terminal ?steps sample_key = Some sample_tombstone" by code_simp
  with first_terminal_event_decides [OF ow, of sample_key] ow cur show ?thesis
    by (auto simp: sample_tombstone_def)
qed

text \<open>A reduction's effects stay inside the event that caused them: the projection keeps the
  event's run, the current turn and the turn whose attention is resolved belong to the event's
  run, producer and generation, a tombstone is only ever for the event's own turn with the
  event's own terminal kind, no attention is asked for twice, and reconciliation is asked for
  exactly when uncertainty is reported.\<close>

lemma reduce_stays_in_scope:
  assumes "reduce state event policy = Ok fx"
  shows "distinct (fx_attention fx)
     \<and> rp_run_id (fx_projection fx) = ev_run_id event
     \<and> rp_turn_id (fx_projection fx) = map_option tk_turn_id (fx_current_turn fx)
     \<and> (\<forall>key. fx_current_turn fx = Some key \<or> fx_resolve_transient fx = Some key
           \<longrightarrow> same_scope key event)
     \<and> (\<forall>item. fx_tombstone fx = Some item \<longrightarrow> turn_key event = Some (te_key item)
          \<and> te_outcome_id item = ev_event_id event
          \<and> te_terminal item = Some (turn_state (ev_event event))
          \<and> is_terminal (turn_state (ev_event event)))
     \<and> (fx_reconciliation_required fx \<longleftrightarrow> ConnectionUncertainty \<in> set (fx_attention fx))"
  using reduce_effects_ok [OF assms] by (auto simp: effects_ok_def)

definition completed_effects :: Effects where
  "completed_effects = \<lparr> fx_projection = sample_projection Completed, fx_current_turn = Some sample_key,
     fx_attention = [Completion], fx_resolve_transient = Some sample_key,
     fx_tombstone = Some sample_tombstone, fx_reconciliation_required = False \<rparr>"

lemma reduce_stays_in_scope_witness:
  "distinct (fx_attention completed_effects)
     \<and> same_scope sample_key (sample_event 2 completed)
     \<and> te_terminal sample_tombstone = Some Completed
     \<and> ConnectionUncertainty \<notin> set (fx_attention completed_effects)"
proof -
  have "reduce (sample_state Working None) (sample_event 2 completed) (sample_policy Fresh) = Ok completed_effects"
    by code_simp
  from reduce_stays_in_scope [OF this] show ?thesis
    by (simp add: completed_effects_def sample_event_def sample_tombstone_def)
qed

lemma tombstone_uncertainty:
  assumes "reduce state event policy = Ok fx" and "st_tombstone state = Some t"
  shows "if op_freshness policy \<noteq> Fresh
      \<or> is_terminal (turn_state (ev_event event)) \<and> te_terminal t \<noteq> Some (turn_state (ev_event event))
    then fx_attention fx = [ConnectionUncertainty] \<and> fx_reconciliation_required fx
      \<and> rp_observation (fx_projection fx) \<noteq> Fresh
    else fx_attention fx = [] \<and> \<not> fx_reconciliation_required fx
      \<and> rp_observation (fx_projection fx) = rp_observation (st_projection state)"
proof -
  from assms have "turn_key event = Some (te_key t)" by (auto simp: reduce_Ok validate_Ok)
  with assms have "fx = reduce_turn state event (te_key t) policy (initial_effects state policy)" by (simp add: reduce_Ok)
  with assms(2) show ?thesis by (simp add: reduce_turn_def Let_def initial_effects_def uncertain_def stale_unless_explicit_def)
qed

text \<open>C3: A finished turn is final: once its tombstone is stored, no event of that turn writes another
  tombstone, moves the current turn, resolves attention or shows progress again. A terminal
  report that contradicts the tombstone, or a policy that is not fresh, raises connection
  uncertainty, makes the observation no longer fresh and asks for reconciliation; otherwise nothing
  is raised, nothing asked for, and the observation stays as it was.\<close>

theorem tombstone_is_final:
  assumes "reduce state event policy = Ok fx" and "st_tombstone state = Some t"
  shows "fx_tombstone fx = None \<and> fx_resolve_transient fx = None
    \<and> fx_current_turn fx = st_current_turn state
    \<and> rp_turn (fx_projection fx) = (if op_freshness policy \<noteq> Fresh
           \<and> \<not> is_terminal (rp_turn (st_projection state)) then TurnState.Unknown
         else rp_turn (st_projection state))
    \<and> (if op_freshness policy \<noteq> Fresh
          \<or> is_terminal (turn_state (ev_event event)) \<and> te_terminal t \<noteq> Some (turn_state (ev_event event))
       then fx_attention fx = [ConnectionUncertainty] \<and> fx_reconciliation_required fx
         \<and> rp_observation (fx_projection fx) \<noteq> Fresh
       else fx_attention fx = [] \<and> \<not> fx_reconciliation_required fx
         \<and> rp_observation (fx_projection fx) = rp_observation (st_projection state))"
  using reduce_tombstone [OF assms] tombstone_uncertainty [OF assms] by simp

lemma tombstone_is_final_witness:
  "\<exists>fx. reduce (sample_state Completed (Some sample_tombstone)) (sample_event 3 interrupted) (sample_policy Fresh) = Ok fx
     \<and> rp_turn (fx_projection fx) = Completed \<and> fx_reconciliation_required fx"
proof -
  have "is_ok (reduce (sample_state Completed (Some sample_tombstone)) (sample_event 3 interrupted) (sample_policy Fresh))"
    by code_simp
  then obtain fx where fx: "reduce (sample_state Completed (Some sample_tombstone)) (sample_event 3 interrupted)
      (sample_policy Fresh) = Ok fx" by (auto simp: result_simps)
  moreover have "st_tombstone (sample_state Completed (Some sample_tombstone)) = Some sample_tombstone" by code_simp
  ultimately show ?thesis
    using tombstone_is_final [OF fx, of sample_tombstone] by (simp add: sample_defs)
qed

text \<open>Under a policy that is not fresh (stale, disconnected or unsupported) a reduction never
  claims certainty: the observation it stores is not fresh, reconciliation is required, and the
  turn is shown as unknown unless it is terminal.\<close>

lemma uncertain_policy_never_fresh:
  assumes "reduce state event policy = Ok fx" and "op_freshness policy \<noteq> Fresh"
  shows "rp_observation (fx_projection fx) \<noteq> Fresh \<and> fx_reconciliation_required fx
    \<and> (rp_turn (fx_projection fx) = TurnState.Unknown \<or> is_terminal (rp_turn (fx_projection fx)))"
  by (rule reduce_not_fresh [OF assms])

lemma uncertain_policy_never_fresh_witness:
  "\<exists>fx. reduce (sample_state Working None) (sample_event 2 approval) (sample_policy Disconnected) = Ok fx
     \<and> rp_observation (fx_projection fx) \<noteq> Fresh \<and> rp_turn (fx_projection fx) = TurnState.Unknown"
proof -
  have "map_ok (\<lambda>fx. rp_turn (fx_projection fx))
      (reduce (sample_state Working None) (sample_event 2 approval) (sample_policy Disconnected)) = Ok TurnState.Unknown"
    by code_simp
  then obtain fx where fx: "reduce (sample_state Working None) (sample_event 2 approval) (sample_policy Disconnected) = Ok fx"
    "rp_turn (fx_projection fx) = TurnState.Unknown" by (auto simp: result_simps)
  with uncertain_policy_never_fresh [OF fx(1)] show ?thesis by (simp add: sample_policy_def)
qed

text \<open>A turn that awaits the harness's own approval is not cleared by anything that merely arrives
  later: a fresh, non-terminal event of the same turn leaves it awaiting approval.\<close>

lemma approval_not_cleared_by_order:
  assumes "reduce state event policy = Ok fx"
    and "rp_turn (st_projection state) = AwaitingApproval" and "st_current_turn state = Some key"
    and "turn_key event = Some key" and "op_freshness policy = Fresh"
    and "\<not> is_terminal (turn_state (ev_event event))"
    and "rp_process (st_projection state) = Alive \<or> rp_process (st_projection state) = ProcessState.Unknown"
  shows "rp_turn (fx_projection fx) = AwaitingApproval \<and> fx_current_turn fx = Some key"
  by (rule reduce_keeps_approval [OF assms])

lemma approval_not_cleared_by_order_witness:
  "\<exists>fx. reduce (sample_state AwaitingApproval None) (sample_event 3 started) (sample_policy Fresh) = Ok fx
     \<and> rp_turn (fx_projection fx) = AwaitingApproval"
proof -
  have "is_ok (reduce (sample_state AwaitingApproval None) (sample_event 3 started) (sample_policy Fresh))"
    by code_simp
  then obtain fx where fx: "reduce (sample_state AwaitingApproval None) (sample_event 3 started)
      (sample_policy Fresh) = Ok fx" by (auto simp: result_simps)
  have s: "rp_turn (st_projection (sample_state AwaitingApproval None)) = AwaitingApproval"
    "st_current_turn (sample_state AwaitingApproval None) = Some sample_key"
    "op_freshness (sample_policy Fresh) = Fresh"
    "\<not> is_terminal (turn_state (ev_event (sample_event 3 started)))"
    "rp_process (st_projection (sample_state AwaitingApproval None)) = Alive"
    by (simp_all add: sample_state_def sample_projection_def sample_policy_def sample_event_def)
  from approval_not_cleared_by_order [OF fx s(1,2) sample_turn_key(1) s(3,4)] s(5) fx
  show ?thesis by blast
qed

end
