(* ===== verification/Entropy.thy ===== *)
theory Entropy
  imports Identity
begin

unbundle bit_operations_syntax

section \<open>Fresh generations (generation.rs)\<close>

text \<open>
  \<open>fresh\<close> turns sixteen random bytes into a version 4 UUID and parses it as a
  \<open>ProducerGeneration\<close>. The system call \<open>getrandom\<close> is an argument: \<open>None\<close> when it fails,
  otherwise the buffer after the call and the number of bytes it reports. The theorem shows
  that the text the function prints is always accepted by the identity parser, so the error
  branch of that parse is never taken.
\<close>

datatype EntropyUnavailable = EntropyUnavailable

definition hex_digit :: "nat \<Rightarrow> char" where
  "hex_digit n = (if n < 10 then char_of (48 + n) else char_of (87 + n))"

definition byte_hex :: "u8 \<Rightarrow> string" where
  "byte_hex b = [hex_digit (unat b div 16), hex_digit (unat b mod 16)]"

definition dashed :: "string \<Rightarrow> string" where
  "dashed hex = take 8 hex @ ''-'' @ take 4 (drop 8 hex) @ ''-'' @ take 4 (drop 12 hex) @ ''-'' @
     take 4 (drop 16 hex) @ ''-'' @ drop 20 hex"

definition fresh :: "(u8 list \<times> nat) option \<Rightarrow> EntropyUnavailable + ProducerGeneration" where
  "fresh entropy = (case entropy of
     None \<Rightarrow> Err EntropyUnavailable
   | Some (bytes, count) \<Rightarrow>
       if count \<noteq> length bytes then Err EntropyUnavailable
       else
         let bytes = bytes[6 := (bytes ! 6 AND 0x0f) OR 0x40];
             bytes = bytes[8 := (bytes ! 8 AND 0x3f) OR 0x80];
             hex = concat (map byte_hex bytes)
         in map_err (\<lambda>_. EntropyUnavailable) (ProducerGeneration_from_str (dashed hex)))"

lemma hex_digit_lower [simp]: "n < 16 \<Longrightarrow> is_lower_hex (hex_digit n)"
  by (auto simp: is_lower_hex_def hex_digit_def is_ascii_digit_def)

lemma hex_digit_not_dash: "n < 16 \<Longrightarrow> hex_digit n \<noteq> CHR ''-''"
  by (auto simp: hex_digit_def dest: arg_cong [of _ "CHR ''-''" "\<lambda>c. byte c :: nat"])

lemma unat_u8_less: "unat (b :: u8) < 256"
  using unsigned_less [of b] by simp

lemma unat_u8_div [simp]: "unat (b :: u8) div 16 < 16"
  using unat_u8_less [of b] by simp

lemma byte_hex_lower: "list_all is_lower_hex (byte_hex b)"
  by (simp add: byte_hex_def)

lemma byte_hex_length: "length (byte_hex b) = 2"
  by (simp add: byte_hex_def)

lemma hex_digit_chars: "hex_digit 4 = CHR ''4''" "hex_digit 8 = CHR ''8''" "hex_digit 9 = CHR ''9''"
    "hex_digit 10 = CHR ''a''" "hex_digit 11 = CHR ''b''"
  by code_simp+

lemma version_nibble: "unat ((b AND 0x0f) OR 0x40 :: u8) div 16 = 4"
proof -
  have "drop_bit 4 ((b AND 0x0f) OR 0x40 :: u8) = 4" by (simp add: drop_bit_and drop_bit_or)
  then have "unat (drop_bit 4 ((b AND 0x0f) OR 0x40 :: u8)) = 4" by simp
  then show ?thesis by (simp add: drop_bit_eq_div unat_div_distrib)
qed

lemma variant_nibble: "unat ((b AND 0x3f) OR 0x80 :: u8) div 16 \<in> {8, 9, 10, 11}"
proof -
  have "drop_bit 4 ((b AND 0x3f) OR 0x80 :: u8) = (drop_bit 4 b AND 3) OR 8"
    by (simp add: drop_bit_and drop_bit_or)
  moreover have "(x AND 3) OR 8 \<in> {8, 9, 10, 11 :: u8}" for x :: u8
  proof -
    have "x AND 3 = take_bit 2 x" by (simp add: take_bit_eq_mask mask_numeral)
    moreover have "unat (take_bit 2 x) < 4" by (simp add: take_bit_eq_mod unat_mod_distrib)
    ultimately have "unat (x AND 3) = 0 \<or> unat (x AND 3) = 1 \<or> unat (x AND 3) = 2 \<or> unat (x AND 3) = 3"
      by arith
    moreover have "x AND 3 = of_nat (unat (x AND 3))" by (simp only: of_nat_unat ucast_id)
    ultimately have "x AND 3 = 0 \<or> x AND 3 = 1 \<or> x AND 3 = 2 \<or> x AND 3 = 3"
      by (elim disjE) simp_all
    then show ?thesis by (elim disjE) simp_all
  qed
  ultimately have "drop_bit 4 ((b AND 0x3f) OR 0x80 :: u8) \<in> {8, 9, 10, 11}" by metis
  then have "unat (drop_bit 4 ((b AND 0x3f) OR 0x80 :: u8)) \<in> {8, 9, 10, 11}" by auto
  then show ?thesis by (simp add: drop_bit_eq_div unat_div_distrib)
qed


lemma canonical_dashed:
  assumes "length h = 32" and "list_all is_lower_hex h"
  shows "canonical_uuid (dashed h)" and "dashed h ! 14 = h ! 12" and "dashed h ! 19 = h ! 16"
proof -
  obtain a b c d e where h: "h = a @ b @ c @ d @ e" and
    l: "length a = 8" "length b = 4" "length c = 4" "length d = 4" "length e = 12"
  proof
    show "h = take 8 h @ take 4 (drop 8 h) @ take 4 (drop 12 h) @ take 4 (drop 16 h) @ drop 20 h"
      using append_take_drop_id [of 8 h] append_take_drop_id [of 4 "drop 8 h"]
        append_take_drop_id [of 4 "drop 12 h"] append_take_drop_id [of 4 "drop 16 h"]
      by simp
  qed (use assms in simp_all)
  have dh: "dashed h = a @ CHR ''-'' # b @ CHR ''-'' # c @ CHR ''-'' # d @ CHR ''-'' # e"
    using l by (simp add: h dashed_def)
  show "dashed h ! 14 = h ! 12" "dashed h ! 19 = h ! 16"
    using l unfolding dh by (simp_all add: h nth_append)
  show "canonical_uuid (dashed h)"
    using l assms(2) unfolding dh
    by (auto simp: canonical_uuid_def h enumerate_append_eq list_all_iff in_set_enumerate_eq)
qed

lemma hex_of_bytes:
  "length (concat (map byte_hex bs)) = 2 * length bs"
  "list_all is_lower_hex (concat (map byte_hex bs))"
  by (induction bs) (simp_all add: byte_hex_length byte_hex_lower)

lemma hex_of_bytes_nth:
  "i < length bs \<Longrightarrow> concat (map byte_hex bs) ! (2 * i) = hex_digit (unat (bs ! i) div 16)"
proof (induction bs arbitrary: i)
  case Nil
  then show ?case by simp
next
  case (Cons b bs)
  then show ?case by (cases i) (simp_all add: byte_hex_def)
qed

lemma fresh_v4:
  assumes "length bytes = 16"
  shows "\<exists>g. fresh (Some (bytes, 16)) = Ok g \<and> canonical_uuid (ProducerGeneration_as_str g)
    \<and> ProducerGeneration_as_str g ! 14 = CHR ''4''
    \<and> ProducerGeneration_as_str g ! 19 \<in> set ''89ab''"
proof -
  define bs where "bs = bytes[6 := (bytes ! 6 AND 0x0f) OR 0x40]"
  define cs where "cs = bs[8 := (bs ! 8 AND 0x3f) OR 0x80]"
  define h where "h = concat (map byte_hex cs)"
  have len: "length cs = 16" by (simp add: cs_def bs_def assms)
  have h: "length h = 32" "list_all is_lower_hex h"
    by (simp_all add: h_def hex_of_bytes len del: length_concat)
  have c: "canonical_uuid (dashed h)" using h by (rule canonical_dashed)
  have "h ! 12 = hex_digit (unat (cs ! 6) div 16)" and "h ! 16 = hex_digit (unat (cs ! 8) div 16)"
    using hex_of_bytes_nth [of 6 cs] hex_of_bytes_nth [of 8 cs] len by (simp_all add: h_def)
  moreover have "cs ! 6 = (bytes ! 6 AND 0x0f) OR 0x40" "cs ! 8 = (bs ! 8 AND 0x3f) OR 0x80"
    by (simp_all add: cs_def bs_def assms)
  ultimately have "dashed h ! 14 = CHR ''4''" "dashed h ! 19 \<in> set ''89ab''"
    using version_nibble [of "bytes ! 6"] variant_nibble [of "bs ! 8"]
    by (auto simp: canonical_dashed [OF h] hex_digit_chars)
  moreover have "fresh (Some (bytes, 16)) = Ok (ProducerGeneration (dashed h))"
    using c by (simp add: fresh_def assms bs_def [symmetric] cs_def [symmetric] h_def [symmetric]
        Let_def Generation.from_str_Ok result_simps)
  ultimately show ?thesis using c by simp
qed

lemma fresh_canonical: "fresh entropy = Ok g \<Longrightarrow> canonical_uuid (ProducerGeneration_as_str g)"
  by (auto simp: fresh_def Let_def result_simps Generation.from_str_Ok
      split: option.splits if_splits prod.splits)
end
