(* ===== verification/Queue.thy ===== *)
theory Queue
  imports Event
begin

section \<open>The bounded round-robin queue (ingestion/queue.rs)\<close>

text \<open>
  One FIFO per producer and one ready entry per producer that has queued events. The locale
  \<open>admission_queue\<close> is the interface the registry uses: its laws are over \<open>contents\<close>, the
  events each producer has queued. The source's queue is its interpretation \<open>fifo\<close>.
\<close>

definition MAX_QUEUED :: nat where "MAX_QUEUED = 1024"
definition MAX_PRODUCER_QUEUED :: nat where "MAX_PRODUCER_QUEUED = 128"

subsection \<open>The interface\<close>

locale admission_queue =
  fixes start :: 'q
    and count :: "'q \<Rightarrow> nat"
    and has_room :: "'q \<Rightarrow> ProducerId \<Rightarrow> bool"
    and push :: "'q \<Rightarrow> EventEnvelope \<Rightarrow> 'q"
    and pop :: "'q \<Rightarrow> 'q \<times> EventEnvelope option"
    and discard :: "'q \<Rightarrow> ProducerId \<Rightarrow> 'q \<times> nat"
    and contents :: "'q \<Rightarrow> ProducerId \<Rightarrow> EventEnvelope list"
    and inv :: "'q \<Rightarrow> bool"
  assumes start_law: "inv start" "contents start p = []" "count start = 0"
    and room_law: "inv q \<Longrightarrow> has_room q p \<longleftrightarrow>
      count q < MAX_QUEUED \<and> length (contents q p) < MAX_PRODUCER_QUEUED"
    and push_law: "inv q \<Longrightarrow> inv (push q e)" "inv q \<Longrightarrow> count (push q e) = Suc (count q)"
      "inv q \<Longrightarrow> contents (push q e) p = (if p = ev_producer_id e then contents q p @ [e] else contents q p)"
    and pop_None_law: "inv q \<Longrightarrow> pop q = (q', None) \<Longrightarrow> q' = q \<and> (\<forall>p. contents q p = [])"
    and pop_Some_law: "inv q \<Longrightarrow> pop q = (q', Some e) \<Longrightarrow> inv q' \<and> count q = Suc (count q')
      \<and> contents q (ev_producer_id e) = e # contents q' (ev_producer_id e)
      \<and> (\<forall>p. p \<noteq> ev_producer_id e \<longrightarrow> contents q' p = contents q p)"
    and discard_law: "inv q \<Longrightarrow> discard q p = (q', n) \<Longrightarrow> inv q' \<and> n = length (contents q p)
      \<and> count q = count q' + n \<and> (\<forall>r. contents q' r = (if r = p then [] else contents q r))"
begin

text \<open>A queue filled only behind \<open>has_room\<close> stays within both bounds.\<close>

definition within :: "'q \<Rightarrow> bool" where
  "within q \<longleftrightarrow> inv q \<and> count q \<le> MAX_QUEUED \<and> (\<forall>p. length (contents q p) \<le> MAX_PRODUCER_QUEUED)"

lemma within_start: "within start"
  by (simp add: within_def start_law MAX_QUEUED_def)

lemma within_push: "within q \<Longrightarrow> has_room q (ev_producer_id e) \<Longrightarrow> within (push q e)"
  by (auto simp: within_def room_law push_law)

lemma within_pop: "within q \<Longrightarrow> pop q = (q', r) \<Longrightarrow> within q'"
proof (cases r)
  case None
  assume "within q" "pop q = (q', r)"
  with None pop_None_law [of q q'] show ?thesis by (auto simp: within_def)
next
  case (Some e)
  assume w: "within q" and "pop q = (q', r)"
  with Some pop_Some_law [of q q' e] have p: "inv q'" "count q = Suc (count q')"
    "contents q (ev_producer_id e) = e # contents q' (ev_producer_id e)"
    "\<forall>p. p \<noteq> ev_producer_id e \<longrightarrow> contents q' p = contents q p" by (auto simp: within_def)
  have "length (contents q' p) \<le> length (contents q p)" for p
    using p(3,4) by (cases "p = ev_producer_id e") auto
  with w p show ?thesis by (auto simp: within_def intro: le_trans)
qed

lemma within_discard: "within q \<Longrightarrow> discard q p = (q', n) \<Longrightarrow> within q'"
  using discard_law [of q p q' n] by (auto simp: within_def)

lemma pop_per_producer:
  "inv q \<Longrightarrow> pop q = (q', Some e) \<Longrightarrow>
     contents q p = (if p = ev_producer_id e then e # contents q' p else contents q' p)"
  using pop_Some_law by auto

end

subsection \<open>The queue of the source\<close>

record Queue =
  qu_producers :: "(ProducerId \<times> EventEnvelope list) list"
  qu_ready :: "ProducerId list"
  qu_count :: nat

definition Queue_default :: Queue where
  "Queue_default = \<lparr> qu_producers = [], qu_ready = [], qu_count = 0 \<rparr>"

definition queued_of :: "Queue \<Rightarrow> ProducerId \<Rightarrow> EventEnvelope list" where
  "queued_of q producer = (case map_of (qu_producers q) producer of None \<Rightarrow> [] | Some es \<Rightarrow> es)"

definition has_room :: "Queue \<Rightarrow> ProducerId \<Rightarrow> bool" where
  "has_room q producer \<longleftrightarrow> qu_count q < MAX_QUEUED \<and>
     (case map_of (qu_producers q) producer of None \<Rightarrow> 0 | Some es \<Rightarrow> length es) < MAX_PRODUCER_QUEUED"

definition Queue_push :: "Queue \<Rightarrow> EventEnvelope \<Rightarrow> Queue" where
  "Queue_push q event =
     (let producer = ev_producer_id event;
          queue = (case map_of (qu_producers q) producer of None \<Rightarrow> [] | Some es \<Rightarrow> es)
      in q\<lparr> qu_ready := (if queue = [] then qu_ready q @ [producer] else qu_ready q),
           qu_producers := AList.update producer (queue @ [event]) (qu_producers q),
           qu_count := qu_count q + 1 \<rparr>)"

definition Queue_pop :: "Queue \<Rightarrow> Queue \<times> EventEnvelope option" where
  "Queue_pop q = (case qu_ready q of
     [] \<Rightarrow> (q, None)
   | producer # ready \<Rightarrow>
       let q = q\<lparr> qu_ready := ready \<rparr> in
       (case map_of (qu_producers q) producer of
          None \<Rightarrow> (q, None)
        | Some [] \<Rightarrow> (q, None)
        | Some (event # queue) \<Rightarrow>
            let q = q\<lparr> qu_count := qu_count q - 1 \<rparr> in
            (if queue = [] then q\<lparr> qu_producers := AList.delete producer (qu_producers q) \<rparr>
             else q\<lparr> qu_producers := AList.update producer queue (qu_producers q),
                     qu_ready := qu_ready q @ [producer] \<rparr>, Some event)))"

definition Queue_discard :: "Queue \<Rightarrow> ProducerId \<Rightarrow> Queue \<times> nat" where
  "Queue_discard q producer =
     (let removed = (case map_of (qu_producers q) producer of None \<Rightarrow> 0 | Some es \<Rightarrow> length es)
      in (q\<lparr> qu_producers := AList.delete producer (qu_producers q),
             qu_count := qu_count q - removed,
             qu_ready := filter (\<lambda>id. id \<noteq> producer) (qu_ready q) \<rparr>, removed))"

subsection \<open>Its invariant\<close>

definition queue_ok :: "Queue \<Rightarrow> bool" where
  "queue_ok q \<longleftrightarrow> distinct_keys (qu_producers q)
     \<and> (\<forall>p es. map_of (qu_producers q) p = Some es \<longrightarrow> es \<noteq> [] \<and> (\<forall>e\<in>set es. ev_producer_id e = p))
     \<and> distinct (qu_ready q) \<and> set (qu_ready q) = set (keys (qu_producers q))
     \<and> qu_count q = total_of length (qu_producers q)"

lemma queue_ready_iff: "queue_ok q \<Longrightarrow> p \<in> set (qu_ready q) \<longleftrightarrow> map_of (qu_producers q) p \<noteq> None"
  by (simp add: queue_ok_def keys_def map_of_eq_None_iff)

lemma keys_update: "set (keys (AList.update k v m)) = insert k (set (keys m))"
  by (simp add: keys_def dom_map_of_conv_image_fst [symmetric] update_conv')

lemma keys_delete: "set (keys (AList.delete k m)) = set (keys m) - {k}"
  by (simp add: keys_def delete_keys)

lemma push_ok: "queue_ok q \<Longrightarrow> queue_ok (Queue_push q e)"
proof (cases "map_of (qu_producers q) (ev_producer_id e)")
  case None
  assume ok: "queue_ok q"
  from queue_ready_iff [OF ok] None have "ev_producer_id e \<notin> set (qu_ready q)" by simp
  with ok None show ?thesis
    by (auto simp: queue_ok_def Queue_push_def Let_def map_of_update keys_update total_of_update_new split: if_splits)
next
  case (Some es)
  assume ok: "queue_ok q"
  with Some have "es \<noteq> []" "ev_producer_id e \<in> set (qu_ready q)" by (auto simp: queue_ready_iff) (auto simp: queue_ok_def)
  with ok Some total_of_update_old [OF Some, of length "es @ [e]"] show ?thesis
    by (auto simp: queue_ok_def Queue_push_def Let_def map_of_update keys_update split: if_splits)
qed

lemma pop_cases:
  assumes "queue_ok q"
  obtains (empty) "qu_ready q = []" "qu_producers q = []" "Queue_pop q = (q, None)"
  | (event) p ready e es where "qu_ready q = p # ready" "map_of (qu_producers q) p = Some (e # es)"
      "ev_producer_id e = p"
      "Queue_pop q = (q\<lparr> qu_count := qu_count q - 1,
          qu_producers := (if es = [] then AList.delete p (qu_producers q) else AList.update p es (qu_producers q)),
          qu_ready := (if es = [] then ready else ready @ [p]) \<rparr>, Some e)"
proof (cases "qu_ready q")
  case Nil
  with assms have "set (keys (qu_producers q)) = {}" by (simp add: queue_ok_def)
  then have "qu_producers q = []" by (simp add: keys_def)
  with Nil empty show ?thesis by (simp add: Queue_pop_def)
next
  case (Cons p ready)
  with queue_ready_iff [OF assms, of p] obtain fs where fs: "map_of (qu_producers q) p = Some fs" by auto
  with assms have "fs \<noteq> []" "\<forall>e\<in>set fs. ev_producer_id e = p" by (auto simp: queue_ok_def)
  then obtain e es where "fs = e # es" "ev_producer_id e = p" by (cases fs) auto
  with fs Cons event [of p ready e es] show ?thesis by (simp add: Queue_pop_def Let_def)
qed

lemma pop_ok:
  assumes ok: "queue_ok q" and "Queue_pop q = (q', Some e)"
  shows "queue_ok q'"
  using ok
proof (cases rule: pop_cases)
  case empty
  with assms(2) show ?thesis by simp
next
  case (event p ready f es)
  with assms(2) have q': "q' = q\<lparr> qu_count := qu_count q - 1,
      qu_producers := (if es = [] then AList.delete p (qu_producers q) else AList.update p es (qu_producers q)),
      qu_ready := (if es = [] then ready else ready @ [p]) \<rparr>" by simp
  have dk: "distinct_keys (qu_producers q)" using ok by (simp add: queue_ok_def)
  show ?thesis
  proof (cases "es = []")
    case True
    with ok event total_of_delete [OF dk event(2), of length] show ?thesis
      by (auto simp: q' queue_ok_def map_of_delete keys_delete split: if_splits)
  next
    case False
    with ok event total_of_update_old [OF event(2), of length es] show ?thesis
      by (auto simp: q' queue_ok_def map_of_update keys_update split: if_splits)
  qed
qed

lemma discard_ok: "queue_ok q \<Longrightarrow> Queue_discard q p = (q', n) \<Longrightarrow> queue_ok q'"
proof (cases "map_of (qu_producers q) p")
  case None
  assume ok: "queue_ok q" and d: "Queue_discard q p = (q', n)"
  have "p \<notin> set (qu_ready q)" using queue_ready_iff [OF ok, of p] None by simp
  then have "filter (\<lambda>id. id \<noteq> p) (qu_ready q) = qu_ready q" by (auto simp: filter_id_conv)
  with None d have "q' = q" by (auto simp: Queue_discard_def Let_def delete_absent)
  with ok show ?thesis by simp
next
  case (Some es)
  assume ok: "queue_ok q" and d: "Queue_discard q p = (q', n)"
  then have "distinct_keys (qu_producers q)" by (simp add: queue_ok_def)
  moreover have "\<forall>r es'. map_of (AList.delete p (qu_producers q)) r = Some es' \<longrightarrow>
      es' \<noteq> [] \<and> (\<forall>e\<in>set es'. ev_producer_id e = r)"
    using ok by (simp add: queue_ok_def map_of_delete)
  moreover have "qu_count q - length es = total_of length (AList.delete p (qu_producers q))"
    using ok total_of_delete [OF \<open>distinct_keys (qu_producers q)\<close> Some, of length]
    by (simp add: queue_ok_def)
  moreover have "set (filter (\<lambda>id. id \<noteq> p) (qu_ready q)) = set (keys (AList.delete p (qu_producers q)))"
    using ok by (auto simp: queue_ok_def keys_delete)
  moreover have "q' = \<lparr> qu_producers = AList.delete p (qu_producers q),
      qu_ready = filter (\<lambda>id. id \<noteq> p) (qu_ready q), qu_count = qu_count q - length es \<rparr>"
    using d Some by (auto simp: Queue_discard_def Let_def)
  ultimately show ?thesis
    using ok by (simp add: queue_ok_def)
qed

interpretation fifo: admission_queue Queue_default qu_count has_room Queue_push Queue_pop Queue_discard
  queued_of queue_ok
proof (unfold_locales, goal_cases)
  case 1
  show ?case by (simp add: queue_ok_def Queue_default_def keys_def)
next
  case (2 p)
  show ?case by (simp add: queued_of_def Queue_default_def)
next
  case 3
  show ?case by (simp add: Queue_default_def)
next
  case (4 q p)
  show ?case by (simp add: has_room_def queued_of_def split: option.splits)
next
  case (5 q e)
  then show ?case by (rule push_ok)
next
  case (6 q e)
  show ?case by (simp add: Queue_push_def Let_def)
next
  case (7 q e p)
  show ?case by (auto simp: Queue_push_def Let_def queued_of_def map_of_update split: option.splits)
next
  case (8 q q')
  from 8(1) show ?case
  proof (cases rule: pop_cases)
    case empty
    with 8(2) show ?thesis by (simp add: queued_of_def)
  qed (use 8(2) in simp)
next
  case (9 q q' e)
  from 9(1) show ?case
  proof (cases rule: pop_cases)
    case empty
    with 9(2) show ?thesis by simp
  next
    case (event p ready f es)
    then have "0 < qu_count q" using 9(1) total_of_member [OF event(2), of length]
      by (auto simp: queue_ok_def)
    with event 9 pop_ok [OF 9] show ?thesis
      by (auto simp: queued_of_def map_of_delete map_of_update)
  qed
next
  case (10 q p q' n)
  have "n \<le> qu_count q"
    using 10 total_of_member [of "qu_producers q" p _ length]
    by (auto simp: queue_ok_def Queue_discard_def Let_def split: option.splits)
  with 10 discard_ok [OF 10] show ?case
    by (auto simp: queued_of_def Queue_discard_def Let_def map_of_delete split: option.splits)
qed

subsection \<open>Fairness\<close>

text \<open>\<open>n\<close> pops in a row: the queue left and the events returned.\<close>

fun pops :: "nat \<Rightarrow> Queue \<Rightarrow> Queue \<times> EventEnvelope option list" where
  "pops 0 q = (q, [])"
| "pops (Suc n) q = (case Queue_pop q of (q', r) \<Rightarrow> (case pops n q' of (q'', rs) \<Rightarrow> (q'', r # rs)))"

lemma pop_ready:
  assumes "queue_ok q" and "qu_ready q = x # xs" and "Queue_pop q = (q', r)"
  shows "(\<exists>e. r = Some e \<and> ev_producer_id e = x) \<and> (qu_ready q' = xs \<or> qu_ready q' = xs @ [x])"
  using assms(1)
proof (cases rule: pop_cases)
  case empty
  with assms(2) show ?thesis by simp
next
  case (event p ready e es)
  with assms(2,3) show ?thesis by (auto split: if_splits)
qed

lemma served_in_turn:
  "queue_ok q \<Longrightarrow> qu_ready q = xs @ p # ys \<Longrightarrow>
     (\<exists>q' rs e. pops (length xs) q = (q', rs) \<and> queue_ok q' \<and> map (map_option ev_producer_id) rs = map Some xs
        \<and> queued_of q p = queued_of q' p \<and> Queue_pop q' = (fst (Queue_pop q'), Some e)
        \<and> ev_producer_id e = p \<and> e = hd (queued_of q p) \<and> queued_of q p \<noteq> [])"
proof (induction xs arbitrary: q ys)
  case Nil
  from Nil.prems(1) show ?case
  proof (cases rule: pop_cases)
    case empty
    with Nil.prems show ?thesis by simp
  next
    case (event r ready e es)
    with Nil.prems show ?thesis by (auto simp: queued_of_def)
  qed
next
  case (Cons x xs)
  obtain q1 r where pop: "Queue_pop q = (q1, r)" by (cases "Queue_pop q")
  from pop_ready [OF Cons.prems(1) _ pop, of x "xs @ p # ys"] Cons.prems(2)
  obtain e where e: "r = Some e" "ev_producer_id e = x" and
    ready: "qu_ready q1 = xs @ p # ys \<or> qu_ready q1 = xs @ p # (ys @ [x])" by auto
  have ok: "queue_ok q1" using pop_ok [OF Cons.prems(1)] pop e by simp
  have "x \<noteq> p" using Cons.prems by (auto simp: queue_ok_def)
  then have same: "queued_of q p = queued_of q1 p"
    using fifo.pop_per_producer [OF Cons.prems(1), of q1 e p] pop e by simp
  from ready Cons.IH [OF ok] obtain q' rs f where "pops (length xs) q1 = (q', rs)" "queue_ok q'"
    "map (map_option ev_producer_id) rs = map Some xs" "queued_of q1 p = queued_of q' p"
    "Queue_pop q' = (fst (Queue_pop q'), Some f)" "ev_producer_id f = p" "f = hd (queued_of q1 p)" "queued_of q1 p \<noteq> []"
    by blast
  with pop e same show ?case by auto
qed

end
