(* ===== verification/Control.thy ===== *)
theory Control
  imports Event
begin

section \<open>Control requests, capabilities and responses (protocol/control.rs, capability.rs, response.rs)\<close>

text \<open>
  The control vocabulary, its revision guards, the bounded sets of a handshake and of a
  response, and the parsers that take the common members (\<open>protocol\<close>, \<open>channel\<close>,
  \<open>request_id\<close>) off the object before the rest is typed. The derived deserializers are the
  arguments of the parsers. The \<open>Serialize\<close> implementations only add those members; their
  guards (\<open>validate\<close>, \<open>unique_bounded\<close>) are modelled, the generated serializers are not.
  Field prefixes: \<open>cr_\<close> \<open>CapabilityRecord\<close>, \<open>rq_\<close> \<open>ControlRequest\<close>, \<open>rsp_\<close>
  \<open>ResponseEnvelope\<close>.
\<close>

subsection \<open>Operations\<close>

datatype Operation =
    Snapshot | Subscribe | ProjectRegister | Launch | Focus | Attach | Resume
  | InterruptOwned | EndOwned | ReviewMark | AttentionSnooze | PolicyUpdate

definition Operation_ALL :: "Operation list" where
  "Operation_ALL = [Snapshot, Subscribe, ProjectRegister, Launch, Focus, Attach, Resume,
     InterruptOwned, EndOwned, ReviewMark, AttentionSnooze, PolicyUpdate]"

definition is_stateful :: "Operation \<Rightarrow> bool" where
  "is_stateful op \<longleftrightarrow> \<not> (op = Snapshot \<or> op = Subscribe)"

datatype PageSize = PageSize (PageSize_value: u16)

definition PageSize_try_from :: "u16 \<Rightarrow> ProtocolError + PageSize" where
  "PageSize_try_from value =
     (if 1 \<le> value \<and> value \<le> 100 then Ok (PageSize value) else Err InvalidFrame)"

record SnapshotArguments =
  sa_limit :: PageSize
  sa_cursor :: "SnapshotCursor option"
record SubscribeArguments = sb_after_revision :: Revision
record ProjectRegisterArguments =
  pa_path :: LocalPath
  pa_label :: TaskLabel
record LaunchArguments =
  la_project_id :: ProjectId
  la_harness :: HarnessKind
record TargetArguments = ta_run_id :: RunId
record ReviewMarkArguments =
  rm_run_id :: RunId
  rm_outcome_revision :: Revision
record AttentionSnoozeArguments =
  as_run_id :: RunId
  as_until_unix_seconds :: Seq
record PolicyUpdateArguments = pu_notifications_enabled :: bool

datatype ControlOperation =
    Snapshot SnapshotArguments
  | Subscribe SubscribeArguments
  | ProjectRegister Revision ProjectRegisterArguments
  | Launch Revision LaunchArguments
  | Focus Revision TargetArguments
  | Attach Revision TargetArguments
  | Resume Revision TargetArguments
  | InterruptOwned Revision TargetArguments
  | EndOwned Revision TargetArguments
  | ReviewMark Revision ReviewMarkArguments
  | AttentionSnooze Revision AttentionSnoozeArguments
  | PolicyUpdate Revision PolicyUpdateArguments

fun ControlOperation_operation :: "ControlOperation \<Rightarrow> Operation" where
  "ControlOperation_operation (Snapshot _) = Operation.Snapshot"
| "ControlOperation_operation (Subscribe _) = Operation.Subscribe"
| "ControlOperation_operation (ProjectRegister _ _) = Operation.ProjectRegister"
| "ControlOperation_operation (Launch _ _) = Operation.Launch"
| "ControlOperation_operation (Focus _ _) = Operation.Focus"
| "ControlOperation_operation (Attach _ _) = Operation.Attach"
| "ControlOperation_operation (Resume _ _) = Operation.Resume"
| "ControlOperation_operation (InterruptOwned _ _) = Operation.InterruptOwned"
| "ControlOperation_operation (EndOwned _ _) = Operation.EndOwned"
| "ControlOperation_operation (ReviewMark _ _) = Operation.ReviewMark"
| "ControlOperation_operation (AttentionSnooze _ _) = Operation.AttentionSnooze"
| "ControlOperation_operation (PolicyUpdate _ _) = Operation.PolicyUpdate"

fun ControlOperation_expected_revision :: "ControlOperation \<Rightarrow> Revision option" where
  "ControlOperation_expected_revision (Snapshot _) = None"
| "ControlOperation_expected_revision (Subscribe _) = None"
| "ControlOperation_expected_revision (ProjectRegister r _) = Some r"
| "ControlOperation_expected_revision (Launch r _) = Some r"
| "ControlOperation_expected_revision (Focus r _) = Some r"
| "ControlOperation_expected_revision (Attach r _) = Some r"
| "ControlOperation_expected_revision (Resume r _) = Some r"
| "ControlOperation_expected_revision (InterruptOwned r _) = Some r"
| "ControlOperation_expected_revision (EndOwned r _) = Some r"
| "ControlOperation_expected_revision (ReviewMark r _) = Some r"
| "ControlOperation_expected_revision (AttentionSnooze r _) = Some r"
| "ControlOperation_expected_revision (PolicyUpdate r _) = Some r"

record ControlRequest =
  rq_request_id :: RequestId
  rq_request :: ControlOperation

definition ControlRequest_operation :: "ControlRequest \<Rightarrow> Operation" where
  "ControlRequest_operation r = ControlOperation_operation (rq_request r)"

definition ControlRequest_expected_revision :: "ControlRequest \<Rightarrow> Revision option" where
  "ControlRequest_expected_revision r = ControlOperation_expected_revision (rq_request r)"

text \<open>
  \<open>object.remove(key)\<close>, then typing of the removed value. The result is the typed member and
  the object without it.
\<close>

definition take_member ::
    "(Value \<Rightarrow> 'a option) \<Rightarrow> string \<Rightarrow> (string \<times> Value) list \<Rightarrow> ProtocolError + ('a \<times> (string \<times> Value) list)" where
  "take_member from_value key members =
     and_then (ok_or InvalidFrame (map_of members key)) (\<lambda>v.
     map_ok (\<lambda>x. (x, AList.delete key members)) (typed from_value v))"

definition as_object :: "Value \<Rightarrow> (string \<times> Value) list option" where
  "as_object v = (case v of Object members \<Rightarrow> Some members | _ \<Rightarrow> None)"

definition parse_control ::
    "(string \<Rightarrow> raw option) \<Rightarrow> (Value \<Rightarrow> unit option) \<Rightarrow> (Value \<Rightarrow> unit option)
     \<Rightarrow> (Value \<Rightarrow> RequestId option) \<Rightarrow> (Value \<Rightarrow> ControlOperation option)
     \<Rightarrow> string \<Rightarrow> ProtocolError + ControlRequest" where
  "parse_control from_slice version channel request_id operation frame =
     and_then (decode from_slice frame) (\<lambda>value.
     and_then (ok_or InvalidFrame (as_object value)) (\<lambda>object.
     and_then (take_member version ''protocol'' object) (\<lambda>(_, object).
     and_then (take_member channel ''channel'' object) (\<lambda>(_, object).
     and_then (take_member request_id ''request_id'' object) (\<lambda>(id, object).
     and_then (typed operation (Object object)) (\<lambda>request.
     Ok \<lparr> rq_request_id = id, rq_request = request \<rparr>))))))"

subsection \<open>Capabilities\<close>

datatype CapabilityStatus = Supported | Unsupported | Unknown
datatype CapabilitySource = Manager | Adapter | NativeHarness
datatype ObservationFreshness = Fresh | Stale | Disconnected | Unsupported
datatype CapabilityReason =
    Available | NotImplemented | NotGranted | VersionUntested | StaleIdentity | UnsupportedHarness

record CapabilityRecord =
  cr_operation :: Operation
  cr_status :: CapabilityStatus
  cr_source :: CapabilitySource
  cr_tested_version :: "AdapterVersion option"
  cr_reason :: CapabilityReason
  cr_freshness :: ObservationFreshness

datatype ControlHandshake = ControlHandshake (requested_operations: "Operation list")

definition ControlHandshake_serializable :: "ControlHandshake \<Rightarrow> ProtocolError + unit" where
  "ControlHandshake_serializable h = unique_bounded (requested_operations h) (length Operation_ALL)"

definition parse_control_handshake ::
    "(string \<Rightarrow> raw option) \<Rightarrow> (Value \<Rightarrow> Operation list option) \<Rightarrow> string \<Rightarrow> ProtocolError + ControlHandshake" where
  "parse_control_handshake from_slice wire frame =
     and_then (decode from_slice frame) (\<lambda>value.
     and_then (typed wire value) (\<lambda>requested.
     and_then (unique_bounded requested (length Operation_ALL)) (\<lambda>_.
     Ok (ControlHandshake requested))))"

subsection \<open>Responses\<close>

datatype ResponseResult =
    Capabilities "CapabilityRecord list"
  | ResyncRequired Revision

datatype ResponseStatus =
    Ok_status "Revision option" ResponseResult
  | Error_status ProtocolError
  | AcceptedPending

record ResponseEnvelope =
  rsp_request_id :: RequestId
  rsp_response :: ResponseStatus

definition ResponseEnvelope_validate :: "ResponseEnvelope \<Rightarrow> ProtocolError + unit" where
  "ResponseEnvelope_validate r = (case rsp_response r of
     Ok_status _ (Capabilities capabilities) \<Rightarrow>
       and_then (unique_bounded (map cr_operation capabilities) (length Operation_ALL)) (\<lambda>_. Ok ())
   | _ \<Rightarrow> Ok ())"

definition parse_response ::
    "(string \<Rightarrow> raw option) \<Rightarrow> (Value \<Rightarrow> unit option) \<Rightarrow> (Value \<Rightarrow> RequestId option)
     \<Rightarrow> (Value \<Rightarrow> ResponseStatus option) \<Rightarrow> string \<Rightarrow> ProtocolError + ResponseEnvelope" where
  "parse_response from_slice version request_id status frame =
     and_then (decode from_slice frame) (\<lambda>value.
     and_then (ok_or InvalidFrame (as_object value)) (\<lambda>object.
     and_then (take_member version ''protocol'' object) (\<lambda>(_, object).
     and_then (take_member request_id ''request_id'' object) (\<lambda>(id, object).
     and_then (typed status (Object object)) (\<lambda>status.
       let response = \<lparr> rsp_request_id = id, rsp_response = status \<rparr> in
       and_then (ResponseEnvelope_validate response) (\<lambda>_. Ok response))))))"

subsection \<open>Facts\<close>

lemma Operation_ALL_set: "set Operation_ALL = UNIV" "distinct Operation_ALL" "length Operation_ALL = 12"
proof -
  have "op \<in> set Operation_ALL" for op by (cases op) (simp_all add: Operation_ALL_def)
  then show "set Operation_ALL = UNIV" by auto
qed (simp_all add: Operation_ALL_def)

lemma distinct_operations_length: "distinct (ops :: Operation list) \<Longrightarrow> length ops \<le> 12"
proof -
  assume d: "distinct ops"
  have "set ops \<subseteq> set Operation_ALL" by (simp only: Operation_ALL_set(1) subset_UNIV)
  from card_mono [OF finite_set this] have "card (set ops) \<le> card (set Operation_ALL)" .
  also have "\<dots> = 12" by (simp only: distinct_card Operation_ALL_set(2,3))
  finally show ?thesis using d by (simp add: distinct_card)
qed

text \<open>The bound of a list of operations is implied by its distinctness.\<close>

lemma unique_operations_Ok:
  "unique_bounded (ops :: Operation list) (length Operation_ALL) = Ok u \<longleftrightarrow> distinct ops"
  by (auto simp: unique_bounded_Ok Operation_ALL_set(3) dest: distinct_operations_length)

text \<open>A revision guard is present exactly on the stateful operations.\<close>

lemma stateful_guarded:
  "is_stateful (ControlRequest_operation r) \<longleftrightarrow> ControlRequest_expected_revision r \<noteq> None"
  by (cases "rq_request r")
     (simp_all add: is_stateful_def ControlRequest_operation_def ControlRequest_expected_revision_def)

lemma parse_control_handshake_Ok:
  "parse_control_handshake from_slice wire frame = Ok h \<Longrightarrow> distinct (requested_operations h)"
  by (auto simp: parse_control_handshake_def result_simps unique_operations_Ok)

lemma ResponseEnvelope_validate_Ok:
  "ResponseEnvelope_validate r = Ok u \<longleftrightarrow>
     (\<forall>rev cs. rsp_response r = Ok_status rev (Capabilities cs) \<longrightarrow> distinct (map cr_operation cs))"
  by (auto simp: ResponseEnvelope_validate_def result_simps unique_operations_Ok
      split: ResponseStatus.splits ResponseResult.splits)

text \<open>What a parsed control frame was: an object with the three members, version 0.\<close>

lemma take_member_Ok:
  "take_member f key members = Ok (x, rest) \<longleftrightarrow>
     (\<exists>v. map_of members key = Some v \<and> f v = Some x) \<and> rest = AList.delete key members"
  by (auto simp: take_member_def typed_def result_simps)

lemma parse_response_valid:
  "parse_response from_slice version request_id status frame = Ok r \<Longrightarrow>
     ResponseEnvelope_validate r = Ok ()"
  by (auto simp: parse_response_def result_simps Let_def split: prod.splits)

lemma PageSize_try_from_Ok:
  "PageSize_try_from n = Ok p \<longleftrightarrow> p = PageSize n \<and> 1 \<le> unat n \<and> unat n \<le> 100"
  by (auto simp: PageSize_try_from_def word_le_nat_alt)

end
