(* ===== verification/Framing.thy ===== *)
theory Framing
  imports Identity
begin

section \<open>IPC framing, peers and budgets (ipc/mod.rs, framing.rs, peer.rs, connection.rs)\<close>

text \<open>
  The bounded NDJSON transport. A stateful method returns the new state beside its result. The
  operating system is an argument: what one \<open>read\<close> or \<open>write\<close> call returned, whether a
  socket option could be set, which credentials the kernel reported. An \<open>Instant\<close> is a number
  of nanoseconds. Field prefixes: \<open>fd_\<close> \<open>FrameDecoder\<close>, \<open>oq_\<close> \<open>OutboundQueue\<close>, \<open>pc_\<close>
  \<open>PeerCredentials\<close>, \<open>cb_\<close> \<open>ConnectionBudget\<close>, \<open>cn_\<close> \<open>Connection\<close>.
\<close>

datatype Channel = Event | Control

datatype IpcError =
    UnsafePath | PermissionDenied | ResourceExhausted | FrameTooLarge | InvalidFrame
  | TruncatedFrame | DeadlineExceeded | Closed | Io

subsection \<open>UTF-8 (core::str::from_utf8)\<close>

definition continuation :: "char \<Rightarrow> bool" where
  "continuation c \<longleftrightarrow> 128 \<le> byte c \<and> byte c < 192"

text \<open>The admissible range of the second byte after each leading byte of a longer sequence.\<close>

definition second_ok :: "nat \<Rightarrow> char \<Rightarrow> bool" where
  "second_ok lead c \<longleftrightarrow> continuation c \<and>
     (lead = 224 \<longrightarrow> 160 \<le> byte c) \<and> (lead = 237 \<longrightarrow> byte c < 160) \<and>
     (lead = 240 \<longrightarrow> 144 \<le> byte c) \<and> (lead = 244 \<longrightarrow> byte c < 144)"

fun utf8_valid :: "string \<Rightarrow> bool" where
  "utf8_valid [] = True"
| "utf8_valid (a # cs) =
     (if byte a < 128 then utf8_valid cs
      else if byte a < 194 then False
      else if byte a < 224 then
        (case cs of b # rest \<Rightarrow> continuation b \<and> utf8_valid rest | [] \<Rightarrow> False)
      else if byte a < 240 then
        (case cs of b # c # rest \<Rightarrow> second_ok (byte a) b \<and> continuation c \<and> utf8_valid rest | _ \<Rightarrow> False)
      else if byte a < 245 then
        (case cs of b # c # d # rest \<Rightarrow>
           second_ok (byte a) b \<and> continuation c \<and> continuation d \<and> utf8_valid rest | _ \<Rightarrow> False)
      else False)"

subsection \<open>FrameDecoder\<close>

definition line_feed :: char where "line_feed = CHR 0x0A"
definition return_byte :: char where "return_byte = CHR 0x0D"

definition MAX_UNSENT_FRAMES :: nat where "MAX_UNSENT_FRAMES = 256"
definition MAX_UNSENT_BYTES :: nat where "MAX_UNSENT_BYTES = 1048576"

definition valid_frame :: "string \<Rightarrow> bool" where
  "valid_frame frame \<longleftrightarrow> 1 < length frame \<and> last frame = line_feed
     \<and> \<not> list_ex (\<lambda>b. b = line_feed \<or> b = return_byte) (take (length frame - 1) frame)
     \<and> utf8_valid frame"

record FrameDecoder =
  fd_partial :: string
  fd_closed :: bool

definition FrameDecoder_default :: FrameDecoder where
  "FrameDecoder_default = \<lparr> fd_partial = [], fd_closed = False \<rparr>"

definition decoder_close :: "FrameDecoder \<Rightarrow> FrameDecoder" where
  "decoder_close d = d\<lparr> fd_closed := True, fd_partial := [] \<rparr>"

definition feed :: "FrameDecoder \<Rightarrow> string \<Rightarrow> FrameDecoder \<times> (IpcError + (nat \<times> string option))" where
  "feed d bytes =
     (if fd_closed d then (d, Err Closed)
      else
        let room = MAX_FRAME_BYTES - length (fd_partial d);
            inspected = take (min (length bytes) room) bytes;
            newline = position (\<lambda>b. b = line_feed) inspected;
            consumed = (case newline of None \<Rightarrow> length inspected | Some index \<Rightarrow> index + 1);
            d = d\<lparr> fd_partial := fd_partial d @ take consumed inspected \<rparr>
        in if newline \<noteq> None then
             (if \<not> valid_frame (fd_partial d) then (decoder_close d, Err InvalidFrame)
              else (d\<lparr> fd_partial := [] \<rparr>, Ok (consumed, Some (fd_partial d))))
           else if length (fd_partial d) = MAX_FRAME_BYTES then (decoder_close d, Err FrameTooLarge)
           else (d, Ok (consumed, None)))"

definition finish :: "FrameDecoder \<Rightarrow> FrameDecoder \<times> (IpcError + unit)" where
  "finish d = (decoder_close d, if fd_partial d \<noteq> [] then Err TruncatedFrame else Ok ())"

definition has_partial :: "FrameDecoder \<Rightarrow> bool" where
  "has_partial d \<longleftrightarrow> fd_partial d \<noteq> []"

subsection \<open>OutboundQueue\<close>

record OutboundQueue =
  oq_frames :: "string list"
  oq_bytes :: nat
  oq_offset :: nat

definition OutboundQueue_default :: OutboundQueue where
  "OutboundQueue_default = \<lparr> oq_frames = [], oq_bytes = 0, oq_offset = 0 \<rparr>"

definition outbound_push :: "OutboundQueue \<Rightarrow> string \<Rightarrow> IpcError + OutboundQueue" where
  "outbound_push q frame =
     (if MAX_FRAME_BYTES < length frame then Err FrameTooLarge
      else if \<not> valid_frame frame then Err InvalidFrame
      else if length (oq_frames q) = MAX_UNSENT_FRAMES \<or> MAX_UNSENT_BYTES - oq_bytes q < length frame
      then Err ResourceExhausted
      else Ok (q\<lparr> oq_bytes := oq_bytes q + length frame, oq_frames := oq_frames q @ [frame] \<rparr>))"

definition outbound_front :: "OutboundQueue \<Rightarrow> string option" where
  "outbound_front q = (case oq_frames q of [] \<Rightarrow> None | frame # _ \<Rightarrow> Some (drop (oq_offset q) frame))"

definition advance :: "OutboundQueue \<Rightarrow> nat \<Rightarrow> OutboundQueue" where
  "advance q written =
     (let q = q\<lparr> oq_offset := oq_offset q + written \<rparr> in
      case oq_frames q of
        [] \<Rightarrow> q
      | frame # frames \<Rightarrow>
          if oq_offset q = length frame
          then q\<lparr> oq_frames := frames, oq_bytes := oq_bytes q - length frame, oq_offset := 0 \<rparr>
          else q)"

subsection \<open>The decoder as a scan of the byte stream\<close>

text \<open>
  A caller feeds what one read delivered until all of it is consumed (\<open>drain\<close>); the
  specification \<open>scan\<close> walks the stream byte by byte: which frames come out, and whether the
  stream is poisoned.
\<close>

function drain :: "FrameDecoder \<Rightarrow> string \<Rightarrow> FrameDecoder \<times> string list \<times> IpcError option" where
  "drain d bytes =
     (if bytes = [] then (d, [], None)
      else case feed d bytes of
        (d', Err e) \<Rightarrow> (d', [], Some e)
      | (d', Ok (consumed, frame)) \<Rightarrow>
          if consumed = 0 then (d', [], None)
          else case drain d' (drop consumed bytes) of
            (d'', frames, e) \<Rightarrow> (d'', (case frame of None \<Rightarrow> frames | Some f \<Rightarrow> f # frames), e))"
  by pat_completeness auto
termination by (relation "measure (\<lambda>(d, bytes). length bytes)") auto

declare drain.simps [simp del]

fun scan :: "string \<Rightarrow> string \<Rightarrow> string list \<times> IpcError option \<times> string" where
  "scan partial [] = ([], None, partial)"
| "scan partial (b # bs) =
     (let taken = partial @ [b] in
      if b = line_feed then
        (if valid_frame taken
         then (case scan [] bs of (frames, e, rest) \<Rightarrow> (taken # frames, e, rest))
         else ([], Some InvalidFrame, []))
      else if length taken = MAX_FRAME_BYTES then ([], Some FrameTooLarge, [])
      else scan taken bs)"

fun drain_all :: "FrameDecoder \<Rightarrow> string list \<Rightarrow> FrameDecoder \<times> string list \<times> IpcError option" where
  "drain_all d [] = (d, [], None)"
| "drain_all d (chunk # chunks) =
     (case drain d chunk of
        (d', frames, Some e) \<Rightarrow> (d', frames, Some e)
      | (d', frames, None) \<Rightarrow>
          (case drain_all d' chunks of (d'', rest, e) \<Rightarrow> (d'', frames @ rest, e)))"

subsection \<open>Decoding is chunk independent\<close>

definition decoder_open :: "FrameDecoder \<Rightarrow> bool" where
  "decoder_open d \<longleftrightarrow> \<not> fd_closed d \<and> length (fd_partial d) < MAX_FRAME_BYTES \<and> line_feed \<notin> set (fd_partial d)"

lemma default_open [simp]: "decoder_open FrameDecoder_default"
  by (simp add: decoder_open_def FrameDecoder_default_def MAX_FRAME_BYTES_def)

lemma position_split:
  "position (\<lambda>b. b = x) zs = Some i \<longleftrightarrow> (\<exists>xs ys. zs = xs @ x # ys \<and> x \<notin> set xs \<and> i = length xs)"
proof
  assume "position (\<lambda>b. b = x) zs = Some i"
  from position_Some [OF this] have i: "i < length zs" "zs ! i = x" "\<forall>j<i. zs ! j \<noteq> x" by auto
  then have "zs = take i zs @ x # drop (Suc i) zs" "x \<notin> set (take i zs)" "i = length (take i zs)"
    using id_take_nth_drop [of i zs] by (auto simp: in_set_conv_nth)
  then show "\<exists>xs ys. zs = xs @ x # ys \<and> x \<notin> set xs \<and> i = length xs" by blast
next
  assume "\<exists>xs ys. zs = xs @ x # ys \<and> x \<notin> set xs \<and> i = length xs"
  then obtain xs ys where "zs = xs @ x # ys" "x \<notin> set xs" "i = length xs" by blast
  moreover have "x \<notin> set xs \<Longrightarrow> position (\<lambda>b. b = x) (xs @ x # ys) = Some (length xs)" by (induction xs) auto
  ultimately show "position (\<lambda>b. b = x) zs = Some i" by simp
qed

lemma feed_frame:
  assumes "decoder_open d" and "line_feed \<notin> set xs" and "length (fd_partial d) + length xs < MAX_FRAME_BYTES"
  shows "feed d (xs @ line_feed # ys) =
    (let frame = fd_partial d @ xs @ [line_feed] in
     if valid_frame frame then (d\<lparr> fd_partial := [] \<rparr>, Ok (length xs + 1, Some frame))
     else (decoder_close d, Err InvalidFrame))"
proof -
  define room where "room = MAX_FRAME_BYTES - length (fd_partial d)"
  have room: "length xs < room" using assms by (simp add: room_def)
  define zs where "zs = take (room - length xs - 1) ys"
  have ins: "take (min (length (xs @ line_feed # ys)) room) (xs @ line_feed # ys) = xs @ line_feed # zs"
    using room by (cases "room - length xs") (auto simp: zs_def min_def)
  have pos: "position (\<lambda>b. b = line_feed) (xs @ line_feed # zs) = Some (length xs)"
    using assms(2) by (auto simp: position_split)
  show ?thesis
    using assms(1) unfolding feed_def room_def [symmetric] Let_def ins pos
    by (simp add: decoder_open_def decoder_close_def)
qed

lemma feed_overflow:
  assumes "decoder_open d" and "line_feed \<notin> set xs" and "length (fd_partial d) + length xs = MAX_FRAME_BYTES"
  shows "feed d (xs @ ys) = (decoder_close d, Err FrameTooLarge)"
proof -
  have room: "MAX_FRAME_BYTES - length (fd_partial d) = length xs" using assms by simp
  have ins: "take (min (length (xs @ ys)) (length xs)) (xs @ ys) = xs" by simp
  have pos: "position (\<lambda>b. b = line_feed) xs = None" using assms(2) by (auto simp: position_None)
  show ?thesis
    using assms unfolding feed_def room Let_def ins pos by (simp add: decoder_open_def decoder_close_def)
qed

lemma feed_partial:
  assumes "decoder_open d" and "line_feed \<notin> set xs" and "length (fd_partial d) + length xs < MAX_FRAME_BYTES"
  shows "feed d xs = (d\<lparr> fd_partial := fd_partial d @ xs \<rparr>, Ok (length xs, None))"
proof -
  have ins: "take (min (length xs) (MAX_FRAME_BYTES - length (fd_partial d))) xs = xs" using assms by simp
  have pos: "position (\<lambda>b. b = line_feed) xs = None" using assms(2) by (auto simp: position_None)
  show ?thesis
    using assms unfolding feed_def Let_def ins pos by (simp add: decoder_open_def)
qed

text \<open>Every input of an open decoder is of one of these three shapes.\<close>

lemma feed_shapes:
  assumes "decoder_open d"
  obtains (frame) xs ys where "bs = xs @ line_feed # ys" "line_feed \<notin> set xs"
      "length (fd_partial d) + length xs < MAX_FRAME_BYTES"
  | (overflow) xs ys where "bs = xs @ ys" "line_feed \<notin> set xs"
      "length (fd_partial d) + length xs = MAX_FRAME_BYTES"
  | (partial) "line_feed \<notin> set bs" "length (fd_partial d) + length bs < MAX_FRAME_BYTES"
proof -
  let ?room = "MAX_FRAME_BYTES - length (fd_partial d)"
  have lt: "length (fd_partial d) < MAX_FRAME_BYTES" using assms by (simp add: decoder_open_def)
  show ?thesis
  proof (cases "line_feed \<in> set (take ?room bs)")
    case True
    then obtain xs ys where split: "take ?room bs = xs @ line_feed # ys" and "line_feed \<notin> set xs"
      by (meson split_list_first)
    moreover have "length (xs @ line_feed # ys) \<le> ?room" by (simp flip: split)
    moreover have "bs = xs @ line_feed # (ys @ drop ?room bs)"
      using split append_take_drop_id [of ?room bs] by simp
    ultimately show ?thesis using frame lt by auto
  next
    case False
    show ?thesis
    proof (cases "?room \<le> length bs")
      case True
      then show ?thesis using overflow [of "take ?room bs" "drop ?room bs"] False lt by simp
    next
      case False
      then have "take ?room bs = bs" by simp
      with \<open>line_feed \<notin> set (take ?room bs)\<close> False lt partial show ?thesis by simp
    qed
  qed
qed

lemma scan_frame:
  "line_feed \<notin> set xs \<Longrightarrow> length partial + length xs < MAX_FRAME_BYTES \<Longrightarrow>
   scan partial (xs @ line_feed # ys) =
     (if valid_frame (partial @ xs @ [line_feed])
      then (case scan [] ys of (frames, e, rest) \<Rightarrow> ((partial @ xs @ [line_feed]) # frames, e, rest))
      else ([], Some InvalidFrame, []))"
  by (induction xs arbitrary: partial) (auto simp: Let_def)

lemma scan_overflow:
  "line_feed \<notin> set xs \<Longrightarrow> length partial < MAX_FRAME_BYTES \<Longrightarrow>
   length partial + length xs = MAX_FRAME_BYTES \<Longrightarrow> scan partial (xs @ ys) = ([], Some FrameTooLarge, [])"
proof (induction xs arbitrary: partial)
  case Nil
  then show ?case by simp
next
  case (Cons x xs)
  show ?case
  proof (cases "Suc (length partial) = MAX_FRAME_BYTES")
    case True
    with Cons.prems show ?thesis by (auto simp: Let_def)
  next
    case False
    with Cons.prems Cons.IH [of "partial @ [x]"] show ?thesis by (auto simp: Let_def)
  qed
qed

lemma scan_partial:
  "line_feed \<notin> set xs \<Longrightarrow> length partial + length xs < MAX_FRAME_BYTES \<Longrightarrow>
   scan partial xs = ([], None, partial @ xs)"
  by (induction xs arbitrary: partial) (auto simp: Let_def)

lemma drain_Nil [simp]: "drain d [] = (d, [], None)"
  by (subst drain.simps) simp

definition scan_result :: "string list \<times> IpcError option \<times> string \<Rightarrow> FrameDecoder \<times> string list \<times> IpcError option" where
  "scan_result r = (case r of (frames, e, rest) \<Rightarrow>
     (\<lparr> fd_partial = rest, fd_closed = (e \<noteq> None) \<rparr>, frames, e))"

lemma drain_scan: "decoder_open d \<Longrightarrow> drain d bs = scan_result (scan (fd_partial d) bs)"
proof (induction "length bs" arbitrary: d bs rule: less_induct)
  case less
  show ?case
  proof (rule feed_shapes [OF less.prems, of bs], goal_cases frame overflow partial)
    case (frame xs ys)
    note f = feed_frame [OF less.prems frame(2,3), of ys] and s = scan_frame [OF frame(2,3), of ys]
    have op: "decoder_open (d\<lparr> fd_partial := [] \<rparr>)"
      using less.prems by (simp add: decoder_open_def MAX_FRAME_BYTES_def)
    from less.hyps [OF _ op, of ys] frame have ih: "drain (d\<lparr> fd_partial := [] \<rparr>) ys = scan_result (scan [] ys)" by simp
    show ?thesis using less.prems
      by (subst drain.simps) (simp add: frame(1) f s Let_def ih scan_result_def decoder_close_def split: prod.splits)
  next
    case (overflow xs ys)
    then have "xs \<noteq> []" using less.prems by (auto simp: decoder_open_def)
    with overflow less.prems show ?thesis
      by (subst drain.simps) (simp add: feed_overflow scan_overflow scan_result_def decoder_close_def decoder_open_def)
  next
    case partial
    with less.prems show ?thesis
      by (subst drain.simps) (cases d; simp add: feed_partial scan_partial scan_result_def decoder_open_def)
  qed
qed

lemma scan_rest:
  "scan partial bs = (frames, None, rest) \<Longrightarrow> length partial < MAX_FRAME_BYTES \<Longrightarrow> line_feed \<notin> set partial \<Longrightarrow>
     length rest < MAX_FRAME_BYTES \<and> line_feed \<notin> set rest"
  by (induction partial bs arbitrary: frames rule: scan.induct)
     (auto simp: Let_def MAX_FRAME_BYTES_def split: if_splits prod.splits)

lemma scan_append:
  "scan partial (xs @ ys) = (case scan partial xs of
     (frames, Some e, rest) \<Rightarrow> (frames, Some e, rest)
   | (frames, None, rest) \<Rightarrow> (case scan rest ys of (fs, e, r) \<Rightarrow> (frames @ fs, e, r)))"
  by (induction partial xs rule: scan.induct) (auto simp: Let_def split: prod.splits option.splits)

lemma drain_append:
  assumes "decoder_open d"
  shows "drain d (xs @ ys) = (case drain d xs of
     (d', frames, Some e) \<Rightarrow> (d', frames, Some e)
   | (d', frames, None) \<Rightarrow> (case drain d' ys of (d'', rest, e) \<Rightarrow> (d'', frames @ rest, e)))"
proof -
  obtain frames e rest where s: "scan (fd_partial d) xs = (frames, e, rest)" by (cases "scan (fd_partial d) xs")
  show ?thesis
  proof (cases e)
    case None
    with s scan_rest [of "fd_partial d" xs frames rest] assms
    have "decoder_open \<lparr> fd_partial = rest, fd_closed = False \<rparr>" by (simp add: decoder_open_def)
    with assms s None show ?thesis
      by (simp add: drain_scan scan_append scan_result_def split: prod.splits)
  next
    case (Some x)
    with assms s show ?thesis by (simp add: drain_scan scan_append scan_result_def)
  qed
qed

lemma drain_open: "decoder_open d \<Longrightarrow> drain d bs = (d', frames, None) \<Longrightarrow> decoder_open d'"
  by (auto simp: drain_scan scan_result_def decoder_open_def dest!: scan_rest split: prod.splits)

lemma drain_all_concat: "decoder_open d \<Longrightarrow> drain_all d chunks = drain d (concat chunks)"
proof (induction chunks arbitrary: d)
  case Nil
  then show ?case by simp
next
  case (Cons chunk chunks)
  show ?case
    using Cons.IH drain_open [OF Cons.prems, of chunk]
    by (auto simp: drain_append [OF Cons.prems] split: prod.splits option.splits)
qed

text \<open>A stream that is a concatenation of valid frames decodes to exactly those frames.\<close>

lemma valid_frame_split: "valid_frame frame \<Longrightarrow> \<exists>xs. frame = xs @ [line_feed] \<and> line_feed \<notin> set xs \<and> xs \<noteq> []"
proof -
  assume v: "valid_frame frame"
  then obtain xs x where f: "frame = xs @ [x]" by (cases frame rule: rev_cases) (auto simp: valid_frame_def)
  with v show ?thesis by (auto simp: valid_frame_def list_ex_iff)
qed

lemma scan_frames:
  "\<forall>f\<in>set frames. valid_frame f \<and> length f \<le> MAX_FRAME_BYTES \<Longrightarrow> scan [] (concat frames) = (frames, None, [])"
proof (induction frames)
  case Nil
  then show ?case by simp
next
  case (Cons f frames)
  then obtain xs where f: "f = xs @ [line_feed]" "line_feed \<notin> set xs" using valid_frame_split by auto
  with Cons show ?case using scan_frame [of xs "[]" "concat frames"] by simp
qed

text \<open>Conversely, a stream that is not poisoned is its frames followed by the partial frame.\<close>

lemma scan_inverse:
  "scan partial bs = (frames, None, rest) \<Longrightarrow> partial @ bs = concat frames @ rest \<and>
     (\<forall>f\<in>set frames. valid_frame f)"
proof (induction partial bs arbitrary: frames rule: scan.induct)
  case (1 partial)
  then show ?case by simp
next
  case (2 partial b bs)
  show ?case
  proof (cases "b = line_feed")
    case True
    obtain fs e r where s: "scan [] bs = (fs, e, r)" by (cases "scan [] bs")
    from 2(3) True s have v: "valid_frame (partial @ [b])" and "e = None" "r = rest"
      and frames: "frames = (partial @ [b]) # fs"
      by (auto simp: Let_def split: if_splits)
    with 2(1) [OF refl True] s have "bs = concat fs @ rest \<and> (\<forall>f\<in>set fs. valid_frame f)" by simp
    with v frames show ?thesis by simp
  next
    case False
    from 2(3) False have "scan (partial @ [b]) bs = (frames, None, rest)"
      and "length (partial @ [b]) \<noteq> MAX_FRAME_BYTES"
      by (auto simp: Let_def simp del: length_append split: if_splits)
    with 2(2) [OF refl False] have "(partial @ [b]) @ bs = concat frames @ rest \<and> (\<forall>f\<in>set frames. valid_frame f)"
      by blast
    then show ?thesis by simp
  qed
qed

subsection \<open>The outbound queue\<close>

definition outbound_ok :: "OutboundQueue \<Rightarrow> bool" where
  "outbound_ok q \<longleftrightarrow> oq_bytes q = length (concat (oq_frames q)) \<and> oq_bytes q \<le> MAX_UNSENT_BYTES
     \<and> length (oq_frames q) \<le> MAX_UNSENT_FRAMES
     \<and> (\<forall>f\<in>set (oq_frames q). valid_frame f \<and> length f \<le> MAX_FRAME_BYTES)
     \<and> (case oq_frames q of [] \<Rightarrow> oq_offset q = 0 | f # _ \<Rightarrow> oq_offset q < length f)"

definition unsent :: "OutboundQueue \<Rightarrow> string" where
  "unsent q = drop (oq_offset q) (concat (oq_frames q))"

lemma outbound_default_ok [simp]: "outbound_ok OutboundQueue_default" "unsent OutboundQueue_default = []"
  by (simp_all add: outbound_ok_def OutboundQueue_default_def unsent_def)

lemma outbound_push_Ok:
  "outbound_push q frame = Ok q' \<longleftrightarrow> length frame \<le> MAX_FRAME_BYTES \<and> valid_frame frame
     \<and> length (oq_frames q) \<noteq> MAX_UNSENT_FRAMES \<and> length frame \<le> MAX_UNSENT_BYTES - oq_bytes q
     \<and> q' = q\<lparr> oq_bytes := oq_bytes q + length frame, oq_frames := oq_frames q @ [frame] \<rparr>"
  by (auto simp: outbound_push_def)

lemma outbound_push_ok:
  assumes "outbound_ok q" and "outbound_push q frame = Ok q'"
  shows "outbound_ok q'" and "unsent q' = unsent q @ frame"
proof -
  have "0 < length frame" using assms(2) by (auto simp: outbound_push_Ok valid_frame_def)
  with assms show "outbound_ok q'"
    by (auto simp: outbound_push_Ok outbound_ok_def split: list.splits)
  have "oq_offset q \<le> length (concat (oq_frames q))"
    using assms(1) by (auto simp: outbound_ok_def split: list.splits)
  with assms show "unsent q' = unsent q @ frame"
    by (auto simp: outbound_push_Ok unsent_def)
qed

lemma outbound_front_unsent:
  "outbound_ok q \<Longrightarrow> outbound_front q = None \<longleftrightarrow> oq_frames q = []"
  "outbound_front q = Some frame \<Longrightarrow> outbound_ok q \<Longrightarrow> frame \<noteq> [] \<and> (\<exists>rest. unsent q = frame @ rest)"
  by (auto simp: outbound_front_def unsent_def outbound_ok_def split: list.splits)

lemma advance_ok:
  assumes "outbound_ok q" and "outbound_front q = Some frame" and "written \<le> length frame"
  shows "outbound_ok (advance q written)" and "unsent (advance q written) = drop written (unsent q)"
proof -
  from assms obtain f fs where q: "oq_frames q = f # fs" and frame: "frame = drop (oq_offset q) f"
    by (auto simp: outbound_front_def split: list.splits)
  from assms q have lt: "oq_offset q < length f" by (simp add: outbound_ok_def)
  have nonempty: "\<forall>g\<in>set fs. 0 < length g"
    using assms(1) q by (auto simp: outbound_ok_def valid_frame_def)
  show "outbound_ok (advance q written)"
    using assms q frame lt nonempty
    by (auto simp: advance_def Let_def outbound_ok_def split: list.splits)
  show "unsent (advance q written) = drop written (unsent q)"
    using assms(3) q frame lt by (auto simp: advance_def Let_def unsent_def ac_simps)
qed

end
