(* ===== verification/Connection.thy ===== *)
theory Connection
  imports Framing
begin

section \<open>Connections, peers and the connection budget (ipc/connection.rs, ipc/peer.rs)\<close>

text \<open>
  A connection owns a decoder, an outbound queue, a 4096 byte read buffer and three deadlines.
  Each method makes at most one system call; its outcome is the argument of type \<open>Syscall\<close>. The
  budgets count connections through a shared cell: \<open>acquire\<close> increments it, dropping a permit
  (\<open>release\<close>) decrements it, on every early return of \<open>accept\<close> as well.
\<close>

subsection \<open>Peer credentials\<close>

record PeerCredentials =
  pc_uid :: u32
  pc_gid :: u32
  pc_pid :: u32

text \<open>\<open>u32::try_from(pid).ok().filter(..).ok_or(..)\<close> on the raw \<open>i32\<close>.\<close>

definition PeerCredentials_checked :: "int \<Rightarrow> u32 \<Rightarrow> u32 \<Rightarrow> IpcError + PeerCredentials" where
  "PeerCredentials_checked pid uid gid =
     and_then (ok_or PermissionDenied
       (case (if 0 \<le> pid then Some (of_int pid :: u32) else None) of
          None \<Rightarrow> None | Some value \<Rightarrow> if 0 < value then Some value else None))
       (\<lambda>pid. Ok \<lparr> pc_uid = uid, pc_gid = gid, pc_pid = pid \<rparr>)"

text \<open>\<open>credentials\<close> is what \<open>getsockopt\<close> reports: process, user and group.\<close>

definition PeerCredentials_read :: "(int \<times> u32 \<times> u32) option \<Rightarrow> IpcError + PeerCredentials" where
  "PeerCredentials_read credentials =
     and_then (ok_or Io credentials) (\<lambda>(pid, uid, gid). PeerCredentials_checked pid uid gid)"

definition require_uid :: "PeerCredentials \<Rightarrow> u32 \<Rightarrow> IpcError + unit" where
  "require_uid peer expected = (if pc_uid peer = expected then Ok () else Err PermissionDenied)"

subsection \<open>Budgets\<close>

definition MAX_CONNECTIONS :: nat where "MAX_CONNECTIONS = 64"
definition FORWARD_LIMIT :: nat where "FORWARD_LIMIT = 100000000"

record ConnectionBudget =
  cb_active :: nat
  cb_limit :: nat

definition ConnectionBudget_new :: "nat \<Rightarrow> IpcError + ConnectionBudget" where
  "ConnectionBudget_new limit =
     (if \<not> (1 \<le> limit \<and> limit \<le> MAX_CONNECTIONS) then Err ResourceExhausted
      else Ok \<lparr> cb_active = 0, cb_limit = limit \<rparr>)"

definition acquire :: "ConnectionBudget \<Rightarrow> IpcError + ConnectionBudget" where
  "acquire budget =
     (if cb_limit budget \<le> cb_active budget then Err ResourceExhausted
      else Ok (budget\<lparr> cb_active := cb_active budget + 1 \<rparr>))"

definition release :: "ConnectionBudget \<Rightarrow> ConnectionBudget" where
  "release budget = budget\<lparr> cb_active := cb_active budget - 1 \<rparr>"

subsection \<open>Connection\<close>

datatype 'a Syscall = Done 'a | WouldBlock | Interrupted | Failed

record Connection =
  cn_peer :: PeerCredentials
  cn_channel :: Channel
  cn_decoder :: FrameDecoder
  cn_outgoing :: OutboundQueue
  cn_pending :: string
  cn_offset :: nat
  cn_available :: nat
  cn_handshake_deadline :: "nat option"
  cn_frame_deadline :: "nat option"
  cn_write_deadline :: "nat option"
  cn_closed :: bool

text \<open>
  The two permits are taken first and dropped when a later step fails. The result is the state
  of both cells and the connection or error.
\<close>

definition accept ::
    "(int \<times> u32 \<times> u32) option \<Rightarrow> bool \<Rightarrow> bool \<Rightarrow> Channel \<Rightarrow> u32 \<Rightarrow> ConnectionBudget \<Rightarrow> ConnectionBudget
     \<Rightarrow> nat \<Rightarrow> nat \<Rightarrow> ConnectionBudget \<times> ConnectionBudget \<times> (IpcError + Connection)" where
  "accept credentials sndbuf_set nonblocking_set channel expected_uid budget manager_budget deadline now =
     (case acquire budget of
        Err e \<Rightarrow> (budget, manager_budget, Err e)
      | Ok held \<Rightarrow> (case acquire manager_budget of
          Err e \<Rightarrow> (release held, manager_budget, Err e)
        | Ok manager_held \<Rightarrow>
            (case and_then (PeerCredentials_read credentials) (\<lambda>peer.
                  and_then (require_uid peer expected_uid) (\<lambda>_.
                  and_then (ensure sndbuf_set Io) (\<lambda>_.
                  and_then (ensure nonblocking_set Io) (\<lambda>_. Ok peer)))) of
               Err e \<Rightarrow> (release held, release manager_held, Err e)
             | Ok peer \<Rightarrow> (held, manager_held, Ok \<lparr> cn_peer = peer, cn_channel = channel,
                 cn_decoder = FrameDecoder_default, cn_outgoing = OutboundQueue_default,
                 cn_pending = replicate 4096 (CHR 0x00), cn_offset = 0, cn_available = 0,
                 cn_handshake_deadline = Some (min deadline (now + FORWARD_LIMIT)),
                 cn_frame_deadline = None, cn_write_deadline = None, cn_closed = False \<rparr>))))"

definition connection_close :: "Connection \<Rightarrow> Connection" where
  "connection_close c = c\<lparr> cn_closed := True, cn_outgoing := OutboundQueue_default \<rparr>"

definition deadlines :: "Connection \<Rightarrow> nat list" where
  "deadlines c = List.map_filter id [cn_handshake_deadline c, cn_frame_deadline c, cn_write_deadline c]"

definition check_deadlines :: "Connection \<Rightarrow> nat \<Rightarrow> Connection \<times> (IpcError + unit)" where
  "check_deadlines c now =
     (if cn_closed c then (c, Err Closed)
      else if list_ex (\<lambda>deadline. deadline \<le> now) (deadlines c)
      then (connection_close c, Err DeadlineExceeded)
      else (c, Ok ()))"

definition complete_handshake :: "Connection \<Rightarrow> nat \<Rightarrow> Connection \<times> (IpcError + unit)" where
  "complete_handshake c now = try_st (check_deadlines c now) (\<lambda>c _. (c\<lparr> cn_handshake_deadline := None \<rparr>, Ok ()))"

text \<open>The part of \<open>read_frame\<close> after the buffer was filled: decode one frame of it.\<close>

definition buffered :: "Connection \<Rightarrow> string" where
  "buffered c = drop (cn_offset c) (take (cn_available c) (cn_pending c))"

definition decode_buffer :: "Connection \<Rightarrow> nat \<Rightarrow> Connection \<times> (IpcError + string option)" where
  "decode_buffer c now = (case feed (cn_decoder c) (buffered c) of
     (decoder, Err e) \<Rightarrow> (connection_close (c\<lparr> cn_decoder := decoder \<rparr>), Err e)
   | (decoder, Ok (consumed, frame)) \<Rightarrow>
       let frame_deadline = (if frame \<noteq> None then None else cn_frame_deadline c);
           frame_deadline = (if has_partial decoder \<and> frame_deadline = None
             then Some (now + FORWARD_LIMIT) else frame_deadline)
       in (c\<lparr> cn_decoder := decoder, cn_offset := cn_offset c + consumed,
             cn_frame_deadline := frame_deadline \<rparr>, Ok frame))"

definition read_frame :: "Connection \<Rightarrow> nat \<Rightarrow> string Syscall \<Rightarrow> Connection \<times> (IpcError + string option)" where
  "read_frame c now read = try_st (check_deadlines c now) (\<lambda>c _.
       if cn_offset c = cn_available c then
         (case read of
            Done [] \<Rightarrow>
              (case finish (cn_decoder c) of (decoder, result) \<Rightarrow>
                 (connection_close (c\<lparr> cn_decoder := decoder \<rparr>), and_then result (\<lambda>_. Err Closed)))
          | Done (b # bs) \<Rightarrow>
              decode_buffer (c\<lparr> cn_pending := (b # bs) @ drop (length (b # bs)) (cn_pending c),
                cn_offset := 0, cn_available := length (b # bs) \<rparr>) now
          | WouldBlock \<Rightarrow> (c, Ok None)
          | Interrupted \<Rightarrow> (c, Ok None)
          | Failed \<Rightarrow> (connection_close c, Err Io))
       else decode_buffer c now)"

definition queue_frame :: "Connection \<Rightarrow> nat \<Rightarrow> string \<Rightarrow> Connection \<times> (IpcError + unit)" where
  "queue_frame c now frame = try_st (check_deadlines c now) (\<lambda>c _. (case outbound_push (cn_outgoing c) frame of
       Err e \<Rightarrow> (if e = ResourceExhausted then connection_close c else c, Err e)
     | Ok outgoing \<Rightarrow>
         let c = c\<lparr> cn_outgoing := outgoing \<rparr> in
         (if cn_write_deadline c = None
          then c\<lparr> cn_write_deadline := Some (now + FORWARD_LIMIT) \<rparr> else c, Ok ())))"

definition flush :: "Connection \<Rightarrow> nat \<Rightarrow> nat Syscall \<Rightarrow> Connection \<times> (IpcError + bool)" where
  "flush c now write = try_st (check_deadlines c now) (\<lambda>c _. (case outbound_front (cn_outgoing c) of
       None \<Rightarrow> (c, Ok True)
     | Some frame \<Rightarrow> (case write of
         Done written \<Rightarrow>
           if written = 0 then (connection_close c, Err Closed)
           else
             let c = c\<lparr> cn_outgoing := advance (cn_outgoing c) written \<rparr>;
                 empty = (length (oq_frames (cn_outgoing c)) = 0);
                 c = (if empty then c\<lparr> cn_write_deadline := None \<rparr> else c)
             in (c, Ok empty)
       | WouldBlock \<Rightarrow> (c, Ok False)
       | Interrupted \<Rightarrow> (c, Ok False)
       | Failed \<Rightarrow> (connection_close c, Err Io))))"

subsection \<open>Invariant\<close>

definition connection_ok :: "Connection \<Rightarrow> bool" where
  "connection_ok c \<longleftrightarrow>
     (\<not> cn_closed c \<longrightarrow> decoder_open (cn_decoder c)) \<and> length (fd_partial (cn_decoder c)) < MAX_FRAME_BYTES
     \<and> outbound_ok (cn_outgoing c)
     \<and> cn_offset c \<le> cn_available c \<and> cn_available c \<le> 4096 \<and> length (cn_pending c) = 4096
     \<and> (\<not> cn_closed c \<and> has_partial (cn_decoder c) \<longrightarrow> cn_frame_deadline c \<noteq> None)
     \<and> (\<not> cn_closed c \<and> oq_frames (cn_outgoing c) \<noteq> [] \<longrightarrow> cn_write_deadline c \<noteq> None)
     \<and> (cn_closed c \<longrightarrow> cn_outgoing c = OutboundQueue_default)"

text \<open>What the kernel may answer: at most a buffer of bytes, at most the bytes offered.\<close>

definition read_fits :: "string Syscall \<Rightarrow> bool" where
  "read_fits r = (case r of Done bytes \<Rightarrow> length bytes \<le> 4096 | _ \<Rightarrow> True)"

definition write_fits :: "Connection \<Rightarrow> nat Syscall \<Rightarrow> bool" where
  "write_fits c r = (case r of
     Done n \<Rightarrow> (case outbound_front (cn_outgoing c) of None \<Rightarrow> True | Some frame \<Rightarrow> n \<le> length frame)
   | _ \<Rightarrow> True)"

lemma close_ok: "connection_ok c \<Longrightarrow> connection_ok (connection_close c)"
  by (auto simp: connection_ok_def connection_close_def)

lemma connection_close_closed [simp]: "cn_closed (connection_close c)"
  by (simp add: connection_close_def)

lemma check_deadlines_cases:
  "check_deadlines c now = (c', r) \<longleftrightarrow>
     (if cn_closed c then c' = c \<and> r = Err Closed
      else if \<exists>d\<in>set (deadlines c). d \<le> now then c' = connection_close c \<and> r = Err DeadlineExceeded
      else c' = c \<and> r = Ok ())"
  by (auto simp: check_deadlines_def list_ex_iff)

lemma feed_ok:
  assumes "decoder_open d"
  shows "case feed d bs of
     (d', Err e) \<Rightarrow> fd_closed d' \<and> fd_partial d' = []
   | (d', Ok (consumed, frame)) \<Rightarrow> decoder_open d' \<and> consumed \<le> length bs
       \<and> (case frame of
            None \<Rightarrow> fd_partial d' = fd_partial d @ take consumed bs
          | Some f \<Rightarrow> f = fd_partial d @ take consumed bs \<and> fd_partial d' = [] \<and> valid_frame f
              \<and> length f \<le> MAX_FRAME_BYTES)
       \<and> (frame = None \<longrightarrow> consumed = length bs)"
  using assms
proof (rule feed_shapes [of d bs], goal_cases frame overflow partial)
  case (frame xs ys)
  then show ?case using feed_frame [OF assms frame(2,3), of ys] assms
    by (auto simp: Let_def decoder_close_def decoder_open_def MAX_FRAME_BYTES_def)
next
  case (overflow xs ys)
  then show ?case using feed_overflow [OF assms overflow(2,3), of ys] assms
    by (auto simp: decoder_close_def)
next
  case partial
  then show ?case using feed_partial [OF assms partial(1,2)] assms
    by (auto simp: decoder_open_def)
qed

lemma decode_buffer_ok:
  assumes "connection_ok c" and "\<not> cn_closed c" and "decode_buffer c now = (c', r)"
  shows "connection_ok c'"
proof -
  have op: "decoder_open (cn_decoder c)" using assms(1,2) by (simp add: connection_ok_def)
  obtain d' out where feed: "feed (cn_decoder c) (buffered c) = (d', out)"
    by (cases "feed (cn_decoder c) (buffered c)")
  show ?thesis
  proof (cases out)
    case (Inl e)
    with assms feed feed_ok [OF op, of "buffered c"] show ?thesis
      by (auto simp: decode_buffer_def connection_ok_def connection_close_def MAX_FRAME_BYTES_def)
  next
    case (Inr res)
    obtain consumed frame where res: "res = (consumed, frame)" by (cases res)
    from feed_ok [OF op, of "buffered c"] feed Inr res
    have d': "decoder_open d'" and len: "consumed \<le> length (buffered c)" by simp_all
    have "length (buffered c) = cn_available c - cn_offset c"
      using assms(1) by (simp add: buffered_def connection_ok_def)
    moreover have "cn_offset c \<le> cn_available c" using assms(1) by (simp add: connection_ok_def)
    ultimately have "cn_offset c + consumed \<le> cn_available c" using len by linarith
    with assms d' feed Inr res show ?thesis
      by (auto simp: decode_buffer_def Let_def connection_ok_def decoder_open_def)
  qed
qed

lemma check_deadlines_ok:
  assumes "connection_ok c" and "check_deadlines c now = (c', r)"
  shows "connection_ok c'"
  using assms by (auto simp: check_deadlines_cases close_ok split: if_splits)

lemma check_deadlines_pass:
  "check_deadlines c now = (c', Ok u) \<Longrightarrow> c' = c \<and> \<not> cn_closed c"
  by (auto simp: check_deadlines_cases split: if_splits)

lemma read_frame_ok:
  assumes ok: "connection_ok c" and "read_fits read" and "read_frame c now read = (c', r)"
  shows "connection_ok c'"
  using assms(3) unfolding read_frame_def
proof (cases rule: try_st_cases)
  case (error e)
  with check_deadlines_ok [OF ok] show ?thesis by blast
next
  case (step d u)
  from check_deadlines_pass [OF step(1)] have d: "d = c" and op: "\<not> cn_closed c" by blast+
  show ?thesis
  proof (cases "cn_offset c = cn_available c")
    case False
    with step d have "decode_buffer c now = (c', r)" by simp
    with ok op show ?thesis by (rule decode_buffer_ok)
  next
    case True
    show ?thesis
    proof (cases read)
      case (Done bs)
      show ?thesis
      proof (cases bs)
        case Nil
        have "connection_ok (connection_close (c\<lparr> cn_decoder := decoder_close x \<rparr>))" for x
          using ok by (auto simp: connection_ok_def connection_close_def decoder_close_def MAX_FRAME_BYTES_def)
        with step d True Done Nil show ?thesis by (auto simp: finish_def)
      next
        case (Cons b bs')
        have fill: "connection_ok (c\<lparr> cn_pending := bs @ drop (length bs) (cn_pending c), cn_offset := 0,
            cn_available := length bs \<rparr>)"
          using ok assms(2) Done by (auto simp: connection_ok_def read_fits_def)
        from step d True Done Cons
        have "decode_buffer (c\<lparr> cn_pending := bs @ drop (length bs) (cn_pending c), cn_offset := 0,
            cn_available := length bs \<rparr>) now = (c', r)" by simp
        from decode_buffer_ok [OF fill _ this] op show ?thesis by simp
      qed
    qed (use step d True ok close_ok [OF ok] in auto)
  qed
qed

lemma complete_handshake_ok:
  assumes ok: "connection_ok c" and "complete_handshake c now = (c', r)"
  shows "connection_ok c'"
  using assms(2) unfolding complete_handshake_def
proof (cases rule: try_st_cases)
  case (error e)
  with check_deadlines_ok [OF ok] show ?thesis by blast
next
  case (step d u)
  with check_deadlines_pass [OF step(1)] ok show ?thesis by (auto simp: connection_ok_def)
qed

lemma queue_frame_ok:
  assumes ok: "connection_ok c" and "queue_frame c now frame = (c', r)"
  shows "connection_ok c'"
  using assms(2) unfolding queue_frame_def
proof (cases rule: try_st_cases)
  case (error e)
  with check_deadlines_ok [OF ok] show ?thesis by blast
next
  case (step d u)
  from check_deadlines_pass [OF step(1)] have d: "d = c" and op: "\<not> cn_closed c" by blast+
  show ?thesis
  proof (cases "outbound_push (cn_outgoing c) frame")
    case (Inl e)
    with step d ok close_ok [OF ok] show ?thesis by (auto split: if_splits)
  next
    case (Inr q)
    from ok have "outbound_ok (cn_outgoing c)" by (simp add: connection_ok_def)
    from outbound_push_ok(1) [OF this Inr] step d Inr ok op show ?thesis
      by (auto simp: Let_def connection_ok_def split: if_splits)
  qed
qed

lemma flush_ok:
  assumes ok: "connection_ok c" and "write_fits c write" and "flush c now write = (c', r)"
  shows "connection_ok c'"
  using assms(3) unfolding flush_def
proof (cases rule: try_st_cases)
  case (error e)
  with check_deadlines_ok [OF ok] show ?thesis by blast
next
  case (step d u)
  from check_deadlines_pass [OF step(1)] have d: "d = c" and op: "\<not> cn_closed c" by blast+
  show ?thesis
  proof (cases "outbound_front (cn_outgoing c)")
    case None
    with step d ok show ?thesis by simp
  next
    case (Some frame)
    from ok have q: "outbound_ok (cn_outgoing c)" by (simp add: connection_ok_def)
    show ?thesis
    proof (cases "write")
      case (Done n)
      with assms(2) Some have "n \<le> length frame" by (simp add: write_fits_def)
      from advance_ok(1) [OF q Some this] have adv: "outbound_ok (advance (cn_outgoing c) n)" .
      have "cn_write_deadline c \<noteq> None"
        using ok op Some by (auto simp: connection_ok_def outbound_front_def split: list.splits)
      with adv ok op have "connection_ok (c\<lparr> cn_outgoing := advance (cn_outgoing c) n \<rparr>)"
        by (simp add: connection_ok_def)
      moreover have "oq_frames (advance (cn_outgoing c) n) = [] \<Longrightarrow>
          connection_ok (c\<lparr> cn_outgoing := advance (cn_outgoing c) n, cn_write_deadline := None \<rparr>)"
        using adv ok op by (simp add: connection_ok_def)
      ultimately show ?thesis
        using step d Some Done close_ok [OF ok] by (auto simp: Let_def split: if_splits)
    qed (use step d Some ok close_ok [OF ok] in auto)
  qed
qed

subsection \<open>No byte is lost\<close>

text \<open>The input a connection holds and has not handed out: the partial frame, then the buffer.\<close>

definition held :: "Connection \<Rightarrow> string" where
  "held c = fd_partial (cn_decoder c) @ buffered c"

definition delivered :: "Connection \<Rightarrow> string Syscall \<Rightarrow> string" where
  "delivered c read = (if cn_offset c = cn_available c then (case read of Done bytes \<Rightarrow> bytes | _ \<Rightarrow> []) else [])"

lemma decode_buffer_held:
  assumes "connection_ok c" and "\<not> cn_closed c" and "decode_buffer c now = (c', Ok frame)"
  shows "held c = (case frame of None \<Rightarrow> [] | Some f \<Rightarrow> f) @ held c'"
    and "\<And>f. frame = Some f \<Longrightarrow> valid_frame f \<and> length f \<le> MAX_FRAME_BYTES"
proof -
  have op: "decoder_open (cn_decoder c)" using assms(1,2) by (simp add: connection_ok_def)
  obtain d' out where feed: "feed (cn_decoder c) (buffered c) = (d', out)"
    by (cases "feed (cn_decoder c) (buffered c)")
  with assms(3) obtain consumed where out: "out = Ok (consumed, frame)"
    by (auto simp: decode_buffer_def Let_def split: sum.splits)
  note f = feed_ok [OF op, of "buffered c", unfolded feed out, simplified]
  from assms(3) feed out have c': "cn_decoder c' = d'" "cn_offset c' = cn_offset c + consumed"
      "cn_available c' = cn_available c" "cn_pending c' = cn_pending c"
    by (auto simp: decode_buffer_def Let_def)
  have "buffered c' = drop consumed (buffered c)"
    by (simp add: buffered_def c' add.commute)
  with f c' show "held c = (case frame of None \<Rightarrow> [] | Some f \<Rightarrow> f) @ held c'"
    by (cases frame) (auto simp: held_def)
  show "\<And>f. frame = Some f \<Longrightarrow> valid_frame f \<and> length f \<le> MAX_FRAME_BYTES" using f by auto
qed

lemma read_frame_held:
  assumes ok: "connection_ok c" and fits: "read_fits read" and "read_frame c now read = (c', Ok frame)"
  shows "held c @ delivered c read = (case frame of None \<Rightarrow> [] | Some f \<Rightarrow> f) @ held c'
     \<and> (\<forall>f. frame = Some f \<longrightarrow> valid_frame f \<and> length f \<le> MAX_FRAME_BYTES)"
proof -
  from assms(3) obtain d u where chk: "check_deadlines c now = (d, Ok u)"
    by (auto simp: read_frame_def try_st_Ok)
  from check_deadlines_pass [OF chk] have d: "d = c" and op: "\<not> cn_closed c" by auto
  show ?thesis
  proof (cases "cn_offset c = cn_available c")
    case False
    with assms(3) chk d have "decode_buffer c now = (c', Ok frame)" by (simp add: read_frame_def)
    from decode_buffer_held [OF ok op this] False show ?thesis by (simp add: delivered_def)
  next
    case True
    then have b: "buffered c = []" by (simp add: buffered_def)
    show ?thesis
    proof (cases read)
      case (Done bs)
      show ?thesis
      proof (cases bs)
        case Nil
        with assms(3) chk d True Done show ?thesis
          by (auto simp: read_frame_def finish_def result_simps split: if_splits)
      next
        case (Cons x xs)
        let ?c = "c\<lparr> cn_pending := bs @ drop (length bs) (cn_pending c), cn_offset := 0, cn_available := length bs \<rparr>"
        have fill: "connection_ok ?c" using ok fits Done by (auto simp: connection_ok_def read_fits_def)
        from assms(3) chk d True Done Cons have "decode_buffer ?c now = (c', Ok frame)"
          by (simp add: read_frame_def)
        from decode_buffer_held [OF fill _ this] op have
          "held ?c = (case frame of None \<Rightarrow> [] | Some f \<Rightarrow> f) @ held c'"
          "\<And>f. frame = Some f \<Longrightarrow> valid_frame f \<and> length f \<le> MAX_FRAME_BYTES" by simp_all
        moreover have "held ?c = held c @ bs" using b by (simp add: held_def buffered_def)
        ultimately show ?thesis using True Done by (simp add: delivered_def)
      qed
    qed (use assms(3) chk d True in \<open>auto simp: read_frame_def delivered_def\<close>)
  qed
qed

subsection \<open>Deadlines\<close>

lemma deadlines_mem: "d \<in> set (deadlines c) \<longleftrightarrow>
    cn_handshake_deadline c = Some d \<or> cn_frame_deadline c = Some d \<or> cn_write_deadline c = Some d"
  by (auto simp: deadlines_def List.map_filter_def)

lemma decode_buffer_deadline:
  assumes "connection_ok c" and "\<not> cn_closed c" and "decode_buffer c now = (c', Ok None)"
    and "cn_frame_deadline c = Some d"
  shows "cn_frame_deadline c' = Some d"
  using assms by (auto simp: decode_buffer_def Let_def split: prod.splits sum.splits)

lemma partial_deadline_kept:
  assumes ok: "connection_ok c" and "cn_frame_deadline c = Some d" and fits: "read_fits read"
    and read: "read_frame c now read = (c', Ok None)"
  shows "cn_frame_deadline c' = Some d"
proof -
  from read obtain e u where chk: "check_deadlines c now = (e, Ok u)"
    by (auto simp: read_frame_def try_st_Ok)
  from check_deadlines_pass [OF chk] have e: "e = c" and op: "\<not> cn_closed c" by auto
  have db: "decode_buffer x now = (c', Ok None) \<Longrightarrow> cn_frame_deadline x = Some d \<Longrightarrow> cn_frame_deadline c' = Some d" for x
    by (auto simp: decode_buffer_def Let_def split: prod.splits sum.splits)
  from read chk e assms(2) show ?thesis
    by (auto simp: read_frame_def finish_def result_simps intro: db split: if_splits Syscall.splits list.splits)
qed

text \<open>A deadline is armed at most \<open>FORWARD_LIMIT\<close> after the call that arms it.\<close>

definition armed_by :: "Connection \<Rightarrow> nat \<Rightarrow> bool" where
  "armed_by c now \<longleftrightarrow> (\<forall>d\<in>set (deadlines c). d \<le> now + FORWARD_LIMIT)"

lemma close_deadlines [simp]: "deadlines (connection_close c) = deadlines c"
  unfolding deadlines_def connection_close_def by simp

lemma check_deadlines_armed:
  "check_deadlines c now = (c', r) \<Longrightarrow> deadlines c' = deadlines c"
  by (auto simp: check_deadlines_cases split: if_splits)

lemma armed_mono: "armed_by c now \<Longrightarrow> now \<le> later \<Longrightarrow> armed_by c later"
  by (fastforce simp: armed_by_def)

lemma decode_buffer_armed: "armed_by c now \<Longrightarrow> decode_buffer c now = (c', r) \<Longrightarrow> armed_by c' now"
  by (auto simp: decode_buffer_def Let_def armed_by_def deadlines_mem connection_close_def
      split: prod.splits sum.splits if_splits)

lemma read_frame_armed:
  assumes "armed_by c now" and "read_frame c now read = (c', r)"
  shows "armed_by c' now"
  using assms(2) unfolding read_frame_def
proof (cases rule: try_st_cases)
  case (error e)
  with check_deadlines_armed [OF error(1)] assms(1) show ?thesis by (simp add: armed_by_def)
next
  case (step d u)
  from check_deadlines_pass [OF step(1)] have d: "d = c" by simp
  have upd: "armed_by (c\<lparr> cn_pending := p, cn_offset := i, cn_available := a \<rparr>) now"
     "armed_by (connection_close c) now" "armed_by (connection_close (c\<lparr> cn_decoder := x \<rparr>)) now" for p i a x
    using assms(1) by (simp_all add: armed_by_def deadlines_mem connection_close_def)
  from step(2) d assms(1) upd show ?thesis
    by (auto simp: finish_def intro: decode_buffer_armed split: if_splits Syscall.splits list.splits)
qed

lemma queue_frame_armed:
  assumes "armed_by c now" and "queue_frame c now frame = (c', r)"
  shows "armed_by c' now"
  using assms(2) unfolding queue_frame_def
proof (cases rule: try_st_cases)
  case (error e)
  with check_deadlines_armed [OF error(1)] assms(1) show ?thesis by (simp add: armed_by_def)
next
  case (step d u)
  from check_deadlines_pass [OF step(1)] have d: "d = c" by simp
  from step(2) d assms(1) show ?thesis
    by (auto simp: armed_by_def deadlines_mem connection_close_def Let_def split: sum.splits if_splits)
qed

lemma flush_armed:
  assumes "armed_by c now" and "flush c now write = (c', r)"
  shows "armed_by c' now"
  using assms(2) unfolding flush_def
proof (cases rule: try_st_cases)
  case (error e)
  with check_deadlines_armed [OF error(1)] assms(1) show ?thesis by (simp add: armed_by_def)
next
  case (step d u)
  from check_deadlines_pass [OF step(1)] have d: "d = c" by simp
  from step(2) d assms(1) show ?thesis
    by (auto simp: armed_by_def deadlines_mem connection_close_def Let_def
        split: option.splits Syscall.splits if_splits)
qed

lemma complete_handshake_armed:
  assumes "armed_by c now" and "complete_handshake c now = (c', r)"
  shows "armed_by c' now"
  using assms(2) unfolding complete_handshake_def
proof (cases rule: try_st_cases)
  case (error e)
  with check_deadlines_armed [OF error(1)] assms(1) show ?thesis by (simp add: armed_by_def)
next
  case (step d u)
  from check_deadlines_pass [OF step(1)] have d: "d = c" by simp
  from step(2) d assms(1) show ?thesis by (auto simp: armed_by_def deadlines_mem)
qed

subsection \<open>Reachable connections\<close>

text \<open>The states of an accepted connection under calls at nondecreasing times.\<close>

inductive served :: "Connection \<Rightarrow> nat \<Rightarrow> bool" where
  accepted: "accept credentials sndbuf nonblocking channel uid b m deadline now = (b', m', Ok c) \<Longrightarrow> served c now"
| handshake: "served c t \<Longrightarrow> t \<le> now \<Longrightarrow> complete_handshake c now = (c', r) \<Longrightarrow> served c' now"
| read: "served c t \<Longrightarrow> t \<le> now \<Longrightarrow> read_fits input \<Longrightarrow> read_frame c now input = (c', r2) \<Longrightarrow> served c' now"
| queue: "served c t \<Longrightarrow> t \<le> now \<Longrightarrow> queue_frame c now frame = (c', r) \<Longrightarrow> served c' now"
| flush: "served c t \<Longrightarrow> t \<le> now \<Longrightarrow> write_fits c output \<Longrightarrow> flush c now output = (c', r3) \<Longrightarrow> served c' now"

lemma accept_Ok:
  assumes "accept credentials sndbuf nonblocking channel uid b m deadline now = (b', m', Ok c)"
  shows "acquire b = Ok b'" and "acquire m = Ok m'" and "cn_channel c = channel" and "pc_uid (cn_peer c) = uid"
    and "0 < unat (pc_pid (cn_peer c))" and "connection_ok c" and "armed_by c now"
    and "cn_handshake_deadline c \<noteq> None"
proof -
  from assms obtain peer where a: "acquire b = Ok b'" "acquire m = Ok m'"
    and p: "PeerCredentials_read credentials = Ok peer" "require_uid peer uid = Ok ()"
    and c: "c = \<lparr> cn_peer = peer, cn_channel = channel,
                 cn_decoder = FrameDecoder_default, cn_outgoing = OutboundQueue_default,
                 cn_pending = replicate 4096 (CHR 0x00), cn_offset = 0, cn_available = 0,
                 cn_handshake_deadline = Some (min deadline (now + FORWARD_LIMIT)),
                 cn_frame_deadline = None, cn_write_deadline = None, cn_closed = False \<rparr>"
    by (auto simp: accept_def result_simps split: sum.splits)
  then show "acquire b = Ok b'" "acquire m = Ok m'" "cn_channel c = channel" "pc_uid (cn_peer c) = uid"
    by (auto simp: require_uid_def split: if_splits)
  show "0 < unat (pc_pid (cn_peer c))"
    using p c by (auto simp: PeerCredentials_read_def PeerCredentials_checked_def result_simps unat_gt_0
        word_gt_0 split: if_splits option.splits)
  show "connection_ok c" using c
    by (simp add: connection_ok_def)
      (simp add: has_partial_def FrameDecoder_default_def OutboundQueue_default_def MAX_FRAME_BYTES_def)
  show "armed_by c now" "cn_handshake_deadline c \<noteq> None" using c by (auto simp: armed_by_def deadlines_mem)
qed

lemma served_ok: "served c t \<Longrightarrow> connection_ok c \<and> armed_by c t"
proof (induction rule: served.induct)
  case (accepted credentials sndbuf nonblocking channel uid b m deadline now b' m' c)
  show ?case using accept_Ok(6) [OF accepted] accept_Ok(7) [OF accepted] by (rule conjI)
next
  case (handshake c t now c' r)
  then show ?case using complete_handshake_ok complete_handshake_armed armed_mono by blast
next
  case (read c t now input c' r2)
  then show ?case using read_frame_ok read_frame_armed armed_mono by blast
next
  case (queue c t now frame c' r)
  then show ?case using queue_frame_ok queue_frame_armed armed_mono by blast
next
  case (flush c t now "output" c' r3)
  then show ?case using flush_ok flush_armed armed_mono by blast
qed

definition waiting :: "Connection \<Rightarrow> bool" where
  "waiting c \<longleftrightarrow> cn_handshake_deadline c \<noteq> None \<or> has_partial (cn_decoder c) \<or> oq_frames (cn_outgoing c) \<noteq> []"

lemma waiting_expires:
  assumes "served c t" and "waiting c" and "\<not> cn_closed c" and "t + FORWARD_LIMIT \<le> now"
  shows "check_deadlines c now = (connection_close c, Err DeadlineExceeded)"
proof -
  from served_ok [OF assms(1)] have ok: "connection_ok c" "armed_by c t" by auto
  with assms(2,3) obtain d where "d \<in> set (deadlines c)"
    by (auto simp: waiting_def connection_ok_def deadlines_mem)
  moreover from this ok(2) have "d \<le> t + FORWARD_LIMIT" by (simp add: armed_by_def)
  ultimately have "\<exists>d\<in>set (deadlines c). d \<le> now" using assms(4) le_trans by blast
  with assms(3) show ?thesis by (simp add: check_deadlines_cases)
qed

subsection \<open>Budgets\<close>

lemma accept_budget:
  assumes "accept credentials sndbuf nonblocking channel uid b m deadline now = (b', m', r)"
    and "cb_active b \<le> cb_limit b" and "cb_active m \<le> cb_limit m"
  shows "cb_active b' \<le> cb_limit b' \<and> cb_active m' \<le> cb_limit m'
    \<and> (if is_ok r then cb_active b' = cb_active b + 1 \<and> cb_active m' = cb_active m + 1 else b' = b \<and> m' = m)"
  using assms by (cases b; cases m)
    (auto simp: accept_def acquire_def release_def split: sum.splits if_splits)

subsection \<open>Properties of the transport\<close>

text \<open>Queueing several frames, and what a sequence of writes puts on the wire.\<close>

fun push_all :: "OutboundQueue \<Rightarrow> string list \<Rightarrow> IpcError + OutboundQueue" where
  "push_all q [] = Ok q"
| "push_all q (frame # frames) = and_then (outbound_push q frame) (\<lambda>q. push_all q frames)"

fun send :: "OutboundQueue \<Rightarrow> nat list \<Rightarrow> OutboundQueue \<times> string list" where
  "send q [] = (q, [])"
| "send q (n # ns) = (case outbound_front q of
     None \<Rightarrow> (q, [])
   | Some frame \<Rightarrow>
       (case send (advance q (min n (length frame))) ns of (q', written) \<Rightarrow> (q', take n frame # written)))"

lemma push_all_unsent:
  "push_all q frames = Ok q' \<Longrightarrow> outbound_ok q \<Longrightarrow>
     outbound_ok q' \<and> unsent q' = unsent q @ concat frames
     \<and> (\<forall>f\<in>set frames. valid_frame f \<and> length f \<le> MAX_FRAME_BYTES)"
proof (induction frames arbitrary: q)
  case Nil
  then show ?case by simp
next
  case (Cons f frames)
  from Cons.prems obtain r where r: "outbound_push q f = Ok r" "push_all r frames = Ok q'"
    by (auto simp: result_simps)
  with Cons.IH [OF r(2)] outbound_push_ok [OF Cons.prems(2) r(1)] show ?case
    by (auto simp: outbound_push_Ok)
qed

lemma send_unsent:
  "send q ns = (q', written) \<Longrightarrow> outbound_ok q \<Longrightarrow> outbound_ok q' \<and> unsent q = concat written @ unsent q'"
proof (induction ns arbitrary: q written)
  case Nil
  then show ?case by simp
next
  case (Cons n ns)
  show ?case
  proof (cases "outbound_front q")
    case None
    with Cons.prems show ?thesis by simp
  next
    case (Some frame)
    with Cons.prems(1) obtain ws where s: "send (advance q (min n (length frame))) ns = (q', ws)"
      and written: "written = take n frame # ws" by (auto split: prod.splits)
    have le: "min n (length frame) \<le> length frame" by simp
    note adv = advance_ok [OF Cons.prems(2) Some le]
    from outbound_front_unsent(2) [OF Some Cons.prems(2)] obtain rest where u: "unsent q = frame @ rest" by auto
    from Cons.IH [OF s adv(1)] have "outbound_ok q'"
      and "drop (min n (length frame)) (unsent q) = concat ws @ unsent q'" by (simp_all add: adv(2))
    moreover have "unsent q = take n frame @ drop (min n (length frame)) (unsent q)"
      using u by (cases "n \<le> length frame") auto
    ultimately show ?thesis by (simp add: written)
  qed
qed

text \<open>C4: What one side queues is what the other side decodes. If every frame was accepted by the
  outbound queue and the queue has been flushed, by writes of any sizes, then a decoder that
  receives the written bytes cut into any chunks returns exactly those frames, in order, with
  no error and nothing left over.\<close>

theorem transport_roundtrip:
  assumes "push_all OutboundQueue_default frames = Ok q"
    and "send q sizes = (q', written)" and "oq_frames q' = []"
    and "concat chunks = concat written"
  shows "drain_all FrameDecoder_default chunks = (FrameDecoder_default, frames, None)"
proof -
  from push_all_unsent [OF assms(1)] have q: "outbound_ok q" "unsent q = concat frames"
    and frames: "\<forall>f\<in>set frames. valid_frame f \<and> length f \<le> MAX_FRAME_BYTES" by simp_all
  from send_unsent [OF assms(2) q(1)] q(2) assms(3) have "concat written = concat frames"
    by (simp add: unsent_def)
  with assms(4) have "drain_all FrameDecoder_default chunks = drain FrameDecoder_default (concat frames)"
    by (simp add: drain_all_concat)
  with scan_frames [OF frames] show ?thesis
    by (simp add: drain_scan scan_result_def) (simp add: FrameDecoder_default_def)
qed

lemma transport_roundtrip_witness:
  "drain_all FrameDecoder_default [[CHR ''{''], [CHR ''}'', line_feed, CHR ''1''], [line_feed]]
     = (FrameDecoder_default, [[CHR ''{'', CHR ''}'', line_feed], [CHR ''1'', line_feed]], None)"
proof -
  have "map_ok oq_frames (push_all OutboundQueue_default [[CHR ''{'', CHR ''}'', line_feed], [CHR ''1'', line_feed]])
      = Ok [[CHR ''{'', CHR ''}'', line_feed], [CHR ''1'', line_feed]]"
    by (simp add: outbound_push_def valid_frame_def OutboundQueue_default_def line_feed_def return_byte_def
        MAX_FRAME_BYTES_def MAX_UNSENT_FRAMES_def MAX_UNSENT_BYTES_def)
  then obtain q where q: "push_all OutboundQueue_default [[CHR ''{'', CHR ''}'', line_feed], [CHR ''1'', line_feed]] = Ok q"
    by (auto simp: result_simps)
  have "map_ok (\<lambda>q. oq_frames (fst (send q [2, 5, 2]))) (push_all OutboundQueue_default
      [[CHR ''{'', CHR ''}'', line_feed], [CHR ''1'', line_feed]]) = Ok []"
    "map_ok (\<lambda>q. concat (snd (send q [2, 5, 2]))) (push_all OutboundQueue_default
      [[CHR ''{'', CHR ''}'', line_feed], [CHR ''1'', line_feed]])
      = Ok [CHR ''{'', CHR ''}'', line_feed, CHR ''1'', line_feed]"
    by (simp_all add: outbound_push_def valid_frame_def OutboundQueue_default_def line_feed_def return_byte_def
        MAX_FRAME_BYTES_def MAX_UNSENT_FRAMES_def MAX_UNSENT_BYTES_def outbound_front_def advance_def Let_def)
  with q show ?thesis
    by (intro transport_roundtrip [OF q, of "[2, 5, 2]" "fst (send q [2, 5, 2])" "snd (send q [2, 5, 2])"]) simp_all
qed

text \<open>Input is neither lost, repeated nor reordered: after every successful read, the returned
  frame followed by what the connection still holds (partial frame, then buffer) is what it held
  before followed by the bytes this read delivered; a returned frame is valid NDJSON of at most
  16384 bytes.\<close>

lemma read_frame_conserves_input:
  assumes "connection_ok c" and "read_fits read" and "read_frame c now read = (c', Ok frame)"
  shows "held c @ delivered c read = (case frame of None \<Rightarrow> [] | Some f \<Rightarrow> f) @ held c'
     \<and> (\<forall>f. frame = Some f \<longrightarrow> valid_frame f \<and> length f \<le> MAX_FRAME_BYTES)"
  by (rule read_frame_held [OF assms])

definition sample_connection :: Connection where
  "sample_connection = \<lparr> cn_peer = \<lparr> pc_uid = 1000, pc_gid = 1000, pc_pid = 7 \<rparr>, cn_channel = Event,
     cn_decoder = FrameDecoder_default, cn_outgoing = OutboundQueue_default,
     cn_pending = replicate 4096 (CHR 0x00), cn_offset = 0, cn_available = 0,
     cn_handshake_deadline = Some 50, cn_frame_deadline = None, cn_write_deadline = None, cn_closed = False \<rparr>"

lemma sample_accepted:
  "accept (Some (7, 1000, 1000)) True True Event 1000 \<lparr> cb_active = 0, cb_limit = 1 \<rparr>
     \<lparr> cb_active = 0, cb_limit = 64 \<rparr> 50 0 = (\<lparr> cb_active = 1, cb_limit = 1 \<rparr>, \<lparr> cb_active = 1, cb_limit = 64 \<rparr>,
       Ok sample_connection)"
  by (simp add: accept_def acquire_def PeerCredentials_read_def PeerCredentials_checked_def require_uid_def
      sample_connection_def FORWARD_LIMIT_def word_less_nat_alt)

lemma sample_connection_ok: "connection_ok sample_connection"
  using accept_Ok(6) [OF sample_accepted] .

lemma read_frame_conserves_input_witness:
  "\<exists>c' frame. read_frame sample_connection 1 (Done [CHR ''x'', line_feed]) = (c', Ok frame)
     \<and> [CHR ''x'', line_feed] = (case frame of None \<Rightarrow> [] | Some f \<Rightarrow> f) @ held c'"
proof -
  obtain c' r where read: "read_frame sample_connection 1 (Done [CHR ''x'', line_feed]) = (c', r)" by fastforce
  moreover have "is_ok (snd (read_frame sample_connection 1 (Done [CHR ''x'', line_feed])))"
    by (simp add: read_frame_def check_deadlines_def sample_connection_def deadlines_def List.map_filter_def
        decode_buffer_def buffered_def feed_def Let_def FrameDecoder_default_def MAX_FRAME_BYTES_def
        valid_frame_def line_feed_def return_byte_def)
  ultimately obtain frame where read: "read_frame sample_connection 1 (Done [CHR ''x'', line_feed]) = (c', Ok frame)"
    by (auto simp: result_simps)
  from read_frame_conserves_input [OF sample_connection_ok _ read] show ?thesis
    using read by (auto simp: read_fits_def held_def delivered_def sample_connection_def buffered_def FrameDecoder_default_def)
qed

text \<open>C5: In every state of an accepted connection the memory it holds is bounded, closed or not: the partial frame is
  shorter than 16384 bytes, at most 4096 read bytes wait to be decoded, at most 256 frames and one mebibyte are unsent and counted exactly,
  and a closed connection keeps nothing to send.\<close>

theorem connection_bounded:
  assumes "served c t"
  shows "length (fd_partial (cn_decoder c)) < 16384
     \<and> length (buffered c) \<le> 4096
     \<and> length (oq_frames (cn_outgoing c)) \<le> 256
     \<and> oq_bytes (cn_outgoing c) = length (concat (oq_frames (cn_outgoing c)))
     \<and> oq_bytes (cn_outgoing c) \<le> 1048576
     \<and> (cn_closed c \<longrightarrow> oq_frames (cn_outgoing c) = [])"
  using served_ok [OF assms]
  by (auto simp: connection_ok_def decoder_open_def outbound_ok_def MAX_FRAME_BYTES_def MAX_UNSENT_FRAMES_def
      MAX_UNSENT_BYTES_def buffered_def OutboundQueue_default_def)

lemma connection_bounded_witness:
  "length (fd_partial (cn_decoder sample_connection)) < 16384 \<and> \<not> cn_closed sample_connection"
  using connection_bounded [OF served.accepted [OF sample_accepted]] by (simp add: sample_connection_def)

text \<open>C6: A slow peer is cut off: if a connection that was last served at time t still waits for its
  handshake, for the rest of a frame, or for its output to be taken, then any call 100 ms later
  closes it with \<open>DeadlineExceeded\<close>, and receiving more of the same frame does not move the
  deadline.\<close>

theorem slow_peer_disconnected:
  assumes "served c t" and "waiting c" and "\<not> cn_closed c"
  shows "(t + FORWARD_LIMIT \<le> now \<longrightarrow>
       read_frame c now read = (connection_close c, Err DeadlineExceeded)
       \<and> queue_frame c now frame = (connection_close c, Err DeadlineExceeded)
       \<and> flush c now write = (connection_close c, Err DeadlineExceeded)
       \<and> complete_handshake c now = (connection_close c, Err DeadlineExceeded))
    \<and> (\<forall>d. cn_frame_deadline c = Some d \<and> read_fits read \<and> read_frame c now read = (c', Ok None)
       \<longrightarrow> cn_frame_deadline c' = Some d)"
proof -
  have ok: "connection_ok c" using served_ok [OF assms(1)] by simp
  show ?thesis
  proof (intro conjI impI allI)
    assume "t + FORWARD_LIMIT \<le> now"
    note expired = waiting_expires [OF assms this]
    show "read_frame c now read = (connection_close c, Err DeadlineExceeded)"
      "queue_frame c now frame = (connection_close c, Err DeadlineExceeded)"
      "flush c now write = (connection_close c, Err DeadlineExceeded)"
      "complete_handshake c now = (connection_close c, Err DeadlineExceeded)"
      by (simp_all add: read_frame_def queue_frame_def flush_def complete_handshake_def expired)
  qed (use partial_deadline_kept [OF ok] in blast)
qed

lemma slow_peer_disconnected_witness:
  "flush sample_connection 100000000 (Done 1) = (connection_close sample_connection, Err DeadlineExceeded)"
proof -
  have w: "waiting sample_connection" "\<not> cn_closed sample_connection"
    by (simp_all add: waiting_def sample_connection_def)
  from slow_peer_disconnected [OF served.accepted [OF sample_accepted] w, of 100000000]
  show ?thesis by (simp add: FORWARD_LIMIT_def)
qed

text \<open>The connection budgets are exact: an accepted connection takes one permit of each budget, a
  refused one (budget, credentials, user, socket options) leaves both as they were, and no
  budget ever exceeds its limit.\<close>

lemma accept_counts_connections:
  assumes "accept credentials sndbuf nonblocking channel uid b m deadline now = (b', m', r)"
    and "cb_active b \<le> cb_limit b" and "cb_active m \<le> cb_limit m"
  shows "cb_active b' \<le> cb_limit b' \<and> cb_active m' \<le> cb_limit m'
    \<and> (if is_ok r then cb_active b' = cb_active b + 1 \<and> cb_active m' = cb_active m + 1 else b' = b \<and> m' = m)"
  by (rule accept_budget [OF assms])

lemma accept_counts_connections_witness:
  "fst (accept None True True Event 1000 \<lparr> cb_active = 0, cb_limit = 1 \<rparr>
     \<lparr> cb_active = 0, cb_limit = 64 \<rparr> 50 0) = \<lparr> cb_active = 0, cb_limit = 1 \<rparr>"
proof -
  obtain b' m' r where a: "accept None True True Event 1000 \<lparr> cb_active = 0, cb_limit = 1 \<rparr>
     \<lparr> cb_active = 0, cb_limit = 64 \<rparr> 50 0 = (b', m', r)" by (metis prod_cases3)
  moreover from this have "\<not> is_ok r"
    by (auto simp: accept_def acquire_def PeerCredentials_read_def)
  ultimately show ?thesis using accept_counts_connections [OF a] by simp
qed

end
