(* ===== verification/Admission.thy ===== *)
theory Admission
  imports Control Connection
begin

section \<open>Admission results and control authorization (ingestion/mod.rs, ingestion/control.rs)\<close>

text \<open>
  The error type of the volatile admission layer and the authorizer of control requests. An
  \<open>Rc<()>\<close> that is only compared by pointer is a token, a natural number. A
  \<open>BTreeSet<Operation>\<close> is the list of its members in the order of the type, which is the order
  of \<open>Operation::ALL\<close>. Field prefixes: \<open>cs_\<close> \<open>ControlSession\<close>, \<open>ca_\<close> \<open>ControlAuthorizer\<close>.
\<close>

definition MAX_PRODUCERS :: nat where "MAX_PRODUCERS = 10000"
definition MAX_PRODUCER_RECEIPTS :: nat where "MAX_PRODUCER_RECEIPTS = 1024"
definition MAX_RECEIPTS :: nat where "MAX_RECEIPTS = 8192"
definition MAX_RECEIPT_BYTES :: nat where "MAX_RECEIPT_BYTES = 8 * 1024 * 1024"

datatype Admission = Queued | AlreadyAdmitted

datatype AdmissionError =
    Protocol ProtocolError | PermissionDenied | UnknownProducer | StaleGeneration
  | InvalidHandshake | Conflict | SequenceGap | ReplayRejected | ReconciliationRequired
  | QueueFull | ResourceExhausted | CapabilityUnavailable | StaleRevision | EntropyUnavailable

fun AdmissionError_display :: "AdmissionError \<Rightarrow> string" where
  "AdmissionError_display (Protocol _) = ''invalid_frame''"
| "AdmissionError_display PermissionDenied = ''permission_denied''"
| "AdmissionError_display UnknownProducer = ''unknown_producer''"
| "AdmissionError_display StaleGeneration = ''stale_generation''"
| "AdmissionError_display InvalidHandshake = ''invalid_handshake''"
| "AdmissionError_display Conflict = ''conflict''"
| "AdmissionError_display SequenceGap = ''sequence_gap''"
| "AdmissionError_display ReplayRejected = ''replay_rejected''"
| "AdmissionError_display ReconciliationRequired = ''reconciliation_required''"
| "AdmissionError_display QueueFull = ''resource_exhausted''"
| "AdmissionError_display ResourceExhausted = ''resource_exhausted''"
| "AdmissionError_display CapabilityUnavailable = ''capability_unavailable''"
| "AdmissionError_display StaleRevision = ''stale_target''"
| "AdmissionError_display EntropyUnavailable = ''entropy_unavailable''"

subsection \<open>Control authorization\<close>

record ControlSession =
  cs_authority :: nat
  cs_uid :: u32
  cs_requested :: "Operation list"

record ControlAuthorizer =
  ca_authority :: nat
  ca_uid :: u32
  ca_granted :: "Operation list"
  ca_capabilities :: "(Operation \<times> CapabilityRecord) list"

definition operation_set :: "Operation list \<Rightarrow> Operation list" where
  "operation_set ops = filter (\<lambda>op. op \<in> set ops) Operation_ALL"

definition ControlAuthorizer_new :: "nat \<Rightarrow> u32 \<Rightarrow> Operation list \<Rightarrow> ControlAuthorizer" where
  "ControlAuthorizer_new token uid granted = \<lparr> ca_authority = token, ca_uid = uid,
     ca_granted = operation_set granted, ca_capabilities = [] \<rparr>"

definition set_capability :: "ControlAuthorizer \<Rightarrow> CapabilityRecord \<Rightarrow> ControlAuthorizer" where
  "set_capability a capability = a\<lparr> ca_capabilities :=
     AList.update (cr_operation capability) capability (ca_capabilities a) \<rparr>"

definition usable :: "CapabilityRecord \<Rightarrow> bool" where
  "usable capability \<longleftrightarrow> cr_status capability = Supported
     \<and> cr_freshness capability = ObservationFreshness.Fresh
     \<and> cr_reason capability = Available
     \<and> (cr_source capability = Manager \<or> cr_tested_version capability \<noteq> None)"

definition negotiated_capabilities ::
    "ControlAuthorizer \<Rightarrow> ControlSession \<Rightarrow> AdmissionError + CapabilityRecord list" where
  "negotiated_capabilities a session =
     (if cs_authority session \<noteq> ca_authority a then Err PermissionDenied
      else Ok (map (\<lambda>op.
        case (if op \<in> set (ca_granted a) then map_of (ca_capabilities a) op else None) of
          Some record \<Rightarrow> record
        | None \<Rightarrow> \<lparr> cr_operation = op, cr_status = CapabilityStatus.Unsupported,
            cr_source = Manager, cr_tested_version = None,
            cr_reason = (if op \<in> set (ca_granted a) then NotImplemented else NotGranted),
            cr_freshness = ObservationFreshness.Unsupported \<rparr>)
        (cs_requested session)))"

definition control_connect ::
    "ControlAuthorizer \<Rightarrow> Connection \<Rightarrow> ControlHandshake \<Rightarrow> AdmissionError + ControlSession" where
  "control_connect a peer handshake =
     (if cn_channel peer \<noteq> Channel.Control \<or> pc_uid (cn_peer peer) \<noteq> ca_uid a then Err PermissionDenied
      else
        let requested = operation_set (requested_operations handshake) in
        if length requested \<noteq> length (requested_operations handshake)
          \<or> length Operation_ALL < length requested
        then Err InvalidHandshake
        else Ok \<lparr> cs_authority = ca_authority a, cs_uid = ca_uid a, cs_requested = requested \<rparr>)"

definition authorize ::
    "ControlAuthorizer \<Rightarrow> ControlSession \<Rightarrow> ControlRequest \<Rightarrow> Revision \<Rightarrow> AdmissionError + unit" where
  "authorize a session request current =
     (let operation = ControlRequest_operation request in
      if cs_authority session \<noteq> ca_authority a \<or> cs_uid session \<noteq> ca_uid a
        \<or> operation \<notin> set (cs_requested session) \<or> operation \<notin> set (ca_granted a)
      then Err PermissionDenied
      else
        and_then (ok_or CapabilityUnavailable (map_of (ca_capabilities a) operation)) (\<lambda>capability.
        if \<not> usable capability then Err CapabilityUnavailable
        else if (case ControlRequest_expected_revision request of
             None \<Rightarrow> False | Some expected \<Rightarrow> expected \<noteq> current)
        then Err StaleRevision else Ok ()))"

subsection \<open>Facts\<close>

lemma operation_set_set [simp]: "set (operation_set ops) = set ops"
  using Operation_ALL_set(1) by (auto simp: operation_set_def)

lemma operation_set_distinct [simp]: "distinct (operation_set ops)"
  using Operation_ALL_set(2) by (simp add: operation_set_def)

lemma operation_set_length: "length (operation_set ops) = length ops \<longleftrightarrow> distinct ops"
  using distinct_card [of "operation_set ops"] distinct_card [of ops] card_distinct [of ops]
  by auto

lemma control_connect_Ok:
  "control_connect a peer h = Ok s \<longleftrightarrow> cn_channel peer = Channel.Control \<and> pc_uid (cn_peer peer) = ca_uid a
     \<and> distinct (requested_operations h)
     \<and> s = \<lparr> cs_authority = ca_authority a, cs_uid = ca_uid a,
             cs_requested = operation_set (requested_operations h) \<rparr>"
  using distinct_operations_length [of "requested_operations h"]
  by (auto simp: control_connect_def Let_def operation_set_length Operation_ALL_set(3))

lemma authorize_Ok:
  "authorize a s r current = Ok u \<longleftrightarrow>
     cs_authority s = ca_authority a \<and> cs_uid s = ca_uid a
     \<and> ControlRequest_operation r \<in> set (cs_requested s) \<and> ControlRequest_operation r \<in> set (ca_granted a)
     \<and> (\<exists>c. map_of (ca_capabilities a) (ControlRequest_operation r) = Some c \<and> usable c)
     \<and> (is_stateful (ControlRequest_operation r) \<longrightarrow> ControlRequest_expected_revision r = Some current)"
  by (cases "ControlRequest_expected_revision r")
     (auto simp: authorize_def Let_def result_simps stateful_guarded split: if_splits)

text \<open>The capabilities of an authorizer are records for their own key.\<close>

definition authorizer_ok :: "ControlAuthorizer \<Rightarrow> bool" where
  "authorizer_ok a \<longleftrightarrow> (\<forall>op c. map_of (ca_capabilities a) op = Some c \<longrightarrow> cr_operation c = op)"

lemma new_authorizer_ok: "authorizer_ok (ControlAuthorizer_new t u g)"
  by (simp add: authorizer_ok_def ControlAuthorizer_new_def)

lemma set_capability_ok: "authorizer_ok a \<Longrightarrow> authorizer_ok (set_capability a c)"
  by (simp add: authorizer_ok_def set_capability_def map_of_update)

lemma negotiated_operations:
  "authorizer_ok a \<Longrightarrow> negotiated_capabilities a s = Ok cs \<Longrightarrow> map cr_operation cs = cs_requested s"
  by (auto simp: negotiated_capabilities_def authorizer_ok_def o_def split: if_splits option.splits
      intro!: map_idI)

text \<open>What negotiation reports usable is what authorization accepts, revision guards apart.\<close>

lemma negotiated_usable:
  assumes "authorizer_ok a" and "negotiated_capabilities a s = Ok cs" and "cs_uid s = ca_uid a"
    and "is_stateful (ControlRequest_operation r) \<longrightarrow> ControlRequest_expected_revision r = Some current"
  shows "authorize a s r current = Ok () \<longleftrightarrow>
    (\<exists>c\<in>set cs. cr_operation c = ControlRequest_operation r \<and> usable c)"
proof -
  from assms(2) have cs: "cs = map (\<lambda>op.
        case (if op \<in> set (ca_granted a) then map_of (ca_capabilities a) op else None) of
          Some record \<Rightarrow> record
        | None \<Rightarrow> \<lparr> cr_operation = op, cr_status = CapabilityStatus.Unsupported,
            cr_source = Manager, cr_tested_version = None,
            cr_reason = (if op \<in> set (ca_granted a) then NotImplemented else NotGranted),
            cr_freshness = ObservationFreshness.Unsupported \<rparr>) (cs_requested s)"
    and auth: "cs_authority s = ca_authority a"
    by (auto simp: negotiated_capabilities_def split: if_splits)
  show ?thesis (is "?l \<longleftrightarrow> ?r")
  proof
    assume ?l
    then obtain c where c: "ControlRequest_operation r \<in> set (cs_requested s)"
      "ControlRequest_operation r \<in> set (ca_granted a)"
      "map_of (ca_capabilities a) (ControlRequest_operation r) = Some c" "usable c"
      by (auto simp: authorize_Ok)
    with assms(1) have "cr_operation c = ControlRequest_operation r" by (simp add: authorizer_ok_def)
    moreover have "c \<in> set cs" using c unfolding cs by force
    ultimately show ?r using c by blast
  next
    assume ?r
    then obtain op c where op: "op \<in> set (cs_requested s)" and
      c: "c = (case (if op \<in> set (ca_granted a) then map_of (ca_capabilities a) op else None) of
          Some record \<Rightarrow> record
        | None \<Rightarrow> \<lparr> cr_operation = op, cr_status = CapabilityStatus.Unsupported,
            cr_source = Manager, cr_tested_version = None,
            cr_reason = (if op \<in> set (ca_granted a) then NotImplemented else NotGranted),
            cr_freshness = ObservationFreshness.Unsupported \<rparr>)"
      and u: "cr_operation c = ControlRequest_operation r" "usable c"
      unfolding cs by auto
    from c u(2) have "op \<in> set (ca_granted a)" "map_of (ca_capabilities a) op = Some c"
      by (auto simp: usable_def split: if_splits option.splits)
    moreover from this assms(1) u have "op = ControlRequest_operation r" by (auto simp: authorizer_ok_def)
    ultimately show ?l using auth assms(3,4) op u by (auto simp: authorize_Ok)
  qed
qed

subsection \<open>Properties of control authorization\<close>

text \<open>A control request is authorized exactly when the session belongs to this authorizer and its
  user, the operation was both requested in the handshake and explicitly granted, the current
  capability for it is supported, fresh, available and (unless the manager's own) tested, and,
  for every operation that changes state, the request carries the current revision.\<close>

lemma authorize_exact:
  shows "authorize a s r current = Ok () \<longleftrightarrow>
     cs_authority s = ca_authority a \<and> cs_uid s = ca_uid a
     \<and> ControlRequest_operation r \<in> set (cs_requested s) \<and> ControlRequest_operation r \<in> set (ca_granted a)
     \<and> (case map_of (ca_capabilities a) (ControlRequest_operation r) of
          None \<Rightarrow> False
        | Some c \<Rightarrow> cr_status c = Supported \<and> cr_freshness c = ObservationFreshness.Fresh
            \<and> cr_reason c = Available \<and> (cr_source c \<noteq> Manager \<longrightarrow> cr_tested_version c \<noteq> None))
     \<and> (is_stateful (ControlRequest_operation r) \<longrightarrow> ControlRequest_expected_revision r = Some current)"
  by (auto simp: authorize_Ok usable_def split: option.splits)

definition sample_authorizer :: ControlAuthorizer where
  "sample_authorizer = set_capability (ControlAuthorizer_new 0 1000 [Operation.Focus])
     \<lparr> cr_operation = Operation.Focus, cr_status = Supported, cr_source = Manager, cr_tested_version = None,
       cr_reason = Available, cr_freshness = ObservationFreshness.Fresh \<rparr>"

definition sample_control_session :: ControlSession where
  "sample_control_session = \<lparr> cs_authority = 0, cs_uid = 1000, cs_requested = [Operation.Launch, Operation.Focus] \<rparr>"

definition sample_focus :: "nat \<Rightarrow> ControlRequest" where
  "sample_focus n = \<lparr> rq_request_id = RequestId ''r'',
     rq_request = Focus (Revision (of_nat n)) \<lparr> ta_run_id = RunId ''run'' \<rparr> \<rparr>"

lemma authorize_exact_witness:
  "authorize sample_authorizer sample_control_session (sample_focus 3) (Revision 3) = Ok ()
     \<and> authorize sample_authorizer sample_control_session (sample_focus 3) (Revision 4) \<noteq> Ok ()"
  by (simp only: authorize_exact)
     (simp add: sample_authorizer_def set_capability_def ControlAuthorizer_new_def sample_control_session_def
       sample_focus_def ControlRequest_operation_def ControlRequest_expected_revision_def is_stateful_def)

text \<open>Negotiation tells the truth: it reports one record per requested operation, and an operation is
  reported usable exactly when a request for it (with the right revision guard) would be
  authorized.\<close>

lemma negotiation_matches_authorization:
  assumes "authorizer_ok a" and "negotiated_capabilities a s = Ok cs" and "cs_uid s = ca_uid a"
    and "is_stateful (ControlRequest_operation r) \<longrightarrow> ControlRequest_expected_revision r = Some current"
  shows "map cr_operation cs = cs_requested s
    \<and> (authorize a s r current = Ok () \<longleftrightarrow>
        (\<exists>c\<in>set cs. cr_operation c = ControlRequest_operation r \<and> usable c))"
  using negotiated_operations [OF assms(1,2)] negotiated_usable [OF assms] by blast

lemma negotiation_matches_authorization_witness:
  "\<exists>cs. negotiated_capabilities sample_authorizer sample_control_session = Ok cs
     \<and> map cr_operation cs = [Operation.Launch, Operation.Focus]"
proof -
  have ok: "authorizer_ok sample_authorizer"
    unfolding sample_authorizer_def by (rule set_capability_ok [OF new_authorizer_ok])
  have "is_ok (negotiated_capabilities sample_authorizer sample_control_session)" by code_simp
  then obtain cs where cs: "negotiated_capabilities sample_authorizer sample_control_session = Ok cs"
    by (auto simp: result_simps)
  have "cs_uid sample_control_session = ca_uid sample_authorizer"
    "ControlRequest_expected_revision (sample_focus 3) = Some (Revision 3)"
    by (simp_all add: sample_authorizer_def set_capability_def ControlAuthorizer_new_def
        sample_control_session_def sample_focus_def ControlRequest_expected_revision_def)
  with negotiation_matches_authorization [OF ok cs, of "sample_focus 3" "Revision 3"] cs show ?thesis
    by (simp add: sample_control_session_def)
qed

end
