(* ===== verification/Registry.thy ===== *)
theory Registry
  imports Entropy Queue Admission Samples
begin

section \<open>The admission registry (ingestion/registry.rs)\<close>

text \<open>
  Trusted registrations, the sessions bound to them, and replay-safe volatile admission. Rc
  tokens are natural numbers: \<open>rg_tokens\<close> is the next one \<open>Rc::new\<close> returns, so a token is
  never issued twice (a session keeps its \<open>Rc\<close> alive, so the source cannot reuse it either).
  Field prefixes: \<open>pr_\<close> \<open>ProducerRegistration\<close>, \<open>es_\<close> \<open>EventSession\<close>, \<open>pd_\<close> \<open>Producer\<close>,
  \<open>rg_\<close> \<open>Registry\<close>. Frames are parsed with the codec argument; entropy is an argument of
  \<open>reconcile\<close>.
\<close>

record ProducerRegistration =
  pr_producer_id :: ProducerId
  pr_generation :: ProducerGeneration
  pr_run_id :: RunId
  pr_harness :: HarnessKind
  pr_uid :: u32
  pr_allowed_signals :: "EventKind list"
  pr_next_sequence :: Seq

record EventSession =
  es_authority :: nat
  es_scope :: nat
  es_producer :: ProducerId
  es_generation :: ProducerGeneration
  es_signals :: "EventKind list"

record Producer =
  pd_scope :: nat
  pd_registration :: ProducerRegistration
  pd_next :: "Seq option"
  pd_blocked :: bool
  pd_receipts :: "(Seq \<times> EventEnvelope) list"
  pd_event_ids :: "(EventId \<times> Seq) list"
  pd_bytes :: nat

record Registry =
  rg_authority :: nat
  rg_producers :: "(ProducerId \<times> Producer) list"
  rg_queue :: Queue
  rg_receipts :: nat
  rg_receipt_bytes :: nat
  rg_discarded :: u64
  rg_rejected :: u64
  rg_tokens :: nat

subsection \<open>Producers\<close>

definition Producer_new :: "nat \<Rightarrow> ProducerRegistration \<Rightarrow> Producer" where
  "Producer_new scope registration = \<lparr> pd_scope = scope, pd_registration = registration,
     pd_next = Some (pr_next_sequence registration), pd_blocked = False, pd_receipts = [],
     pd_event_ids = [], pd_bytes = 0 \<rparr>"

definition sequence :: "Producer \<Rightarrow> EventEnvelope \<Rightarrow> Producer \<times> (AdmissionError + Admission)" where
  "sequence p event =
     (if pd_blocked p then (p, Err ReconciliationRequired)
      else case map_of (pd_receipts p) (ev_seq event) of
        Some previous \<Rightarrow>
          if previous = event then (p, Ok AlreadyAdmitted)
          else (p\<lparr> pd_blocked := True \<rparr>, Err AdmissionError.Conflict)
      | None \<Rightarrow>
          if contains_key (pd_event_ids p) (ev_event_id event)
          then (p\<lparr> pd_blocked := True \<rparr>, Err AdmissionError.Conflict)
          else case pd_next p of
            None \<Rightarrow> (p, Err ReconciliationRequired)
          | Some next \<Rightarrow>
              if ev_seq event < next then (p, Err ReplayRejected)
              else if next < ev_seq event
              then (p\<lparr> pd_blocked := True \<rparr>, Err AdmissionError.SequenceGap)
              else (p, Ok Queued))"

definition unique_signals :: "EventKind list \<Rightarrow> AdmissionError + EventKind list" where
  "unique_signals signals =
     (let unique = filter (\<lambda>k. k \<in> set signals) EventKind_ALL in
      if length EventKind_ALL < length signals \<or> length unique \<noteq> length signals
      then Err InvalidHandshake else Ok unique)"

subsection \<open>Registry\<close>

definition Registry_new :: "nat \<Rightarrow> nat \<Rightarrow> Registry" where
  "Registry_new authority tokens = \<lparr> rg_authority = authority, rg_producers = [],
     rg_queue = Queue_default, rg_receipts = 0, rg_receipt_bytes = 0, rg_discarded = 0,
     rg_rejected = 0, rg_tokens = tokens \<rparr>"

definition put :: "ProducerId \<Rightarrow> Producer \<Rightarrow> Registry \<Rightarrow> Registry" where
  "put key p r = r\<lparr> rg_producers := AList.update key p (rg_producers r) \<rparr>"

definition insert_new :: "ProducerRegistration \<Rightarrow> Registry \<Rightarrow> Registry" where
  "insert_new registration r =
     (put (pr_producer_id registration) (Producer_new (rg_tokens r) registration) r)
       \<lparr> rg_tokens := rg_tokens r + 1 \<rparr>"

definition register :: "Registry \<Rightarrow> ProducerRegistration \<Rightarrow> Registry \<times> (AdmissionError + unit)" where
  "register r registration =
     (if contains_key (rg_producers r) (pr_producer_id registration)
      then (r, Err AdmissionError.Conflict)
      else if MAX_PRODUCERS \<le> length (rg_producers r) then (r, Err AdmissionError.ResourceExhausted)
      else case unique_signals (pr_allowed_signals registration) of
        Err e \<Rightarrow> (r, Err e)
      | Ok _ \<Rightarrow> (insert_new registration r, Ok ()))"

definition discard_queued :: "Registry \<Rightarrow> ProducerId \<Rightarrow> Registry \<times> nat" where
  "discard_queued r producer =
     (case Queue_discard (rg_queue r) producer of (queue, discarded) \<Rightarrow>
       (r\<lparr> rg_queue := queue,
           rg_discarded := saturating_add (rg_discarded r) (u64_of_usize discarded) \<rparr>, discarded))"

definition install_committed ::
    "Registry \<Rightarrow> ProducerRegistration \<Rightarrow> Registry \<times> (AdmissionError + nat)" where
  "install_committed r registration =
     (case and_then (unique_signals (pr_allowed_signals registration)) (\<lambda>_.
        case map_of (rg_producers r) (pr_producer_id registration) of
          Some previous \<Rightarrow>
            let old = pd_registration previous in
            if pr_run_id old \<noteq> pr_run_id registration \<or> pr_harness old \<noteq> pr_harness registration
              \<or> pr_uid old \<noteq> pr_uid registration
            then Err AdmissionError.PermissionDenied
            else if pr_generation old = pr_generation registration
            then Err AdmissionError.StaleGeneration
            else Ok (length (pd_receipts previous), pd_bytes previous)
        | None \<Rightarrow>
            if MAX_PRODUCERS \<le> length (rg_producers r) then Err AdmissionError.ResourceExhausted
            else Ok (0, 0)) of
        Err e \<Rightarrow> (r, Err e)
      | Ok (receipts, bytes) \<Rightarrow>
          let r = r\<lparr> rg_receipts := rg_receipts r - receipts,
                     rg_receipt_bytes := rg_receipt_bytes r - bytes \<rparr> in
          (case discard_queued r (pr_producer_id registration) of (r, discarded) \<Rightarrow>
             (insert_new registration r, Ok discarded)))"

definition invalidate :: "Registry \<Rightarrow> ProducerId \<Rightarrow> Registry \<times> (AdmissionError + nat)" where
  "invalidate r producer = (case map_of (rg_producers r) producer of
     None \<Rightarrow> (r, Err AdmissionError.UnknownProducer)
   | Some record \<Rightarrow>
       let record = record\<lparr> pd_blocked := True, pd_scope := rg_tokens r \<rparr>;
           r = (put producer record r)\<lparr> rg_tokens := rg_tokens r + 1 \<rparr>
       in (case discard_queued r producer of (r, discarded) \<Rightarrow> (r, Ok discarded)))"

definition invalidate_generation ::
    "Registry \<Rightarrow> ProducerId \<Rightarrow> ProducerGeneration option \<Rightarrow> Registry \<times> (AdmissionError + nat)" where
  "invalidate_generation r producer generation = (case map_of (rg_producers r) producer of
     None \<Rightarrow> (r, Ok 0)
   | Some record \<Rightarrow>
       if generation \<noteq> Some (pr_generation (pd_registration record))
       then (r, Err AdmissionError.StaleGeneration)
       else invalidate r producer)"

definition connect :: "Registry \<Rightarrow> Connection \<Rightarrow> EventHandshake \<Rightarrow> AdmissionError + EventSession" where
  "connect r peer handshake =
     (if cn_channel peer \<noteq> Channel.Event then Err AdmissionError.PermissionDenied
      else
        and_then (ok_or AdmissionError.UnknownProducer (map_of (rg_producers r) (eh_producer_id handshake)))
          (\<lambda>producer.
        let registration = pd_registration producer in
        if eh_generation handshake \<noteq> pr_generation registration then Err AdmissionError.StaleGeneration
        else if pc_uid (cn_peer peer) \<noteq> pr_uid registration
          \<or> eh_run_id handshake \<noteq> pr_run_id registration
          \<or> eh_harness handshake \<noteq> pr_harness registration
        then Err AdmissionError.PermissionDenied
        else if pd_blocked producer then Err ReconciliationRequired
        else
          and_then (unique_signals (eh_requested_signals handshake)) (\<lambda>requested.
          and_then (unique_signals (pr_allowed_signals registration)) (\<lambda>allowed.
          Ok \<lparr> es_authority = rg_authority r, es_scope = pd_scope producer,
               es_producer = eh_producer_id handshake, es_generation = eh_generation handshake,
               es_signals = filter (\<lambda>k. k \<in> set allowed) requested \<rparr>))))"

definition reserve ::
    "Registry \<Rightarrow> EventSession \<Rightarrow> EventEnvelope \<Rightarrow> nat \<Rightarrow> Registry \<times> (AdmissionError + Admission)" where
  "reserve r session event bytes = (case map_of (rg_producers r) (es_producer session) of
     None \<Rightarrow> (r, Err AdmissionError.UnknownProducer)
   | Some producer \<Rightarrow>
       if es_scope session \<noteq> pd_scope producer
         \<or> es_generation session \<noteq> pr_generation (pd_registration producer)
         \<or> ev_generation event \<noteq> es_generation session
       then (r, Err AdmissionError.StaleGeneration)
       else if ev_producer_id event \<noteq> es_producer session
         \<or> ev_run_id event \<noteq> pr_run_id (pd_registration producer)
         \<or> EventPayload_kind (ev_event event) \<notin> set (es_signals session)
       then (r, Err AdmissionError.PermissionDenied)
       else case sequence producer event of
         (producer, Err e) \<Rightarrow> (put (es_producer session) producer r, Err e)
       | (producer, Ok AlreadyAdmitted) \<Rightarrow> (put (es_producer session) producer r, Ok AlreadyAdmitted)
       | (producer, Ok Queued) \<Rightarrow>
           if \<not> has_room (rg_queue r) (es_producer session)
           then (put (es_producer session) producer r, Err QueueFull)
           else if MAX_PRODUCER_RECEIPTS \<le> length (pd_receipts producer)
             \<or> MAX_RECEIPTS \<le> rg_receipts r
             \<or> MAX_RECEIPT_BYTES - rg_receipt_bytes r < bytes
           then (put (es_producer session) (producer\<lparr> pd_blocked := True \<rparr>) r, Err ReconciliationRequired)
           else
             let producer = producer\<lparr> pd_next := Seq_checked_next (ev_seq event),
                   pd_event_ids := AList.update (ev_event_id event) (ev_seq event) (pd_event_ids producer),
                   pd_receipts := AList.update (ev_seq event) event (pd_receipts producer),
                   pd_bytes := pd_bytes producer + bytes \<rparr>;
                 r = put (es_producer session) producer r
             in (r\<lparr> rg_receipts := rg_receipts r + 1, rg_receipt_bytes := rg_receipt_bytes r + bytes,
                    rg_queue := Queue_push (rg_queue r) event \<rparr>, Ok Queued))"

definition admit ::
    "event_codec \<Rightarrow> Registry \<Rightarrow> EventSession \<Rightarrow> string \<Rightarrow> Registry \<times> (AdmissionError + Admission)" where
  "admit codec r session frame =
     (if es_authority session \<noteq> rg_authority r then (r, Err AdmissionError.PermissionDenied)
      else case (case parse_event codec frame of
             Err e \<Rightarrow> (r, Err (Protocol e))
           | Ok event \<Rightarrow> reserve r session event (length frame)) of
        (r, Err e) \<Rightarrow> (r\<lparr> rg_rejected := saturating_add (rg_rejected r) 1 \<rparr>, Err e)
      | (r, Ok a) \<Rightarrow> (r, Ok a))"

definition reconcile ::
    "Registry \<Rightarrow> ProducerId \<Rightarrow> Seq \<Rightarrow> (u8 list \<times> nat) option \<Rightarrow> Registry \<times> (AdmissionError + ProducerGeneration)" where
  "reconcile r producer next entropy = (case map_of (rg_producers r) producer of
     None \<Rightarrow> (r, Err AdmissionError.UnknownProducer)
   | Some record \<Rightarrow> (case fresh entropy of
       Err _ \<Rightarrow> (r, Err AdmissionError.EntropyUnavailable)
     | Ok generation \<Rightarrow>
         if generation = pr_generation (pd_registration record)
         then (r, Err AdmissionError.StaleGeneration)
         else
           let r = r\<lparr> rg_receipts := rg_receipts r - length (pd_receipts record),
                      rg_receipt_bytes := rg_receipt_bytes r - pd_bytes record \<rparr>;
               record = record\<lparr> pd_receipts := [], pd_event_ids := [], pd_bytes := 0,
                 pd_registration := (pd_registration record)\<lparr> pr_generation := generation \<rparr>,
                 pd_scope := rg_tokens r, pd_next := Some next, pd_blocked := False \<rparr>;
               r = (put producer record r)\<lparr> rg_tokens := rg_tokens r + 1 \<rparr>
           in (fst (discard_queued r producer), Ok generation)))"

definition Registry_pop :: "Registry \<Rightarrow> Registry \<times> EventEnvelope option" where
  "Registry_pop r = (case Queue_pop (rg_queue r) of (queue, event) \<Rightarrow> (r\<lparr> rg_queue := queue \<rparr>, event))"

definition queued :: "Registry \<Rightarrow> nat" where
  "queued r = qu_count (rg_queue r)"

subsection \<open>Invariant\<close>

definition next_value :: "Seq option \<Rightarrow> nat" where
  "next_value s = (case s of None \<Rightarrow> 2 ^ 64 | Some s \<Rightarrow> unat (Seq_value s))"

text \<open>The receipts of a producer: its own events, below the next sequence, with their ids.\<close>

definition producer_ok :: "ProducerId \<Rightarrow> Producer \<Rightarrow> bool" where
  "producer_ok key p \<longleftrightarrow> pr_producer_id (pd_registration p) = key
     \<and> distinct_keys (pd_receipts p) \<and> length (pd_receipts p) \<le> MAX_PRODUCER_RECEIPTS
     \<and> (\<forall>s e. map_of (pd_receipts p) s = Some e \<longrightarrow> ev_seq e = s
          \<and> unat (Seq_value s) < next_value (pd_next p)
          \<and> ev_generation e = pr_generation (pd_registration p)
          \<and> ev_run_id e = pr_run_id (pd_registration p) \<and> ev_producer_id e = key
          \<and> map_of (pd_event_ids p) (ev_event_id e) = Some s)"

text \<open>The queued events of a producer: consecutive sequences that end just below the next one.\<close>

definition pending_ok :: "Producer \<Rightarrow> EventEnvelope list \<Rightarrow> bool" where
  "pending_ok p es \<longleftrightarrow> (\<forall>i<length es. map_of (pd_receipts p) (ev_seq (es ! i)) = Some (es ! i)
     \<and> unat (Seq_value (ev_seq (es ! i))) + (length es - i) = next_value (pd_next p))"

definition registry_ok :: "Registry \<Rightarrow> bool" where
  "registry_ok r \<longleftrightarrow> distinct_keys (rg_producers r) \<and> length (rg_producers r) \<le> MAX_PRODUCERS
     \<and> (\<forall>key p. map_of (rg_producers r) key = Some p \<longrightarrow> producer_ok key p
          \<and> pending_ok p (queued_of (rg_queue r) key) \<and> pd_scope p < rg_tokens r)
     \<and> (\<forall>key. map_of (rg_producers r) key = None \<longrightarrow> queued_of (rg_queue r) key = [])
     \<and> fifo.within (rg_queue r)
     \<and> rg_receipts r = total_of (\<lambda>p. length (pd_receipts p)) (rg_producers r) \<and> rg_receipts r \<le> MAX_RECEIPTS
     \<and> rg_receipt_bytes r = total_of pd_bytes (rg_producers r) \<and> rg_receipt_bytes r \<le> MAX_RECEIPT_BYTES"

lemma registry_okD:
  assumes "registry_ok r"
  shows "distinct_keys (rg_producers r)" and "fifo.within (rg_queue r)" and "queue_ok (rg_queue r)"
    and "map_of (rg_producers r) key = Some p \<Longrightarrow> producer_ok key p \<and> pd_scope p < rg_tokens r
      \<and> pending_ok p (queued_of (rg_queue r) key)
      \<and> length (pd_receipts p) \<le> rg_receipts r \<and> pd_bytes p \<le> rg_receipt_bytes r"
    and "map_of (rg_producers r) key = None \<Longrightarrow> queued_of (rg_queue r) key = []"
  using assms total_of_member [of "rg_producers r" key p "\<lambda>p. length (pd_receipts p)"]
    total_of_member [of "rg_producers r" key p pd_bytes]
  by (auto simp: registry_ok_def fifo.within_def)

lemma Registry_new_ok: "registry_ok (Registry_new a t)"
  by (simp add: registry_ok_def Registry_new_def fifo.within_start fifo.start_law)

definition held_receipts :: "Producer option \<Rightarrow> nat" where
  "held_receipts old = (case old of None \<Rightarrow> 0 | Some p \<Rightarrow> length (pd_receipts p))"

definition held_bytes :: "Producer option \<Rightarrow> nat" where
  "held_bytes old = (case old of None \<Rightarrow> 0 | Some p \<Rightarrow> pd_bytes p)"

lemma total_update: "total_of w (AList.update k v m) + (case map_of m k of None \<Rightarrow> 0 | Some u \<Rightarrow> w u)
    = total_of w m + w v"
  by (cases "map_of m k") (simp_all add: total_of_update_new total_of_update_old)

text \<open>One producer and the queue replaced: what keeps the registry well formed.\<close>

lemma registry_ok_replace:
  assumes ok: "registry_ok r"
    and new: "map_of (rg_producers r) key = None \<Longrightarrow> length (rg_producers r) < MAX_PRODUCERS"
    and producers: "rg_producers r' = AList.update key p (rg_producers r)"
    and receipts: "rg_receipts r' + held_receipts (map_of (rg_producers r) key)
      = rg_receipts r + length (pd_receipts p)" "rg_receipts r' \<le> MAX_RECEIPTS"
    and bytes: "rg_receipt_bytes r' + held_bytes (map_of (rg_producers r) key)
      = rg_receipt_bytes r + pd_bytes p" "rg_receipt_bytes r' \<le> MAX_RECEIPT_BYTES"
    and tokens: "pd_scope p < rg_tokens r'" "rg_tokens r \<le> rg_tokens r'"
    and queue: "fifo.within (rg_queue r')"
      "\<And>k. k \<noteq> key \<Longrightarrow> queued_of (rg_queue r') k = queued_of (rg_queue r) k"
    and p: "producer_ok key p" "pending_ok p (queued_of (rg_queue r') key)"
  shows "registry_ok r'"
proof -
  have len: "length (rg_producers r') \<le> MAX_PRODUCERS"
    using ok new by (auto simp: producers length_update registry_ok_def)
  have 1: "producer_ok k x \<and> pending_ok x (queued_of (rg_queue r') k) \<and> pd_scope x < rg_tokens r'"
    if "map_of (rg_producers r') k = Some x" for k x
  proof (cases "k = key")
    case True
    with that p tokens show ?thesis by (simp add: producers map_of_update)
  next
    case False
    with that have "map_of (rg_producers r) k = Some x" by (simp add: producers map_of_update)
    with registry_okD(4) [OF ok this] queue(2) [OF False] tokens(2) show ?thesis by auto
  qed
  have 2: "queued_of (rg_queue r') k = []" if "map_of (rg_producers r') k = None" for k
    using that queue(2) registry_okD(5) [OF ok] by (auto simp: producers map_of_update split: if_splits)
  have "total_of (\<lambda>p. length (pd_receipts p)) (rg_producers r') + held_receipts (map_of (rg_producers r) key)
      = total_of (\<lambda>p. length (pd_receipts p)) (rg_producers r) + length (pd_receipts p)"
    unfolding producers held_receipts_def by (rule total_update)
  then have 3: "rg_receipts r' = total_of (\<lambda>p. length (pd_receipts p)) (rg_producers r')"
    using ok receipts(1) by (simp add: registry_ok_def)
  have "total_of pd_bytes (rg_producers r') + held_bytes (map_of (rg_producers r) key)
      = total_of pd_bytes (rg_producers r) + pd_bytes p"
    unfolding producers held_bytes_def by (rule total_update)
  then have 4: "rg_receipt_bytes r' = total_of pd_bytes (rg_producers r')"
    using ok bytes(1) by (simp add: registry_ok_def)
  have "distinct_keys (rg_producers r')" using registry_okD(1) [OF ok] by (simp add: producers)
  with len 1 2 3 4 queue(1) receipts(2) bytes(2) show ?thesis unfolding registry_ok_def by blast
qed

lemma registry_ok_bounds:
  "registry_ok r \<Longrightarrow> rg_receipts r \<le> MAX_RECEIPTS \<and> rg_receipt_bytes r \<le> MAX_RECEIPT_BYTES
     \<and> length (rg_producers r) \<le> MAX_PRODUCERS"
  by (simp add: registry_ok_def)

lemma producer_ok_new: "producer_ok (pr_producer_id reg) (Producer_new scope reg)"
  by (simp add: producer_ok_def Producer_new_def)

lemma pending_ok_Nil [simp]: "pending_ok p []"
  by (simp add: pending_ok_def)

subsection \<open>Every operation keeps the invariant\<close>

lemma register_ok: "registry_ok r \<Longrightarrow> register r reg = (r', x) \<Longrightarrow> registry_ok r'"
proof -
  assume ok: "registry_ok r" and reg: "register r reg = (r', x)"
  show ?thesis
  proof (cases "r' = r")
    case False
    with reg have r': "r' = insert_new reg r" and
      none: "map_of (rg_producers r) (pr_producer_id reg) = None" and
      room: "length (rg_producers r) < MAX_PRODUCERS"
      by (auto simp: register_def contains_key_def split: if_splits sum.splits)
    show ?thesis
      by (rule registry_ok_replace [OF ok, where key = "pr_producer_id reg" and p = "Producer_new (rg_tokens r) reg"])
         (use none room registry_okD(2,5) [OF ok] registry_ok_bounds [OF ok] producer_ok_new in
           \<open>auto simp: r' insert_new_def put_def held_receipts_def held_bytes_def Producer_new_def\<close>)
  qed (use ok in simp)
qed

lemma discard_queued_eq:
  assumes "queue_ok (rg_queue r)" and "discard_queued r producer = (r', n)"
  shows "rg_producers r' = rg_producers r" "rg_receipts r' = rg_receipts r" "rg_receipt_bytes r' = rg_receipt_bytes r"
    "rg_tokens r' = rg_tokens r" "rg_authority r' = rg_authority r"
    "queued_of (rg_queue r') k = (if k = producer then [] else queued_of (rg_queue r) k)"
    "n = length (queued_of (rg_queue r) producer)"
    "fifo.within (rg_queue r) \<Longrightarrow> fifo.within (rg_queue r')"
proof -
  obtain q where q: "Queue_discard (rg_queue r) producer = (q, n)"
    using assms(2) by (auto simp: discard_queued_def split: prod.splits)
  with assms(2) have r': "r' = r\<lparr> rg_queue := q, rg_discarded := saturating_add (rg_discarded r) (u64_of_usize n) \<rparr>"
    by (simp add: discard_queued_def)
  show "rg_producers r' = rg_producers r" "rg_receipts r' = rg_receipts r" "rg_receipt_bytes r' = rg_receipt_bytes r"
    "rg_tokens r' = rg_tokens r" "rg_authority r' = rg_authority r" by (simp_all add: r')
  from fifo.discard_law [OF assms(1) q]
  show "queued_of (rg_queue r') k = (if k = producer then [] else queued_of (rg_queue r) k)"
    "n = length (queued_of (rg_queue r) producer)" by (simp_all add: r')
  show "fifo.within (rg_queue r')" if "fifo.within (rg_queue r)" using fifo.within_discard [OF that q] by (simp add: r')
qed

lemma install_ok: "registry_ok r \<Longrightarrow> install_committed r reg = (r', x) \<Longrightarrow> registry_ok r'"
proof -
  assume ok: "registry_ok r" and inst: "install_committed r reg = (r', x)"
  let ?key = "pr_producer_id reg"
  show ?thesis
  proof (cases "r' = r")
    case False
    with inst obtain receipts bytes r1 n where
      old: "receipts = held_receipts (map_of (rg_producers r) ?key)" "bytes = held_bytes (map_of (rg_producers r) ?key)"
      and new: "map_of (rg_producers r) ?key = None \<Longrightarrow> length (rg_producers r) < MAX_PRODUCERS"
      and d: "discard_queued (r\<lparr> rg_receipts := rg_receipts r - receipts,
                     rg_receipt_bytes := rg_receipt_bytes r - bytes \<rparr>) ?key = (r1, n)"
      and r': "r' = insert_new reg r1"
      by (auto simp: install_committed_def held_receipts_def held_bytes_def Let_def and_then_def
          split: sum.splits prod.splits option.splits if_splits)
    have q: "queue_ok (rg_queue (r\<lparr> rg_receipts := rg_receipts r - receipts,
                     rg_receipt_bytes := rg_receipt_bytes r - bytes \<rparr>))"
      using registry_okD(3) [OF ok] by simp
    note dq = discard_queued_eq [OF q d, simplified]
    have le: "receipts \<le> rg_receipts r" "bytes \<le> rg_receipt_bytes r"
      using registry_okD(4) [OF ok, of ?key] old by (auto simp: held_receipts_def held_bytes_def split: option.splits)
    show ?thesis
      by (rule registry_ok_replace [OF ok, where key = ?key and p = "Producer_new (rg_tokens r1) reg"])
         (use new le old dq registry_okD(2) [OF ok] registry_ok_bounds [OF ok] producer_ok_new in
           \<open>auto simp: r' insert_new_def put_def Producer_new_def\<close>)
  qed (use ok in simp)
qed

lemma invalidate_ok: "registry_ok r \<Longrightarrow> invalidate r producer = (r', x) \<Longrightarrow> registry_ok r'"
proof -
  assume ok: "registry_ok r" and inv: "invalidate r producer = (r', x)"
  show ?thesis
  proof (cases "map_of (rg_producers r) producer")
    case None
    with ok inv show ?thesis by (simp add: invalidate_def)
  next
    case (Some p)
    define p' where "p' = p\<lparr> pd_blocked := True, pd_scope := rg_tokens r \<rparr>"
    define r1 where "r1 = (put producer p' r)\<lparr> rg_tokens := rg_tokens r + 1 \<rparr>"
    from inv Some obtain n where d: "discard_queued r1 producer = (r', n)"
      by (auto simp: invalidate_def Let_def p'_def r1_def split: prod.splits)
    have q: "queue_ok (rg_queue r1)" using registry_okD(3) [OF ok] by (simp add: r1_def put_def)
    note dq = discard_queued_eq [OF q d]
    have "producer_ok producer p'" using registry_okD(4) [OF ok Some] by (simp add: p'_def producer_ok_def)
    then show ?thesis
      by (intro registry_ok_replace [OF ok, where key = producer and p = p'])
         (use Some dq registry_okD(2) [OF ok] registry_ok_bounds [OF ok] in
           \<open>auto simp: r1_def put_def p'_def held_receipts_def held_bytes_def\<close>)
  qed
qed

lemma invalidate_generation_ok:
  "registry_ok r \<Longrightarrow> invalidate_generation r producer g = (r', x) \<Longrightarrow> registry_ok r'"
  using invalidate_ok by (auto simp: invalidate_generation_def split: option.splits if_splits)

lemma reconcile_ok: "registry_ok r \<Longrightarrow> reconcile r producer next entropy = (r', x) \<Longrightarrow> registry_ok r'"
proof -
  assume ok: "registry_ok r" and rec: "reconcile r producer next entropy = (r', x)"
  show ?thesis
  proof (cases "r' = r")
    case False
    with rec obtain p g where p: "map_of (rg_producers r) producer = Some p" and g: "fresh entropy = Ok g"
      "g \<noteq> pr_generation (pd_registration p)"
      by (auto simp: reconcile_def split: option.splits sum.splits if_splits)
    define p' where "p' = p\<lparr> pd_receipts := [], pd_event_ids := [], pd_bytes := 0,
                 pd_registration := (pd_registration p)\<lparr> pr_generation := g \<rparr>,
                 pd_scope := rg_tokens r, pd_next := Some next, pd_blocked := False \<rparr>"
    define r1 where "r1 = (put producer p' (r\<lparr> rg_receipts := rg_receipts r - length (pd_receipts p),
                      rg_receipt_bytes := rg_receipt_bytes r - pd_bytes p \<rparr>))\<lparr> rg_tokens := rg_tokens r + 1 \<rparr>"
    have "r' = fst (discard_queued r1 producer)"
      using rec p g by (simp add: reconcile_def Let_def p'_def r1_def)
    then obtain n where d: "discard_queued r1 producer = (r', n)"
      by (cases "discard_queued r1 producer") auto
    have q: "queue_ok (rg_queue r1)" using registry_okD(3) [OF ok] by (simp add: r1_def put_def)
    note dq = discard_queued_eq [OF q d]
    have "producer_ok producer p'" using registry_okD(4) [OF ok p] by (simp add: p'_def producer_ok_def)
    then show ?thesis
      by (intro registry_ok_replace [OF ok, where key = producer and p = p'])
         (use p dq registry_okD(2,4) [OF ok] registry_ok_bounds [OF ok] in
           \<open>auto simp: r1_def put_def p'_def held_receipts_def held_bytes_def\<close>)
  qed (use ok in simp)
qed

lemma Registry_pop_ok: "registry_ok r \<Longrightarrow> Registry_pop r = (r', x) \<Longrightarrow> registry_ok r'"
proof -
  assume ok: "registry_ok r" and pop: "Registry_pop r = (r', x)"
  obtain q where q: "Queue_pop (rg_queue r) = (q, x)" and r': "r' = r\<lparr> rg_queue := q \<rparr>"
    using pop by (auto simp: Registry_pop_def split: prod.splits)
  show ?thesis
  proof (cases x)
    case None
    from fifo.pop_None_law [OF registry_okD(3) [OF ok]] q None have "r' = r" by (simp add: r')
    with ok show ?thesis by simp
  next
    case (Some e)
    with q have pp: "queued_of (rg_queue r) k =
        (if k = ev_producer_id e then e # queued_of q k else queued_of q k)" for k
      using fifo.pop_per_producer [OF registry_okD(3) [OF ok]] by simp
    have "pending_ok p (queued_of q k)" if "pending_ok p (queued_of (rg_queue r) k)" for p k
      using that by (auto simp: pp pending_ok_def split: if_splits)
    moreover have "queued_of q k = []" if "queued_of (rg_queue r) k = []" for k
      using that by (auto simp: pp split: if_splits)
    moreover have "fifo.within q" by (rule fifo.within_pop [OF registry_okD(2) [OF ok] q])
    ultimately show ?thesis using ok by (simp add: registry_ok_def r')
  qed
qed

lemma sequence_cases:
  assumes "sequence p e = (p', x)"
  obtains (queued) "p' = p" "x = Ok Queued" "\<not> pd_blocked p" "map_of (pd_receipts p) (ev_seq e) = None"
      "map_of (pd_event_ids p) (ev_event_id e) = None" "pd_next p = Some (ev_seq e)"
  | (repeated) "p' = p" "x = Ok AlreadyAdmitted" "\<not> pd_blocked p" "map_of (pd_receipts p) (ev_seq e) = Some e"
  | (refused) err where "p' = p \<or> p' = p\<lparr> pd_blocked := True \<rparr>" "x = Err err"
  using assms
  by (auto simp: sequence_def contains_key_def split: if_splits option.splits)

lemma blocked_ok: "producer_ok key (p\<lparr> pd_blocked := b \<rparr>) = producer_ok key p"
    "pending_ok (p\<lparr> pd_blocked := b \<rparr>) es = pending_ok p es"
  by (simp_all add: producer_ok_def pending_ok_def)

text \<open>The registry with one producer blocked or left as it is.\<close>

lemma put_blocked_ok:
  assumes ok: "registry_ok r" and "map_of (rg_producers r) key = Some p" and "p' = p \<or> p' = p\<lparr> pd_blocked := True \<rparr>"
  shows "registry_ok (put key p' r)"
  by (rule registry_ok_replace [OF ok, where key = key and p = p'])
     (use assms(2,3) registry_okD(2,4) [OF ok] registry_ok_bounds [OF ok] in
       \<open>auto simp: put_def held_receipts_def held_bytes_def blocked_ok\<close>)

lemma Seq_checked_next_value: "next_value (Seq_checked_next s) = Suc (unat (Seq_value s))"
  unfolding next_value_def using unat_u64_less [of "Seq_value s"]
  by (cases s) (auto simp: Seq_checked_next_def checked_add_def unat_word_ariths split: option.splits if_splits
)

definition admitted :: "Producer \<Rightarrow> EventEnvelope \<Rightarrow> nat \<Rightarrow> Producer" where
  "admitted p event bytes = p\<lparr> pd_next := Seq_checked_next (ev_seq event),
     pd_event_ids := AList.update (ev_event_id event) (ev_seq event) (pd_event_ids p),
     pd_receipts := AList.update (ev_seq event) event (pd_receipts p),
     pd_bytes := pd_bytes p + bytes \<rparr>"

definition admitted_registry :: "Registry \<Rightarrow> Producer \<Rightarrow> EventEnvelope \<Rightarrow> nat \<Rightarrow> Registry" where
  "admitted_registry r p event bytes = (put (ev_producer_id event) (admitted p event bytes) r)
     \<lparr> rg_receipts := rg_receipts r + 1, rg_receipt_bytes := rg_receipt_bytes r + bytes,
       rg_queue := Queue_push (rg_queue r) event \<rparr>"

lemma reserve_cases:
  assumes "reserve r session event bytes = (r', x)"
  obtains (same) err where "r' = r" "x = Err err"
  | (refused) p p' err where "map_of (rg_producers r) (es_producer session) = Some p"
      "p' = p \<or> p' = p\<lparr> pd_blocked := True \<rparr>" "r' = put (es_producer session) p' r" "x = Err err"
  | (repeated) p where "map_of (rg_producers r) (es_producer session) = Some p" "r' = put (es_producer session) p r"
      "x = Ok AlreadyAdmitted" "map_of (pd_receipts p) (ev_seq event) = Some event" "\<not> pd_blocked p"
  | (queued) p where "map_of (rg_producers r) (es_producer session) = Some p" "x = Ok Queued"
      "r' = admitted_registry r p event bytes" "\<not> pd_blocked p"
      "map_of (pd_receipts p) (ev_seq event) = None" "map_of (pd_event_ids p) (ev_event_id event) = None"
      "pd_next p = Some (ev_seq event)" "has_room (rg_queue r) (es_producer session)"
      "length (pd_receipts p) < MAX_PRODUCER_RECEIPTS" "rg_receipts r < MAX_RECEIPTS"
      "bytes \<le> MAX_RECEIPT_BYTES - rg_receipt_bytes r"
      "es_scope session = pd_scope p" "es_generation session = pr_generation (pd_registration p)"
      "ev_generation event = es_generation session" "ev_producer_id event = es_producer session"
      "ev_run_id event = pr_run_id (pd_registration p)"
      "EventPayload_kind (ev_event event) \<in> set (es_signals session)"
proof (cases "map_of (rg_producers r) (es_producer session)")
  case None
  with assms same show ?thesis by (auto simp: reserve_def)
next
  case (Some p)
  obtain p' y where seq: "sequence p event = (p', y)" by (cases "sequence p event")
  from seq show ?thesis
  proof (cases rule: sequence_cases)
    case queued
    have fields: "rg_receipts (put k y r) = rg_receipts r" "rg_receipt_bytes (put k y r) = rg_receipt_bytes r"
      "rg_queue (put k y r) = rg_queue r" for k y by (simp_all add: put_def)
    from queued assms Some seq same that(2) [of p "p\<lparr> pd_blocked := True \<rparr>"] that(2) [of p p] that(4) [of p] show ?thesis
      by (auto simp: reserve_def admitted_registry_def admitted_def Let_def not_le fields split: if_splits)
  next
    case repeated
    with assms Some seq same that(3) [of p] show ?thesis by (auto simp: reserve_def split: if_splits)
  next
    case (refused err)
    with assms Some seq same that(2) [of p p'] show ?thesis by (auto simp: reserve_def split: if_splits)
  qed
qed

lemma admitted_producer_ok:
  assumes "producer_ok key p" and "pd_next p = Some (ev_seq e)" and "map_of (pd_receipts p) (ev_seq e) = None"
    and "map_of (pd_event_ids p) (ev_event_id e) = None" and "length (pd_receipts p) < MAX_PRODUCER_RECEIPTS"
    and "ev_generation e = pr_generation (pd_registration p)" "ev_run_id e = pr_run_id (pd_registration p)"
    "ev_producer_id e = key"
  shows "producer_ok key (admitted p e bytes)"
proof -
  have next_eq: "next_value (pd_next p) = unat (Seq_value (ev_seq e))" using assms(2) by (simp add: next_value_def)
  have "ev_event_id f \<noteq> ev_event_id e" if "map_of (pd_receipts p) s = Some f" for s f
    using assms(1,4) that unfolding producer_ok_def by (metis option.distinct(1))
  with assms next_eq show ?thesis
    by (auto simp: producer_ok_def admitted_def map_of_update length_update Seq_checked_next_value
        intro: less_SucI split: if_splits)
qed

lemma admitted_pending:
  assumes "producer_ok key p" and "pd_next p = Some (ev_seq e)" and "pending_ok p es"
  shows "pending_ok (admitted p e bytes) (es @ [e])"
proof -
  have next_eq: "next_value (pd_next p) = unat (Seq_value (ev_seq e))" using assms(2) by (simp add: next_value_def)
  show ?thesis
    unfolding pending_ok_def
  proof (intro allI impI)
    fix i assume i: "i < length (es @ [e])"
    show "map_of (pd_receipts (admitted p e bytes)) (ev_seq ((es @ [e]) ! i)) = Some ((es @ [e]) ! i)
      \<and> unat (Seq_value (ev_seq ((es @ [e]) ! i))) + (length (es @ [e]) - i) = next_value (pd_next (admitted p e bytes))"
    proof (cases "i < length es")
      case True
      with assms(3) have m: "map_of (pd_receipts p) (ev_seq (es ! i)) = Some (es ! i)"
        and s: "unat (Seq_value (ev_seq (es ! i))) + (length es - i) = next_value (pd_next p)"
        by (auto simp: pending_ok_def)
      with True next_eq have "ev_seq (es ! i) \<noteq> ev_seq e" by auto
      with m s True next_eq show ?thesis
        by (simp add: nth_append admitted_def map_of_update Seq_checked_next_value Suc_diff_le)
    next
      case False
      with i have "i = length es" by simp
      then show ?thesis by (simp add: nth_append admitted_def map_of_update Seq_checked_next_value)
    qed
  qed
qed

lemma reserve_ok: "registry_ok r \<Longrightarrow> reserve r session event bytes = (r', x) \<Longrightarrow> registry_ok r'"
proof -
  assume ok: "registry_ok r" and res: "reserve r session event bytes = (r', x)"
  from res show ?thesis
  proof (cases rule: reserve_cases)
    case (same err)
    with ok show ?thesis by simp
  next
    case (refused p p' err)
    with put_blocked_ok [OF ok] show ?thesis by simp
  next
    case (repeated p)
    with put_blocked_ok [OF ok] show ?thesis by simp
  next
    case (queued p)
    let ?key = "ev_producer_id event"
    have p: "map_of (rg_producers r) ?key = Some p" using queued by simp
    note old = registry_okD(4) [OF ok p]
    have q: "queued_of (Queue_push (rg_queue r) event) k
        = (if k = ?key then queued_of (rg_queue r) k @ [event] else queued_of (rg_queue r) k)" for k
      using fifo.push_law(3) [OF registry_okD(3) [OF ok]] by simp
    have "fifo.within (Queue_push (rg_queue r) event)"
      using fifo.within_push [OF registry_okD(2) [OF ok]] queued by simp
    moreover have "producer_ok ?key (admitted p event bytes)"
      by (rule admitted_producer_ok) (use old queued in auto)
    moreover have "pending_ok (admitted p event bytes) (queued_of (rg_queue r) ?key @ [event])"
      by (rule admitted_pending [of ?key]) (use old queued in auto)
    ultimately show ?thesis
      by (intro registry_ok_replace [OF ok, where key = ?key and p = "admitted p event bytes"])
         (use p q old queued registry_ok_bounds [OF ok] in
           \<open>auto simp: admitted_registry_def put_def admitted_def held_receipts_def held_bytes_def length_update\<close>)
  qed
qed

lemma admit_ok: "registry_ok r \<Longrightarrow> admit codec r session frame = (r', x) \<Longrightarrow> registry_ok r'"
proof -
  assume ok: "registry_ok r" and adm: "admit codec r session frame = (r', x)"
  have rejected: "registry_ok (s\<lparr> rg_rejected := n \<rparr>)" if "registry_ok s" for s n
    using that by (simp add: registry_ok_def)
  from adm ok rejected reserve_ok [OF ok] show ?thesis
    by (auto simp: admit_def split: if_splits sum.splits prod.splits)
qed

subsection \<open>Registries over time\<close>

text \<open>One call on the registry, whatever it returns.\<close>

inductive registry_step :: "event_codec \<Rightarrow> Registry \<Rightarrow> Registry \<Rightarrow> bool" for codec where
  register: "register r reg = (r', x1) \<Longrightarrow> registry_step codec r r'"
| install: "install_committed r reg = (r', x2) \<Longrightarrow> registry_step codec r r'"
| invalidate: "invalidate r producer = (r', x2) \<Longrightarrow> registry_step codec r r'"
| invalidate_generation: "invalidate_generation r producer g = (r', x2) \<Longrightarrow> registry_step codec r r'"
| admit: "admit codec r session frame = (r', x3) \<Longrightarrow> registry_step codec r r'"
| reconcile: "reconcile r producer n entropy = (r', x4) \<Longrightarrow> registry_step codec r r'"
| pop: "Registry_pop r = (r', x5) \<Longrightarrow> registry_step codec r r'"

lemma registry_step_ok: "registry_step codec r r' \<Longrightarrow> registry_ok r \<Longrightarrow> registry_ok r'"
  by (induction rule: registry_step.induct)
     (blast intro: register_ok install_ok invalidate_ok invalidate_generation_ok admit_ok reconcile_ok Registry_pop_ok)+

lemma registry_steps_ok: "(registry_step codec)\<^sup>*\<^sup>* r r' \<Longrightarrow> registry_ok r \<Longrightarrow> registry_ok r'"
  by (induction rule: rtranclp_induct) (auto intro: registry_step_ok)

subsection \<open>Admission\<close>

lemma update_same: "map_of m k = Some v \<Longrightarrow> AList.update k v m = m"
  by (induction m) auto

lemma admit_Ok:
  assumes "admit codec r session frame = (r', Ok a)"
  shows "\<exists>event p. parse_event codec frame = Ok event \<and> es_authority session = rg_authority r
    \<and> map_of (rg_producers r) (es_producer session) = Some p \<and> \<not> pd_blocked p
    \<and> es_scope session = pd_scope p
    \<and> (case a of
         AlreadyAdmitted \<Rightarrow> map_of (pd_receipts p) (ev_seq event) = Some event \<and> r' = r
       | Queued \<Rightarrow> pd_next p = Some (ev_seq event) \<and> map_of (pd_receipts p) (ev_seq event) = None
           \<and> ev_producer_id event = es_producer session \<and> ev_generation event = es_generation session
           \<and> es_generation session = pr_generation (pd_registration p)
           \<and> ev_run_id event = pr_run_id (pd_registration p)
           \<and> EventPayload_kind (ev_event event) \<in> set (es_signals session)
           \<and> r' = admitted_registry r p event (length frame))"
proof -
  from assms obtain event where event: "parse_event codec frame = Ok event" "es_authority session = rg_authority r"
    and res: "reserve r session event (length frame) = (r', Ok a)"
    by (auto simp: admit_def split: if_splits sum.splits prod.splits)
  from res show ?thesis
  proof (cases rule: reserve_cases)
    case (repeated p)
    have "es_scope session = pd_scope p"
      using res repeated(1) by (auto simp: reserve_def repeated(3) split: if_splits)
    moreover have "put (es_producer session) p r = r"
      using repeated(1) by (simp add: put_def update_same)
    ultimately show ?thesis using event repeated by auto
  next
    case (queued p)
    with event show ?thesis by auto
  qed auto
qed

lemma admit_Err:
  assumes "admit codec r session frame = (r', Err e)"
  shows "rg_queue r' = rg_queue r \<and> rg_receipts r' = rg_receipts r \<and> rg_receipt_bytes r' = rg_receipt_bytes r
    \<and> (\<forall>key p'. map_of (rg_producers r') key = Some p' \<longrightarrow>
         (\<exists>p. map_of (rg_producers r) key = Some p \<and> (p' = p \<or> p' = p\<lparr> pd_blocked := True \<rparr>)))"
proof -
  from assms consider "r' = r" | "rg_producers r' = rg_producers r" "rg_queue r' = rg_queue r"
      "rg_receipts r' = rg_receipts r" "rg_receipt_bytes r' = rg_receipt_bytes r"
    | event r1 where "reserve r session event (length frame) = (r1, Err e)" "r' = r1\<lparr> rg_rejected := saturating_add (rg_rejected r1) 1 \<rparr>"
    by (auto simp: admit_def split: if_splits sum.splits prod.splits)
  then show ?thesis
  proof cases
    case (3 event r1)
    from 3(1) show ?thesis
    proof (cases rule: reserve_cases)
      case (refused p p' err)
      with 3(2) show ?thesis by (auto simp: put_def map_of_update)
    qed (use 3(2) in auto)
  qed auto
qed

text \<open>A blocked producer admits nothing until a new generation is installed.\<close>

lemma sequence_blocks:
  "sequence p event = (p', Err e) \<Longrightarrow> e = AdmissionError.Conflict \<or> e = AdmissionError.SequenceGap \<Longrightarrow> pd_blocked p'"
  by (auto simp: sequence_def split: if_splits option.splits)

subsection \<open>Revoked sessions\<close>

text \<open>The scope token a session carries is not, and will not become, its producer's.\<close>

definition revoked :: "Registry \<Rightarrow> EventSession \<Rightarrow> bool" where
  "revoked r s \<longleftrightarrow> es_scope s < rg_tokens r
     \<and> (\<forall>p. map_of (rg_producers r) (es_producer s) = Some p \<longrightarrow> pd_scope p \<noteq> es_scope s)"

lemma revoked_refused: "revoked r s \<Longrightarrow> admit codec r s frame = (r', x) \<Longrightarrow> \<not> is_ok x"
proof (cases x)
  case (Inr a)
  assume "revoked r s" "admit codec r s frame = (r', x)"
  with admit_Ok [of codec r s frame r' a] Inr show ?thesis by (auto simp: revoked_def)
qed simp

definition scopes_follow :: "Registry \<Rightarrow> Registry \<Rightarrow> bool" where
  "scopes_follow r r' \<longleftrightarrow> rg_tokens r \<le> rg_tokens r' \<and> (\<forall>key p'. map_of (rg_producers r') key = Some p' \<longrightarrow>
     rg_tokens r \<le> pd_scope p' \<or> (\<exists>p. map_of (rg_producers r) key = Some p \<and> pd_scope p = pd_scope p'))"

lemma scopes_follow_refl [simp]: "scopes_follow r r"
  by (auto simp: scopes_follow_def)

lemma scopes_follow_put:
  "rg_producers r' = AList.update key p (rg_producers r) \<Longrightarrow> rg_tokens r \<le> rg_tokens r' \<Longrightarrow>
     rg_tokens r \<le> pd_scope p \<or> (\<exists>q. map_of (rg_producers r) key = Some q \<and> pd_scope q = pd_scope p) \<Longrightarrow>
     scopes_follow r r'"
  by (auto simp: scopes_follow_def map_of_update)

lemma revoked_follow: "revoked r s \<Longrightarrow> scopes_follow r r' \<Longrightarrow> revoked r' s"
  by (fastforce simp: revoked_def scopes_follow_def)

lemma discard_queued_fields:
  "discard_queued r p = (r', n) \<Longrightarrow> rg_producers r' = rg_producers r \<and> rg_tokens r' = rg_tokens r"
  by (auto simp: discard_queued_def split: prod.splits)

lemma invalidate_scope:
  "invalidate r producer = (r', x) \<Longrightarrow> r' = r \<and> \<not> is_ok x \<or>
     (\<exists>p. rg_producers r' = AList.update producer p (rg_producers r) \<and> pd_scope p = rg_tokens r
        \<and> rg_tokens r' = Suc (rg_tokens r))"
  by (auto simp: invalidate_def Let_def put_def dest!: discard_queued_fields split: option.splits prod.splits)

lemma install_scope:
  "install_committed r reg = (r', x) \<Longrightarrow> r' = r \<and> \<not> is_ok x \<or>
     (\<exists>p. rg_producers r' = AList.update (pr_producer_id reg) p (rg_producers r) \<and> pd_scope p = rg_tokens r
        \<and> rg_tokens r' = Suc (rg_tokens r))"
proof -
  assume inst: "install_committed r reg = (r', x)"
  show ?thesis
  proof (cases x)
    case (Inl e)
    with inst show ?thesis by (auto simp: install_committed_def Let_def split: sum.splits prod.splits)
  next
    case (Inr n)
    with inst obtain a b r1 m where d: "discard_queued (r\<lparr> rg_receipts := a, rg_receipt_bytes := b \<rparr>) (pr_producer_id reg) = (r1, m)"
      and r': "r' = insert_new reg r1"
      by (auto simp: install_committed_def Let_def split: sum.splits prod.splits)
    from discard_queued_fields [OF d] r' show ?thesis
      by (auto simp: insert_new_def put_def Producer_new_def)
  qed
qed

lemma reconcile_scope:
  "reconcile r producer n entropy = (r', x) \<Longrightarrow> r' = r \<and> \<not> is_ok x \<or>
     (\<exists>p. rg_producers r' = AList.update producer p (rg_producers r) \<and> pd_scope p = rg_tokens r
        \<and> rg_tokens r' = Suc (rg_tokens r))"
proof -
  assume rec: "reconcile r producer n entropy = (r', x)"
  show ?thesis
  proof (cases x)
    case (Inl e)
    with rec show ?thesis by (auto simp: reconcile_def Let_def split: option.splits sum.splits if_splits)
  next
    case (Inr g)
    have fields: "rg_producers (fst (discard_queued r1 k)) = rg_producers r1"
      "rg_tokens (fst (discard_queued r1 k)) = rg_tokens r1" for r1 k
      using discard_queued_fields [of r1 k] by (cases "discard_queued r1 k"; simp)+
    from rec Inr show ?thesis
      by (auto simp: reconcile_def Let_def put_def fields split: option.splits sum.splits if_splits)
  qed
qed

lemma reserve_follow: "reserve r s event n = (r', x) \<Longrightarrow> scopes_follow r r'"
proof -
  assume "reserve r s event n = (r', x)"
  then show ?thesis
  proof (cases rule: reserve_cases)
    case (refused p p' err)
    then show ?thesis
      by (intro scopes_follow_put [where key = "es_producer s" and p = p']) (auto simp: put_def)
  next
    case (repeated p)
    then show ?thesis
      by (intro scopes_follow_put [where key = "es_producer s" and p = p]) (auto simp: put_def)
  next
    case (queued p)
    then show ?thesis
      by (intro scopes_follow_put [where key = "es_producer s" and p = "admitted p event n"])
         (auto simp: put_def admitted_registry_def admitted_def)
  qed simp
qed

lemma registry_step_follow: "registry_step codec r r' \<Longrightarrow> scopes_follow r r'"
proof (induction rule: registry_step.induct)
  case (register r reg r' x1)
  then show ?case
    by (cases "r' = r")
       (auto simp: register_def insert_new_def put_def Producer_new_def split: if_splits sum.splits
         intro: scopes_follow_put [where key = "pr_producer_id reg"])
next
  case (install r reg r' x2)
  from install_scope [OF this] show ?case by (auto intro: scopes_follow_put)
next
  case (invalidate r producer r' x2)
  from invalidate_scope [OF this] show ?case by (auto intro: scopes_follow_put)
next
  case (invalidate_generation r producer g r' x2)
  then show ?case
    by (auto simp: invalidate_generation_def dest!: invalidate_scope intro: scopes_follow_put
        split: option.splits if_splits)
next
  case (admit r session frame r' x3)
  have "scopes_follow r (r1\<lparr> rg_rejected := n \<rparr>)" if "scopes_follow r r1" for r1 n
    using that by (simp add: scopes_follow_def)
  with admit reserve_follow show ?case
    by (auto simp: admit_def split: if_splits sum.splits prod.splits)
next
  case (reconcile r producer n entropy r' x4)
  from reconcile_scope [OF this] show ?case by (auto intro: scopes_follow_put)
next
  case (pop r r' x5)
  then show ?case by (auto simp: Registry_pop_def scopes_follow_def split: prod.splits)
qed

lemma revoked_forever: "(registry_step codec)\<^sup>*\<^sup>* r r' \<Longrightarrow> revoked r s \<Longrightarrow> revoked r' s"
  by (induction rule: rtranclp_induct) (auto intro: revoked_follow registry_step_follow)

lemma scope_replaced_revokes:
  assumes "rg_producers r' = AList.update (es_producer s) p (rg_producers r)" and "pd_scope p = rg_tokens r"
    and "rg_tokens r' = Suc (rg_tokens r)" and "es_scope s < rg_tokens r"
  shows "revoked r' s"
  using assms by (auto simp: revoked_def map_of_update)

lemma connect_scope:
  "registry_ok r \<Longrightarrow> connect r peer h = Ok s \<Longrightarrow> es_scope s < rg_tokens r"
  using registry_okD(4) [of r "eh_producer_id h"]
  by (auto simp: connect_def Let_def result_simps split: if_splits)

subsection \<open>Properties of admission\<close>

text \<open>C7: Every state of a registry is bounded and accounted for: at most 10000 producers, 1024 queued
  events (128 of one producer), 8192 retained receipts (1024 of one producer) and 8 MiB of
  receipt bytes, where the two totals are exactly the sums over the producers. The queued events
  of a producer are receipts of its current generation with consecutive sequence numbers that
  end just below the next one expected: nothing is skipped, repeated or reordered.\<close>

theorem registry_bounded:
  assumes "(registry_step codec)\<^sup>*\<^sup>* (Registry_new authority tokens) r"
  shows "length (rg_producers r) \<le> 10000 \<and> queued r \<le> 1024
     \<and> rg_receipts r = total_of (\<lambda>p. length (pd_receipts p)) (rg_producers r) \<and> rg_receipts r \<le> 8192
     \<and> rg_receipt_bytes r = total_of pd_bytes (rg_producers r) \<and> rg_receipt_bytes r \<le> 8 * 1024 * 1024
     \<and> (\<forall>key p. map_of (rg_producers r) key = Some p \<longrightarrow>
          (let es = queued_of (rg_queue r) key in length es \<le> 128 \<and> length (pd_receipts p) \<le> 1024
           \<and> (\<forall>i<length es. map_of (pd_receipts p) (ev_seq (es ! i)) = Some (es ! i)
                \<and> ev_producer_id (es ! i) = key \<and> ev_generation (es ! i) = pr_generation (pd_registration p)
                \<and> unat (Seq_value (ev_seq (es ! i))) + (length es - i) = next_value (pd_next p))))"
proof -
  have ok: "registry_ok r" by (rule registry_steps_ok [OF assms Registry_new_ok])
  then have w: "fifo.within (rg_queue r)" by (rule registry_okD(2))
  have per: "length (queued_of (rg_queue r) key) \<le> 128 \<and> length (pd_receipts p) \<le> 1024
     \<and> (\<forall>i<length (queued_of (rg_queue r) key).
          map_of (pd_receipts p) (ev_seq (queued_of (rg_queue r) key ! i)) = Some (queued_of (rg_queue r) key ! i)
          \<and> ev_producer_id (queued_of (rg_queue r) key ! i) = key
          \<and> ev_generation (queued_of (rg_queue r) key ! i) = pr_generation (pd_registration p)
          \<and> unat (Seq_value (ev_seq (queued_of (rg_queue r) key ! i))) + (length (queued_of (rg_queue r) key) - i)
              = next_value (pd_next p))"
    if "map_of (rg_producers r) key = Some p" for key p
    using registry_okD(4) [OF ok that] w
    by (auto simp: producer_ok_def pending_ok_def fifo.within_def MAX_PRODUCER_QUEUED_def MAX_PRODUCER_RECEIPTS_def)
  show ?thesis
    using ok w per unfolding Let_def registry_ok_def
    by (auto simp: queued_def fifo.within_def MAX_PRODUCERS_def MAX_QUEUED_def MAX_RECEIPTS_def MAX_RECEIPT_BYTES_def)
qed

definition sample_registration :: ProducerRegistration where
  "sample_registration = \<lparr> pr_producer_id = sample_producer, pr_generation = sample_generation,
     pr_run_id = sample_run, pr_harness = Claude, pr_uid = 1000, pr_allowed_signals = EventKind_ALL,
     pr_next_sequence = Seq 1 \<rparr>"

definition sample_registry :: Registry where
  "sample_registry = fst (register (Registry_new 0 1) sample_registration)"

definition sample_session :: EventSession where
  "sample_session = \<lparr> es_authority = 0, es_scope = 1, es_producer = sample_producer,
     es_generation = sample_generation, es_signals = [EventKind.TurnStarted] \<rparr>"

lemma sample_registry_eq: "sample_registry = insert_new sample_registration (Registry_new 0 1)"
  by (simp add: sample_registry_def register_def Registry_new_def contains_key_def MAX_PRODUCERS_def
      unique_signals_def sample_registration_def EventKind_ALL_set Let_def)

lemma sample_registry_reached: "(registry_step codec)\<^sup>*\<^sup>* (Registry_new 0 1) sample_registry"
  using registry_step.register [of "Registry_new 0 1" sample_registration sample_registry
      "snd (register (Registry_new 0 1) sample_registration)" codec]
  by (simp add: sample_registry_def)

lemma registry_bounded_witness:
  "\<exists>p. map_of (rg_producers sample_registry) sample_producer = Some p \<and> length (pd_receipts p) \<le> 1024"
proof -
  have "map_of (rg_producers sample_registry) sample_producer = Some (Producer_new 1 sample_registration)"
    by (simp add: sample_registry_eq insert_new_def put_def Registry_new_def sample_registration_def)
  with registry_bounded [OF sample_registry_reached] show ?thesis by (auto simp: Let_def)
qed

text \<open>C8: Admission is exact. \<open>Queued\<close> is answered only for a frame whose event carries precisely the
  producer's next sequence, on a live session for its producer, run, generation and a negotiated
  signal; the event is then appended to that producer's queue alone and the next sequence moves
  by one. \<open>AlreadyAdmitted\<close> is answered only for an event identical to the retained receipt and
  changes nothing. A refused frame queues nothing and changes no producer except by blocking it.\<close>

theorem admission_exact:
  assumes "registry_ok r" and "admit codec r session frame = (r', x)"
  shows "(x = Ok Queued \<longrightarrow> (\<exists>event p p'. parse_event codec frame = Ok event
        \<and> map_of (rg_producers r) (es_producer session) = Some p
        \<and> map_of (rg_producers r') (es_producer session) = Some p'
        \<and> \<not> pd_blocked p \<and> es_scope session = pd_scope p \<and> pd_next p = Some (ev_seq event)
        \<and> next_value (pd_next p') = Suc (next_value (pd_next p))
        \<and> ev_producer_id event = es_producer session \<and> ev_run_id event = pr_run_id (pd_registration p)
        \<and> ev_generation event = pr_generation (pd_registration p)
        \<and> EventPayload_kind (ev_event event) \<in> set (es_signals session)
        \<and> (\<forall>key. queued_of (rg_queue r') key = (if key = es_producer session
             then queued_of (rg_queue r) key @ [event] else queued_of (rg_queue r) key))))
    \<and> (x = Ok AlreadyAdmitted \<longrightarrow> r' = r \<and> (\<exists>event p. parse_event codec frame = Ok event
        \<and> map_of (rg_producers r) (es_producer session) = Some p
        \<and> map_of (pd_receipts p) (ev_seq event) = Some event))
    \<and> (\<not> is_ok x \<longrightarrow> rg_queue r' = rg_queue r
        \<and> (\<forall>key p'. map_of (rg_producers r') key = Some p' \<longrightarrow>
             (\<exists>p. map_of (rg_producers r) key = Some p \<and> (p' = p \<or> p' = p\<lparr> pd_blocked := True \<rparr>))))"
proof (cases x)
  case (Inl e)
  with admit_Err assms(2) show ?thesis by fastforce
next
  case (Inr a)
  from admit_Ok [OF assms(2) [unfolded Inr]] obtain event p where
    event: "parse_event codec frame = Ok event" "map_of (rg_producers r) (es_producer session) = Some p"
      "\<not> pd_blocked p" "es_scope session = pd_scope p"
    and a: "(case a of
         AlreadyAdmitted \<Rightarrow> map_of (pd_receipts p) (ev_seq event) = Some event \<and> r' = r
       | Queued \<Rightarrow> pd_next p = Some (ev_seq event) \<and> map_of (pd_receipts p) (ev_seq event) = None
           \<and> ev_producer_id event = es_producer session \<and> ev_generation event = es_generation session
           \<and> es_generation session = pr_generation (pd_registration p)
           \<and> ev_run_id event = pr_run_id (pd_registration p)
           \<and> EventPayload_kind (ev_event event) \<in> set (es_signals session)
           \<and> r' = admitted_registry r p event (length frame))" by blast
  show ?thesis
  proof (cases a)
    case Queued
    have "queued_of (rg_queue r') key = (if key = es_producer session
             then queued_of (rg_queue r) key @ [event] else queued_of (rg_queue r) key)" for key
      using a Queued fifo.push_law(3) [OF registry_okD(3) [OF assms(1)]] by (simp add: admitted_registry_def)
    moreover have "map_of (rg_producers r') (es_producer session) = Some (admitted p event (length frame))"
      using a Queued by (simp add: admitted_registry_def put_def map_of_update)
    moreover have "next_value (pd_next (admitted p event (length frame))) = Suc (next_value (pd_next p))"
      using a Queued by (simp add: admitted_def Seq_checked_next_value next_value_def [of "Some _"])
    ultimately show ?thesis using event a Inr Queued by auto
  next
    case AlreadyAdmitted
    with event a Inr show ?thesis by auto
  qed
qed

lemma sample_frame_length [simp]: "length sample_frame = 3"
  by (simp add: sample_frame_def)

lemma sample_admit: "snd (admit sample_codec sample_registry sample_session sample_frame) = Ok Queued"
  by (simp add: admit_def sample_parse sample_registry_eq insert_new_def put_def Registry_new_def
      sample_session_def reserve_def sample_registration_def Producer_new_def sample_event_def
      sequence_def contains_key_def has_room_def Queue_default_def MAX_QUEUED_def MAX_PRODUCER_QUEUED_def
      MAX_PRODUCER_RECEIPTS_def MAX_RECEIPTS_def MAX_RECEIPT_BYTES_def Let_def)

lemma admission_exact_witness:
  "\<exists>r'. admit sample_codec sample_registry sample_session sample_frame = (r', Ok Queued)
     \<and> queued_of (rg_queue r') sample_producer
       = queued_of (rg_queue sample_registry) sample_producer @ [sample_event 1 started]"
proof -
  have ok: "registry_ok sample_registry"
    by (rule registry_steps_ok [OF sample_registry_reached Registry_new_ok])
  obtain r' where r': "admit sample_codec sample_registry sample_session sample_frame = (r', Ok Queued)"
    using sample_admit by (cases "admit sample_codec sample_registry sample_session sample_frame") auto
  from admission_exact [OF ok r'] r' show ?thesis
    by (auto simp: sample_parse sample_session_def)
qed

text \<open>C9: A revoked session stays revoked. Once a session's producer has been invalidated, reconciled or
  reinstalled, no later sequence of registry calls makes any frame of that session admissible:
  every \<open>admit\<close> with it is an error, even if a generation or sequence number repeats.\<close>

theorem revoked_session_never_admits:
  assumes "registry_ok r" and "connect r peer handshake = Ok session"
    and "invalidate r (es_producer session) = (r1, Ok n)
       \<or> install_committed r registration = (r1, Ok n) \<and> pr_producer_id registration = es_producer session
       \<or> reconcile r (es_producer session) next entropy = (r1, Ok generation)"
    and "(registry_step codec)\<^sup>*\<^sup>* r1 r2" and "admit codec r2 session frame = (r3, x)"
  shows "\<not> is_ok x"
proof -
  have scope: "es_scope session < rg_tokens r" by (rule connect_scope [OF assms(1,2)])
  have "revoked r1 session"
    using assms(3) scope
    by (auto dest!: invalidate_scope install_scope reconcile_scope intro: scope_replaced_revokes)
  then have "revoked r2 session" by (rule revoked_forever [OF assms(4)])
  then show ?thesis by (rule revoked_refused [OF _ assms(5)])
qed

lemma revoked_session_never_admits_witness:
  "\<exists>r1. invalidate sample_registry sample_producer = (r1, Ok 0)
     \<and> \<not> is_ok (snd (admit sample_codec r1 sample_session sample_frame))"
proof -
  have ok: "registry_ok sample_registry"
    by (rule registry_steps_ok [OF sample_registry_reached Registry_new_ok])
  let ?h = "\<lparr> eh_producer_id = sample_producer, eh_generation = sample_generation, eh_run_id = sample_run,
     eh_harness = Claude, eh_requested_signals = [EventKind.TurnStarted] \<rparr>"
  have con: "connect sample_registry sample_connection ?h = Ok sample_session"
    by (simp add: connect_def sample_registry_eq insert_new_def put_def Registry_new_def sample_registration_def
        sample_connection_def Producer_new_def unique_signals_def EventKind_ALL_set Let_def sample_session_def)
       (simp add: EventKind_ALL_def)
  obtain r1 where r1: "invalidate sample_registry sample_producer = (r1, Ok 0)"
    by (simp add: invalidate_def sample_registry_eq insert_new_def put_def Registry_new_def sample_registration_def
        discard_queued_def Queue_discard_def Queue_default_def Let_def)
  moreover from r1 have inv: "invalidate sample_registry (es_producer sample_session) = (r1, Ok 0)"
    by (simp add: sample_session_def)
  ultimately show ?thesis
    using revoked_session_never_admits [OF ok con disjI1 [OF inv] rtranclp.rtrancl_refl]
    by (metis prod.collapse)
qed

text \<open>C10: Service is fair: a producer with queued events whose ready entry is behind \<open>k\<close> others is
  served by the pop after the next \<open>k\<close>, which serve exactly those producers in order, and it is
  served its oldest event.\<close>

theorem queue_is_fair:
  assumes "registry_ok r" and "qu_ready (rg_queue r) = ahead @ p # behind"
  shows "\<exists>q' served e. pops (length ahead) (rg_queue r) = (q', served)
     \<and> map (map_option ev_producer_id) served = map Some ahead
     \<and> snd (Queue_pop q') = Some e \<and> ev_producer_id e = p
     \<and> queued_of (rg_queue r) p \<noteq> [] \<and> e = hd (queued_of (rg_queue r) p)"
  using served_in_turn [OF registry_okD(3) [OF assms(1)] assms(2)] by (metis snd_conv)

lemma queue_is_fair_witness:
  "\<exists>r' q' served e. admit sample_codec sample_registry sample_session sample_frame = (r', Ok Queued)
     \<and> pops 0 (rg_queue r') = (q', served) \<and> snd (Queue_pop q') = Some e \<and> ev_producer_id e = sample_producer"
proof -
  have ok: "registry_ok sample_registry"
    by (rule registry_steps_ok [OF sample_registry_reached Registry_new_ok])
  obtain r' where r': "admit sample_codec sample_registry sample_session sample_frame = (r', Ok Queued)"
    using sample_admit by (cases "admit sample_codec sample_registry sample_session sample_frame") auto
  from admit_Ok [OF r'] have "qu_ready (rg_queue r') = [] @ sample_producer # []"
    by (auto simp: sample_registry_eq insert_new_def put_def Registry_new_def admitted_registry_def
        Queue_push_def Queue_default_def Let_def sample_session_def)
  from queue_is_fair [OF admit_ok [OF ok r'] this] r' show ?thesis by auto
qed

end
