(* ===== verification/Store_Types.thy ===== *)
theory Store_Types
  imports Lifecycle
begin

unbundle bit_operations_syntax

section \<open>Storage: vocabulary, tables and encodings (storage/types.rs, reducer_types.rs, schema)\<close>

text \<open>
  The commands and results of the storage worker and the database they act on. The database is
  modelled at the level of its SQL cells: a TEXT cell is a byte string, an INTEGER cell a
  number (a flag checked to be 0 or 1 is a \<open>bool\<close>), a BLOB cell a list of bytes; a row is a
  record, a table the list of its rows in insertion order. The layout is that of
  \<open>schema_layout.rs\<close>, version 6, without the catalog and runner tables. A failed statement or
  decoder is an error value; a transaction returns the new database only with its success, so
  an error is a rollback.

  Row prefixes: \<open>pw_\<close> producers, \<open>fw_\<close> facts, \<open>jw_\<close> projections, \<open>aw_\<close> attention, \<open>xw_\<close>
  outbox, \<open>tw_\<close> tombstones; \<open>db_\<close> the database (metadata and maintenance rows inlined).
\<close>

subsection \<open>Errors and limits\<close>

datatype StorageError =
    InvalidRequest | UnsafePath | UnsupportedFilesystem | AlreadyOwned | ForeignDatabase
  | FutureSchema | CorruptDatabase | RecoveryRequired | StaleRevision | StaleGeneration
  | UnknownProducer | SequenceGap | Conflict | ResourceExhausted | Backpressure
  | PersistenceUnavailable

definition MAX_FACTS :: nat where "MAX_FACTS = 20000"
definition MAX_TOMBSTONES :: nat where "MAX_TOMBSTONES = 20000"
definition MAX_RUNS :: nat where "MAX_RUNS = 10000"
definition MAX_ATTENTION :: nat where "MAX_ATTENTION = 20000"
definition MAX_OUTBOX_PENDING :: nat where "MAX_OUTBOX_PENDING = 1000"
definition MAX_OUTBOX_AUDIT :: nat where "MAX_OUTBOX_AUDIT = 20000"
definition PAGE_LIMIT :: nat where "PAGE_LIMIT = 100"
definition DAY :: int where "DAY = 86400"

subsection \<open>Commands\<close>

datatype HistoryRetention = SevenDays | ThirtyDays

definition HistoryRetention_days :: "HistoryRetention \<Rightarrow> int" where
  "HistoryRetention_days h = (case h of SevenDays \<Rightarrow> 7 | ThirtyDays \<Rightarrow> 30)"

definition HistoryRetention_from_days :: "int \<Rightarrow> StorageError + HistoryRetention" where
  "HistoryRetention_from_days days =
     (if days = 7 then Ok SevenDays else if days = 30 then Ok ThirtyDays else Err InvalidRequest)"

record Registration =
  rn_expected_revision :: Revision
  rn_producer_id :: ProducerId
  rn_run_id :: RunId
  rn_harness :: HarnessKind
  rn_next_sequence :: Seq
  rn_previous_generation :: "ProducerGeneration option"

record AttentionMutation =
  am_outcome_id :: EventId
  am_reason :: AttentionReason
  am_reviewed :: bool

record TerminalTombstone =
  tt_turn_id :: TurnId
  tt_outcome_id :: EventId

text \<open>\<open>OutboxIntent\<close> has the outcome id as its only field.\<close>

record WriteSet =
  ws_expected_revision :: Revision
  ws_fact :: EventEnvelope
  ws_projection :: RunProjection
  ws_attention :: "AttentionMutation list"
  ws_outbox :: "EventId option"
  ws_tombstone :: "TerminalTombstone option"
  ws_accepted_at :: int

record SnapshotQuery =
  sq_expected_revision :: "Revision option"
  sq_after_run :: "RunId option"
  sq_limit :: nat

record OutcomeKey =
  ok_producer_id :: ProducerId
  ok_generation :: ProducerGeneration
  ok_event_id :: EventId

record ReviewUpdate =
  ru_expected_revision :: Revision
  ru_outcome :: OutcomeKey

record DeliveryUpdate =
  du_expected_revision :: Revision
  du_outcome :: OutcomeKey
  du_state :: DeliveryState
  du_at :: int

record ProducerRecord =
  pc_producer_id :: ProducerId
  pc_harness :: HarnessKind
  pc_generation :: ProducerGeneration
  pc_run_id :: RunId
  pc_next_sequence :: "Seq option"
  pc_active :: bool
  pc_reconciled :: bool

record SnapshotPage =
  sp_revision :: Revision
  sp_runs :: "RunProjection list"
  sp_next_after :: "RunId option"

record OutcomeRecord =
  or_outcome :: OutcomeKey
  or_run_id :: RunId
  or_attention :: "AttentionMutation list"
  or_delivery :: "DeliveryState option"
  or_outcome_revision :: "Revision option"
  or_resolved_reasons :: "AttentionReason list"

record MaintenanceResult =
  mr_facts_removed :: nat
  mr_tombstones_removed :: nat
  mr_generations_retired :: nat
  mr_deliveries_expired :: nat
  mr_more :: bool

datatype EventReceipt = Missing | Exact Revision | Conflict | PriorSequenceUnverifiable

record ReducerContext =
  rc_revision :: Revision
  rc_producer :: "ProducerRecord option"
  rc_state :: ReductionState
  rc_receipt :: EventReceipt

record ReducerWrite =
  rw_expected_revision :: Revision
  rw_fact :: EventEnvelope
  rw_effects :: Effects
  rw_accepted_at :: int
  rw_notify :: bool
  rw_discarded_events :: u64

datatype ReconciliationBaseline =
    Unavailable
  | Verified RunProjection "TurnId option"

record Reconciliation =
  rx_registration :: Registration
  rx_baseline :: ReconciliationBaseline
  rx_discarded_events :: u64
  rx_resolved_turn :: "TurnKey option"
  rx_continued_turn :: "TurnKey option"

record ProducerRetirement =
  pt_expected_revision :: Revision
  pt_producer_id :: ProducerId
  pt_generation :: ProducerGeneration
  pt_discarded_events :: u64

record OutcomeReview =
  ov_expected_revision :: Revision
  ov_outcome :: OutcomeKey
  ov_outcome_revision :: Revision

record StoragePolicy =
  po_revision :: Revision
  po_history :: HistoryRetention

record StorageStatus =
  ss_revision :: Revision
  ss_facts :: nat
  ss_tombstones :: nat
  ss_attention :: nat
  ss_pending_deliveries :: nat
  ss_discarded_events :: u64
  ss_cleanup :: MaintenanceResult

text \<open>The owner of a plan is the engine's \<open>Arc<()>\<close>, compared by pointer: a token.\<close>

record CleanupPreview =
  cp_owner :: nat
  cp_revision :: Revision
  cp_now :: int
  cp_history :: HistoryRetention
  cp_facts :: "int list"
  cp_tombstones :: "int list"
  cp_deliveries :: "int list"
  cp_result :: MaintenanceResult

subsection \<open>Tables\<close>

type_synonym blob = "u8 list"

record producer_row =
  pw_producer :: string
  pw_generation :: string
  pw_run :: string
  pw_harness :: nat
  pw_next_seq :: "blob option"
  pw_active :: bool
  pw_reconciled :: bool

record fact_row =
  fw_rowid :: int
  fw_event :: string
  fw_producer :: string
  fw_generation :: string
  fw_seq :: blob
  fw_run :: string
  fw_accepted :: int
  fw_write_set :: string
  fw_revision :: blob

record projection_row =
  jw_run :: string
  jw_process :: nat
  jw_observation :: nat
  jw_turn :: nat
  jw_turn_id :: "string option"
  jw_producer :: "string option"
  jw_generation :: "string option"

record attention_row =
  aw_producer :: string
  aw_generation :: string
  aw_event :: string
  aw_run :: string
  aw_reason :: nat
  aw_reviewed :: bool
  aw_turn_id :: "string option"
  aw_resolved :: bool
  aw_outcome_revision :: "blob option"
  aw_scoped :: bool
  aw_resolution_generation :: "string option"

record outbox_row =
  xw_rowid :: int
  xw_producer :: string
  xw_generation :: string
  xw_event :: string
  xw_run :: string
  xw_state :: nat
  xw_created :: int
  xw_changed :: int
  xw_outcome_revision :: "blob option"

record tombstone_row =
  tw_rowid :: int
  tw_producer :: string
  tw_generation :: string
  tw_run :: string
  tw_turn_id :: string
  tw_event :: string
  tw_created :: int
  tw_terminal :: "nat option"
  tw_outcome_revision :: "blob option"

record database =
  db_revision :: blob
  db_history_days :: int
  db_discarded :: blob
  db_producers :: "producer_row list"
  db_facts :: "fact_row list"
  db_projections :: "projection_row list"
  db_attention :: "attention_row list"
  db_outbox :: "outbox_row list"
  db_tombstones :: "tombstone_row list"
  db_maintenance :: MaintenanceResult

subsection \<open>Encodings (validation.rs, queries.rs)\<close>

text \<open>\<open>to_be_bytes\<close> and \<open>from_be_bytes\<close>.\<close>

definition number :: "u64 \<Rightarrow> blob" where
  "number value = map (\<lambda>i. ucast (drop_bit (8 * i) value)) [7, 6, 5, 4, 3, 2, 1, 0]"

definition from_be_bytes :: "blob \<Rightarrow> u64" where
  "from_be_bytes bytes = foldl (\<lambda>acc b. push_bit 8 acc OR ucast b) 0 bytes"

definition decode_number :: "blob \<Rightarrow> StorageError + u64" where
  "decode_number value =
     (if length value = 8 then Ok (from_be_bytes value) else Err PersistenceUnavailable)"

text \<open>\<open>parse\<close> of a text cell; a cell that does not parse is an invalid query.\<close>

definition parse_cell :: "(string \<Rightarrow> ProtocolError + 'a) \<Rightarrow> string \<Rightarrow> StorageError + 'a" where
  "parse_cell from_str value = map_err (\<lambda>_. PersistenceUnavailable) (from_str value)"

definition process_code :: "ProcessState \<Rightarrow> nat" where
  "process_code p = (case p of ProcessState.Unknown \<Rightarrow> 0 | Alive \<Rightarrow> 1 | Exited \<Rightarrow> 2 | Zombie \<Rightarrow> 3)"

definition process :: "nat \<Rightarrow> StorageError + ProcessState" where
  "process value = (if value = 0 then Ok ProcessState.Unknown else if value = 1 then Ok Alive
     else if value = 2 then Ok Exited else if value = 3 then Ok Zombie else Err PersistenceUnavailable)"

definition observation_code :: "ObservationState \<Rightarrow> nat" where
  "observation_code o1 = (case o1 of Fresh \<Rightarrow> 0 | Stale \<Rightarrow> 1 | Disconnected \<Rightarrow> 2 | Unsupported \<Rightarrow> 3)"

definition observation :: "nat \<Rightarrow> StorageError + ObservationState" where
  "observation value = (if value = 0 then Ok Fresh else if value = 1 then Ok Stale
     else if value = 2 then Ok Disconnected else if value = 3 then Ok Unsupported
     else Err PersistenceUnavailable)"

definition turn_code :: "TurnState \<Rightarrow> nat" where
  "turn_code t = (case t of TurnState.Unknown \<Rightarrow> 0 | Working \<Rightarrow> 1 | AwaitingInput \<Rightarrow> 2
     | AwaitingApproval \<Rightarrow> 3 | Completed \<Rightarrow> 4 | Failed \<Rightarrow> 5 | Interrupted \<Rightarrow> 6)"

definition turn :: "nat \<Rightarrow> StorageError + TurnState" where
  "turn value = (if value = 0 then Ok TurnState.Unknown else if value = 1 then Ok Working
     else if value = 2 then Ok AwaitingInput else if value = 3 then Ok AwaitingApproval
     else if value = 4 then Ok Completed else if value = 5 then Ok Failed
     else if value = 6 then Ok Interrupted else Err PersistenceUnavailable)"

definition reason_code :: "AttentionReason \<Rightarrow> nat" where
  "reason_code r = (case r of Input \<Rightarrow> 0 | NativeApproval \<Rightarrow> 1 | Failure \<Rightarrow> 2
     | ConnectionUncertainty \<Rightarrow> 3 | Completion \<Rightarrow> 4)"

definition reason :: "nat \<Rightarrow> StorageError + AttentionReason" where
  "reason value = (if value = 0 then Ok Input else if value = 1 then Ok NativeApproval
     else if value = 2 then Ok Failure else if value = 3 then Ok ConnectionUncertainty
     else if value = 4 then Ok Completion else Err PersistenceUnavailable)"

definition delivery_code :: "DeliveryState \<Rightarrow> nat" where
  "delivery_code d = (case d of Pending \<Rightarrow> 0 | AttemptedUncertain \<Rightarrow> 1 | Acknowledged \<Rightarrow> 2
     | Expired \<Rightarrow> 3 | Overflowed \<Rightarrow> 4)"

definition delivery :: "nat \<Rightarrow> StorageError + DeliveryState" where
  "delivery value = (if value = 0 then Ok Pending else if value = 1 then Ok AttemptedUncertain
     else if value = 2 then Ok Acknowledged else if value = 3 then Ok Expired
     else if value = 4 then Ok Overflowed else Err PersistenceUnavailable)"

definition harness_code :: "HarnessKind \<Rightarrow> nat" where
  "harness_code h = (case h of Hermes \<Rightarrow> 0 | Claude \<Rightarrow> 1 | Codex \<Rightarrow> 2)"

definition harness :: "nat \<Rightarrow> StorageError + HarnessKind" where
  "harness value = (if value = 0 then Ok Hermes else if value = 1 then Ok Claude
     else if value = 2 then Ok Codex else Err PersistenceUnavailable)"

text \<open>\<open>transpose\<close> of an optional cell.\<close>

definition transpose_option :: "('a \<Rightarrow> 'e + 'b) \<Rightarrow> 'a option \<Rightarrow> 'e + 'b option" where
  "transpose_option f x = (case x of None \<Rightarrow> Ok None | Some y \<Rightarrow> map_ok Some (f y))"

text \<open>\<open>collect::<Result<Vec<_>, _>>\<close>.\<close>

fun collect :: "('a \<Rightarrow> 'e + 'b) \<Rightarrow> 'a list \<Rightarrow> 'e + 'b list" where
  "collect f [] = Ok []"
| "collect f (x # xs) = and_then (f x) (\<lambda>y. map_ok ((#) y) (collect f xs))"

subsection \<open>Round trips of the encodings\<close>

named_theorems codec_simps \<open>decoding of an encoded cell\<close>

lemma number_length [simp]: "length (number v) = 8"
  by (simp add: number_def)

lemma be_step:
  fixes v :: "u64"
  shows "push_bit 8 (drop_bit (8 + k) v) OR ucast (ucast (drop_bit k v) :: u8) = drop_bit k v"
proof (rule bit_word_eqI)
  fix n assume "n < LENGTH(64)"
  show "bit (push_bit 8 (drop_bit (8 + k) v) OR ucast (ucast (drop_bit k v) :: u8)) n = bit (drop_bit k v) n"
  proof (cases "n < 8")
    case True
    then show ?thesis by (simp add: bit_simps)
  next
    case False
    then obtain m where n: "n = m + 8" by (metis add.commute le_Suc_ex not_less)
    then show ?thesis using \<open>n < _\<close> by (simp add: bit_simps add.assoc add.commute add.left_commute)
  qed
qed
lemma from_be_bytes_number: "from_be_bytes (number v) = v"
proof -
  have z: "drop_bit 64 v = 0"
    by (rule bit_word_eqI) (auto simp: bit_simps dest: bit_imp_le_length)
  show ?thesis
    using be_step [of 56 v] be_step [of 48 v] be_step [of 40 v] be_step [of 32 v] be_step [of 24 v]
      be_step [of 16 v] be_step [of 8 v] be_step [of 0 v]
    by (simp add: from_be_bytes_def number_def z)
qed

lemma decode_number_number [codec_simps]: "decode_number (number v) = Ok v"
  by (simp add: decode_number_def from_be_bytes_number)

lemma number_inject [simp]: "number v = number w \<longleftrightarrow> v = w"
  by (metis from_be_bytes_number)

lemma process_code [codec_simps]: "process (process_code p) = Ok p"
  by (cases p) (simp_all add: process_def process_code_def)

lemma observation_code [codec_simps]: "observation (observation_code p) = Ok p"
  by (cases p) (simp_all add: observation_def observation_code_def)

lemma turn_code [codec_simps]: "turn (turn_code p) = Ok p"
  by (cases p) (simp_all add: turn_def turn_code_def)

lemma reason_code [codec_simps]: "reason (reason_code p) = Ok p"
  by (cases p) (simp_all add: reason_def reason_code_def)

lemma delivery_code [codec_simps]: "delivery (delivery_code p) = Ok p"
  by (cases p) (simp_all add: delivery_def delivery_code_def)

lemma harness_code [codec_simps]: "harness (harness_code p) = Ok p"
  by (cases p) (simp_all add: harness_def harness_code_def)

lemma code_inject [simp]:
  "turn_code a = turn_code b \<longleftrightarrow> a = b" "reason_code c = reason_code d \<longleftrightarrow> c = d"
  by (metis Inr_inject turn_code, metis Inr_inject reason_code)

lemma transpose_option_Some [codec_simps]: "f (g x) = Ok x \<Longrightarrow> transpose_option f (Some (g x)) = Ok (Some x)"
  by (simp add: transpose_option_def)

lemma transpose_option_None [simp]: "transpose_option f None = Ok None"
  by (simp add: transpose_option_def)

lemma transpose_option_Ok [result_simps]:
  "transpose_option f x = Ok y \<longleftrightarrow> (case x of None \<Rightarrow> y = None | Some u \<Rightarrow> \<exists>v. f u = Ok v \<and> y = Some v)"
  by (auto simp: transpose_option_def result_simps split: option.splits)

lemma parse_cell_Ok [result_simps]: "parse_cell f s = Ok x \<longleftrightarrow> f s = Ok x"
  by (simp add: parse_cell_def result_simps)

end
