(* ===== verification/Store_Queries.thy ===== *)
theory Store_Queries
  imports Store_Types "HOL-Library.Char_ord" "HOL-Library.List_Lexorder" "HOL-Library.Product_Lexorder"
begin

section \<open>Storage: reads (storage/queries.rs, context.rs, outcomes.rs)\<close>

text \<open>
  The read transactions. \<open>WHERE\<close> is \<open>filter\<close>, \<open>ORDER BY\<close> a stable sort by the key (text in
  the bytewise order of \<open>BINARY\<close> collation), \<open>LIMIT\<close> is \<open>take\<close>, and \<open>query_row\<close> with
  \<open>optional\<close> the first row. \<open>UNION\<close> removes duplicates and sorts. What \<open>serde_json\<close> does is
  the record \<open>store_codec\<close>.
\<close>

record store_codec =
  sk_parse :: "string \<Rightarrow> Value option"
  sk_print :: "Value \<Rightarrow> string option"
  sk_events :: event_codec
  sk_pieces :: "EventEnvelope \<Rightarrow> string list option"
  sk_reducer_write :: "ReducerWrite \<Rightarrow> string option"
  sk_write_set :: "WriteSet \<Rightarrow> string option"

subsection \<open>Metadata and producers\<close>

definition revision :: "database \<Rightarrow> StorageError + Revision" where
  "revision db = map_ok Revision (decode_number (db_revision db))"

definition require_revision :: "database \<Rightarrow> Revision \<Rightarrow> StorageError + Revision" where
  "require_revision db expected =
     and_then (revision db) (\<lambda>current.
     if current \<noteq> expected then Err StorageError.StaleRevision
     else ok_or StorageError.ResourceExhausted (Revision_checked_next expected))"

definition advance_revision :: "database \<Rightarrow> Revision \<Rightarrow> database" where
  "advance_revision db next = db\<lparr> db_revision := number (Revision_value next) \<rparr>"

definition decode_producer :: "ProducerId \<Rightarrow> producer_row \<Rightarrow> StorageError + ProducerRecord" where
  "decode_producer key row =
     and_then (harness (pw_harness row)) (\<lambda>kind.
     and_then (parse_cell ProducerGeneration_from_str (pw_generation row)) (\<lambda>generation.
     and_then (parse_cell RunId_from_str (pw_run row)) (\<lambda>run.
     and_then (transpose_option decode_number (pw_next_seq row)) (\<lambda>next.
     Ok \<lparr> pc_producer_id = key, pc_harness = kind, pc_generation = generation, pc_run_id = run,
          pc_next_sequence = map_option Seq next, pc_active = pw_active row,
          pc_reconciled = pw_reconciled row \<rparr>))))"

definition producer :: "database \<Rightarrow> ProducerId \<Rightarrow> StorageError + ProducerRecord option" where
  "producer db key = transpose_option (decode_producer key)
     (find (\<lambda>row. pw_producer row = ProducerId_as_str key) (db_producers db))"

subsection \<open>Snapshots\<close>

definition decode_projection :: "projection_row \<Rightarrow> StorageError + RunProjection" where
  "decode_projection row =
     and_then (parse_cell RunId_from_str (jw_run row)) (\<lambda>run.
     and_then (process (jw_process row)) (\<lambda>p.
     and_then (observation (jw_observation row)) (\<lambda>obs.
     and_then (turn (jw_turn row)) (\<lambda>t.
     and_then (transpose_option (parse_cell TurnId_from_str) (jw_turn_id row)) (\<lambda>turn_id.
     Ok \<lparr> rp_run_id = run, rp_process = p, rp_observation = obs, rp_turn = t, rp_turn_id = turn_id \<rparr>)))))"

definition snapshot :: "database \<Rightarrow> SnapshotQuery \<Rightarrow> StorageError + SnapshotPage" where
  "snapshot db query =
     and_then (revision db) (\<lambda>current.
     if (case sq_expected_revision query of None \<Rightarrow> False | Some expected \<Rightarrow> expected \<noteq> current)
     then Err StorageError.StaleRevision
     else
       let after = (case sq_after_run query of None \<Rightarrow> [] | Some run \<Rightarrow> RunId_as_str run);
           rows = take (sq_limit query + 1)
             (sort_key jw_run (filter (\<lambda>row. after < jw_run row) (db_projections db)))
       in and_then (collect decode_projection rows) (\<lambda>runs.
          if sq_limit query < length runs then
            let runs = butlast runs in
            Ok \<lparr> sp_revision = current, sp_runs = runs,
                 sp_next_after = (if runs = [] then None else Some (rp_run_id (last runs))) \<rparr>
          else Ok \<lparr> sp_revision = current, sp_runs = runs, sp_next_after = None \<rparr>))"

subsection \<open>Reducer context (context.rs)\<close>

definition stored_projection :: "database \<Rightarrow> RunId \<Rightarrow> StorageError + RunProjection \<times> TurnKey option" where
  "stored_projection db run =
     (case find (\<lambda>row. jw_run row = RunId_as_str run) (db_projections db) of
        None \<Rightarrow> Ok (\<lparr> rp_run_id = run, rp_process = ProcessState.Unknown, rp_observation = Stale,
          rp_turn = TurnState.Unknown, rp_turn_id = None \<rparr>, None)
      | Some row \<Rightarrow>
          and_then (transpose_option (parse_cell TurnId_from_str) (jw_turn_id row)) (\<lambda>turn_id.
          and_then (case (jw_producer row, jw_generation row, turn_id) of
              (Some p, Some g, Some t) \<Rightarrow>
                and_then (parse_cell ProducerId_from_str p) (\<lambda>p.
                and_then (parse_cell ProducerGeneration_from_str g) (\<lambda>g.
                Ok (Some \<lparr> tk_producer_id = p, tk_generation = g, tk_run_id = run, tk_turn_id = t \<rparr>)))
            | (None, None, _) \<Rightarrow> Ok None
            | _ \<Rightarrow> Err PersistenceUnavailable) (\<lambda>current.
          and_then (process (jw_process row)) (\<lambda>p.
          and_then (observation (jw_observation row)) (\<lambda>obs.
          and_then (turn (jw_turn row)) (\<lambda>t.
          Ok (\<lparr> rp_run_id = run, rp_process = p, rp_observation = obs, rp_turn = t,
                rp_turn_id = turn_id \<rparr>, current)))))))"

definition tombstone_matches :: "TurnKey \<Rightarrow> tombstone_row \<Rightarrow> bool" where
  "tombstone_matches key row \<longleftrightarrow> tw_producer row = ProducerId_as_str (tk_producer_id key)
     \<and> tw_generation row = ProducerGeneration_as_str (tk_generation key)
     \<and> tw_run row = RunId_as_str (tk_run_id key) \<and> tw_turn_id row = TurnId_as_str (tk_turn_id key)"

definition decode_tombstone :: "TurnKey \<Rightarrow> tombstone_row \<Rightarrow> StorageError + TombstoneEvidence" where
  "decode_tombstone key row =
     and_then (transpose_option turn (tw_terminal row)) (\<lambda>terminal.
     if (case terminal of None \<Rightarrow> False | Some state \<Rightarrow> \<not> is_terminal state) then Err PersistenceUnavailable
     else
       and_then (parse_cell EventId_from_str (tw_event row)) (\<lambda>event.
       Ok \<lparr> te_key = key, te_outcome_id = event, te_terminal = terminal \<rparr>))"

definition stored_tombstone :: "database \<Rightarrow> TurnKey \<Rightarrow> StorageError + TombstoneEvidence option" where
  "stored_tombstone db key =
     transpose_option (decode_tombstone key) (find (tombstone_matches key) (db_tombstones db))"

definition decode_fact :: "store_codec \<Rightarrow> string \<Rightarrow> StorageError + EventEnvelope" where
  "decode_fact codec identity =
     (if 24576 < length identity then Err CorruptDatabase
      else
        and_then (ok_or CorruptDatabase (sk_parse codec identity)) (\<lambda>value.
        and_then (ok_or CorruptDatabase (Value_get value ''fact'')) (\<lambda>fact_value.
        and_then (ok_or CorruptDatabase (sk_print codec fact_value)) (\<lambda>bytes.
        map_err (\<lambda>_. CorruptDatabase) (parse_event (sk_events codec) (bytes @ [newline]))))))"

text \<open>The fact row of the same producer and generation with the same event or sequence.\<close>

definition same_fact :: "EventEnvelope \<Rightarrow> fact_row \<Rightarrow> bool" where
  "same_fact ev row \<longleftrightarrow> fw_producer row = ProducerId_as_str (ev_producer_id ev)
     \<and> fw_generation row = ProducerGeneration_as_str (ev_generation ev)
     \<and> (fw_event row = EventId_as_str (ev_event_id ev) \<or> fw_seq row = number (Seq_value (ev_seq ev)))"

definition receipt ::
    "store_codec \<Rightarrow> database \<Rightarrow> EventEnvelope \<Rightarrow> ProducerRecord option \<Rightarrow> StorageError + EventReceipt" where
  "receipt codec db ev stored_producer = (case find (same_fact ev) (db_facts db) of
     Some row \<Rightarrow>
       and_then (decode_fact codec (fw_write_set row)) (\<lambda>stored.
       if stored = ev then map_ok (\<lambda>r. Exact (Revision r)) (decode_number (fw_revision row))
       else Ok EventReceipt.Conflict)
   | None \<Rightarrow> Ok (if (case stored_producer of None \<Rightarrow> False | Some record \<Rightarrow>
          pc_generation record = ev_generation ev \<and> pc_run_id record = ev_run_id ev
          \<and> (case pc_next_sequence record of None \<Rightarrow> True | Some next \<Rightarrow> ev_seq ev < next))
       then PriorSequenceUnverifiable else Missing))"

definition context_of :: "store_codec \<Rightarrow> database \<Rightarrow> EventEnvelope \<Rightarrow> StorageError + ReducerContext" where
  "context_of codec db ev =
     and_then (revision db) (\<lambda>current_revision.
     and_then (producer db (ev_producer_id ev)) (\<lambda>record.
     and_then (receipt codec db ev record) (\<lambda>stored.
     and_then (stored_projection db (ev_run_id ev)) (\<lambda>(projection, current).
     and_then (case EventPayload_turn_id (ev_event ev) of
         None \<Rightarrow> Ok None
       | Some turn_id \<Rightarrow> stored_tombstone db \<lparr> tk_producer_id = ev_producer_id ev,
           tk_generation = ev_generation ev, tk_run_id = ev_run_id ev, tk_turn_id = turn_id \<rparr>)
       (\<lambda>tombstone.
     Ok \<lparr> rc_revision = current_revision, rc_producer = record,
          rc_state = \<lparr> st_projection = projection, st_current_turn = current, st_tombstone = tombstone \<rparr>,
          rc_receipt = stored \<rparr>)))))"

subsection \<open>Outcomes (outcomes.rs)\<close>

definition outcome_cells :: "OutcomeKey \<Rightarrow> string \<times> string \<times> string" where
  "outcome_cells key = (ProducerId_as_str (ok_producer_id key),
     ProducerGeneration_as_str (ok_generation key), EventId_as_str (ok_event_id key))"

definition attention_of :: "database \<Rightarrow> OutcomeKey \<Rightarrow> attention_row list" where
  "attention_of db key =
     filter (\<lambda>row. (aw_producer row, aw_generation row, aw_event row) = outcome_cells key) (db_attention db)"

definition outbox_of :: "database \<Rightarrow> OutcomeKey \<Rightarrow> outbox_row list" where
  "outbox_of db key =
     filter (\<lambda>row. (xw_producer row, xw_generation row, xw_event row) = outcome_cells key) (db_outbox db)"

definition tombstones_of :: "database \<Rightarrow> OutcomeKey \<Rightarrow> tombstone_row list" where
  "tombstones_of db key =
     filter (\<lambda>row. (tw_producer row, tw_generation row, tw_event row) = outcome_cells key) (db_tombstones db)"

definition outcome_revision :: "database \<Rightarrow> OutcomeKey \<Rightarrow> StorageError + Revision option" where
  "outcome_revision db key =
     (let cells = remdups (List.map_filter id (map aw_outcome_revision (attention_of db key)
          @ map xw_outcome_revision (outbox_of db key) @ map tw_outcome_revision (tombstones_of db key)))
      in and_then (collect decode_number (take 2 cells)) (\<lambda>revisions.
         if 1 < length revisions then Err CorruptDatabase
         else Ok (case revisions of [] \<Rightarrow> None | r # _ \<Rightarrow> Some (Revision r))))"

text \<open>The loop over at most nine rows; the ninth is corruption.\<close>

fun attention_rows :: "EventId \<Rightarrow> attention_row list \<Rightarrow> nat \<Rightarrow>
    StorageError + AttentionMutation list \<times> AttentionReason list" where
  "attention_rows event [] n = Ok ([], [])"
| "attention_rows event (row # rows) n =
     (if n = 8 then Err CorruptDatabase
      else
        and_then (reason (aw_reason row)) (\<lambda>kind.
        and_then (attention_rows event rows (n + 1)) (\<lambda>(attention, resolved).
        Ok (\<lparr> am_outcome_id = event, am_reason = kind, am_reviewed = aw_reviewed row \<rparr> # attention,
            if aw_resolved row then kind # resolved else resolved))))"

definition outcome :: "database \<Rightarrow> OutcomeKey \<Rightarrow> StorageError + OutcomeRecord option" where
  "outcome db key =
     (case sort (remdups (map aw_run (attention_of db key) @ map xw_run (outbox_of db key)
          @ map tw_run (tombstones_of db key))) of
        [] \<Rightarrow> Ok None
      | run # _ \<Rightarrow>
          and_then (attention_rows (ok_event_id key) (take 9 (sort_key aw_reason (attention_of db key))) 0)
            (\<lambda>(attention, resolved).
          and_then (transpose_option (\<lambda>row. delivery (xw_state row))
              (case outbox_of db key of [] \<Rightarrow> None | row # _ \<Rightarrow> Some row)) (\<lambda>state.
          and_then (parse_cell RunId_from_str run) (\<lambda>run.
          and_then (outcome_revision db key) (\<lambda>r.
          Ok (Some \<lparr> or_outcome = key, or_run_id = run, or_attention = attention, or_delivery = state,
                 or_outcome_revision = r, or_resolved_reasons = resolved \<rparr>))))))"

end
