(* ===== verification/Store_Write.thy ===== *)
theory Store_Write
  imports Store_Queries Entropy
begin

section \<open>Storage: the mutating transactions (transaction.rs, reducer_transaction.rs, attention_state.rs,
  reconciliation.rs, retirement.rs, reducer_validation.rs)\<close>

text \<open>
  Each transaction is a function from the database to an error or the new database and its
  result; an error leaves the database as it was (the transaction is dropped). A violated
  constraint of the schema (primary key, unique index) is \<open>PersistenceUnavailable\<close>, as the
  conversion of the \<open>rusqlite\<close> error has it. The entropy of a fresh generation and the bytes
  \<open>serde_json\<close> writes are arguments. Failures of SQLite itself (busy, full, corrupt) are not
  modelled.
\<close>

subsection \<open>Bounds and constraints\<close>

definition capacity :: "nat \<Rightarrow> nat \<Rightarrow> nat \<Rightarrow> StorageError + unit" where
  "capacity count maximum adding =
     (if 2 ^ 32 \<le> count then Err PersistenceUnavailable
      else if maximum < count + adding then Err StorageError.ResourceExhausted
      else Ok ())"

definition next_rowid :: "int list \<Rightarrow> int" where
  "next_rowid ids = fold max ids 0 + 1"

definition pending_deliveries :: "database \<Rightarrow> nat" where
  "pending_deliveries db = length (filter (\<lambda>row. xw_state row = 0 \<or> xw_state row = 1) (db_outbox db))"

text \<open>The partial unique index \<open>attention_active_scope\<close>.\<close>

definition active_transient :: "attention_row \<Rightarrow> bool" where
  "active_transient row \<longleftrightarrow> aw_scoped row \<and> \<not> aw_resolved row \<and> aw_reason row \<in> {0, 1, 3}"

definition active_scope_key :: "attention_row \<Rightarrow> string \<times> string option \<times> string \<times> string \<times> nat" where
  "active_scope_key row = (aw_producer row, aw_resolution_generation row, aw_run row,
     (case aw_turn_id row of None \<Rightarrow> [] | Some t \<Rightarrow> t), aw_reason row)"

definition active_scope_unique :: "attention_row list \<Rightarrow> bool" where
  "active_scope_unique rows \<longleftrightarrow> distinct (map active_scope_key (filter active_transient rows))"

definition attention_key :: "attention_row \<Rightarrow> string \<times> string \<times> string \<times> nat" where
  "attention_key row = (aw_producer row, aw_generation row, aw_event row, aw_reason row)"

definition insert_attention_row :: "database \<Rightarrow> attention_row \<Rightarrow> StorageError + database" where
  "insert_attention_row db row =
     (if attention_key row \<in> set (map attention_key (db_attention db))
        \<or> \<not> active_scope_unique (db_attention db @ [row])
      then Err PersistenceUnavailable
      else Ok (db\<lparr> db_attention := db_attention db @ [row] \<rparr>))"

definition outbox_key :: "outbox_row \<Rightarrow> string \<times> string \<times> string" where
  "outbox_key row = (xw_producer row, xw_generation row, xw_event row)"

definition insert_outbox_row :: "database \<Rightarrow> outbox_row \<Rightarrow> StorageError + database" where
  "insert_outbox_row db row =
     (if outbox_key row \<in> set (map outbox_key (db_outbox db)) \<or> xw_created row < 0 \<or> xw_changed row < 0
      then Err PersistenceUnavailable
      else Ok (db\<lparr> db_outbox := db_outbox db @ [row] \<rparr>))"

definition tombstone_key :: "tombstone_row \<Rightarrow> string \<times> string \<times> string \<times> string" where
  "tombstone_key row = (tw_producer row, tw_generation row, tw_run row, tw_turn_id row)"

definition insert_tombstone_row :: "database \<Rightarrow> tombstone_row \<Rightarrow> StorageError + database" where
  "insert_tombstone_row db row =
     (if tombstone_key row \<in> set (map tombstone_key (db_tombstones db)) \<or> tw_created row < 0
      then Err PersistenceUnavailable
      else Ok (db\<lparr> db_tombstones := db_tombstones db @ [row] \<rparr>))"

definition insert_fact_row :: "database \<Rightarrow> fact_row \<Rightarrow> StorageError + database" where
  "insert_fact_row db row =
     (if (\<exists>r\<in>set (db_facts db). fw_producer r = fw_producer row \<and> fw_generation r = fw_generation row
            \<and> (fw_event r = fw_event row \<or> fw_seq r = fw_seq row))
        \<or> fw_accepted row < 0 \<or> 24576 < length (fw_write_set row)
      then Err PersistenceUnavailable
      else Ok (db\<lparr> db_facts := db_facts db @ [row] \<rparr>))"

subsection \<open>Registration (transaction.rs)\<close>

definition upsert_producer :: "database \<Rightarrow> producer_row \<Rightarrow> database" where
  "upsert_producer db row =
     db\<lparr> db_producers :=
       (if \<exists>r\<in>set (db_producers db). pw_producer r = pw_producer row
        then map (\<lambda>r. if pw_producer r = pw_producer row
               then r\<lparr> pw_generation := pw_generation row, pw_next_seq := pw_next_seq row,
                       pw_active := pw_active row, pw_reconciled := pw_reconciled row \<rparr>
               else r) (db_producers db)
        else db_producers db @ [row]) \<rparr>"

definition registration_inside ::
    "database \<Rightarrow> Registration \<Rightarrow> bool \<Rightarrow> bool \<Rightarrow> (u8 list \<times> nat) option
     \<Rightarrow> StorageError + database \<times> ProducerGeneration \<times> Revision" where
  "registration_inside db reg active reconciled entropy =
     and_then (require_revision db (rn_expected_revision reg)) (\<lambda>next.
     and_then (producer db (rn_producer_id reg)) (\<lambda>previous.
     if map_option pc_generation previous \<noteq> rn_previous_generation reg
       \<or> (case previous of None \<Rightarrow> False | Some record \<Rightarrow>
            pc_run_id record \<noteq> rn_run_id reg \<or> pc_harness record \<noteq> rn_harness reg)
     then Err StorageError.StaleGeneration
     else if \<exists>r\<in>set (db_producers db). pw_run r = RunId_as_str (rn_run_id reg) \<and> pw_active r
         \<and> pw_producer r \<noteq> ProducerId_as_str (rn_producer_id reg)
     then Err StorageError.Conflict
     else
       and_then (if previous = None then capacity (length (db_producers db)) MAX_RUNS 1 else Ok ()) (\<lambda>_.
       and_then (map_err (\<lambda>_. PersistenceUnavailable) (fresh entropy)) (\<lambda>generation.
       Ok (upsert_producer db
             \<lparr> pw_producer = ProducerId_as_str (rn_producer_id reg),
               pw_generation = ProducerGeneration_as_str generation,
               pw_run = RunId_as_str (rn_run_id reg), pw_harness = harness_code (rn_harness reg),
               pw_next_seq = Some (number (Seq_value (rn_next_sequence reg))),
               pw_active = active, pw_reconciled = reconciled \<rparr>, generation, next)))))"

definition register_producer ::
    "database \<Rightarrow> Registration \<Rightarrow> (u8 list \<times> nat) option \<Rightarrow> StorageError + database \<times> ProducerGeneration \<times> Revision" where
  "register_producer db reg entropy =
     and_then (registration_inside db reg True False entropy) (\<lambda>(db, generation, next).
     Ok (advance_revision db next, generation, next))"

subsection \<open>Facts and projections shared by both commit paths\<close>

definition duplicate_of ::
    "database \<Rightarrow> EventEnvelope \<Rightarrow> string \<Rightarrow> StorageError + Revision option" where
  "duplicate_of db ev identity = (case find (same_fact ev) (db_facts db) of
     None \<Rightarrow> Ok None
   | Some row \<Rightarrow>
       if fw_write_set row = identity
       then map_ok (\<lambda>r. Some (Revision r)) (decode_number (fw_revision row))
       else Err StorageError.Conflict)"

definition fact_of :: "database \<Rightarrow> EventEnvelope \<Rightarrow> int \<Rightarrow> string \<Rightarrow> Revision \<Rightarrow> fact_row" where
  "fact_of db ev accepted identity next =
     \<lparr> fw_rowid = next_rowid (map fw_rowid (db_facts db)),
       fw_event = EventId_as_str (ev_event_id ev), fw_producer = ProducerId_as_str (ev_producer_id ev),
       fw_generation = ProducerGeneration_as_str (ev_generation ev),
       fw_seq = number (Seq_value (ev_seq ev)), fw_run = RunId_as_str (ev_run_id ev),
       fw_accepted = accepted, fw_write_set = identity, fw_revision = number (Revision_value next) \<rparr>"

definition next_sequence_cell :: "EventEnvelope \<Rightarrow> blob option" where
  "next_sequence_cell ev = map_option (\<lambda>s. number (Seq_value s)) (Seq_checked_next (ev_seq ev))"

definition sequence_in_turn :: "Seq option \<Rightarrow> Seq \<Rightarrow> StorageError + unit" where
  "sequence_in_turn expected seq = (case expected of
     Some next \<Rightarrow> if next = seq then Ok () else if next < seq then Err StorageError.SequenceGap
       else Err StorageError.Conflict
   | None \<Rightarrow> Err StorageError.Conflict)"

subsection \<open>The complete write set of an authorized reducer (transaction.rs, commit)\<close>

definition commit_scope :: "database \<Rightarrow> EventEnvelope \<Rightarrow> StorageError + unit" where
  "commit_scope db ev =
     and_then (producer db (ev_producer_id ev)) (\<lambda>found.
     and_then (ok_or StorageError.UnknownProducer found) (\<lambda>record.
     if \<not> pc_active record \<or> pc_generation record \<noteq> ev_generation ev \<or> pc_run_id record \<noteq> ev_run_id ev
     then Err StorageError.StaleGeneration
     else sequence_in_turn (pc_next_sequence record) (ev_seq ev)))"

definition insert_projection :: "database \<Rightarrow> WriteSet \<Rightarrow> StorageError + database" where
  "insert_projection db ws =
     (let run = RunId_as_str (ev_run_id (ws_fact ws));
          projection = ws_projection ws;
          cells = (\<lambda>r. r\<lparr> jw_process := process_code (rp_process projection),
            jw_observation := observation_code (rp_observation projection),
            jw_turn := turn_code (rp_turn projection),
            jw_turn_id := map_option TurnId_as_str (rp_turn_id projection) \<rparr>);
          exists = list_ex (\<lambda>r. jw_run r = run) (db_projections db)
      in and_then (if exists then Ok () else capacity (length (db_projections db)) MAX_RUNS 1) (\<lambda>_.
         Ok (db\<lparr> db_projections :=
           (if exists then map (\<lambda>r. if jw_run r = run then cells r else r) (db_projections db)
            else db_projections db @ [cells \<lparr> jw_run = run, jw_process = 0, jw_observation = 0,
              jw_turn = 0, jw_turn_id = None, jw_producer = None, jw_generation = None \<rparr>]) \<rparr>)))"

fun insert_attention_items :: "database \<Rightarrow> EventEnvelope \<Rightarrow> AttentionMutation list \<Rightarrow> StorageError + database" where
  "insert_attention_items db ev [] = Ok db"
| "insert_attention_items db ev (item # items) =
     and_then (insert_attention_row db
       \<lparr> aw_producer = ProducerId_as_str (ev_producer_id ev),
         aw_generation = ProducerGeneration_as_str (ev_generation ev),
         aw_event = EventId_as_str (am_outcome_id item), aw_run = RunId_as_str (ev_run_id ev),
         aw_reason = reason_code (am_reason item), aw_reviewed = am_reviewed item,
         aw_turn_id = None, aw_resolved = False, aw_outcome_revision = None, aw_scoped = False,
         aw_resolution_generation = None \<rparr>)
       (\<lambda>db. insert_attention_items db ev items)"

definition insert_attention :: "database \<Rightarrow> WriteSet \<Rightarrow> StorageError + database" where
  "insert_attention db ws =
     and_then (capacity (length (db_attention db)) MAX_ATTENTION (length (ws_attention ws))) (\<lambda>_.
     insert_attention_items db (ws_fact ws) (ws_attention ws))"

definition insert_outbox :: "database \<Rightarrow> WriteSet \<Rightarrow> StorageError + database" where
  "insert_outbox db ws = (case ws_outbox ws of
     None \<Rightarrow> Ok db
   | Some outcome_id \<Rightarrow>
       and_then (capacity (length (db_outbox db)) MAX_OUTBOX_AUDIT 1) (\<lambda>_.
       and_then (capacity (pending_deliveries db) MAX_OUTBOX_PENDING 1) (\<lambda>_.
       insert_outbox_row db \<lparr> xw_rowid = next_rowid (map xw_rowid (db_outbox db)),
         xw_producer = ProducerId_as_str (ev_producer_id (ws_fact ws)),
         xw_generation = ProducerGeneration_as_str (ev_generation (ws_fact ws)),
         xw_event = EventId_as_str outcome_id, xw_run = RunId_as_str (ev_run_id (ws_fact ws)),
         xw_state = 0, xw_created = ws_accepted_at ws, xw_changed = ws_accepted_at ws,
         xw_outcome_revision = None \<rparr>)))"

definition insert_tombstone :: "database \<Rightarrow> WriteSet \<Rightarrow> StorageError + database" where
  "insert_tombstone db ws = (case ws_tombstone ws of
     None \<Rightarrow> Ok db
   | Some item \<Rightarrow>
       and_then (capacity (length (db_tombstones db)) MAX_TOMBSTONES 1) (\<lambda>_.
       insert_tombstone_row db \<lparr> tw_rowid = next_rowid (map tw_rowid (db_tombstones db)),
         tw_producer = ProducerId_as_str (ev_producer_id (ws_fact ws)),
         tw_generation = ProducerGeneration_as_str (ev_generation (ws_fact ws)),
         tw_run = RunId_as_str (ev_run_id (ws_fact ws)), tw_turn_id = TurnId_as_str (tt_turn_id item),
         tw_event = EventId_as_str (tt_outcome_id item), tw_created = ws_accepted_at ws,
         tw_terminal = None, tw_outcome_revision = None \<rparr>))"

definition terminal_kind :: "EventEnvelope \<Rightarrow> TurnState option" where
  "terminal_kind ev = (case EventPayload_kind (ev_event ev) of
     EventKind.TurnCompleted \<Rightarrow> Some Completed
   | EventKind.TurnFailed \<Rightarrow> Some Failed
   | EventKind.TurnInterrupted \<Rightarrow> Some Interrupted
   | _ \<Rightarrow> None)"

definition record_legacy :: "database \<Rightarrow> WriteSet \<Rightarrow> Revision \<Rightarrow> database" where
  "record_legacy db ws next =
     (let ev = ws_fact ws;
          cells = (ProducerId_as_str (ev_producer_id ev), ProducerGeneration_as_str (ev_generation ev),
            EventId_as_str (ev_event_id ev));
          rev = Some (number (Revision_value next));
          terminal = (case ws_tombstone ws of
            None \<Rightarrow> None
          | Some item \<Rightarrow> if EventPayload_turn_id (ev_event ev) = Some (tt_turn_id item)
              then map_option turn_code (terminal_kind ev) else None)
      in db\<lparr> db_attention := map (\<lambda>r. if (aw_producer r, aw_generation r, aw_event r) = cells
               then r\<lparr> aw_outcome_revision := rev \<rparr> else r) (db_attention db),
             db_outbox := map (\<lambda>r. if (xw_producer r, xw_generation r, xw_event r) = cells
               then r\<lparr> xw_outcome_revision := rev \<rparr> else r) (db_outbox db),
             db_tombstones := map (\<lambda>r. if (tw_producer r, tw_generation r, tw_event r) = cells
               then r\<lparr> tw_outcome_revision := rev, tw_terminal := terminal \<rparr> else r) (db_tombstones db) \<rparr>)"

definition commit ::
    "store_codec \<Rightarrow> database \<Rightarrow> WriteSet \<Rightarrow> StorageError + database \<times> Revision \<times> bool" where
  "commit codec db ws =
     and_then (ok_or InvalidRequest (sk_write_set codec ws)) (\<lambda>identity.
     and_then (duplicate_of db (ws_fact ws) identity) (\<lambda>stored.
     case stored of
       Some r \<Rightarrow> Ok (db, r, True)
     | None \<Rightarrow>
         and_then (require_revision db (ws_expected_revision ws)) (\<lambda>next.
         and_then (commit_scope db (ws_fact ws)) (\<lambda>_.
         and_then (capacity (length (db_facts db)) MAX_FACTS 1) (\<lambda>_.
         and_then (insert_projection db ws) (\<lambda>db.
         and_then (insert_attention db ws) (\<lambda>db.
         and_then (insert_outbox db ws) (\<lambda>db.
         and_then (insert_tombstone db ws) (\<lambda>db.
         let db = record_legacy db ws next in
         and_then (insert_fact_row db (fact_of db (ws_fact ws) (ws_accepted_at ws) identity next)) (\<lambda>db.
         let db = db\<lparr> db_producers := map (\<lambda>r.
               if pw_producer r = ProducerId_as_str (ev_producer_id (ws_fact ws))
               then r\<lparr> pw_next_seq := next_sequence_cell (ws_fact ws), pw_reconciled := False \<rparr>
               else r) (db_producers db) \<rparr>
         in Ok (advance_revision db next, next, False)))))))))))"

subsection \<open>Reducer writes (reducer_transaction.rs, attention_state.rs)\<close>

definition apply_scope :: "database \<Rightarrow> EventEnvelope \<Rightarrow> StorageError + unit" where
  "apply_scope db ev =
     and_then (producer db (ev_producer_id ev)) (\<lambda>found.
     and_then (ok_or StorageError.UnknownProducer found) (\<lambda>record.
     if \<not> pc_active record \<or> \<not> pc_reconciled record
       \<or> pc_generation record \<noteq> ev_generation ev \<or> pc_run_id record \<noteq> ev_run_id ev
     then Err StorageError.StaleGeneration
     else sequence_in_turn (pc_next_sequence record) (ev_seq ev)))"

definition projection_cells :: "RunProjection \<Rightarrow> TurnKey option \<Rightarrow> projection_row" where
  "projection_cells projection current =
     \<lparr> jw_run = RunId_as_str (rp_run_id projection), jw_process = process_code (rp_process projection),
       jw_observation = observation_code (rp_observation projection),
       jw_turn = turn_code (rp_turn projection),
       jw_turn_id = map_option TurnId_as_str (rp_turn_id projection),
       jw_producer = map_option (\<lambda>key. ProducerId_as_str (tk_producer_id key)) current,
       jw_generation = map_option (\<lambda>key. ProducerGeneration_as_str (tk_generation key)) current \<rparr>"

definition write_projection :: "database \<Rightarrow> RunProjection \<Rightarrow> TurnKey option \<Rightarrow> StorageError + database" where
  "write_projection db projection current =
     (let row = projection_cells projection current;
          exists = list_ex (\<lambda>r. jw_run r = jw_run row) (db_projections db)
      in and_then (if exists then Ok () else capacity (length (db_projections db)) MAX_RUNS 1) (\<lambda>_.
         Ok (db\<lparr> db_projections :=
           (if exists then map (\<lambda>r. if jw_run r = jw_run row then row else r) (db_projections db)
            else db_projections db @ [row]) \<rparr>)))"

definition transient_of :: "TurnKey \<Rightarrow> attention_row \<Rightarrow> bool" where
  "transient_of key row \<longleftrightarrow> aw_producer row = ProducerId_as_str (tk_producer_id key)
     \<and> aw_resolution_generation row = Some (ProducerGeneration_as_str (tk_generation key))
     \<and> aw_run row = RunId_as_str (tk_run_id key) \<and> aw_turn_id row = Some (TurnId_as_str (tk_turn_id key))
     \<and> aw_scoped row \<and> \<not> aw_resolved row \<and> aw_reason row \<in> {0, 1, 3}"

definition resolve_transient :: "database \<Rightarrow> TurnKey \<Rightarrow> database" where
  "resolve_transient db key = db\<lparr> db_attention := map (\<lambda>row.
     if transient_of key row then row\<lparr> aw_resolved := True \<rparr> else row) (db_attention db) \<rparr>"

definition ensure_attention ::
    "database \<Rightarrow> ReducerWrite \<Rightarrow> AttentionReason \<Rightarrow> Revision \<Rightarrow> StorageError + database \<times> bool" where
  "ensure_attention db ws kind next =
     (let ev = rw_fact ws;
          generation = ProducerGeneration_as_str (ev_generation ev);
          turn_id = map_option TurnId_as_str (EventPayload_turn_id (ev_event ev))
      in if (kind = Input \<or> kind = NativeApproval \<or> kind = ConnectionUncertainty)
           \<and> list_ex (\<lambda>row. aw_producer row = ProducerId_as_str (ev_producer_id ev)
               \<and> aw_resolution_generation row = Some generation
               \<and> aw_run row = RunId_as_str (ev_run_id ev) \<and> aw_turn_id row = turn_id
               \<and> aw_reason row = reason_code kind \<and> aw_scoped row \<and> \<not> aw_resolved row) (db_attention db)
         then Ok (db, False)
         else
           and_then (capacity (length (db_attention db)) MAX_ATTENTION 1) (\<lambda>_.
           and_then (insert_attention_row db
             \<lparr> aw_producer = ProducerId_as_str (ev_producer_id ev), aw_generation = generation,
               aw_event = EventId_as_str (ev_event_id ev), aw_run = RunId_as_str (ev_run_id ev),
               aw_reason = reason_code kind, aw_reviewed = False, aw_turn_id = turn_id,
               aw_resolved = False, aw_outcome_revision = Some (number (Revision_value next)),
               aw_scoped = True, aw_resolution_generation = Some generation \<rparr>) (\<lambda>db.
           Ok (db, True))))"

fun ensure_all ::
    "database \<Rightarrow> ReducerWrite \<Rightarrow> AttentionReason list \<Rightarrow> Revision \<Rightarrow> bool \<Rightarrow> StorageError + database \<times> bool" where
  "ensure_all db ws [] next inserted = Ok (db, inserted)"
| "ensure_all db ws (kind # kinds) next inserted =
     and_then (ensure_attention db ws kind next) (\<lambda>(db, new).
     ensure_all db ws kinds next (inserted \<or> new))"

definition apply_attention :: "database \<Rightarrow> ReducerWrite \<Rightarrow> Revision \<Rightarrow> StorageError + database" where
  "apply_attention db ws next =
     (let db = (case fx_resolve_transient (rw_effects ws) of None \<Rightarrow> db | Some key \<Rightarrow> resolve_transient db key)
      in and_then (ensure_all db ws (fx_attention (rw_effects ws)) next False) (\<lambda>(db, inserted).
         if rw_notify ws \<and> inserted then
           and_then (capacity (length (db_outbox db)) MAX_OUTBOX_AUDIT 1) (\<lambda>_.
           and_then (capacity (pending_deliveries db) MAX_OUTBOX_PENDING 1) (\<lambda>_.
           insert_outbox_row db \<lparr> xw_rowid = next_rowid (map xw_rowid (db_outbox db)),
             xw_producer = ProducerId_as_str (ev_producer_id (rw_fact ws)),
             xw_generation = ProducerGeneration_as_str (ev_generation (rw_fact ws)),
             xw_event = EventId_as_str (ev_event_id (rw_fact ws)),
             xw_run = RunId_as_str (ev_run_id (rw_fact ws)), xw_state = 0,
             xw_created = rw_accepted_at ws, xw_changed = rw_accepted_at ws,
             xw_outcome_revision = Some (number (Revision_value next)) \<rparr>))
         else Ok db))"

definition write_tombstone :: "database \<Rightarrow> ReducerWrite \<Rightarrow> Revision \<Rightarrow> StorageError + database" where
  "write_tombstone db ws next = (case fx_tombstone (rw_effects ws) of
     None \<Rightarrow> Ok db
   | Some item \<Rightarrow>
       and_then (stored_tombstone db (te_key item)) (\<lambda>stored.
       if stored \<noteq> None then Err StorageError.Conflict
       else
         and_then (capacity (length (db_tombstones db)) MAX_TOMBSTONES 1) (\<lambda>_.
         insert_tombstone_row db \<lparr> tw_rowid = next_rowid (map tw_rowid (db_tombstones db)),
           tw_producer = ProducerId_as_str (tk_producer_id (te_key item)),
           tw_generation = ProducerGeneration_as_str (tk_generation (te_key item)),
           tw_run = RunId_as_str (tk_run_id (te_key item)), tw_turn_id = TurnId_as_str (tk_turn_id (te_key item)),
           tw_event = EventId_as_str (te_outcome_id item), tw_created = rw_accepted_at ws,
           tw_terminal = map_option turn_code (te_terminal item),
           tw_outcome_revision = Some (number (Revision_value next)) \<rparr>)))"

definition discarded_next :: "database \<Rightarrow> u64 \<Rightarrow> StorageError + u64" where
  "discarded_next db adding =
     and_then (decode_number (db_discarded db)) (\<lambda>stored.
     ok_or StorageError.ResourceExhausted (checked_add stored adding))"

definition apply_write ::
    "store_codec \<Rightarrow> database \<Rightarrow> ReducerWrite \<Rightarrow> StorageError + database \<times> Revision \<times> bool" where
  "apply_write codec db ws =
     and_then (ok_or InvalidRequest (sk_reducer_write codec ws)) (\<lambda>identity.
     and_then (duplicate_of db (rw_fact ws) identity) (\<lambda>stored.
     case stored of
       Some r \<Rightarrow> Ok (db, r, True)
     | None \<Rightarrow>
         and_then (require_revision db (rw_expected_revision ws)) (\<lambda>next.
         and_then (apply_scope db (rw_fact ws)) (\<lambda>_.
         and_then (discarded_next db (rw_discarded_events ws)) (\<lambda>discarded.
         and_then (capacity (length (db_facts db)) MAX_FACTS 1) (\<lambda>_.
         and_then (write_projection db (fx_projection (rw_effects ws)) (fx_current_turn (rw_effects ws))) (\<lambda>db.
         and_then (apply_attention db ws next) (\<lambda>db.
         and_then (write_tombstone db ws next) (\<lambda>db.
         and_then (insert_fact_row db (fact_of db (rw_fact ws) (rw_accepted_at ws) identity next)) (\<lambda>db.
         let healthy = (\<not> fx_reconciliation_required (rw_effects ws));
             db = db\<lparr> db_producers := map (\<lambda>r.
               if pw_producer r = ProducerId_as_str (ev_producer_id (rw_fact ws))
                 \<and> pw_generation r = ProducerGeneration_as_str (ev_generation (rw_fact ws))
               then r\<lparr> pw_next_seq := next_sequence_cell (rw_fact ws), pw_active := healthy,
                       pw_reconciled := healthy \<rparr>
               else r) (db_producers db), db_discarded := number discarded \<rparr>
         in Ok (advance_revision db next, next, False)))))))))))"

definition review_outcome :: "database \<Rightarrow> OutcomeReview \<Rightarrow> StorageError + database \<times> Revision" where
  "review_outcome db update =
     and_then (require_revision db (ov_expected_revision update)) (\<lambda>next.
     and_then (outcome db (ov_outcome update)) (\<lambda>found.
     and_then (ok_or StorageError.Conflict found) (\<lambda>record.
     if or_outcome_revision record \<noteq> Some (ov_outcome_revision update) \<or> or_attention record = []
     then Err StorageError.Conflict
     else
       let db = db\<lparr> db_attention := map (\<lambda>row.
             if (aw_producer row, aw_generation row, aw_event row) = outcome_cells (ov_outcome update)
             then row\<lparr> aw_reviewed := True \<rparr> else row) (db_attention db) \<rparr>
       in Ok (advance_revision db next, next))))"

subsection \<open>Retirement (retirement.rs)\<close>

text \<open>
  \<open>degrade\<close>: the projections an active producer of the given scope (or of any scope) may have
  written become stale, and their turn unknown unless terminal. \<open>legacy\<close> adds every projection
  without a recorded scope.
\<close>

definition degrade :: "database \<Rightarrow> (string \<times> string) option \<Rightarrow> bool \<Rightarrow> database" where
  "degrade db scope legacy = db\<lparr> db_projections := map (\<lambda>r.
     if (legacy \<and> jw_producer r = None \<and> jw_generation r = None)
       \<or> list_ex (\<lambda>p. pw_active p \<and> pw_run p = jw_run r
           \<and> (case scope of None \<Rightarrow> True | Some (producer_id, generation) \<Rightarrow>
                pw_producer p = producer_id \<and> pw_generation p = generation)
           \<and> (jw_producer r = Some (pw_producer p) \<and> jw_generation r = Some (pw_generation p)
              \<or> jw_producer r = None \<and> jw_generation r = None)) (db_producers db)
     then r\<lparr> jw_observation := 1, jw_turn := (if jw_turn r \<in> {4, 5, 6} then jw_turn r else 0) \<rparr>
     else r) (db_projections db) \<rparr>"

definition retire_one :: "database \<Rightarrow> string \<Rightarrow> string \<Rightarrow> database" where
  "retire_one db producer_id generation =
     (let db = degrade db (Some (producer_id, generation)) False in
      db\<lparr> db_producers := map (\<lambda>p.
        if pw_producer p = producer_id \<and> pw_generation p = generation \<and> pw_active p
        then p\<lparr> pw_active := False, pw_reconciled := False \<rparr> else p) (db_producers db) \<rparr>)"

definition retire_all :: "database \<Rightarrow> database" where
  "retire_all db =
     (let db = degrade db None False in
      db\<lparr> db_producers := map (\<lambda>p. if pw_active p then p\<lparr> pw_active := False, pw_reconciled := False \<rparr> else p)
        (db_producers db) \<rparr>)"

definition retire_legacy :: "database \<Rightarrow> database" where
  "retire_legacy db = degrade db None True"

subsection \<open>Reconciliation (reconciliation.rs)\<close>

definition validate_previous_turn :: "database \<Rightarrow> Reconciliation \<Rightarrow> StorageError + unit" where
  "validate_previous_turn db request =
     (case (case rx_resolved_turn request of Some key \<Rightarrow> Some key | None \<Rightarrow> rx_continued_turn request) of
        None \<Rightarrow> Ok ()
      | Some key \<Rightarrow>
          and_then (stored_projection db (rn_run_id (rx_registration request))) (\<lambda>(projection, current).
          if current \<noteq> Some key \<or> tk_producer_id key \<noteq> rn_producer_id (rx_registration request)
            \<or> rn_previous_generation (rx_registration request) \<noteq> Some (tk_generation key)
            \<or> (rx_continued_turn request \<noteq> None \<and> is_terminal (rp_turn projection))
          then Err StorageError.Conflict else Ok ()))"

definition continue_transient :: "database \<Rightarrow> TurnKey \<Rightarrow> ProducerGeneration \<Rightarrow> StorageError + database" where
  "continue_transient db key generation =
     (let rows = map (\<lambda>row. if transient_of key row
           then row\<lparr> aw_resolution_generation := Some (ProducerGeneration_as_str generation) \<rparr> else row)
           (db_attention db)
      in if active_scope_unique rows then Ok (db\<lparr> db_attention := rows \<rparr>) else Err PersistenceUnavailable)"

definition update_obligations :: "database \<Rightarrow> Reconciliation \<Rightarrow> ProducerGeneration \<Rightarrow> StorageError + database" where
  "update_obligations db request generation =
     (let db = (case rx_resolved_turn request of None \<Rightarrow> db | Some key \<Rightarrow> resolve_transient db key) in
      case rx_continued_turn request of None \<Rightarrow> Ok db | Some key \<Rightarrow> continue_transient db key generation)"

definition baseline_projection ::
    "Reconciliation \<Rightarrow> ProducerGeneration \<Rightarrow> RunProjection \<times> TurnKey option" where
  "baseline_projection request generation = (case rx_baseline request of
     Unavailable \<Rightarrow> (\<lparr> rp_run_id = rn_run_id (rx_registration request), rp_process = ProcessState.Unknown,
       rp_observation = Stale, rp_turn = TurnState.Unknown, rp_turn_id = None \<rparr>, None)
   | Verified projection current_turn \<Rightarrow> (projection, map_option (\<lambda>turn_id.
       \<lparr> tk_producer_id = rn_producer_id (rx_registration request), tk_generation = generation,
         tk_run_id = rn_run_id (rx_registration request), tk_turn_id = turn_id \<rparr>) current_turn))"

definition reconcile_store ::
    "database \<Rightarrow> Reconciliation \<Rightarrow> (u8 list \<times> nat) option
     \<Rightarrow> StorageError + database \<times> ProducerGeneration \<times> Revision" where
  "reconcile_store db request entropy =
     and_then (require_revision db (rn_expected_revision (rx_registration request))) (\<lambda>_.
     and_then (discarded_next db (rx_discarded_events request)) (\<lambda>discarded.
     let verified = (rx_baseline request \<noteq> Unavailable) in
     and_then (validate_previous_turn db request) (\<lambda>_.
     and_then (registration_inside db (rx_registration request) verified verified entropy)
       (\<lambda>(db, generation, next).
     and_then (update_obligations db request generation) (\<lambda>db.
     case baseline_projection request generation of (projection, current) \<Rightarrow>
     and_then (write_projection db projection current) (\<lambda>db.
     Ok (advance_revision (db\<lparr> db_discarded := number discarded \<rparr>) next, generation, next)))))))"

definition retire_store :: "database \<Rightarrow> ProducerRetirement \<Rightarrow> StorageError + database \<times> Revision" where
  "retire_store db request =
     and_then (require_revision db (pt_expected_revision request)) (\<lambda>next.
     and_then (producer db (pt_producer_id request)) (\<lambda>found.
     and_then (ok_or StorageError.UnknownProducer found) (\<lambda>record.
     if pc_generation record \<noteq> pt_generation request \<or> \<not> pc_active record
     then Err StorageError.StaleGeneration
     else
       and_then (discarded_next db (pt_discarded_events request)) (\<lambda>discarded.
       and_then (stored_projection db (pc_run_id record)) (\<lambda>(_, current).
       if (case current of None \<Rightarrow> False | Some key \<Rightarrow>
            tk_producer_id key \<noteq> pc_producer_id record \<or> tk_generation key \<noteq> pc_generation record)
       then Err StorageError.Conflict
       else
         let db = retire_one db (ProducerId_as_str (pc_producer_id record))
                    (ProducerGeneration_as_str (pc_generation record))
         in Ok (advance_revision (db\<lparr> db_discarded := number discarded \<rparr>) next, next))))))"

subsection \<open>Shape checks before queueing (reducer_validation.rs, validation.rs)\<close>

definition encodable :: "store_codec \<Rightarrow> EventEnvelope \<Rightarrow> StorageError + unit" where
  "encodable codec ev = map_ok (\<lambda>_. ()) (map_err (\<lambda>_. InvalidRequest)
     (encode_frame (ec_from_slice (sk_events codec)) (sk_pieces codec ev)))"

definition bounded_bytes :: "string option \<Rightarrow> StorageError + unit" where
  "bounded_bytes bytes = and_then (ok_or InvalidRequest bytes) (\<lambda>bytes.
     if 24576 < length bytes then Err InvalidRequest else Ok ())"

definition validate_apply :: "store_codec \<Rightarrow> ReducerWrite \<Rightarrow> StorageError + unit" where
  "validate_apply codec ws =
     (let effects = rw_effects ws; ev = rw_fact ws in
      if rw_accepted_at ws < 0 \<or> 8 < length (fx_attention effects)
        \<or> card (reason_code ` set (fx_attention effects)) \<noteq> length (fx_attention effects)
        \<or> rp_run_id (fx_projection effects) \<noteq> ev_run_id ev
        \<or> rp_turn_id (fx_projection effects) \<noteq> map_option tk_turn_id (fx_current_turn effects)
        \<or> (fx_current_turn effects = None \<and> rp_turn (fx_projection effects) \<noteq> TurnState.Unknown)
        \<or> (case fx_current_turn effects of None \<Rightarrow> False | Some key \<Rightarrow>
             \<not> same_scope key ev \<or> rp_turn_id (fx_projection effects) \<noteq> Some (tk_turn_id key))
        \<or> (case fx_resolve_transient effects of None \<Rightarrow> False | Some key \<Rightarrow> \<not> same_scope key ev)
        \<or> (case fx_tombstone effects of None \<Rightarrow> False | Some item \<Rightarrow>
             \<not> same_scope (te_key item) ev
             \<or> EventPayload_turn_id (ev_event ev) \<noteq> Some (tk_turn_id (te_key item))
             \<or> te_outcome_id item \<noteq> ev_event_id ev
             \<or> (case te_terminal item of None \<Rightarrow> True | Some state \<Rightarrow> \<not> is_terminal state)
             \<or> te_terminal item \<noteq> terminal_kind ev)
      then Err InvalidRequest
      else
        and_then (encodable codec ev) (\<lambda>_.
        bounded_bytes (sk_reducer_write codec ws)))"

definition validate_reconciliation :: "Reconciliation \<Rightarrow> StorageError + unit" where
  "validate_reconciliation request =
     (if (case rx_baseline request of
          Unavailable \<Rightarrow> rx_resolved_turn request \<noteq> None \<or> rx_continued_turn request \<noteq> None
        | Verified projection current_turn \<Rightarrow>
            rp_run_id projection \<noteq> rn_run_id (rx_registration request)
            \<or> rp_process projection \<noteq> Alive \<or> rp_observation projection \<noteq> Fresh
            \<or> rp_turn_id projection \<noteq> current_turn
            \<or> (case current_turn of
                 Some _ \<Rightarrow> rp_turn projection \<notin> {Working, AwaitingInput, AwaitingApproval}
               | None \<Rightarrow> rp_turn projection \<noteq> TurnState.Unknown))
        \<or> (case rx_continued_turn request of None \<Rightarrow> False | Some key \<Rightarrow>
             rx_resolved_turn request \<noteq> None
             \<or> tk_producer_id key \<noteq> rn_producer_id (rx_registration request)
             \<or> tk_run_id key \<noteq> rn_run_id (rx_registration request)
             \<or> rn_previous_generation (rx_registration request) \<noteq> Some (tk_generation key)
             \<or> \<not> (case rx_baseline request of
                  Unavailable \<Rightarrow> False
                | Verified projection current_turn \<Rightarrow>
                    rp_turn projection \<in> {AwaitingInput, AwaitingApproval}
                    \<and> current_turn = Some (tk_turn_id key)))
      then Err InvalidRequest else Ok ())"

definition validate_set :: "store_codec \<Rightarrow> WriteSet \<Rightarrow> StorageError + unit" where
  "validate_set codec ws =
     (let ev = ws_fact ws in
      if ws_accepted_at ws < 0 \<or> 8 < length (ws_attention ws)
        \<or> rp_run_id (ws_projection ws) \<noteq> ev_run_id ev
        \<or> list_ex (\<lambda>item. am_outcome_id item \<noteq> ev_event_id ev) (ws_attention ws)
        \<or> (case ws_outbox ws of None \<Rightarrow> False | Some outcome_id \<Rightarrow> outcome_id \<noteq> ev_event_id ev)
        \<or> (case ws_tombstone ws of None \<Rightarrow> False | Some item \<Rightarrow>
             tt_outcome_id item \<noteq> ev_event_id ev \<or> rp_turn_id (ws_projection ws) \<noteq> Some (tt_turn_id item))
        \<or> card (am_reason ` set (ws_attention ws)) \<noteq> length (ws_attention ws)
      then Err InvalidRequest
      else
        and_then (encodable codec ev) (\<lambda>_.
        bounded_bytes (sk_write_set codec ws)))"

end
