(* ===== verification/Store_Backup.thy ===== *)
theory Store_Backup
  imports Store_Types
begin

section \<open>Storage: the files of the store, its backup and its restoration (backup.rs, engine.rs, paths.rs)\<close>

text \<open>
  The store is one database file. Beside it lie the backup, the staged copy of a backup or of a
  restoration under way, and the old store a restoration keeps until the new one is installed. What
  is done to these files does not depend on what the store holds: the operations take the store's
  revision and the invalidation of its generations as the argument \<open>store_kind\<close>, so that the same
  definitions serve the event tables alone and the manager's whole store.

  A \<open>stored_file\<close> is \<open>None\<close> where there is no file, and \<open>Some None\<close> where the file is not a whole
  store. While a connection is open the store is the connection's; \<open>sf_database\<close> is the file when
  none is. SQLite, the kernel and the layout checks of \<open>schema.rs\<close> answer through \<open>eo_step\<close>; a step that
  answers an error may still have taken place (a rename whose directory could not be synchronised
  after it): \<open>eo_half\<close>. Every copy is of the current schema version, so the migration of a staged copy is
  not modelled. Prefixes: \<open>sf_\<close> \<open>state_files\<close>, \<open>en_\<close> \<open>store_engine\<close>, \<open>eo_\<close> \<open>engine_io\<close>, \<open>vi_\<close> \<open>store_kind\<close>.
\<close>

type_synonym 'db stored_file = "'db option option"

record 'db state_files =
  sf_database :: "'db stored_file"
  sf_backup :: "'db stored_file"
  sf_staging :: "'db stored_file"
  sf_rollback :: "'db stored_file"

definition no_files :: "'db state_files" where
  "no_files = \<lparr> sf_database = None, sf_backup = None, sf_staging = None, sf_rollback = None \<rparr>"

record 'db store_engine =
  en_connection :: "'db option"
  en_owner :: nat
  en_files :: "'db state_files"

record 'db store_kind =
  vi_revision :: "'db \<Rightarrow> StorageError + Revision"
  vi_invalidate :: "'db \<Rightarrow> Revision option \<Rightarrow> StorageError + 'db"

datatype file_step =
    LookStaging | LookBackup | LookRollback | LookLog | LookDatabase
  | OpenBackup | OpenRestored
  | CreateStaging | CopyStaging | RemoveStaging | SyncStaging | PublishBackup
  | CheckpointStore | CloseStore | CheckpointRestored
  | MoveDatabase | MoveStaging | MoveBack | PutBack | RemoveRollback

text \<open>What the files answer during one call, and the bytes the kernel gives a registration.\<close>

record engine_io =
  eo_paths :: "StorageError + unit"
  eo_pressure :: "StorageError + unit"
  eo_entropy :: "(u8 list \<times> nat) option"
  eo_step :: "file_step \<Rightarrow> StorageError + unit"
  eo_half :: "file_step \<Rightarrow> bool"
  eo_log_left :: bool

definition file_ask :: "engine_io \<Rightarrow> file_step \<Rightarrow> 's \<Rightarrow> 's \<times> (StorageError + unit)" where
  "file_ask env step s = (s, eo_step env step)"

definition file_act ::
    "engine_io \<Rightarrow> file_step \<Rightarrow> ('db state_files \<Rightarrow> 'db state_files) \<Rightarrow> 'db state_files
     \<Rightarrow> 'db state_files \<times> (StorageError + unit)" where
  "file_act env step change files =
     (if is_ok (eo_step env step) \<or> eo_half env step then change files else files, eo_step env step)"

subsection \<open>The backup (backup.rs)\<close>

text \<open>\<open>copy_to_stage\<close>, and the removal of a copy that failed, whose own failure is ignored.\<close>

definition copy_to_stage :: "engine_io \<Rightarrow> 'db \<Rightarrow> 'db state_files \<Rightarrow> 'db state_files \<times> (StorageError + unit)" where
  "copy_to_stage env source files = (case eo_step env CopyStaging of
     Ok _ \<Rightarrow> (files\<lparr> sf_staging := Some (Some source) \<rparr>, Ok ())
   | Err e \<Rightarrow> (fst (file_act env RemoveStaging (sf_staging_update (\<lambda>_. None)) files), Err e))"

definition standalone :: "engine_io \<Rightarrow> 'db state_files \<Rightarrow> 'db state_files \<times> (StorageError + 'db)" where
  "standalone env files =
     (files, and_then (eo_step env OpenBackup) (\<lambda>_. case sf_backup files of
        Some (Some saved) \<Rightarrow> Ok saved | _ \<Rightarrow> Err CorruptDatabase))"

definition backup_create :: "engine_io \<Rightarrow> 'db \<Rightarrow> 'db state_files \<Rightarrow> 'db state_files \<times> (StorageError + unit)" where
  "backup_create env source files =
     try_st (file_ask env LookStaging files) (\<lambda>files _.
     if sf_staging files \<noteq> None then (files, Err RecoveryRequired) else
     try_st (file_ask env LookBackup files) (\<lambda>files _.
     try_st (if sf_backup files = None then (files, Ok ())
             else map_prod id (map_ok (\<lambda>_. ())) (standalone env files)) (\<lambda>files _.
     try_st (file_act env CreateStaging (sf_staging_update (\<lambda>_. Some None)) files) (\<lambda>files _.
     try_st (copy_to_stage env source files) (\<lambda>files _.
     try_st (file_ask env SyncStaging files) (\<lambda>files _.
     file_act env PublishBackup (\<lambda>f. f\<lparr> sf_backup := sf_staging f, sf_staging := None \<rparr>) files))))))"

text \<open>The revision the restored store takes, and its copy staged from the backup.\<close>

definition stage_restore ::
    "'db store_kind \<Rightarrow> engine_io \<Rightarrow> Revision \<Rightarrow> 'db state_files \<Rightarrow> 'db state_files \<times> (StorageError + Revision)" where
  "stage_restore kind env live files =
     try_st (file_ask env LookBackup files) (\<lambda>files _.
     if sf_backup files = None then (files, Err RecoveryRequired) else
     try_st (file_ask env LookStaging files) (\<lambda>files _.
     if sf_staging files \<noteq> None then (files, Err RecoveryRequired) else
     try_st (file_ask env LookRollback files) (\<lambda>files _.
     if sf_rollback files \<noteq> None then (files, Err RecoveryRequired) else
     try_st (standalone env files) (\<lambda>files saved.
     try_st (files, vi_revision kind saved) (\<lambda>files backup_revision.
     try_st (files, ok_or StorageError.ResourceExhausted (Revision_checked_next (max live backup_revision))) (\<lambda>files nxt.
     try_st (file_act env CreateStaging (sf_staging_update (\<lambda>_. Some None)) files) (\<lambda>files _.
     try_st (copy_to_stage env saved files) (\<lambda>files _.
     try_st (file_ask env SyncStaging files) (\<lambda>files _.
     (files, Ok nxt))))))))))"

definition replace_database :: "engine_io \<Rightarrow> 'db state_files \<Rightarrow> 'db state_files \<times> (StorageError + unit)" where
  "replace_database env files =
     try_st (file_act env MoveDatabase (\<lambda>f. f\<lparr> sf_rollback := sf_database f, sf_database := None \<rparr>) files) (\<lambda>files _.
     case file_act env MoveStaging (\<lambda>f. f\<lparr> sf_database := sf_staging f, sf_staging := None \<rparr>) files of
       (files, Ok _) \<Rightarrow> (files, Ok ())
     | (files, Err e) \<Rightarrow>
         (fst (file_act env MoveBack (\<lambda>f. f\<lparr> sf_database := sf_rollback f, sf_rollback := None \<rparr>) files), Err e))"

subsection \<open>Restoring (engine.rs)\<close>

definition load_restored ::
    "'db store_kind \<Rightarrow> engine_io \<Rightarrow> Revision \<Rightarrow> 'db state_files \<Rightarrow> 'db state_files \<times> (StorageError + 'db)" where
  "load_restored kind env nxt files =
     try_st (file_ask env OpenRestored files) (\<lambda>files _.
     case sf_database files of
       Some (Some db) \<Rightarrow>
         try_st (files, vi_invalidate kind db (Some nxt)) (\<lambda>files restored.
         try_st (file_ask env CheckpointRestored (files\<lparr> sf_database := Some (Some restored) \<rparr>)) (\<lambda>files _.
         (files, Ok restored)))
     | _ \<Rightarrow> (files, Err CorruptDatabase))"

definition install_restore ::
    "'db store_kind \<Rightarrow> engine_io \<Rightarrow> Revision \<Rightarrow> 'db store_engine \<Rightarrow> 'db store_engine \<times> (StorageError + unit)" where
  "install_restore kind env nxt self = (case load_restored kind env nxt (en_files self) of
     (files, Err _) \<Rightarrow>
       try_st (file_ask env LookLog (self\<lparr> en_files := files \<rparr>)) (\<lambda>self _.
       if eo_log_left env then (self, Err RecoveryRequired) else
       (case file_act env PutBack (\<lambda>f. f\<lparr> sf_database := sf_rollback f, sf_rollback := None \<rparr>) (en_files self) of
         (files, r) \<Rightarrow> (self\<lparr> en_files := files \<rparr>, and_then r (\<lambda>_. Err RecoveryRequired))))
   | (files, Ok restored) \<Rightarrow>
       (case file_act env RemoveRollback (sf_rollback_update (\<lambda>_. None)) (files\<lparr> sf_database := None \<rparr>) of
         (files, r) \<Rightarrow>
           (self\<lparr> en_connection := Some restored, en_owner := Suc (en_owner self), en_files := files \<rparr>, r)))"

text \<open>The files as they lie once no connection is open.\<close>

definition closed_files :: "'db store_engine \<Rightarrow> 'db state_files" where
  "closed_files self = (case en_connection self of
     None \<Rightarrow> en_files self | Some db \<Rightarrow> (en_files self)\<lparr> sf_database := Some (Some db) \<rparr>)"

definition on_files ::
    "('db state_files \<Rightarrow> 'db state_files \<times> (StorageError + 'a)) \<Rightarrow> 'db store_engine
     \<Rightarrow> 'db store_engine \<times> (StorageError + 'a)" where
  "on_files op self = (case op (en_files self) of (files, r) \<Rightarrow> (self\<lparr> en_files := files \<rparr>, r))"

definition restore_store ::
    "'db store_kind \<Rightarrow> engine_io \<Rightarrow> 'db store_engine \<Rightarrow> 'db store_engine \<times> (StorageError + Revision)" where
  "restore_store kind env self =
     try_st (self, ok_or RecoveryRequired (en_connection self)) (\<lambda>self db.
     try_st (self, eo_pressure env) (\<lambda>self _.
     try_st (self, vi_revision kind db) (\<lambda>self live.
     try_st (on_files (stage_restore kind env live) self) (\<lambda>self nxt.
     try_st (file_ask env CheckpointStore self) (\<lambda>self _.
     try_st (file_ask env CloseStore (self\<lparr> en_connection := None, en_files := closed_files self \<rparr>)) (\<lambda>self _.
     try_st (on_files (replace_database env) self) (\<lambda>self _.
     try_st (install_restore kind env nxt self) (\<lambda>self _.
     (self, Ok nxt)))))))))"

text \<open>
  \<open>recover_backup\<close>, for a main database that is corrupt and has nothing pending. The value returned
  with an error stands for the files alone: the program keeps no engine then.
\<close>

definition recover_backup ::
    "'db store_kind \<Rightarrow> engine_io \<Rightarrow> 'db state_files \<Rightarrow> Revision \<Rightarrow> nat
     \<Rightarrow> 'db store_engine \<times> (StorageError + unit)" where
  "recover_backup kind env files floor owner =
     (let self = \<lparr> en_connection = None, en_owner = owner, en_files = files \<rparr> in
     try_st (self, eo_paths env) (\<lambda>self _.
     if sf_staging files \<noteq> None \<or> sf_rollback files \<noteq> None then (self, Err RecoveryRequired) else
     try_st (file_ask env LookDatabase self) (\<lambda>self _.
     if sf_database files = None then (self, Err PersistenceUnavailable) else
     try_st (file_ask env LookLog self) (\<lambda>self _.
     if eo_log_left env then (self, Err RecoveryRequired) else
     (case sf_database files of
        Some None \<Rightarrow>
          try_st (on_files (stage_restore kind env floor) self) (\<lambda>self nxt.
          try_st (on_files (replace_database env) self) (\<lambda>self _.
          install_restore kind env nxt self))
      | _ \<Rightarrow> (self, Err InvalidRequest))))))"

text \<open>The end of \<open>execute\<close>: the connection, the pressure on the log unless the request only reads, and
  what the request does to the open store and to the files beside it. A checkpoint after it does
  not change what the store holds.\<close>

definition serve_request ::
    "engine_io \<Rightarrow> bool \<Rightarrow> ('db \<Rightarrow> 'db state_files \<Rightarrow> 'db state_files \<times> (StorageError + 'db \<times> 'r))
     \<Rightarrow> 'db store_engine \<Rightarrow> 'db store_engine \<times> (StorageError + 'r)" where
  "serve_request env reading run self =
     try_st (self, ok_or RecoveryRequired (en_connection self)) (\<lambda>self db.
     try_st (self, if reading then Ok () else eo_pressure env) (\<lambda>self _.
     try_st (on_files (run db) self) (\<lambda>self (db, response).
     (self\<lparr> en_connection := Some db \<rparr>, Ok response))))"

subsection \<open>Opening (engine.rs)\<close>

text \<open>What an open of the files installs. A staged or kept file left behind refuses it; a new store is
  \<open>fresh_store\<close>.\<close>

definition open_store :: "'db store_kind \<Rightarrow> 'db \<Rightarrow> 'db state_files \<Rightarrow> nat \<Rightarrow> StorageError + 'db store_engine" where
  "open_store kind fresh_store files owner =
     (if sf_staging files \<noteq> None \<or> sf_rollback files \<noteq> None then Err RecoveryRequired
      else
        and_then (case sf_database files of
            None \<Rightarrow> Ok fresh_store | Some None \<Rightarrow> Err CorruptDatabase | Some (Some db) \<Rightarrow> Ok db) (\<lambda>db.
        map_ok (\<lambda>db. \<lparr> en_connection = Some db, en_owner = owner, en_files = files\<lparr> sf_database := None \<rparr> \<rparr>)
          (vi_invalidate kind db None)))"

subsection \<open>What every store of the files keeps\<close>

definition whole :: "('db \<Rightarrow> bool) \<Rightarrow> 'db stored_file \<Rightarrow> bool" where
  "whole good file \<longleftrightarrow> (case file of Some (Some db) \<Rightarrow> good db | _ \<Rightarrow> True)"

definition files_all :: "('db \<Rightarrow> bool) \<Rightarrow> 'db state_files \<Rightarrow> bool" where
  "files_all good files \<longleftrightarrow> whole good (sf_database files) \<and> whole good (sf_backup files)
     \<and> whole good (sf_staging files) \<and> whole good (sf_rollback files)"

definition engine_all :: "('db \<Rightarrow> bool) \<Rightarrow> 'db store_engine \<Rightarrow> bool" where
  "engine_all good self \<longleftrightarrow> pred_option good (en_connection self) \<and> files_all good (en_files self)"

lemma whole_simps [simp]: "whole good None" "whole good (Some None)" "whole good (Some (Some db)) = good db"
  by (simp_all add: whole_def)

lemmas files_defs = file_ask_def file_act_def copy_to_stage_def standalone_def on_files_def

text \<open>
  A predicate on stores that the invalidation of the generations keeps is kept by everything done
  to the files: it is stated of the open store and of every file beside it.
\<close>

locale store_contents =
  fixes kind :: "'db store_kind" and good :: "'db \<Rightarrow> bool"
  assumes invalidate_good: "vi_invalidate kind db forced = Ok db' \<Longrightarrow> good db \<Longrightarrow> good db'"
begin

lemma file_act_all:
  "file_act env step change files = (files', r) \<Longrightarrow> files_all good files \<Longrightarrow> files_all good (change files) \<Longrightarrow> files_all good files'"
  by (auto simp: file_act_def split: if_splits)

lemma copy_all:
  "copy_to_stage env source files = (files', r) \<Longrightarrow> good source \<Longrightarrow> files_all good files \<Longrightarrow> files_all good files'"
  by (auto simp: copy_to_stage_def file_act_def files_all_def split: sum.splits if_splits)

lemma standalone_all: "standalone env files = (files', Ok saved) \<Longrightarrow> files_all good files \<Longrightarrow> good saved"
  by (auto simp: standalone_def result_simps files_all_def split: option.splits)

lemma moved_all:
  "files_all good files \<Longrightarrow> files_all good (files\<lparr> sf_staging := Some None \<rparr>)"
  "files_all good files \<Longrightarrow> files_all good (files\<lparr> sf_backup := sf_staging files, sf_staging := None \<rparr>)"
  "files_all good files \<Longrightarrow> files_all good (files\<lparr> sf_rollback := sf_database files, sf_database := None \<rparr>)"
  "files_all good files \<Longrightarrow> files_all good (files\<lparr> sf_database := sf_staging files, sf_staging := None \<rparr>)"
  "files_all good files \<Longrightarrow> files_all good (files\<lparr> sf_database := sf_rollback files, sf_rollback := None \<rparr>)"
  by (simp_all add: files_all_def)

lemma create_all:
  "file_act env CreateStaging (sf_staging_update (\<lambda>_. Some None)) files = (files', r) \<Longrightarrow> files_all good files \<Longrightarrow> files_all good files'"
  by (erule file_act_all) (simp_all add: moved_all)

lemma standalone_same: "standalone env files = (files', r) \<Longrightarrow> files' = files"
  by (simp add: standalone_def)

lemma backup_create_all:
  assumes "backup_create env source files = (files', r)" and "good source" and "files_all good files"
  shows "files_all good files'"
proof -
  note copied = copy_all [OF _ assms(2)]
  from assms show ?thesis
    by (auto simp: backup_create_def file_ask_def standalone_def try_st_eq map_prod_def split: if_splits
        dest!: create_all copied intro: moved_all elim: file_act_all)
qed

lemma stage_restore_all:
  assumes "stage_restore kind env live files = (files', r)" and "files_all good files"
  shows "files_all good files'"
proof -
  have saved: "fs = files \<and> good saved" if "standalone env files = (fs, Ok saved)" for fs saved
    using standalone_all [OF that assms(2)] standalone_same [OF that] by simp
  from assms show ?thesis
    by (auto simp: stage_restore_def file_ask_def try_st_eq split: if_splits
        dest!: saved create_all dest: standalone_same copy_all)
qed

lemma replace_database_all:
  "replace_database env files = (files', r) \<Longrightarrow> files_all good files \<Longrightarrow> files_all good files'"
  by (auto simp: replace_database_def files_defs files_all_def try_st_eq split: sum.splits if_splits)

lemma load_restored_all:
  assumes "load_restored kind env nxt files = (files', r)" and "files_all good files"
  shows "files_all good files' \<and> (\<forall>db. r = Ok db \<longrightarrow> good db)"
  using assms by (auto simp: load_restored_def files_defs files_all_def try_st_eq split: sum.splits option.splits
      dest: invalidate_good)

lemma install_restore_all:
  assumes "install_restore kind env nxt self = (self', r)" and "engine_all good self"
  shows "engine_all good self'"
proof -
  obtain files x where l: "load_restored kind env nxt (en_files self) = (files, x)" by fastforce
  from load_restored_all [OF this] assms(2) have "files_all good files" "\<forall>db. x = Ok db \<longrightarrow> good db"
    by (simp_all add: engine_all_def)
  with assms l show ?thesis
    by (auto simp: install_restore_def engine_all_def files_defs files_all_def try_st_eq split: sum.splits if_splits)
qed

lemma closed_files_all: "engine_all good self \<Longrightarrow> files_all good (closed_files self)"
  by (auto simp: engine_all_def files_all_def closed_files_def split: option.splits)

lemma on_files_all:
  assumes "on_files op self = (self', r)" and "engine_all good self"
    and "\<And>files files' r. op files = (files', r) \<Longrightarrow> files_all good files \<Longrightarrow> files_all good files'"
  shows "engine_all good self'"
  using assms by (auto simp: on_files_def engine_all_def split: prod.splits)

lemma closed_all: "engine_all good self \<Longrightarrow> engine_all good (self\<lparr> en_connection := None, en_files := closed_files self \<rparr>)"
  using closed_files_all [of self] by (simp add: engine_all_def)

lemma restore_store_all:
  assumes "restore_store kind env self = (self', r)" and "engine_all good self"
  shows "engine_all good self'"
proof -
  have stage: "engine_all good s" if "on_files (stage_restore kind env live) self = (s, x)" for live s x
    using on_files_all [OF that assms(2) stage_restore_all] .
  have rest: "engine_all good s'" if "on_files (replace_database env) s = (s', x)" "engine_all good s" for s s' x
    using on_files_all [OF that replace_database_all] .
  from assms show ?thesis
    by (auto simp: restore_store_def file_ask_def try_st_eq dest!: stage intro: closed_all
        dest: rest [OF _ closed_all] elim!: install_restore_all)
qed

lemma recover_backup_all:
  assumes "recover_backup kind env files floor owner = (self', r)" and "files_all good files"
  shows "engine_all good self'"
proof -
  have "engine_all good \<lparr> en_connection = None, en_owner = owner, en_files = files \<rparr>"
    using assms(2) by (simp add: engine_all_def)
  with assms(1) show ?thesis
    by (auto simp: recover_backup_def Let_def file_ask_def try_st_eq split: if_splits option.splits
        elim!: install_restore_all on_files_all stage_restore_all replace_database_all)
qed

lemma open_store_all:
  "open_store kind fresh_store files owner = Ok self \<Longrightarrow> good fresh_store \<Longrightarrow> files_all good files \<Longrightarrow> engine_all good self"
  by (auto simp: open_store_def result_simps engine_all_def files_all_def dest: invalidate_good
      split: if_splits option.splits)

lemma serve_request_all:
  assumes "serve_request env reading run self = (self', r)" and "engine_all good self"
    and "\<And>db files files' x. run db files = (files', x) \<Longrightarrow> good db \<Longrightarrow> files_all good files
      \<Longrightarrow> files_all good files' \<and> (\<forall>db' y. x = Ok (db', y) \<longrightarrow> good db')"
  shows "engine_all good self'"
proof (cases "en_connection self")
  case None
  with assms(1,2) show ?thesis by (simp add: serve_request_def)
next
  case (Some db)
  obtain files x where run: "run db (en_files self) = (files, x)" by fastforce
  with assms(2,3) Some have "good db" "files_all good files" "\<forall>db' y. x = Ok (db', y) \<longrightarrow> good db'"
    by (auto simp: engine_all_def)
  with assms(1,2) Some run show ?thesis
    by (auto simp: serve_request_def on_files_def engine_all_def try_st_eq split: prod.splits)
qed

end

subsection \<open>What a backup and a restoration come to\<close>

text \<open>Only the staged file is touched before a copy is published.\<close>

lemma create_frame:
  "file_act env CreateStaging (sf_staging_update (\<lambda>_. Some None)) files = (files', r) \<Longrightarrow> \<exists>v. files' = files\<lparr> sf_staging := v \<rparr>"
  by (cases files) (auto simp: file_act_def split: if_splits)

lemma copy_frame:
  "copy_to_stage env source files = (files', r) \<Longrightarrow>
     \<exists>v. files' = files\<lparr> sf_staging := v \<rparr> \<and> (r = Ok () \<longrightarrow> v = Some (Some source))"
  by (cases files) (auto simp: copy_to_stage_def file_act_def split: sum.splits if_splits)

lemma standalone_frame:
  "standalone env files = (files', r) \<Longrightarrow> files' = files \<and> (\<forall>saved. r = Ok saved \<longrightarrow> sf_backup files = Some (Some saved))"
  by (auto simp: standalone_def result_simps split: option.splits)

lemma publish_frame:
  "file_act env PublishBackup (\<lambda>f. f\<lparr> sf_backup := sf_staging f, sf_staging := None \<rparr>) files = (files', r) \<Longrightarrow>
     sf_backup files' = sf_staging files \<or> files' = files \<and> r \<noteq> Ok ()"
  by (auto simp: file_act_def split: if_splits)

lemmas stage_frames = create_frame copy_frame standalone_frame publish_frame

lemma backup_create_keeps:
  assumes "backup_create env source files = (files', r)"
  shows "(sf_backup files' = sf_backup files \<and> r \<noteq> Ok ()) \<or> sf_backup files' = Some (Some source)"
  using assms
  by (auto simp: backup_create_def file_ask_def try_st_eq map_prod_def split: if_splits prod.splits dest!: stage_frames)

lemma stage_restore_keeps:
  assumes "stage_restore kind env live files = (files', r)"
  shows "sf_backup files' = sf_backup files \<and> sf_database files' = sf_database files \<and> sf_rollback files' = sf_rollback files
    \<and> (\<forall>nxt. r = Ok nxt \<longrightarrow> (\<exists>saved kept. sf_backup files = Some (Some saved) \<and> sf_staging files' = Some (Some saved)
        \<and> vi_revision kind saved = Ok kept \<and> Revision_checked_next (max live kept) = Some nxt))"
  using assms
  by (auto simp: stage_restore_def file_ask_def try_st_eq ok_or_Ok split: if_splits dest!: stage_frames)

lemma replace_database_keeps:
  assumes "replace_database env files = (files', r)" and "sf_database files = Some (Some db)"
  shows "sf_backup files' = sf_backup files \<and> Some (Some db) \<in> {sf_database files', sf_rollback files'}
    \<and> (r = Ok () \<longrightarrow> sf_database files' = sf_staging files \<and> sf_rollback files' = Some (Some db))"
  using assms by (auto simp: replace_database_def files_defs try_st_eq split: sum.splits if_splits)

lemma load_restored_keeps:
  assumes "load_restored kind env nxt files = (files', r)"
  shows "sf_backup files' = sf_backup files \<and> sf_rollback files' = sf_rollback files
    \<and> (\<forall>restored. r = Ok restored \<longrightarrow> (\<exists>saved. sf_database files = Some (Some saved) \<and> vi_invalidate kind saved (Some nxt) = Ok restored))"
  using assms by (auto simp: load_restored_def files_defs try_st_eq split: sum.splits option.splits)

text \<open>Installing ends with the restored store open, or with none and the old store in a file.\<close>

lemma install_restore_ends:
  assumes "install_restore kind env nxt self = (self', r)" and "en_connection self = None"
    and "sf_database (en_files self) = Some (Some saved)" and "sf_rollback (en_files self) = Some (Some db)"
  shows "sf_backup (en_files self') = sf_backup (en_files self)
    \<and> ((en_connection self' = None \<and> \<not> is_ok r \<and> Some (Some db) \<in> {sf_database (en_files self'), sf_rollback (en_files self')})
      \<or> (\<exists>restored. vi_invalidate kind saved (Some nxt) = Ok restored \<and> en_connection self' = Some restored
          \<and> r = eo_step env RemoveRollback))"
proof -
  obtain files x where l: "load_restored kind env nxt (en_files self) = (files, x)" by fastforce
  note k = load_restored_keeps [OF this]
  show ?thesis
  proof (cases x)
    case (Inl e)
    with assms l k show ?thesis
      by (auto simp: install_restore_def files_defs try_st_eq result_simps split: sum.splits if_splits)
  next
    case (Inr restored)
    with assms l k show ?thesis by (auto simp: install_restore_def file_act_def split: sum.splits if_splits)
  qed
qed

lemma restore_store_ends:
  assumes "restore_store kind env self = (self', r)"
  shows "sf_backup (en_files self') = sf_backup (en_files self)
    \<and> ((en_connection self' = en_connection self \<and> en_owner self' = en_owner self \<and> \<not> is_ok r)
      \<or> (\<exists>db. en_connection self = Some db \<and> en_connection self' = None \<and> \<not> is_ok r
          \<and> Some (Some db) \<in> {sf_database (en_files self'), sf_rollback (en_files self')})
      \<or> (\<exists>db saved live kept nxt restored. en_connection self = Some db \<and> sf_backup (en_files self) = Some (Some saved)
          \<and> vi_revision kind db = Ok live \<and> vi_revision kind saved = Ok kept
          \<and> Revision_checked_next (max live kept) = Some nxt
          \<and> vi_invalidate kind saved (Some nxt) = Ok restored \<and> en_connection self' = Some restored
          \<and> (r = Ok nxt \<or> (\<exists>e. eo_step env RemoveRollback = Err e \<and> r = Err e))))"
proof (cases "en_connection self")
  case None
  with assms show ?thesis by (auto simp: restore_store_def)
next
  case (Some db)
  let ?same = "sf_backup (en_files self') = sf_backup (en_files self) \<and> en_connection self' = en_connection self
    \<and> en_owner self' = en_owner self \<and> \<not> is_ok r"
  show ?thesis
  proof (cases "\<exists>live. eo_pressure env = Ok () \<and> vi_revision kind db = Ok live")
    case False
    with assms Some have ?same by (auto simp: restore_store_def try_st_eq)
    then show ?thesis by blast
  next
    case True
    then obtain live where live: "eo_pressure env = Ok ()" "vi_revision kind db = Ok live" by blast
    obtain staged x where stage: "stage_restore kind env live (en_files self) = (staged, x)" by fastforce
    note staged = stage_restore_keeps [OF this]
    show ?thesis
    proof (cases "\<exists>nxt. x = Ok nxt \<and> eo_step env CheckpointStore = Ok ()")
      case False
      with assms Some live stage staged have ?same by (auto simp: restore_store_def on_files_def file_ask_def try_st_eq)
      then show ?thesis by blast
    next
      case True
      then obtain nxt where x: "x = Ok nxt" "eo_step env CheckpointStore = Ok ()" by blast
      let ?closed = "self\<lparr> en_connection := None, en_files := staged\<lparr> sf_database := Some (Some db) \<rparr> \<rparr>"
      from x staged obtain saved kept where saved: "sf_backup (en_files self) = Some (Some saved)"
        "sf_staging staged = Some (Some saved)" "vi_revision kind saved = Ok kept" "Revision_checked_next (max live kept) = Some nxt"
        by blast
      obtain moved y where replace: "replace_database env (en_files ?closed) = (moved, y)" by fastforce
      note moved = replace_database_keeps [OF this, of db, simplified]
      show ?thesis
      proof (cases "eo_step env CloseStore = Ok () \<and> y = Ok ()")
        case False
        then have "en_connection self' = None \<and> \<not> is_ok r
          \<and> (en_files self' = en_files ?closed \<or> en_files self' = moved)"
          using assms Some live stage x replace
          by (auto simp: restore_store_def on_files_def file_ask_def try_st_eq closed_files_def)
        with Some staged moved show ?thesis by auto
      next
        case True
        let ?ready = "?closed\<lparr> en_files := moved \<rparr>"
        obtain z where install: "install_restore kind env nxt ?ready = (self', z)" and r: "r = map_ok (\<lambda>_. nxt) z"
          using assms Some live stage x replace True
          by (auto simp: restore_store_def on_files_def file_ask_def try_st_eq closed_files_def)
        from moved True saved(2) have files: "sf_database (en_files ?ready) = Some (Some saved)"
          "sf_rollback (en_files ?ready) = Some (Some db)" "sf_backup moved = sf_backup staged" by simp_all
        note ends = install_restore_ends [OF install _ files(1,2), simplified]
        show ?thesis
        proof (cases "en_connection self' = None")
          case True
          with ends Some files(3) staged r show ?thesis by (cases z) auto
        next
          case False
          with ends obtain restored where "vi_invalidate kind saved (Some nxt) = Ok restored"
            "en_connection self' = Some restored" "z = eo_step env RemoveRollback" by auto
          moreover from this r have "r = Ok nxt \<or> (\<exists>e. eo_step env RemoveRollback = Err e \<and> r = Err e)"
            by (cases "eo_step env RemoveRollback") auto
          moreover have "sf_backup (en_files self') = sf_backup (en_files self)" using ends files(3) staged by simp
          ultimately show ?thesis using Some live saved(1,3,4) by blast
        qed
      qed
    qed
  qed
qed

end
