(* ===== verification/Store_Maintain.thy ===== *)
theory Store_Maintain
  imports Store_Write Store_Backup
begin

section \<open>Storage: policy, cleanup, delivery and the engine (policy.rs, maintenance.rs, engine.rs)\<close>

text \<open>
  The retention policy, the bounded cleanup plans, the delivery audit, the invalidation of
  every generation at an open, and the engine that checks and dispatches a request. Rows are
  named by their \<open>rowid\<close>. What the files answer is \<open>engine_io\<close> of \<open>Store_Backup\<close>, whose operations
  the backup requests run on the event tables. The catalog, runner and runtime-control requests are
  in \<open>Managed_Runs\<close>, which puts them and these behind one engine.
\<close>

subsection \<open>Policy (policy.rs)\<close>

definition count :: "'a list \<Rightarrow> StorageError + nat" where
  "count rows = (if 2 ^ 32 \<le> length rows then Err PersistenceUnavailable else Ok (length rows))"

definition saturating_sub :: "int \<Rightarrow> int \<Rightarrow> int" where
  "saturating_sub a b = max (- (2 ^ 63)) (min (2 ^ 63 - 1) (a - b))"

definition policy_of :: "database \<Rightarrow> StorageError + StoragePolicy" where
  "policy_of db =
     and_then (revision db) (\<lambda>current.
     and_then (HistoryRetention_from_days (db_history_days db)) (\<lambda>history.
     Ok \<lparr> po_revision = current, po_history = history \<rparr>))"

definition update_policy ::
    "database \<Rightarrow> Revision \<Rightarrow> HistoryRetention \<Rightarrow> StorageError + database \<times> StoragePolicy" where
  "update_policy db expected history =
     and_then (require_revision db expected) (\<lambda>next.
     Ok (advance_revision (db\<lparr> db_history_days := HistoryRetention_days history \<rparr>) next,
         \<lparr> po_revision = next, po_history = history \<rparr>))"

definition bounded :: "nat \<Rightarrow> StorageError + nat" where
  "bounded n = (if 2 ^ 32 \<le> n then Err StorageError.ResourceExhausted else Ok n)"

definition cell_u32 :: "nat \<Rightarrow> StorageError + nat" where
  "cell_u32 n = (if 2 ^ 32 \<le> n then Err PersistenceUnavailable else Ok n)"

definition status_of :: "database \<Rightarrow> StorageError + StorageStatus" where
  "status_of db =
     and_then (revision db) (\<lambda>current.
     and_then (count (db_facts db)) (\<lambda>facts.
     and_then (count (db_tombstones db)) (\<lambda>tombstones.
     and_then (count (db_attention db)) (\<lambda>attention.
     and_then (cell_u32 (pending_deliveries db)) (\<lambda>pending.
     and_then (decode_number (db_discarded db)) (\<lambda>discarded.
     and_then (cell_u32 (mr_facts_removed (db_maintenance db))) (\<lambda>facts_removed.
     and_then (cell_u32 (mr_tombstones_removed (db_maintenance db))) (\<lambda>tombstones_removed.
     and_then (cell_u32 (mr_generations_retired (db_maintenance db))) (\<lambda>generations_retired.
     and_then (cell_u32 (mr_deliveries_expired (db_maintenance db))) (\<lambda>deliveries_expired.
     Ok \<lparr> ss_revision = current, ss_facts = facts, ss_tombstones = tombstones, ss_attention = attention,
          ss_pending_deliveries = pending, ss_discarded_events = discarded,
          ss_cleanup = \<lparr> mr_facts_removed = facts_removed, mr_tombstones_removed = tombstones_removed,
            mr_generations_retired = generations_retired, mr_deliveries_expired = deliveries_expired,
            mr_more = False \<rparr> \<rparr>))))))))))"

definition candidates :: "('row \<Rightarrow> int) \<Rightarrow> ('row \<Rightarrow> int) \<Rightarrow> 'row list \<Rightarrow> int list" where
  "candidates stamp rowid rows = map rowid (take 100 (sort_key (\<lambda>r. (stamp r, rowid r)) rows))"

text \<open>The active producer a tombstone still protects, by the row of the tombstone.\<close>

definition protected_producer :: "database \<Rightarrow> int \<Rightarrow> string option" where
  "protected_producer db rowid = (case find (\<lambda>t. tw_rowid t = rowid) (db_tombstones db) of
     None \<Rightarrow> None
   | Some t \<Rightarrow> map_option pw_producer
       (find (\<lambda>p. pw_producer p = tw_producer t \<and> pw_generation p = tw_generation t \<and> pw_active p)
         (db_producers db)))"

definition preview :: "database \<Rightarrow> int \<Rightarrow> nat \<Rightarrow> StorageError + CleanupPreview" where
  "preview db now owner =
     and_then (policy_of db) (\<lambda>policy.
     and_then (count (db_facts db)) (\<lambda>fact_count.
     and_then (count (db_tombstones db)) (\<lambda>tombstone_count.
     let facts = candidates fw_accepted fw_rowid
           (filter (\<lambda>r. fw_accepted r \<le> saturating_sub now (HistoryRetention_days (po_history policy) * DAY)
              \<or> MAX_FACTS \<le> fact_count) (db_facts db));
         tombstones = candidates tw_created tw_rowid
           (filter (\<lambda>r. tw_created r \<le> saturating_sub now (30 * DAY) \<or> MAX_TOMBSTONES \<le> tombstone_count)
              (db_tombstones db));
         deliveries = candidates xw_created xw_rowid
           (filter (\<lambda>r. (xw_state r = 0 \<or> xw_state r = 1) \<and> xw_created r \<le> saturating_sub now (7 * DAY))
              (db_outbox db));
         generations = remdups (List.map_filter (protected_producer db) tombstones)
     in and_then (bounded (length facts)) (\<lambda>facts_removed.
        and_then (bounded (length tombstones)) (\<lambda>tombstones_removed.
        and_then (bounded (length generations)) (\<lambda>generations_retired.
        and_then (bounded (length deliveries)) (\<lambda>deliveries_expired.
        Ok \<lparr> cp_owner = owner, cp_revision = po_revision policy, cp_now = now,
             cp_history = po_history policy, cp_facts = facts, cp_tombstones = tombstones,
             cp_deliveries = deliveries,
             cp_result = \<lparr> mr_facts_removed = facts_removed, mr_tombstones_removed = tombstones_removed,
               mr_generations_retired = generations_retired, mr_deliveries_expired = deliveries_expired,
               mr_more = (length facts = 100 \<or> length tombstones = 100 \<or> length deliveries = 100) \<rparr> \<rparr>)))))))"

fun remove_facts :: "database \<Rightarrow> int list \<Rightarrow> database" where
  "remove_facts db [] = db"
| "remove_facts db (rowid # rowids) =
     remove_facts (db\<lparr> db_facts := filter (\<lambda>r. fw_rowid r \<noteq> rowid) (db_facts db) \<rparr>) rowids"

fun remove_tombstones :: "database \<Rightarrow> int list \<Rightarrow> StorageError + database" where
  "remove_tombstones db [] = Ok db"
| "remove_tombstones db (rowid # rowids) =
     (case find (\<lambda>t. tw_rowid t = rowid) (db_tombstones db) of
        None \<Rightarrow> Err PersistenceUnavailable
      | Some row \<Rightarrow>
          and_then (parse_cell ProducerId_from_str (tw_producer row)) (\<lambda>producer_id.
          and_then (parse_cell ProducerGeneration_from_str (tw_generation row)) (\<lambda>generation.
          let retired = retire_one db (ProducerId_as_str producer_id) (ProducerGeneration_as_str generation)
          in remove_tombstones
               (retired\<lparr> db_tombstones := filter (\<lambda>t. tw_rowid t \<noteq> rowid) (db_tombstones retired) \<rparr>)
               rowids)))"

fun expire_deliveries :: "database \<Rightarrow> int \<Rightarrow> int list \<Rightarrow> database" where
  "expire_deliveries db now [] = db"
| "expire_deliveries db now (rowid # rowids) =
     expire_deliveries (db\<lparr> db_outbox := map (\<lambda>r. if xw_rowid r = rowid
        then r\<lparr> xw_state := 3, xw_changed := now \<rparr> else r) (db_outbox db) \<rparr>) now rowids"

definition add_maintenance :: "MaintenanceResult \<Rightarrow> MaintenanceResult \<Rightarrow> MaintenanceResult" where
  "add_maintenance stored result =
     stored\<lparr> mr_facts_removed := mr_facts_removed stored + mr_facts_removed result,
            mr_tombstones_removed := mr_tombstones_removed stored + mr_tombstones_removed result,
            mr_generations_retired := mr_generations_retired stored + mr_generations_retired result,
            mr_deliveries_expired := mr_deliveries_expired stored + mr_deliveries_expired result \<rparr>"

definition execute_plan :: "database \<Rightarrow> CleanupPreview \<Rightarrow> StorageError + database" where
  "execute_plan db plan =
     and_then (remove_tombstones (remove_facts db (cp_facts plan)) (cp_tombstones plan)) (\<lambda>removed.
     let expired = expire_deliveries removed (cp_now plan) (cp_deliveries plan)
     in Ok (expired\<lparr> db_maintenance := add_maintenance (db_maintenance expired) (cp_result plan) \<rparr>))"

definition apply_cleanup ::
    "database \<Rightarrow> CleanupPreview \<Rightarrow> StorageError + database \<times> Revision \<times> MaintenanceResult" where
  "apply_cleanup db expected =
     and_then (require_revision db (cp_revision expected)) (\<lambda>next.
     and_then (preview db (cp_now expected) (cp_owner expected)) (\<lambda>actual.
     if actual \<noteq> expected then Err StorageError.Conflict
     else
       and_then (execute_plan db actual) (\<lambda>db.
       Ok (advance_revision db next, next, cp_result actual))))"

text \<open>The plan of \<open>maintain\<close> has an owner of its own, which nothing compares.\<close>

definition maintain ::
    "database \<Rightarrow> Revision \<Rightarrow> int \<Rightarrow> HistoryRetention
     \<Rightarrow> StorageError + database \<times> Revision \<times> MaintenanceResult" where
  "maintain db expected now history =
     and_then (require_revision db expected) (\<lambda>next.
     let configured = db\<lparr> db_history_days := HistoryRetention_days history \<rparr> in
     and_then (preview configured now 0) (\<lambda>plan.
     and_then (execute_plan configured plan) (\<lambda>db.
     Ok (advance_revision db next, next, cp_result plan))))"

subsection \<open>Delivery audit and review (maintenance.rs)\<close>

definition set_delivery :: "database \<Rightarrow> DeliveryUpdate \<Rightarrow> StorageError + database \<times> Revision" where
  "set_delivery db update =
     and_then (require_revision db (du_expected_revision update)) (\<lambda>next.
     case outbox_of db (du_outcome update) of
       [] \<Rightarrow> Err StorageError.Conflict
     | row # _ \<Rightarrow>
         if du_at update < xw_changed row \<or> 2 \<le> xw_state row \<or> du_state update = Pending
         then Err StorageError.Conflict
         else Ok (advance_revision (db\<lparr> db_outbox := map (\<lambda>r.
             if (xw_producer r, xw_generation r, xw_event r) = outcome_cells (du_outcome update)
             then r\<lparr> xw_state := delivery_code (du_state update), xw_changed := du_at update \<rparr> else r)
             (db_outbox db) \<rparr>) next, next))"

definition mark_reviewed :: "database \<Rightarrow> ReviewUpdate \<Rightarrow> StorageError + database \<times> Revision" where
  "mark_reviewed db update =
     and_then (require_revision db (ru_expected_revision update)) (\<lambda>next.
     if attention_of db (ru_outcome update) = [] then Err StorageError.Conflict
     else Ok (advance_revision (db\<lparr> db_attention := map (\<lambda>row.
         if (aw_producer row, aw_generation row, aw_event row) = outcome_cells (ru_outcome update)
         then row\<lparr> aw_reviewed := True \<rparr> else row) (db_attention db) \<rparr>) next, next))"

subsection \<open>The engine (engine.rs)\<close>

definition invalidate_generations ::
    "database \<Rightarrow> Revision option \<Rightarrow> StorageError + database" where
  "invalidate_generations db forced_revision =
     (if list_ex pw_active (db_producers db) \<or> forced_revision \<noteq> None
      then
        and_then (case forced_revision of
            Some next \<Rightarrow> Ok next
          | None \<Rightarrow> and_then (revision db) (\<lambda>current.
              ok_or StorageError.ResourceExhausted (Revision_checked_next current))) (\<lambda>next.
        Ok (advance_revision (retire_all db) next))
      else Ok db)"

text \<open>The store of a new file (schema.rs).\<close>

definition initialize :: database where
  "initialize = \<lparr> db_revision = number 0, db_history_days = 30, db_discarded = number 0,
     db_producers = [], db_facts = [], db_projections = [], db_attention = [], db_outbox = [],
     db_tombstones = [], db_maintenance = \<lparr> mr_facts_removed = 0, mr_tombstones_removed = 0,
       mr_generations_retired = 0, mr_deliveries_expired = 0, mr_more = False \<rparr> \<rparr>"

datatype Request =
    Context EventEnvelope
  | Apply ReducerWrite
  | Reconcile Reconciliation
  | RetireProducer ProducerRetirement
  | ReviewOutcome OutcomeReview
  | Policy
  | Status
  | UpdatePolicy Revision HistoryRetention
  | CleanupPreview int
  | ApplyCleanup CleanupPreview
  | Register Registration
  | Commit WriteSet
  | Snapshot SnapshotQuery
  | Producer ProducerId
  | Outcome OutcomeKey
  | MarkReviewed ReviewUpdate
  | Maintain Revision int HistoryRetention
  | SetDelivery DeliveryUpdate
  | Backup
  | RestoreBackup

datatype Response =
    Retired Revision
  | Context ReducerContext
  | Policy StoragePolicy
  | Status StorageStatus
  | CleanupPreview CleanupPreview
  | Registered ProducerGeneration Revision
  | Committed Revision bool
  | Snapshot SnapshotPage
  | Producer "ProducerRecord option"
  | Outcome "OutcomeRecord option"
  | Maintained Revision MaintenanceResult
  | DeliveryUpdated Revision
  | BackupComplete
  | Restored Revision

definition validate_request :: "store_codec \<Rightarrow> Request \<Rightarrow> StorageError + unit" where
  "validate_request codec request = (case request of
     Commit w \<Rightarrow> validate_set codec w
   | Request.Context ev \<Rightarrow> encodable codec ev
   | Apply w \<Rightarrow> validate_apply codec w
   | Reconcile r \<Rightarrow> validate_reconciliation r
   | Request.CleanupPreview now \<Rightarrow> if now < 0 then Err InvalidRequest else Ok ()
   | Request.Snapshot query \<Rightarrow>
       if sq_limit query = 0 \<or> PAGE_LIMIT < sq_limit query
         \<or> (sq_after_run query \<noteq> None \<and> sq_expected_revision query = None)
       then Err InvalidRequest else Ok ()
   | Maintain _ now _ \<Rightarrow> if now < 0 then Err InvalidRequest else Ok ()
   | SetDelivery update \<Rightarrow>
       if du_at update < 0 \<or> du_state update = Pending then Err InvalidRequest else Ok ()
   | _ \<Rightarrow> Ok ())"

text \<open>The arms of \<open>dispatch\<close> on the tables; the backup has its arm in \<open>dispatch\<close>, and \<open>execute\<close> never
  brings a restoration here (\<open>unreachable!()\<close>).\<close>

definition answer_request ::
    "store_codec \<Rightarrow> (u8 list \<times> nat) option \<Rightarrow> nat \<Rightarrow> database \<Rightarrow> Request
     \<Rightarrow> StorageError + database \<times> Response" where
  "answer_request codec entropy owner db request = (case request of
     Request.Context ev \<Rightarrow> map_ok (\<lambda>c. (db, Response.Context c)) (context_of codec db ev)
   | Apply w \<Rightarrow> map_ok (\<lambda>(db', r, dup). (db', Committed r dup)) (apply_write codec db w)
   | Reconcile r \<Rightarrow> map_ok (\<lambda>(db', g, n). (db', Registered g n)) (reconcile_store db r entropy)
   | RetireProducer r \<Rightarrow> map_ok (\<lambda>(db', n). (db', Retired n)) (retire_store db r)
   | ReviewOutcome u \<Rightarrow> map_ok (\<lambda>(db', n). (db', Committed n False)) (review_outcome db u)
   | Request.Policy \<Rightarrow> map_ok (\<lambda>p. (db, Response.Policy p)) (policy_of db)
   | Request.Status \<Rightarrow> map_ok (\<lambda>s. (db, Response.Status s)) (status_of db)
   | UpdatePolicy expected history \<Rightarrow>
       map_ok (\<lambda>(db', p). (db', Response.Policy p)) (update_policy db expected history)
   | Request.CleanupPreview now \<Rightarrow> map_ok (\<lambda>p. (db, Response.CleanupPreview p)) (preview db now owner)
   | ApplyCleanup plan \<Rightarrow> map_ok (\<lambda>(db', n, r). (db', Maintained n r)) (apply_cleanup db plan)
   | Register reg \<Rightarrow> map_ok (\<lambda>(db', g, n). (db', Registered g n)) (register_producer db reg entropy)
   | Commit w \<Rightarrow> map_ok (\<lambda>(db', r, dup). (db', Committed r dup)) (commit codec db w)
   | Request.Snapshot q \<Rightarrow> map_ok (\<lambda>p. (db, Response.Snapshot p)) (snapshot db q)
   | Request.Producer p \<Rightarrow> map_ok (\<lambda>r. (db, Response.Producer r)) (producer db p)
   | Request.Outcome k \<Rightarrow> map_ok (\<lambda>r. (db, Response.Outcome r)) (outcome db k)
   | MarkReviewed u \<Rightarrow> map_ok (\<lambda>(db', n). (db', Committed n False)) (mark_reviewed db u)
   | Maintain expected now history \<Rightarrow>
       map_ok (\<lambda>(db', n, r). (db', Maintained n r)) (maintain db expected now history)
   | SetDelivery u \<Rightarrow> map_ok (\<lambda>(db', n). (db', DeliveryUpdated n)) (set_delivery db u)
   | Backup \<Rightarrow> Err InvalidRequest
   | RestoreBackup \<Rightarrow> Err InvalidRequest)"

definition dispatch ::
    "store_codec \<Rightarrow> engine_io \<Rightarrow> nat \<Rightarrow> Request \<Rightarrow> database \<Rightarrow> database state_files
     \<Rightarrow> database state_files \<times> (StorageError + database \<times> Response)" where
  "dispatch codec env owner request db files =
     (if request = Backup
      then map_prod id (map_ok (\<lambda>_. (db, BackupComplete))) (backup_create env db files)
      else (files, answer_request codec (eo_entropy env) owner db request))"

definition read_only :: "Request \<Rightarrow> bool" where
  "read_only request \<longleftrightarrow> (case request of
     Request.Snapshot _ \<Rightarrow> True | Request.Producer _ \<Rightarrow> True | Request.Outcome _ \<Rightarrow> True
   | Request.Context _ \<Rightarrow> True | Request.Policy \<Rightarrow> True | Request.Status \<Rightarrow> True
   | Request.CleanupPreview _ \<Rightarrow> True | _ \<Rightarrow> False)"

subsection \<open>One call of the engine on the event tables (engine.rs)\<close>

type_synonym engine = "database store_engine"

definition events_kind :: "database store_kind" where
  "events_kind = \<lparr> vi_revision = revision, vi_invalidate = invalidate_generations \<rparr>"

definition engine_open :: "database state_files \<Rightarrow> nat \<Rightarrow> StorageError + engine" where
  "engine_open = open_store events_kind initialize"

definition execute ::
    "store_codec \<Rightarrow> engine_io \<Rightarrow> engine \<Rightarrow> Request \<Rightarrow> engine \<times> (StorageError + Response)" where
  "execute codec env self request =
     try_st (self, validate_request codec request) (\<lambda>self _.
     if (case request of ApplyCleanup plan \<Rightarrow> en_owner self \<noteq> cp_owner plan | _ \<Rightarrow> False)
     then (self, Err StorageError.Conflict)
     else
       try_st (self, eo_paths env) (\<lambda>self _.
       if request = RestoreBackup then map_prod id (map_ok Restored) (restore_store events_kind env self)
       else serve_request env (read_only request) (dispatch codec env (en_owner self) request) self))"

end
