(* ===== verification/Store_Samples.thy ===== *)
theory Store_Samples
  imports Store_Maintain
begin

section \<open>A concrete database the storage witnesses evaluate\<close>

text \<open>
  A store with one reconciled producer at sequence 1 and an empty log, the write the reducer
  produces for its first event, and a codec that knows exactly that event.
\<close>

definition sample_db :: database where
  "sample_db = \<lparr> db_revision = number 7, db_history_days = 7, db_discarded = number 0,
     db_producers = [\<lparr> pw_producer = ProducerId_as_str sample_producer,
       pw_generation = ProducerGeneration_as_str sample_generation, pw_run = RunId_as_str sample_run,
       pw_harness = 1, pw_next_seq = Some (number 1), pw_active = True, pw_reconciled = True \<rparr>],
     db_facts = [], db_projections = [], db_attention = [], db_outbox = [], db_tombstones = [],
     db_maintenance = \<lparr> mr_facts_removed = 0, mr_tombstones_removed = 0, mr_generations_retired = 0,
       mr_deliveries_expired = 0, mr_more = False \<rparr> \<rparr>"

definition sample_store :: store_codec where
  "sample_store = \<lparr> sk_parse = (\<lambda>_. Some (Object [(''fact'', Null)])),
     sk_print = (\<lambda>_. Some (butlast sample_frame)), sk_events = sample_codec_of EventKind.TurnAwaitingApproval,
     sk_pieces = (\<lambda>_. Some [butlast sample_frame]),
     sk_reducer_write = (\<lambda>w. Some (EventId_as_str (ev_event_id (rw_fact w)) @ (if rw_notify w then ''+'' else ''-''))),
     sk_write_set = (\<lambda>w. Some (EventId_as_str (ev_event_id (ws_fact w)))) \<rparr>"

definition sample_effects :: Effects where
  "sample_effects = \<lparr> fx_projection = \<lparr> rp_run_id = sample_run, rp_process = ProcessState.Unknown,
       rp_observation = Fresh, rp_turn = AwaitingApproval, rp_turn_id = Some sample_turn \<rparr>,
     fx_current_turn = Some sample_key, fx_attention = [NativeApproval], fx_resolve_transient = None,
     fx_tombstone = None, fx_reconciliation_required = False \<rparr>"

definition sample_write :: "nat \<Rightarrow> bool \<Rightarrow> ReducerWrite" where
  "sample_write n notify = \<lparr> rw_expected_revision = Revision 7, rw_fact = sample_event n approval,
     rw_effects = sample_effects, rw_accepted_at = 1000, rw_notify = notify, rw_discarded_events = 0 \<rparr>"

lemma sample_canonical:
  "canonical_uuid (ProducerId_as_str sample_producer)" "canonical_uuid (RunId_as_str sample_run)"
  "canonical_uuid (ProducerGeneration_as_str sample_generation)"
  "canonical_uuid (EventId_as_str (sample_event_id 1))" "canonical_uuid (EventId_as_str (sample_event_id 2))"
  "opaque (TurnId_as_str sample_turn) 256"
       apply code_simp+
  done

lemma sample_from_str [simp]:
  "ProducerId_from_str (ProducerId_as_str sample_producer) = Ok sample_producer"
  "RunId_from_str (RunId_as_str sample_run) = Ok sample_run"
  "ProducerGeneration_from_str (ProducerGeneration_as_str sample_generation) = Ok sample_generation"
  "EventId_from_str (EventId_as_str (sample_event_id (Suc 0))) = Ok (sample_event_id (Suc 0))"
  "TurnId_from_str (TurnId_as_str sample_turn) = Ok sample_turn"
  by (simp_all add: ProducerId.parse_as_str RunId.parse_as_str Generation.parse_as_str EventId.parse_as_str
      TurnId.parse_as_str sample_canonical [simplified])

lemma sample_event_id_length [simp]: "length (EventId_as_str (sample_event_id (Suc 0))) = 36"
  by code_simp

definition sample_applied :: "bool \<Rightarrow> database" where
  "sample_applied notify = sample_db\<lparr> db_revision := number 8,
     db_producers := map (\<lambda>r. r\<lparr> pw_next_seq := Some (number 2) \<rparr>) (db_producers sample_db),
     db_facts := [fact_of sample_db (sample_event 1 approval) 1000
       (EventId_as_str (sample_event_id 1) @ (if notify then ''+'' else ''-'')) (Revision 8)],
     db_projections := [projection_cells (fx_projection sample_effects) (Some sample_key)],
     db_attention := [\<lparr> aw_producer = ProducerId_as_str sample_producer,
       aw_generation = ProducerGeneration_as_str sample_generation,
       aw_event = EventId_as_str (sample_event_id 1), aw_run = RunId_as_str sample_run, aw_reason = 1,
       aw_reviewed = False, aw_turn_id = Some (TurnId_as_str sample_turn), aw_resolved = False,
       aw_outcome_revision = Some (number 8), aw_scoped = True,
       aw_resolution_generation = Some (ProducerGeneration_as_str sample_generation) \<rparr>],
     db_outbox := (if notify then [\<lparr> xw_rowid = 1, xw_producer = ProducerId_as_str sample_producer,
       xw_generation = ProducerGeneration_as_str sample_generation,
       xw_event = EventId_as_str (sample_event_id 1), xw_run = RunId_as_str sample_run, xw_state = 0,
       xw_created = 1000, xw_changed = 1000, xw_outcome_revision = Some (number 8) \<rparr>] else []) \<rparr>"

lemmas write_defs = apply_write_def duplicate_of_def require_revision_def revision_def apply_scope_def
  producer_def decode_producer_def transpose_option_def parse_cell_def sequence_in_turn_def
  discarded_next_def capacity_def write_projection_def apply_attention_def ensure_attention_def
  insert_attention_row_def active_scope_unique_def attention_key_def insert_outbox_row_def outbox_key_def pending_deliveries_def
  next_rowid_def write_tombstone_def insert_fact_row_def next_sequence_cell_def advance_revision_def
  harness_def MAX_FACTS_def MAX_RUNS_def MAX_ATTENTION_def MAX_OUTBOX_AUDIT_def MAX_OUTBOX_PENDING_def
  MAX_TOMBSTONES_def decode_number_number Revision_checked_next_def Seq_checked_next_def checked_add_def

lemma sample_apply:
  "apply_write sample_store sample_db (sample_write 1 notify) = Ok (sample_applied notify, Revision 8, False)"
  by (simp add: write_defs sample_db_def sample_store_def sample_write_def sample_event_def sample_effects_def
      sample_applied_def fact_of_def Let_def reason_code_def)

subsection \<open>A reconciled store reached from an empty one\<close>

definition sample_entropy :: "(u8 list \<times> nat) option" where
  "sample_entropy = Some ([1, 149, 242, 208, 0, 0, 0, 0, 0, 0, 0, 0, 0, 0, 0, 3], 16)"

lemma sample_fresh: "fresh sample_entropy = Ok sample_generation"
  by code_simp

definition sample_baseline :: RunProjection where
  "sample_baseline = \<lparr> rp_run_id = sample_run, rp_process = Alive, rp_observation = Fresh,
     rp_turn = TurnState.Unknown, rp_turn_id = None \<rparr>"

definition sample_reconciliation :: Reconciliation where
  "sample_reconciliation = \<lparr> rx_registration = \<lparr> rn_expected_revision = Revision 0,
       rn_producer_id = sample_producer, rn_run_id = sample_run, rn_harness = Claude,
       rn_next_sequence = Seq 1, rn_previous_generation = None \<rparr>,
     rx_baseline = Verified sample_baseline None, rx_discarded_events = 0,
     rx_resolved_turn = None, rx_continued_turn = None \<rparr>"

definition sample_reconciled :: database where
  "sample_reconciled = initialize\<lparr> db_revision := number 1, db_producers := db_producers sample_db,
     db_projections := [projection_cells sample_baseline None] \<rparr>"

lemma sample_reconcile:
  "reconcile_store initialize sample_reconciliation sample_entropy = Ok (sample_reconciled, sample_generation, Revision 1)"
  by (simp add: write_defs reconcile_store_def registration_inside_def validate_previous_turn_def update_obligations_def
      baseline_projection_def sample_reconciliation_def initialize_def sample_fresh upsert_producer_def
      sample_reconciled_def sample_db_def sample_baseline_def harness_code_def Let_def)

definition sample_io :: engine_io where
  "sample_io = \<lparr> eo_paths = Ok (), eo_pressure = Ok (), eo_entropy = sample_entropy,
     eo_step = (\<lambda>_. Ok ()), eo_half = (\<lambda>_. False), eo_log_left = False \<rparr>"

definition sample_engine :: engine where
  "sample_engine = \<lparr> en_connection = Some sample_reconciled, en_owner = 0, en_files = no_files \<rparr>"

lemma sample_open: "engine_open no_files 0 = Ok \<lparr> en_connection = Some initialize, en_owner = 0, en_files = no_files \<rparr>"
  by (simp add: engine_open_def open_store_def no_files_def events_kind_def invalidate_generations_def initialize_def)

lemma sample_execute:
  "execute codec sample_io \<lparr> en_connection = Some initialize, en_owner = 0, en_files = no_files \<rparr> (Reconcile sample_reconciliation)
     = (sample_engine, Ok (Registered sample_generation (Revision 1)))"
proof -
  have "validate_reconciliation sample_reconciliation = Ok ()" by code_simp
  then show ?thesis
    by (simp add: execute_def serve_request_def on_files_def answer_request_def sample_io_def read_only_def dispatch_def sample_reconcile sample_engine_def
        validate_request_def)
qed

subsection \<open>The first turn completes\<close>

definition finish_store :: store_codec where
  "finish_store = sample_store\<lparr> sk_events := sample_codec_of EventKind.TurnCompleted \<rparr>"

definition finish_effects :: Effects where
  "finish_effects = completed_effects\<lparr> fx_tombstone := Some (sample_tombstone\<lparr> te_outcome_id := sample_event_id 1 \<rparr>) \<rparr>"

definition finish_write :: ReducerWrite where
  "finish_write = \<lparr> rw_expected_revision = Revision 1, rw_fact = sample_event 1 completed,
     rw_effects = finish_effects, rw_accepted_at = 1000, rw_notify = True, rw_discarded_events = 0 \<rparr>"

definition finish_db :: database where
  "finish_db = sample_reconciled\<lparr> db_revision := number 2,
     db_producers := map (\<lambda>r. r\<lparr> pw_next_seq := Some (number 2) \<rparr>) (db_producers sample_db),
     db_facts := [fact_of sample_db (sample_event 1 completed) 1000
       (EventId_as_str (sample_event_id 1) @ ''+'') (Revision 2)],
     db_projections := [projection_cells (sample_projection Completed) (Some sample_key)],
     db_attention := [\<lparr> aw_producer = ProducerId_as_str sample_producer,
       aw_generation = ProducerGeneration_as_str sample_generation,
       aw_event = EventId_as_str (sample_event_id 1), aw_run = RunId_as_str sample_run, aw_reason = 4,
       aw_reviewed = False, aw_turn_id = Some (TurnId_as_str sample_turn), aw_resolved = False,
       aw_outcome_revision = Some (number 2), aw_scoped = True,
       aw_resolution_generation = Some (ProducerGeneration_as_str sample_generation) \<rparr>],
     db_outbox := [\<lparr> xw_rowid = 1, xw_producer = ProducerId_as_str sample_producer,
       xw_generation = ProducerGeneration_as_str sample_generation,
       xw_event = EventId_as_str (sample_event_id 1), xw_run = RunId_as_str sample_run, xw_state = 0,
       xw_created = 1000, xw_changed = 1000, xw_outcome_revision = Some (number 2) \<rparr>],
     db_tombstones := [\<lparr> tw_rowid = 1, tw_producer = ProducerId_as_str sample_producer,
       tw_generation = ProducerGeneration_as_str sample_generation, tw_run = RunId_as_str sample_run,
       tw_turn_id = TurnId_as_str sample_turn, tw_event = EventId_as_str (sample_event_id 1),
       tw_created = 1000, tw_terminal = Some 4, tw_outcome_revision = Some (number 2) \<rparr>] \<rparr>"

lemma finish_apply: "apply_write finish_store sample_reconciled finish_write = Ok (finish_db, Revision 2, False)"
  by (simp add: write_defs sample_reconciled_def initialize_def sample_db_def finish_store_def sample_store_def finish_write_def
      sample_event_def finish_effects_def completed_effects_def finish_db_def fact_of_def Let_def reason_code_def
      resolve_transient_def stored_tombstone_def sample_tombstone_def sample_key_def turn_code_def
      sample_projection_def projection_cells_def insert_tombstone_row_def tombstone_key_def active_transient_def
      sample_baseline_def)

definition finish_engine :: engine where
  "finish_engine = \<lparr> en_connection = Some finish_db, en_owner = 0, en_files = no_files \<rparr>"

lemma finish_execute:
  "execute finish_store sample_io sample_engine (Apply finish_write) = (finish_engine, Ok (Committed (Revision 2) False))"
proof -
  have "validate_apply finish_store finish_write = Ok ()"
    by (simp add: validate_apply_def encodable_def bounded_bytes_def finish_store_def sample_store_def finish_write_def
        finish_effects_def completed_effects_def sample_projection_def sample_key_def sample_event_def same_scope_def
        sample_tombstone_def terminal_kind_def encode_frame_def FrameWriter_write_def decode_def sample_frame_def
        newline_def carriage_return_def MAX_FRAME_BYTES_def MAX_JSON_DEPTH_def sample_codec_of_def is_object_def
        Value_get_def as_u64_def)
  then show ?thesis
    by (simp add: execute_def serve_request_def on_files_def answer_request_def sample_io_def read_only_def dispatch_def sample_engine_def finish_apply
        validate_request_def finish_engine_def)
qed

end
