(* ===== verification/Store_Log.thy ===== *)
theory Store_Log
  imports Store_Samples
begin

section \<open>Storage: revisions, frames and the fact log\<close>

text \<open>
  What each step of a transaction leaves alone (the frame lemmas), that every transaction
  advances the revision by exactly one, and the fact log: a write is stored once, its retry is
  answered from the log, and another write in its place is refused.
\<close>

named_theorems frames \<open>the tables a step of a transaction may change\<close>

subsection \<open>Revisions\<close>

lemma revision_advance [simp]: "revision (advance_revision db next) = Ok next"
  by (simp add: revision_def advance_revision_def decode_number_number)

lemma advance_revision_tables [simp]:
  "db_producers (advance_revision db next) = db_producers db"
  "db_facts (advance_revision db next) = db_facts db"
  "db_projections (advance_revision db next) = db_projections db"
  "db_attention (advance_revision db next) = db_attention db"
  "db_outbox (advance_revision db next) = db_outbox db"
  "db_tombstones (advance_revision db next) = db_tombstones db"
  "db_history_days (advance_revision db next) = db_history_days db"
  "db_discarded (advance_revision db next) = db_discarded db"
  "db_maintenance (advance_revision db next) = db_maintenance db"
  by (simp_all add: advance_revision_def)

lemma require_revision_Ok [result_simps]:
  "require_revision db expected = Ok next \<longleftrightarrow>
     revision db = Ok expected \<and> Revision_checked_next expected = Some next"
  by (auto simp: require_revision_def result_simps split: if_splits)

definition advances :: "database \<Rightarrow> database \<Rightarrow> bool" where
  "advances db db' \<longleftrightarrow> (\<exists>r next. revision db = Ok r \<and> Revision_checked_next r = Some next \<and> revision db' = Ok next)"

lemma advancesI:
  "require_revision db expected = Ok next \<Longrightarrow> advances db (advance_revision db1 next)"
  by (auto simp: advances_def result_simps)

lemma checked_next_value:
  "Revision_checked_next r = Some next \<Longrightarrow> unat (Revision_value next) = unat (Revision_value r) + 1"
  by (auto simp: Revision_checked_next_def checked_add_def unat_word_ariths split: if_splits)

lemma capacity_Ok [result_simps]:
  "capacity n maximum adding = Ok u \<longleftrightarrow> n < 2 ^ 32 \<and> n + adding \<le> maximum"
  by (auto simp: capacity_def split: if_splits)

subsection \<open>Frames\<close>

lemma write_projection_frame [frames]:
  "write_projection db p c = Ok db' \<Longrightarrow> \<exists>rows. db' = db\<lparr> db_projections := rows \<rparr>"
  by (auto simp: write_projection_def Let_def result_simps)

lemma insert_attention_row_frame [frames]:
  "insert_attention_row db row = Ok db' \<Longrightarrow> db' = db\<lparr> db_attention := db_attention db @ [row] \<rparr>"
  by (auto simp: insert_attention_row_def split: if_splits)

lemma insert_outbox_row_frame [frames]:
  "insert_outbox_row db row = Ok db' \<Longrightarrow> db' = db\<lparr> db_outbox := db_outbox db @ [row] \<rparr>"
  by (auto simp: insert_outbox_row_def split: if_splits)

lemma insert_tombstone_row_frame [frames]:
  "insert_tombstone_row db row = Ok db' \<Longrightarrow> db' = db\<lparr> db_tombstones := db_tombstones db @ [row] \<rparr>"
  by (auto simp: insert_tombstone_row_def split: if_splits)

lemma insert_fact_row_frame [frames]:
  "insert_fact_row db row = Ok db' \<Longrightarrow> db' = db\<lparr> db_facts := db_facts db @ [row] \<rparr>"
  by (auto simp: insert_fact_row_def split: if_splits)

lemma ensure_attention_frame [frames]:
  assumes "ensure_attention db w kind next = Ok (db', new)"
  shows "\<exists>rows. db' = db\<lparr> db_attention := rows \<rparr>"
proof (cases "db' = db")
  case True
  then show ?thesis by (intro exI [of _ "db_attention db"]) simp
next
  case False
  with assms show ?thesis
    by (auto simp: ensure_attention_def Let_def result_simps split: if_splits dest!: insert_attention_row_frame)
qed

lemma ensure_all_frame [frames]:
  "ensure_all db w kinds next inserted = Ok (db', new) \<Longrightarrow> \<exists>rows. db' = db\<lparr> db_attention := rows \<rparr>"
proof (induction kinds arbitrary: db inserted)
  case Nil
  then show ?case by (intro exI [of _ "db_attention db"]) simp
next
  case (Cons kind kinds)
  from Cons.prems obtain mid b where "ensure_attention db w kind next = Ok (mid, b)"
    and "ensure_all mid w kinds next (inserted \<or> b) = Ok (db', new)"
    by (auto simp: result_simps split: prod.splits)
  from ensure_attention_frame [OF this(1)] Cons.IH [OF this(2)] show ?case by auto
qed

lemma resolve_transient_frame:
  "\<exists>rows. resolve_transient db key = db\<lparr> db_attention := rows \<rparr>"
  by (auto simp: resolve_transient_def)

lemma apply_attention_frame [frames]:
  assumes "apply_attention db w next = Ok db'"
  shows "\<exists>rows out. db' = db\<lparr> db_attention := rows, db_outbox := out \<rparr>"
proof -
  define start where "start = (case fx_resolve_transient (rw_effects w) of None \<Rightarrow> db | Some key \<Rightarrow> resolve_transient db key)"
  have start: "\<exists>rows. start = db\<lparr> db_attention := rows \<rparr>"
  proof (cases "fx_resolve_transient (rw_effects w)")
    case None
    then show ?thesis by (intro exI [of _ "db_attention db"]) (simp add: start_def)
  next
    case (Some key)
    with resolve_transient_frame [of db key] show ?thesis by (auto simp: start_def)
  qed
  from assms obtain mid b where mid: "ensure_all start w (fx_attention (rw_effects w)) next False = Ok (mid, b)"
    and rest: "db' = mid \<or> (\<exists>row. insert_outbox_row mid row = Ok db')"
    by (auto simp: apply_attention_def Let_def result_simps start_def [symmetric] split: prod.splits if_splits)
  from ensure_all_frame [OF mid] start obtain rows where "mid = db\<lparr> db_attention := rows \<rparr>" by auto
  with rest show ?thesis
  proof (elim disjE exE)
    assume "db' = mid"
    with \<open>mid = _\<close> show ?thesis by (intro exI [of _ rows] exI [of _ "db_outbox db"]) simp
  next
    fix row assume "insert_outbox_row mid row = Ok db'"
    from insert_outbox_row_frame [OF this] \<open>mid = _\<close> show ?thesis by auto
  qed
qed

lemma write_tombstone_frame [frames]:
  assumes "write_tombstone db w next = Ok db'"
  shows "\<exists>rows. db' = db\<lparr> db_tombstones := rows \<rparr>"
proof (cases "fx_tombstone (rw_effects w)")
  case None
  with assms show ?thesis by (intro exI [of _ "db_tombstones db"]) (simp add: write_tombstone_def)
next
  case (Some item)
  with assms show ?thesis
    by (auto simp: write_tombstone_def result_simps split: if_splits dest!: insert_tombstone_row_frame)
qed

lemma degrade_frame: "\<exists>rows. degrade db scope legacy = db\<lparr> db_projections := rows \<rparr>"
  by (auto simp: degrade_def)

lemma retire_one_frame: "\<exists>rows ps. retire_one db p g = db\<lparr> db_projections := rows, db_producers := ps \<rparr>"
  by (auto simp: retire_one_def Let_def degrade_def)

subsection \<open>One apply\<close>

text \<open>A fresh apply, step by step.\<close>

lemma apply_write_new:
  assumes "apply_write codec db w = Ok (db', next, False)"
  obtains identity discarded db1 db2 db3 where
    "sk_reducer_write codec w = Some identity"
    "find (same_fact (rw_fact w)) (db_facts db) = None"
    "require_revision db (rw_expected_revision w) = Ok next"
    "apply_scope db (rw_fact w) = Ok ()"
    "discarded_next db (rw_discarded_events w) = Ok discarded"
    "capacity (length (db_facts db)) MAX_FACTS 1 = Ok ()"
    "write_projection db (fx_projection (rw_effects w)) (fx_current_turn (rw_effects w)) = Ok db1"
    "apply_attention db1 w next = Ok db2"
    "write_tombstone db2 w next = Ok db3"
    "insert_fact_row db3 (fact_of db3 (rw_fact w) (rw_accepted_at w) identity next)
       = Ok (db3\<lparr> db_facts := db_facts db3 @ [fact_of db3 (rw_fact w) (rw_accepted_at w) identity next] \<rparr>)"
    "db' = advance_revision (db3\<lparr> db_facts := db_facts db3 @ [fact_of db3 (rw_fact w) (rw_accepted_at w) identity next],
       db_producers := map (\<lambda>r.
           if pw_producer r = ProducerId_as_str (ev_producer_id (rw_fact w))
             \<and> pw_generation r = ProducerGeneration_as_str (ev_generation (rw_fact w))
           then r\<lparr> pw_next_seq := next_sequence_cell (rw_fact w),
                   pw_active := \<not> fx_reconciliation_required (rw_effects w),
                   pw_reconciled := \<not> fx_reconciliation_required (rw_effects w) \<rparr>
           else r) (db_producers db3), db_discarded := number discarded \<rparr>) next"
proof -
  have dup: "find (same_fact (rw_fact w)) (db_facts db) = None"
    if "duplicate_of db (rw_fact w) identity = Ok None" for identity
    using that by (auto simp: duplicate_of_def result_simps split: option.splits if_splits)
  from assms show thesis
    apply (simp add: apply_write_def)
    apply (clarsimp simp: result_simps Let_def split: option.splits)
    apply (frule insert_fact_row_frame)
    apply (rule that)
              apply (assumption | rule dup | (simp add: result_simps; fail))+
    done
qed

lemma apply_write_dup:
  assumes "apply_write codec db w = Ok (db', r, True)"
  obtains identity row where "sk_reducer_write codec w = Some identity" "db' = db"
    "find (same_fact (rw_fact w)) (db_facts db) = Some row" "fw_write_set row = identity"
    "decode_number (fw_revision row) = Ok (Revision_value r)"
  using assms
  by (auto simp: apply_write_def duplicate_of_def result_simps Let_def split: option.splits if_splits prod.splits)

subsection \<open>The fact log\<close>

lemma find_same_fact:
  assumes "ProducerId_as_str (ev_producer_id ev') = ProducerId_as_str (ev_producer_id ev)"
    and "ProducerGeneration_as_str (ev_generation ev') = ProducerGeneration_as_str (ev_generation ev)"
    and "EventId_as_str (ev_event_id ev') = EventId_as_str (ev_event_id ev) \<or> Seq_value (ev_seq ev') = Seq_value (ev_seq ev)"
  shows "same_fact ev' (fact_of db ev accepted identity next)"
  using assms by (auto simp: same_fact_def fact_of_def)

lemma fact_of_cells [simp]:
  "fw_write_set (fact_of db ev accepted identity next) = identity"
  "fw_revision (fact_of db ev accepted identity next) = number (Revision_value next)"
  by (simp_all add: fact_of_def)

lemma fact_of_facts: "db_facts a = db_facts b \<Longrightarrow> fact_of a ev acc identity next = fact_of b ev acc identity next"
  by (simp add: fact_of_def)

text \<open>The tables a fresh apply leaves.\<close>

lemma apply_write_tables:
  assumes "apply_write codec db w = Ok (db', next, False)"
  obtains identity where "sk_reducer_write codec w = Some identity"
    "find (same_fact (rw_fact w)) (db_facts db) = None"
    "require_revision db (rw_expected_revision w) = Ok next"
    "apply_scope db (rw_fact w) = Ok ()"
    "length (db_facts db) < MAX_FACTS"
    "revision db' = Ok next"
    "db_facts db' = db_facts db @ [fact_of db (rw_fact w) (rw_accepted_at w) identity next]"
    "db_producers db' = map (\<lambda>r.
           if pw_producer r = ProducerId_as_str (ev_producer_id (rw_fact w))
             \<and> pw_generation r = ProducerGeneration_as_str (ev_generation (rw_fact w))
           then r\<lparr> pw_next_seq := next_sequence_cell (rw_fact w),
                   pw_active := \<not> fx_reconciliation_required (rw_effects w),
                   pw_reconciled := \<not> fx_reconciliation_required (rw_effects w) \<rparr>
           else r) (db_producers db)"
    "\<exists>db1. write_projection db (fx_projection (rw_effects w)) (fx_current_turn (rw_effects w)) = Ok db1
       \<and> db_projections db' = db_projections db1"
    "\<exists>db1 db2. apply_attention (db\<lparr> db_projections := db1 \<rparr>) w next = Ok db2
       \<and> db_attention db' = db_attention db2 \<and> db_outbox db' = db_outbox db2"
    "\<exists>db1 db2. write_tombstone db1 w next = Ok db2 \<and> db_tombstones db1 = db_tombstones db
       \<and> db_tombstones db' = db_tombstones db2"
    "db_history_days db' = db_history_days db" "db_maintenance db' = db_maintenance db"
  using assms
proof (rule apply_write_new, goal_cases)
  case (1 identity discarded db1 db2 db3)
  from write_projection_frame [OF 1(8)] obtain p where db1: "db1 = db\<lparr> db_projections := p \<rparr>" by auto
  from apply_attention_frame [OF 1(9)] obtain a x where db2: "db2 = db1\<lparr> db_attention := a, db_outbox := x \<rparr>" by auto
  from write_tombstone_frame [OF 1(10)] obtain t where db3: "db3 = db2\<lparr> db_tombstones := t \<rparr>" by auto
  have facts: "db_facts db3 = db_facts db" by (simp add: db1 db2 db3)
  show ?case
  proof (rule 1(1) [OF 1(2-5)])
    show "length (db_facts db) < MAX_FACTS" using 1(7) by (simp add: result_simps)
    show "\<exists>db1. write_projection db (fx_projection (rw_effects w)) (fx_current_turn (rw_effects w)) = Ok db1
       \<and> db_projections db' = db_projections db1"
      using 1(8) by (intro exI [of _ db1]) (simp add: 1(12) db2 db3)
    show "\<exists>db1 db2. apply_attention (db\<lparr> db_projections := db1 \<rparr>) w next = Ok db2
       \<and> db_attention db' = db_attention db2 \<and> db_outbox db' = db_outbox db2"
      using 1(9) by (intro exI [of _ p] exI [of _ db2]) (simp add: 1(12) db3 db1)
    show "\<exists>db1 db2. write_tombstone db1 w next = Ok db2 \<and> db_tombstones db1 = db_tombstones db
       \<and> db_tombstones db' = db_tombstones db2"
      using 1(10) by (intro exI [of _ db2] exI [of _ db3]) (simp add: 1(12) db1 db2)
  qed (simp_all add: 1(12) db1 db2 db3 fact_of_def)
qed

lemma apply_write_stored:
  assumes "apply_write codec db w = Ok (db', r, d)"
  obtains identity row where "sk_reducer_write codec w = Some identity"
    "find (same_fact (rw_fact w)) (db_facts db') = Some row"
    "fw_write_set row = identity" "decode_number (fw_revision row) = Ok (Revision_value r)"
proof (cases d)
  case True
  with assms show thesis by (auto elim!: apply_write_dup intro: that)
next
  case False
  with assms have "apply_write codec db w = Ok (db', r, False)" by simp
  then show thesis
  proof (rule apply_write_tables, goal_cases)
    case (1 identity)
    show ?case
      by (rule that [of identity "fact_of db (rw_fact w) (rw_accepted_at w) identity r"])
         (simp_all add: 1 find_simps find_same_fact decode_number_number)
  qed
qed

lemma apply_write_answered:
  assumes "find (same_fact (rw_fact w)) (db_facts db) = Some row" and "sk_reducer_write codec w = Some identity"
  shows "apply_write codec db w =
    (if fw_write_set row = identity then map_ok (\<lambda>r. (db, Revision r, True)) (decode_number (fw_revision row))
     else Err StorageError.Conflict)"
  using assms by (cases "decode_number (fw_revision row)") (auto simp: apply_write_def duplicate_of_def)

lemma find_same_fact_collision:
  assumes "find (same_fact ev) facts = Some row"
    and "ev_producer_id ev' = ev_producer_id ev" and "ev_generation ev' = ev_generation ev"
    and "ev_event_id ev' = ev_event_id ev \<or> ev_seq ev' = ev_seq ev" and "fw_seq row = number (Seq_value (ev_seq ev))
      \<and> fw_event row = EventId_as_str (ev_event_id ev)"
  shows "find (same_fact ev') facts \<noteq> None"
proof -
  from assms(1) have "row \<in> set facts" "same_fact ev row" by (auto dest: find_SomeD)
  with assms(2-5) have "same_fact ev' row" by (auto simp: same_fact_def)
  with \<open>row \<in> set facts\<close> show ?thesis by (auto simp: find_None_iff)
qed

subsection \<open>The producer of a log\<close>

lemma producer_Ok [result_simps]:
  "producer db key = Ok found \<longleftrightarrow> (case find (\<lambda>row. pw_producer row = ProducerId_as_str key) (db_producers db) of
     None \<Rightarrow> found = None
   | Some row \<Rightarrow> \<exists>rec. decode_producer key row = Ok rec \<and> found = Some rec)"
  by (auto simp: producer_def result_simps)

lemma decode_producer_fields:
  assumes "decode_producer key row = Ok rec"
  shows "pc_producer_id rec = key"
    "pw_generation row = ProducerGeneration_as_str (pc_generation rec)"
    "pw_run row = RunId_as_str (pc_run_id rec)"
    "pc_active rec = pw_active row" "pc_reconciled rec = pw_reconciled row"
  using assms by (auto simp: decode_producer_def result_simps Generation.from_str_Ok RunId.from_str_Ok)

lemma decode_producer_update:
  assumes "decode_producer key row = Ok rec"
  shows "decode_producer key (row\<lparr> pw_next_seq := map_option (\<lambda>s. number (Seq_value s)) nxt, pw_active := a, pw_reconciled := b \<rparr>)
     = Ok (rec\<lparr> pc_next_sequence := nxt, pc_active := a, pc_reconciled := b \<rparr>)"
  using assms
  by (cases nxt) (auto simp: decode_producer_def result_simps transpose_option_def decode_number_number)

lemma sequence_in_turn_Ok [result_simps]: "sequence_in_turn expected seq = Ok u \<longleftrightarrow> expected = Some seq"
  by (auto simp: sequence_in_turn_def split: option.splits)

lemma apply_scope_Ok [result_simps]:
  "apply_scope db ev = Ok u \<longleftrightarrow> (\<exists>rec. producer db (ev_producer_id ev) = Ok (Some rec)
     \<and> pc_active rec \<and> pc_reconciled rec \<and> pc_generation rec = ev_generation ev
     \<and> pc_run_id rec = ev_run_id ev \<and> pc_next_sequence rec = Some (ev_seq ev))"
  by (auto simp: apply_scope_def and_then_Ok ok_or_Ok sequence_in_turn_Ok split: if_splits)

lemma apply_write_producer:
  assumes "apply_write codec db w = Ok (db', next, False)"
  obtains rec where "producer db (ev_producer_id (rw_fact w)) = Ok (Some rec)"
    "pc_active rec" "pc_reconciled rec" "pc_generation rec = ev_generation (rw_fact w)"
    "pc_run_id rec = ev_run_id (rw_fact w)" "pc_next_sequence rec = Some (ev_seq (rw_fact w))"
    "producer db' (ev_producer_id (rw_fact w)) = Ok (Some (rec\<lparr>
        pc_next_sequence := Seq_checked_next (ev_seq (rw_fact w)),
        pc_active := \<not> fx_reconciliation_required (rw_effects w),
        pc_reconciled := \<not> fx_reconciliation_required (rw_effects w) \<rparr>))"
  using assms
proof (rule apply_write_tables, goal_cases)
  case (1 identity)
  let ?key = "ev_producer_id (rw_fact w)"
  from 1(5) obtain rec where rec: "producer db ?key = Ok (Some rec)"
    "pc_active rec" "pc_reconciled rec" "pc_generation rec = ev_generation (rw_fact w)"
    "pc_run_id rec = ev_run_id (rw_fact w)" "pc_next_sequence rec = Some (ev_seq (rw_fact w))"
    by (auto simp: apply_scope_Ok)
  then obtain row where row: "find (\<lambda>row. pw_producer row = ProducerId_as_str ?key) (db_producers db) = Some row"
    and dec: "decode_producer ?key row = Ok rec"
    by (auto simp: producer_Ok split: option.splits)
  have "pw_producer row = ProducerId_as_str ?key" using row by (auto dest: find_SomeD)
  moreover have "pw_generation row = ProducerGeneration_as_str (ev_generation (rw_fact w))"
    using decode_producer_fields(2) [OF dec] rec(4) by simp
  ultimately show ?case
    using rec row decode_producer_update [OF dec, where nxt = "Seq_checked_next (ev_seq (rw_fact w))"]
    by (intro 1(1) [OF rec]) (auto simp: producer_Ok 1(9) find_simps next_sequence_cell_def)
qed

subsection \<open>Properties of the fact log\<close>

text \<open>The stores a store reaches by applied writes.\<close>

inductive applied :: "store_codec \<Rightarrow> database \<Rightarrow> database \<Rightarrow> bool" for codec where
  none: "applied codec db db"
| one: "applied codec db mid \<Longrightarrow> apply_write codec mid w = Ok (db', r, d) \<Longrightarrow> applied codec db db'"

lemma applied_log: "applied codec db db' \<Longrightarrow> \<exists>rows. db_facts db' = db_facts db @ rows"
proof (induction rule: applied.induct)
  case (one db mid w db' r d)
  then obtain rows where "db_facts mid = db_facts db @ rows" by auto
  with one show ?case
    by (cases d) (auto elim!: apply_write_dup apply_write_tables)
qed simp

lemma applied_find: "applied codec db db' \<Longrightarrow> find P (db_facts db) = Some row \<Longrightarrow> find P (db_facts db') = Some row"
  by (auto dest!: applied_log simp: find_simps)

text \<open>C11: Exactly once. When a write is applied, either it was in the log and the store is untouched,
  or one fact is added. From then on, through any number of further writes, applying it again
  changes nothing and answers the same revision; another write with the same event and sequence
  is a conflict; and no write that takes the event id or the sequence of a new fact is ever
  stored in its place.\<close>

theorem apply_exactly_once:
  assumes "apply_write codec db w = Ok (db', r, d)" and "applied codec db' later"
  shows "(d \<longrightarrow> db' = db) \<and> (\<not> d \<longrightarrow> length (db_facts db') = length (db_facts db) + 1)
    \<and> apply_write codec later w = Ok (later, r, True)
    \<and> (\<forall>other identity. rw_fact other = rw_fact w \<and> sk_reducer_write codec other = Some identity
         \<and> sk_reducer_write codec w \<noteq> Some identity
         \<longrightarrow> apply_write codec later other = Err StorageError.Conflict)
    \<and> (\<not> d \<longrightarrow> (\<forall>other after s. ev_producer_id (rw_fact other) = ev_producer_id (rw_fact w)
         \<and> ev_generation (rw_fact other) = ev_generation (rw_fact w)
         \<and> (ev_event_id (rw_fact other) = ev_event_id (rw_fact w) \<or> ev_seq (rw_fact other) = ev_seq (rw_fact w))
         \<longrightarrow> apply_write codec later other \<noteq> Ok (after, s, False)))"
proof (intro conjI impI allI)
  from assms(1) obtain identity row where stored: "sk_reducer_write codec w = Some identity"
    "find (same_fact (rw_fact w)) (db_facts db') = Some row" "fw_write_set row = identity"
    "decode_number (fw_revision row) = Ok (Revision_value r)" by (rule apply_write_stored)
  have found: "find (same_fact (rw_fact w)) (db_facts later) = Some row"
    by (rule applied_find [OF assms(2) stored(2)])
  show "db' = db" if d using assms(1) that by (auto elim: apply_write_dup)
  show "length (db_facts db') = length (db_facts db) + 1" if "\<not> d"
    using assms(1) that by (auto elim: apply_write_tables)
  show "apply_write codec later w = Ok (later, r, True)"
    using apply_write_answered [OF found stored(1)] stored(3,4) by simp
  show "apply_write codec later other = Err StorageError.Conflict"
    if "rw_fact other = rw_fact w \<and> sk_reducer_write codec other = Some identity'
      \<and> sk_reducer_write codec w \<noteq> Some identity'" for other identity'
    using apply_write_answered [of other later row codec identity'] found stored that by simp
  show "apply_write codec later other \<noteq> Ok (after, s, False)"
    if "\<not> d" and same: "ev_producer_id (rw_fact other) = ev_producer_id (rw_fact w)
         \<and> ev_generation (rw_fact other) = ev_generation (rw_fact w)
         \<and> (ev_event_id (rw_fact other) = ev_event_id (rw_fact w) \<or> ev_seq (rw_fact other) = ev_seq (rw_fact w))"
    for other after s
  proof
    assume "apply_write codec later other = Ok (after, s, False)"
    then have none: "find (same_fact (rw_fact other)) (db_facts later) = None" by (auto elim: apply_write_tables)
    from assms(1) \<open>\<not> d\<close> obtain identity where "db_facts db' = db_facts db @ [fact_of db (rw_fact w) (rw_accepted_at w) identity r]"
      by (auto elim: apply_write_tables)
    with applied_log [OF assms(2)] have "fact_of db (rw_fact w) (rw_accepted_at w) identity r \<in> set (db_facts later)"
      by auto
    with none have "\<not> same_fact (rw_fact other) (fact_of db (rw_fact w) (rw_accepted_at w) identity r)"
      by (auto simp: find_None_iff)
    with find_same_fact [of "rw_fact other" "rw_fact w"] same show False by auto
  qed
qed

lemma apply_exactly_once_witness:
  "apply_write sample_store (sample_applied True) (sample_write 1 True) = Ok (sample_applied True, Revision 8, True)
   \<and> apply_write sample_store (sample_applied True) (sample_write 1 False) = Err StorageError.Conflict"
proof -
  have "rw_fact (sample_write 1 False) = rw_fact (sample_write 1 True)
      \<and> sk_reducer_write sample_store (sample_write 1 False) = Some (EventId_as_str (sample_event_id 1) @ ''-'')
      \<and> sk_reducer_write sample_store (sample_write 1 True) \<noteq> Some (EventId_as_str (sample_event_id 1) @ ''-'')"
    by (simp add: sample_write_def sample_store_def sample_event_def)
  with apply_exactly_once [OF sample_apply [of True] applied.none] show ?thesis by blast
qed

text \<open>C12: In sequence. A new fact is stored only from the producer's active, reconciled generation, for
  its own run and with exactly the sequence the store expects; afterwards the store expects the
  successor (nothing after the last number), and the generation stays active exactly when the
  reducer did not ask for reconciliation.\<close>

theorem apply_in_sequence:
  assumes "apply_write codec db w = Ok (db', r, False)"
  shows "\<exists>before. producer db (ev_producer_id (rw_fact w)) = Ok (Some before)
    \<and> pc_active before \<and> pc_reconciled before \<and> pc_generation before = ev_generation (rw_fact w)
    \<and> pc_run_id before = ev_run_id (rw_fact w) \<and> pc_next_sequence before = Some (ev_seq (rw_fact w))
    \<and> producer db' (ev_producer_id (rw_fact w)) = Ok (Some (before\<lparr>
        pc_next_sequence := Seq_checked_next (ev_seq (rw_fact w)),
        pc_active := \<not> fx_reconciliation_required (rw_effects w),
        pc_reconciled := \<not> fx_reconciliation_required (rw_effects w) \<rparr>))"
  using apply_write_producer [OF assms] by metis

lemma apply_in_sequence_witness:
  "map_ok (map_option pc_next_sequence) (producer (sample_applied True) sample_producer) = Ok (Some (Some (Seq 2)))"
proof -
  have "ev_producer_id (rw_fact (sample_write 1 True)) = sample_producer"
    "Seq_checked_next (ev_seq (rw_fact (sample_write 1 True))) = Some (Seq 2)"
    by (simp_all add: sample_write_def sample_event_def Seq_checked_next_def checked_add_def)
  with apply_in_sequence [OF sample_apply [of True]] show ?thesis by auto
qed

end
