(* ===== verification/Store_Invariants.thy ===== *)
theory Store_Invariants
  imports Store_Log
begin

section \<open>Storage: what every request keeps\<close>

text \<open>
  The revision discipline of the engine, and the invariants of the tables. A predicate on each
  table that survives the row operations of the transactions survives every request: the locale
  \<open>table_invariant\<close> states those laws once, and is interpreted for the capacity limits and for
  the keys and unique indexes of the schema.
\<close>

subsection \<open>Frames of the remaining steps\<close>

lemma registration_inside_Ok:
  assumes "registration_inside db reg active reconciled entropy = Ok (db', generation, next)"
  obtains found where "require_revision db (rn_expected_revision reg) = Ok next"
    "producer db (rn_producer_id reg) = Ok found"
    "map_option pc_generation found = rn_previous_generation reg"
    "\<forall>prev. found = Some prev \<longrightarrow> pc_run_id prev = rn_run_id reg \<and> pc_harness prev = rn_harness reg"
    "\<forall>r\<in>set (db_producers db). pw_run r = RunId_as_str (rn_run_id reg) \<and> pw_active r
       \<longrightarrow> pw_producer r = ProducerId_as_str (rn_producer_id reg)"
    "found = None \<longrightarrow> length (db_producers db) < MAX_RUNS"
    "fresh entropy = Ok generation"
    "db' = upsert_producer db
             \<lparr> pw_producer = ProducerId_as_str (rn_producer_id reg),
               pw_generation = ProducerGeneration_as_str generation,
               pw_run = RunId_as_str (rn_run_id reg), pw_harness = harness_code (rn_harness reg),
               pw_next_seq = Some (number (Seq_value (rn_next_sequence reg))),
               pw_active = active, pw_reconciled = reconciled \<rparr>"
proof -
  from assms obtain found where found: "producer db (rn_producer_id reg) = Ok found"
    and rev: "require_revision db (rn_expected_revision reg) = Ok next"
    by (auto simp: registration_inside_def and_then_Ok split: if_splits)
  show thesis
  proof (cases found)
    case None
    with assms found rev show thesis
      by (intro that [of found]) (auto simp: registration_inside_def and_then_Ok map_err_Ok capacity_Ok split: if_splits)
  next
    case (Some prev)
    with assms found rev show thesis
      by (intro that [of found]) (auto simp: registration_inside_def and_then_Ok map_err_Ok split: if_splits)
  qed
qed

lemma require_revision_det: "require_revision db e = Ok a \<Longrightarrow> require_revision db f = Ok b \<Longrightarrow> a = b"
  by (simp add: require_revision_Ok)

lemma reconcile_store_Ok:
  assumes "reconcile_store db rx entropy = Ok (db', generation, nxt)"
  obtains discarded db1 db2 db3 where
    "discarded_next db (rx_discarded_events rx) = Ok discarded"
    "validate_previous_turn db rx = Ok ()"
    "registration_inside db (rx_registration rx) (rx_baseline rx \<noteq> Unavailable)
       (rx_baseline rx \<noteq> Unavailable) entropy = Ok (db1, generation, nxt)"
    "update_obligations db1 rx generation = Ok db2"
    "write_projection db2 (fst (baseline_projection rx generation)) (snd (baseline_projection rx generation)) = Ok db3"
    "db' = advance_revision (db3\<lparr> db_discarded := number discarded \<rparr>) nxt"
  using assms
  by (auto simp: reconcile_store_def and_then_Ok Let_def case_prod_beta)

text \<open>A fresh commit, step by step.\<close>

lemma commit_new:
  assumes "commit codec db w = Ok (db', nxt, False)"
  obtains identity db1 db2 db3 db4 db5 where
    "sk_write_set codec w = Some identity"
    "require_revision db (ws_expected_revision w) = Ok nxt"
    "commit_scope db (ws_fact w) = Ok ()"
    "capacity (length (db_facts db)) MAX_FACTS 1 = Ok ()"
    "insert_projection db w = Ok db1" "insert_attention db1 w = Ok db2" "insert_outbox db2 w = Ok db3"
    "insert_tombstone db3 w = Ok db4"
    "insert_fact_row (record_legacy db4 w nxt) (fact_of (record_legacy db4 w nxt) (ws_fact w) (ws_accepted_at w) identity nxt) = Ok db5"
    "db' = advance_revision (db5\<lparr> db_producers := map (\<lambda>r.
        if pw_producer r = ProducerId_as_str (ev_producer_id (ws_fact w))
        then r\<lparr> pw_next_seq := next_sequence_cell (ws_fact w), pw_reconciled := False \<rparr> else r) (db_producers db5) \<rparr>) nxt"
  using assms
  by (clarsimp simp: commit_def and_then_Ok ok_or_Ok Let_def split: option.splits)

lemma commit_dup: "commit codec db w = Ok (db', r, True) \<Longrightarrow> db' = db"
  by (clarsimp simp: commit_def and_then_Ok Let_def split: option.splits)

subsection \<open>Every request advances the revision once\<close>

lemma writes_advance:
  "register_producer db reg entropy = Ok (db', g, n) \<Longrightarrow> advances db db' \<and> revision db' = Ok n"
  "reconcile_store db rx entropy = Ok (db', g, n) \<Longrightarrow> advances db db' \<and> revision db' = Ok n"
  "retire_store db pt = Ok (db', n) \<Longrightarrow> advances db db' \<and> revision db' = Ok n"
  "review_outcome db ov = Ok (db', n) \<Longrightarrow> advances db db' \<and> revision db' = Ok n"
  "update_policy db e h = Ok (db', p) \<Longrightarrow> advances db db' \<and> revision db' = Ok (po_revision p)"
  "apply_cleanup db plan = Ok (db', n, res) \<Longrightarrow> advances db db' \<and> revision db' = Ok n"
  "maintain db e now h = Ok (db', n, res) \<Longrightarrow> advances db db' \<and> revision db' = Ok n"
  "set_delivery db du = Ok (db', n) \<Longrightarrow> advances db db' \<and> revision db' = Ok n"
  "mark_reviewed db ru = Ok (db', n) \<Longrightarrow> advances db db' \<and> revision db' = Ok n"
proof -
  assume "register_producer db reg entropy = Ok (db', g, n)"
  then obtain db1 where "registration_inside db reg True False entropy = Ok (db1, g, n)"
    and "db' = advance_revision db1 n" by (auto simp: register_producer_def and_then_Ok split: prod.splits)
  then show "advances db db' \<and> revision db' = Ok n" by (auto elim!: registration_inside_Ok intro: advancesI)
next
  assume "reconcile_store db rx entropy = Ok (db', g, n)"
  then obtain db1 where "registration_inside db (rx_registration rx) (rx_baseline rx \<noteq> Unavailable)
       (rx_baseline rx \<noteq> Unavailable) entropy = Ok (db1, g, n)"
    and "\<exists>db2. db' = advance_revision db2 n"
    by (auto elim!: reconcile_store_Ok)
  then show "advances db db' \<and> revision db' = Ok n" by (auto elim!: registration_inside_Ok intro: advancesI)
next
  assume "retire_store db pt = Ok (db', n)"
  then have "require_revision db (pt_expected_revision pt) = Ok n" "\<exists>db2. db' = advance_revision db2 n"
    by (auto simp: retire_store_def and_then_Ok Let_def split: if_splits prod.splits)
  then show "advances db db' \<and> revision db' = Ok n" by (auto intro: advancesI)
next
  assume "review_outcome db ov = Ok (db', n)"
  then have "require_revision db (ov_expected_revision ov) = Ok n" "\<exists>db2. db' = advance_revision db2 n"
    by (auto simp: review_outcome_def and_then_Ok Let_def split: if_splits)
  then show "advances db db' \<and> revision db' = Ok n" by (auto intro: advancesI)
next
  assume "update_policy db e h = Ok (db', p)"
  then have "require_revision db e = Ok (po_revision p)" "\<exists>db2. db' = advance_revision db2 (po_revision p)"
    by (auto simp: update_policy_def and_then_Ok)
  then show "advances db db' \<and> revision db' = Ok (po_revision p)" by (auto intro: advancesI)
next
  assume "apply_cleanup db plan = Ok (db', n, res)"
  then have "require_revision db (cp_revision plan) = Ok n" "\<exists>db2. db' = advance_revision db2 n"
    by (auto simp: apply_cleanup_def and_then_Ok split: if_splits)
  then show "advances db db' \<and> revision db' = Ok n" by (auto intro: advancesI)
next
  assume "maintain db e now h = Ok (db', n, res)"
  then have "require_revision db e = Ok n" "\<exists>db2. db' = advance_revision db2 n"
    by (auto simp: maintain_def and_then_Ok Let_def)
  then show "advances db db' \<and> revision db' = Ok n" by (auto intro: advancesI)
next
  assume "set_delivery db du = Ok (db', n)"
  then have "require_revision db (du_expected_revision du) = Ok n" "\<exists>db2. db' = advance_revision db2 n"
    by (cases "outbox_of db (du_outcome du)"; auto simp: set_delivery_def and_then_Ok split: if_splits)+
  then show "advances db db' \<and> revision db' = Ok n" by (auto intro: advancesI)
next
  assume "mark_reviewed db ru = Ok (db', n)"
  then have "require_revision db (ru_expected_revision ru) = Ok n" "\<exists>db2. db' = advance_revision db2 n"
    by (auto simp: mark_reviewed_def and_then_Ok split: if_splits)
  then show "advances db db' \<and> revision db' = Ok n" by (auto intro: advancesI)
qed

lemma apply_write_advances:
  "apply_write codec db w = Ok (db', r, d) \<Longrightarrow> if d then db' = db else advances db db' \<and> revision db' = Ok r"
  by (cases d) (auto elim!: apply_write_dup apply_write_tables simp: advances_def require_revision_Ok)

lemma commit_advances:
  "commit codec db w = Ok (db', r, d) \<Longrightarrow> if d then db' = db else advances db db' \<and> revision db' = Ok r"
  by (cases d) (auto dest: commit_dup elim!: commit_new intro: advancesI)

text \<open>The revision a response reports.\<close>

definition response_revision :: "Response \<Rightarrow> Revision option" where
  "response_revision response = (case response of
     Retired n \<Rightarrow> Some n | Response.Context c \<Rightarrow> Some (rc_revision c) | Response.Policy p \<Rightarrow> Some (po_revision p)
   | Response.Status s \<Rightarrow> Some (ss_revision s) | Response.CleanupPreview p \<Rightarrow> Some (cp_revision p)
   | Registered g n \<Rightarrow> Some n | Committed n d \<Rightarrow> if d then None else Some n
   | Response.Snapshot p \<Rightarrow> Some (sp_revision p) | Maintained n r \<Rightarrow> Some n | DeliveryUpdated n \<Rightarrow> Some n
   | _ \<Rightarrow> None)"

lemma reads_revision:
  "context_of codec db ev = Ok c \<Longrightarrow> revision db = Ok (rc_revision c)"
  "policy_of db = Ok p \<Longrightarrow> revision db = Ok (po_revision p)"
  "status_of db = Ok s \<Longrightarrow> revision db = Ok (ss_revision s)"
  "preview db now owner = Ok v \<Longrightarrow> revision db = Ok (cp_revision v)"
  "snapshot db q = Ok g \<Longrightarrow> revision db = Ok (sp_revision g)"
  by (auto simp: context_of_def policy_of_def status_of_def preview_def snapshot_def and_then_Ok Let_def
      split: prod.splits if_splits)

lemma answer_advances:
  assumes "answer_request codec entropy owner db request = Ok (db', response)"
  shows "(if read_only request \<or> (\<exists>r. response = Committed r True) then db' = db else advances db db')
    \<and> (\<forall>n. response_revision response = Some n \<longrightarrow> revision db' = Ok n)"
  using assms
  by (cases request; auto simp: answer_request_def read_only_def map_ok_Ok response_revision_def
      dest: writes_advance reads_revision apply_write_advances commit_advances split: if_splits)

subsection \<open>Row operations of the transactions\<close>

text \<open>Row updates that keep what identifies a row.\<close>

definition keeps_producer :: "(producer_row \<Rightarrow> producer_row) \<Rightarrow> producer_row list \<Rightarrow> bool" where
  "keeps_producer f rows \<longleftrightarrow> (\<forall>r\<in>set rows. pw_producer (f r) = pw_producer r \<and> pw_run (f r) = pw_run r
     \<and> (pw_active (f r) \<longrightarrow> pw_active r))"

definition keeps_attention :: "(attention_row \<Rightarrow> attention_row) \<Rightarrow> bool" where
  "keeps_attention f \<longleftrightarrow> (\<forall>r. attention_key (f r) = attention_key r)"

definition undelivered :: "outbox_row \<Rightarrow> bool" where
  "undelivered r \<longleftrightarrow> xw_state r = 0 \<or> xw_state r = 1"

lemma pending_undelivered: "pending_deliveries db = length (filter undelivered (db_outbox db))"
  by (simp add: pending_deliveries_def undelivered_def [abs_def])

definition keeps_outbox :: "(outbox_row \<Rightarrow> outbox_row) \<Rightarrow> outbox_row list \<Rightarrow> bool" where
  "keeps_outbox f rows \<longleftrightarrow> (\<forall>r\<in>set rows. outbox_key (f r) = outbox_key r
     \<and> xw_rowid (f r) = xw_rowid r \<and> (undelivered (f r) \<longrightarrow> undelivered r))"

lemma next_rowid_fresh: "next_rowid ids \<notin> set ids"
proof -
  have "fold max ids m \<ge> m \<and> (\<forall>x\<in>set ids. x \<le> fold max ids m)" for m :: int
  proof (induction ids arbitrary: m)
    case (Cons a ids)
    from Cons [of "max a m"] show ?case by auto
  qed simp
  from this [of 0] show ?thesis by (auto simp: next_rowid_def)
qed

lemma next_rowid_image: "next_rowid (map k rows) \<notin> k ` set rows"
  using next_rowid_fresh [of "map k rows"] by simp

lemma next_rowid_row [simp]:
  "row \<in> set rows \<Longrightarrow> next_rowid (map k rows) \<noteq> k row" "row \<in> set rows \<Longrightarrow> k row \<noteq> next_rowid (map k rows)"
  using next_rowid_image [of k rows] by force+

definition fact_collides :: "fact_row \<Rightarrow> fact_row \<Rightarrow> bool" where
  "fact_collides r row \<longleftrightarrow> fw_producer r = fw_producer row \<and> fw_generation r = fw_generation row
     \<and> (fw_event r = fw_event row \<or> fw_seq r = fw_seq row)"

locale table_invariant =
  fixes producers :: "producer_row list \<Rightarrow> bool"
    and facts :: "fact_row list \<Rightarrow> bool"
    and projections :: "projection_row list \<Rightarrow> bool"
    and attention :: "attention_row list \<Rightarrow> bool"
    and outbox :: "outbox_row list \<Rightarrow> bool"
    and tombstones :: "tombstone_row list \<Rightarrow> bool"
  assumes producers_update: "producers ps \<Longrightarrow> keeps_producer pf ps \<Longrightarrow> producers (map pf ps)"
    and producers_insert: "producers ps \<Longrightarrow> length ps < MAX_RUNS
      \<Longrightarrow> pw_producer p \<notin> set (map pw_producer ps)
      \<Longrightarrow> \<forall>pr\<in>set ps. pw_run pr = pw_run p \<longrightarrow> \<not> pw_active pr \<Longrightarrow> producers (ps @ [p])"
    and producers_renew: "producers ps \<Longrightarrow> \<forall>pr\<in>set ps. pw_producer (pf pr) = pw_producer pr \<and> pw_run (pf pr) = pw_run pr
      \<Longrightarrow> \<forall>pr\<in>set ps. pw_producer pr = key \<longrightarrow> pw_run pr = run
      \<Longrightarrow> \<forall>pr\<in>set ps. pw_producer pr \<noteq> key \<longrightarrow> pf pr = pr
      \<Longrightarrow> \<forall>pr\<in>set ps. pw_run pr = run \<and> pw_active pr \<longrightarrow> pw_producer pr = key \<Longrightarrow> producers (map pf ps)"
    and facts_insert: "facts qs \<Longrightarrow> length qs < MAX_FACTS \<Longrightarrow> fw_rowid q \<notin> fw_rowid ` set qs \<Longrightarrow> \<forall>qr\<in>set qs. \<not> fact_collides qr q
      \<Longrightarrow> facts (qs @ [q])"
    and facts_delete: "facts qs \<Longrightarrow> facts (filter qp qs)"
    and projections_insert: "projections js \<Longrightarrow> length js < MAX_RUNS
      \<Longrightarrow> jw_run j \<notin> set (map jw_run js) \<Longrightarrow> projections (js @ [j])"
    and projections_update: "projections js \<Longrightarrow> \<forall>jr. jw_run (jf jr) = jw_run jr \<Longrightarrow> projections (map jf js)"
    and attention_insert: "attention as \<Longrightarrow> length as < MAX_ATTENTION
      \<Longrightarrow> attention_key a \<notin> set (map attention_key as) \<Longrightarrow> active_scope_unique (as @ [a])
      \<Longrightarrow> attention (as @ [a])"
    and attention_update: "attention as \<Longrightarrow> keeps_attention af
      \<Longrightarrow> (active_scope_unique as \<Longrightarrow> active_scope_unique (map af as)) \<Longrightarrow> attention (map af as)"
    and outbox_insert: "outbox xs \<Longrightarrow> length xs < MAX_OUTBOX_AUDIT
      \<Longrightarrow> length (filter undelivered xs) < MAX_OUTBOX_PENDING
      \<Longrightarrow> xw_rowid x \<notin> xw_rowid ` set xs
      \<Longrightarrow> outbox_key x \<notin> set (map outbox_key xs) \<Longrightarrow> outbox (xs @ [x])"
    and outbox_update: "outbox xs \<Longrightarrow> keeps_outbox xf xs \<Longrightarrow> outbox (map xf xs)"
    and tombstones_insert: "tombstones ts \<Longrightarrow> length ts < MAX_TOMBSTONES
      \<Longrightarrow> tw_rowid t \<notin> tw_rowid ` set ts
      \<Longrightarrow> tombstone_key t \<notin> set (map tombstone_key ts) \<Longrightarrow> tombstones (ts @ [t])"
    and tombstones_update: "tombstones ts \<Longrightarrow> \<forall>tr. tombstone_key (tf tr) = tombstone_key tr \<and> tw_rowid (tf tr) = tw_rowid tr
      \<Longrightarrow> tombstones (map tf ts)"
    and tombstones_delete: "tombstones ts \<Longrightarrow> tombstones (filter tp ts)"
begin

text \<open>The invariant of a store whose producers and deliveries have distinct keys.\<close>

definition holds :: "database \<Rightarrow> bool" where
  "holds db \<longleftrightarrow> distinct (map pw_producer (db_producers db)) \<and> producers (db_producers db) \<and> facts (db_facts db)
     \<and> projections (db_projections db) \<and> attention (db_attention db)
     \<and> distinct (map outbox_key (db_outbox db)) \<and> outbox (db_outbox db) \<and> tombstones (db_tombstones db)"

lemma holds_tables:
  "holds db \<Longrightarrow> db_producers db' = db_producers db \<Longrightarrow> db_facts db' = db_facts db
     \<Longrightarrow> db_projections db' = db_projections db \<Longrightarrow> db_attention db' = db_attention db
     \<Longrightarrow> db_outbox db' = db_outbox db \<Longrightarrow> db_tombstones db' = db_tombstones db \<Longrightarrow> holds db'"
  by (simp add: holds_def)

lemma holds_advance [simp]: "holds (advance_revision db n) = holds db"
  by (simp add: holds_def)

lemma holds_meta [simp]:
  "holds (db\<lparr> db_discarded := d \<rparr>) = holds db" "holds (db\<lparr> db_history_days := h \<rparr>) = holds db"
  "holds (db\<lparr> db_maintenance := m \<rparr>) = holds db"
  by (simp_all add: holds_def)

lemma holds_producers:
  assumes "holds db" and "keeps_producer f (db_producers db)"
  shows "holds (db\<lparr> db_producers := map f (db_producers db) \<rparr>)"
proof -
  have "map (pw_producer \<circ> f) (db_producers db) = map pw_producer (db_producers db)"
    using assms(2) by (auto simp: keeps_producer_def)
  then have "distinct (map (pw_producer \<circ> f) (db_producers db))" using assms(1) by (simp only: holds_def)
  with assms show ?thesis by (simp add: holds_def producers_update)
qed

lemma holds_attention_update:
  "holds db \<Longrightarrow> keeps_attention f \<Longrightarrow> (active_scope_unique (db_attention db) \<Longrightarrow> active_scope_unique (map f (db_attention db)))
     \<Longrightarrow> holds (db\<lparr> db_attention := map f (db_attention db) \<rparr>)"
  by (simp add: holds_def attention_update)

lemma insert_attention_row_holds:
  "insert_attention_row db row = Ok db' \<Longrightarrow> holds db \<Longrightarrow> length (db_attention db) < MAX_ATTENTION \<Longrightarrow> holds db'"
  by (auto simp: insert_attention_row_def holds_def attention_insert split: if_splits)

lemma insert_outbox_row_holds:
  "insert_outbox_row db row = Ok db' \<Longrightarrow> holds db \<Longrightarrow> length (db_outbox db) < MAX_OUTBOX_AUDIT
     \<Longrightarrow> pending_deliveries db < MAX_OUTBOX_PENDING
     \<Longrightarrow> xw_rowid row \<notin> xw_rowid ` set (db_outbox db) \<Longrightarrow> holds db'"
  by (auto simp: insert_outbox_row_def holds_def pending_undelivered
      intro!: outbox_insert split: if_splits)

lemma insert_tombstone_row_holds:
  "insert_tombstone_row db row = Ok db' \<Longrightarrow> holds db \<Longrightarrow> length (db_tombstones db) < MAX_TOMBSTONES
     \<Longrightarrow> tw_rowid row \<notin> tw_rowid ` set (db_tombstones db) \<Longrightarrow> holds db'"
  by (auto simp: insert_tombstone_row_def holds_def tombstones_insert split: if_splits)

lemma insert_fact_row_holds:
  "insert_fact_row db row = Ok db' \<Longrightarrow> holds db \<Longrightarrow> length (db_facts db) < MAX_FACTS
     \<Longrightarrow> fw_rowid row \<notin> fw_rowid ` set (db_facts db) \<Longrightarrow> holds db'"
  by (auto simp: insert_fact_row_def holds_def fact_collides_def intro!: facts_insert split: if_splits)

lemma write_projection_holds:
  assumes "write_projection db p c = Ok db'" and "holds db"
  shows "holds db'"
  using assms
  by (auto simp: write_projection_def Let_def result_simps holds_def list_ex_iff intro!: projections_insert projections_update
      split: if_splits) blast

lemma insert_projection_holds:
  assumes "insert_projection db w = Ok db'" and "holds db"
  shows "holds db'"
  using assms
  by (auto simp: insert_projection_def Let_def result_simps holds_def list_ex_iff intro!: projections_insert projections_update
      split: if_splits) blast

lemma degrade_holds: "holds db \<Longrightarrow> holds (degrade db scope legacy)"
  by (auto simp: degrade_def holds_def intro!: projections_update)

lemma retire_one_holds: "holds db \<Longrightarrow> holds (retire_one db p g)"
  using holds_producers [OF degrade_holds [of db "Some (p, g)" False],
      of "\<lambda>r. if pw_producer r = p \<and> pw_generation r = g \<and> pw_active r
           then r\<lparr> pw_active := False, pw_reconciled := False \<rparr> else r"]
  by (simp add: retire_one_def Let_def keeps_producer_def)

lemma retire_all_holds: "holds db \<Longrightarrow> holds (retire_all db)"
  using holds_producers [OF degrade_holds [of db None False],
      of "\<lambda>r. if pw_active r then r\<lparr> pw_active := False, pw_reconciled := False \<rparr> else r"]
  by (simp add: retire_all_def Let_def keeps_producer_def)

end

subsection \<open>Transactions keep a table invariant\<close>

lemma keeps_attention_simps [simp]:
  "keeps_attention (\<lambda>r. if P r then r\<lparr> aw_reviewed := True \<rparr> else r)"
  "keeps_attention (\<lambda>r. if P r then r\<lparr> aw_resolved := True \<rparr> else r)"
  "keeps_attention (\<lambda>r. if P r then r\<lparr> aw_resolution_generation := g \<rparr> else r)"
  "keeps_attention (\<lambda>r. if P r then r\<lparr> aw_outcome_revision := v \<rparr> else r)"
  by (simp_all add: keeps_attention_def attention_key_def)

lemma distinct_map_filter_mono:
  assumes "distinct (map k (filter P rows))" and "\<And>r. P (f r) \<Longrightarrow> P r \<and> k (f r) = k r"
  shows "distinct (map k (filter P (map f rows)))"
  using assms(1)
proof (induction rows)
  case (Cons a rows)
  have "k (f r) \<noteq> k (f a)" if "P (f a)" "r \<in> set rows" "P (f r)" for r
    using that assms(2) [of a] assms(2) [of r] Cons.prems by (force simp: image_iff)
  then have "P (f a) \<longrightarrow> k (f a) \<notin> (k \<circ> f) ` {r \<in> set rows. P (f r)}" by (force simp: image_iff)
  with Cons show ?case by (auto simp: filter_map comp_def image_iff split: if_splits)
qed simp

lemma active_scope_update:
  "active_scope_unique rows \<Longrightarrow> (\<And>r. active_transient (f r) \<Longrightarrow> active_transient r \<and> active_scope_key (f r) = active_scope_key r)
     \<Longrightarrow> active_scope_unique (map f rows)"
  unfolding active_scope_unique_def by (rule distinct_map_filter_mono)

lemma active_scope_unchanged:
  "active_scope_unique rows \<Longrightarrow> active_scope_unique (map (\<lambda>r. if P r then r\<lparr> aw_reviewed := True \<rparr> else r) rows)"
  "active_scope_unique rows \<Longrightarrow> active_scope_unique (map (\<lambda>r. if P r then r\<lparr> aw_resolved := True \<rparr> else r) rows)"
  "active_scope_unique rows \<Longrightarrow> active_scope_unique (map (\<lambda>r. if P r then r\<lparr> aw_outcome_revision := v \<rparr> else r) rows)"
  by (erule active_scope_update, simp add: active_transient_def active_scope_key_def split: if_splits)+

context table_invariant
begin

lemma resolve_transient_holds: "holds db \<Longrightarrow> holds (resolve_transient db key)"
  unfolding resolve_transient_def
  by (rule holds_attention_update) (simp_all add: active_scope_unchanged)

lemma ensure_attention_holds:
  "ensure_attention db w kind n = Ok (db', new) \<Longrightarrow> holds db \<Longrightarrow> holds db'"
  by (auto simp: ensure_attention_def Let_def and_then_Ok capacity_Ok split: if_splits
      elim!: insert_attention_row_holds)

lemma ensure_all_holds:
  "ensure_all db w kinds n b = Ok (db', new) \<Longrightarrow> holds db \<Longrightarrow> holds db'"
proof (induction kinds arbitrary: db b)
  case (Cons kind kinds)
  then show ?case by (auto simp: and_then_Ok split: prod.splits dest: ensure_attention_holds)
qed simp

lemma apply_attention_holds:
  assumes "apply_attention db w n = Ok db'" and "holds db"
  shows "holds db'"
proof -
  define start where "start = (case fx_resolve_transient (rw_effects w) of None \<Rightarrow> db | Some key \<Rightarrow> resolve_transient db key)"
  have "holds start" using assms(2) by (simp add: start_def resolve_transient_holds split: option.splits)
  moreover obtain mid b where mid: "ensure_all start w (fx_attention (rw_effects w)) n False = Ok (mid, b)"
    using assms(1) by (cases "ensure_all start w (fx_attention (rw_effects w)) n False")
      (auto simp: apply_attention_def Let_def start_def [symmetric])
  have rest: "db' = mid \<or> (\<exists>row. insert_outbox_row mid row = Ok db' \<and> length (db_outbox mid) < MAX_OUTBOX_AUDIT
      \<and> pending_deliveries mid < MAX_OUTBOX_PENDING \<and> xw_rowid row = next_rowid (map xw_rowid (db_outbox mid)))"
    using assms(1) mid
    by (auto simp: apply_attention_def Let_def and_then_Ok capacity_Ok start_def [symmetric] split: if_splits)
  ultimately have "holds mid" using ensure_all_holds [OF mid] by blast
  with rest show ?thesis by (auto simp: next_rowid_image elim!: insert_outbox_row_holds)
qed

lemma write_tombstone_holds: "write_tombstone db w n = Ok db' \<Longrightarrow> holds db \<Longrightarrow> holds db'"
  by (auto simp: write_tombstone_def and_then_Ok capacity_Ok next_rowid_image split: option.splits if_splits
      elim!: insert_tombstone_row_holds)

lemma insert_attention_items_holds:
  "insert_attention_items db ev items = Ok db' \<Longrightarrow> holds db
     \<Longrightarrow> length (db_attention db) + length items \<le> MAX_ATTENTION \<Longrightarrow> holds db'"
proof (induction items arbitrary: db)
  case (Cons item items)
  from Cons.prems(1) obtain row mid where row: "insert_attention_row db row = Ok mid"
    and rest: "insert_attention_items mid ev items = Ok db'" by (auto simp: and_then_Ok)
  moreover have "holds mid" using insert_attention_row_holds [OF row Cons.prems(2)] Cons.prems(3) by simp
  moreover have "length (db_attention mid) = length (db_attention db) + 1"
    using insert_attention_row_frame [OF row] by simp
  ultimately show ?case using Cons.IH [OF rest] Cons.prems(3) by simp
qed simp

lemma keeps_producer_apply:
  assumes "distinct (map pw_producer (db_producers db))" and "apply_scope db ev = Ok u"
  shows "keeps_producer (\<lambda>r. if pw_producer r = ProducerId_as_str (ev_producer_id ev)
             \<and> pw_generation r = ProducerGeneration_as_str (ev_generation ev)
           then r\<lparr> pw_next_seq := s, pw_active := a, pw_reconciled := b \<rparr> else r) (db_producers db)"
proof -
  from assms(2) obtain rec row where row: "find (\<lambda>row. pw_producer row = ProducerId_as_str (ev_producer_id ev)) (db_producers db) = Some row"
    and dec: "decode_producer (ev_producer_id ev) row = Ok rec" and "pc_active rec"
    by (auto simp: apply_scope_Ok producer_Ok split: option.splits)
  then have "pw_active row" by (simp add: decode_producer_fields(4) [OF dec, symmetric])
  moreover have "r = row" if "r \<in> set (db_producers db)" "pw_producer r = ProducerId_as_str (ev_producer_id ev)" for r
    using find_SomeD [OF row] that assms(1) by (auto simp: distinct_map inj_on_def)
  ultimately show ?thesis by (auto simp: keeps_producer_def)
qed

lemma registration_holds:
  assumes "registration_inside db reg a b entropy = Ok (db', g, n)" and "holds db"
  shows "holds db'"
  using assms(1)
proof (rule registration_inside_Ok, goal_cases)
  case (1 found)
  let ?key = "ProducerId_as_str (rn_producer_id reg)" and ?run = "RunId_as_str (rn_run_id reg)"
  show ?thesis
  proof (cases "\<exists>r\<in>set (db_producers db). pw_producer r = ?key")
    case False
    then have none: "found = None" using 1(2) by (auto simp: producer_Ok find_None_iff split: option.splits dest: find_SomeD)
    have "producers (db_producers db @ [r])" "distinct (map pw_producer (db_producers db @ [r]))"
      if "pw_producer r = ?key" "pw_run r = ?run" for r
      using assms(2) False 1(5,6) none that by (auto simp: holds_def intro!: producers_insert) blast
    with False assms(2) show ?thesis by (auto simp: 1(8) upsert_producer_def holds_def image_iff)
  next
    case True
    then obtain row where row: "find (\<lambda>r. pw_producer r = ?key) (db_producers db) = Some row"
      by (metis (mono_tags, lifting) find_None_iff not_Some_eq)
    with 1(2) obtain prev where prev: "found = Some prev" "decode_producer (rn_producer_id reg) row = Ok prev"
      by (auto simp: producer_Ok)
    then have run: "pw_run row = ?run" using 1(4) decode_producer_fields(3) by auto
    have all: "\<forall>r\<in>set (db_producers db). pw_producer r = ?key \<longrightarrow> pw_run r = ?run"
      using find_SomeD [OF row] run assms(2) by (auto simp: holds_def distinct_map inj_on_def)
    let ?f = "\<lambda>r. if pw_producer r = ?key then r\<lparr> pw_generation := ProducerGeneration_as_str g,
        pw_next_seq := Some (number (Seq_value (rn_next_sequence reg))), pw_active := a, pw_reconciled := b \<rparr> else r"
    have "producers (map ?f (db_producers db))"
      by (rule producers_renew [where key = ?key and run = ?run]) (use assms(2) all 1(5) in \<open>auto simp: holds_def\<close>)
    moreover have "map pw_producer (map ?f (db_producers db)) = map pw_producer (db_producers db)" by simp
    then have "distinct (map pw_producer (map ?f (db_producers db)))" using assms(2) by (simp only: holds_def)
    moreover have "db' = db\<lparr> db_producers := map ?f (db_producers db) \<rparr>"
      using True by (auto simp: 1(8) upsert_producer_def)
    ultimately show ?thesis using assms(2) by (simp add: holds_def del: map_map)
  qed
qed

lemma apply_write_holds:
  assumes "apply_write codec db w = Ok (db', r, d)" and "holds db"
  shows "holds db'"
proof (cases d)
  case True
  with assms show ?thesis by (auto elim!: apply_write_dup)
next
  case False
  with assms(1) have "apply_write codec db w = Ok (db', r, False)" by simp
  then show ?thesis
  proof (rule apply_write_new, goal_cases)
    case (1 identity discarded db1 db2 db3)
    from write_projection_frame [OF 1(7)] apply_attention_frame [OF 1(8)] write_tombstone_frame [OF 1(9)]
    have same: "db_producers db3 = db_producers db" "db_facts db3 = db_facts db" by auto
    have "holds db1" by (rule write_projection_holds [OF 1(7) assms(2)])
    then have "holds db2" by (rule apply_attention_holds [OF 1(8)])
    then have "holds db3" by (rule write_tombstone_holds [OF 1(9)])
    then have facts: "holds (db3\<lparr> db_facts := db_facts db3 @ [fact_of db3 (rw_fact w) (rw_accepted_at w) identity r] \<rparr>)"
      by (rule insert_fact_row_holds [OF 1(10)]) (use 1(6) same in \<open>simp_all add: capacity_Ok fact_of_def next_rowid_image del: image_iff\<close>)
    have "keeps_producer (\<lambda>p. if pw_producer p = ProducerId_as_str (ev_producer_id (rw_fact w))
             \<and> pw_generation p = ProducerGeneration_as_str (ev_generation (rw_fact w))
           then p\<lparr> pw_next_seq := next_sequence_cell (rw_fact w),
                   pw_active := \<not> fx_reconciliation_required (rw_effects w),
                   pw_reconciled := \<not> fx_reconciliation_required (rw_effects w) \<rparr> else p) (db_producers db)"
      by (rule keeps_producer_apply) (use assms(2) 1(4) in \<open>simp_all add: holds_def\<close>)
    with holds_producers [OF facts] same show ?thesis by (simp add: 1(11))
  qed
qed

end

lemma fold_filter_rows:
  "db_facts (remove_facts db ids) = filter (\<lambda>r. fw_rowid r \<notin> set ids) (db_facts db)"
  by (induction ids arbitrary: db) (auto intro: filter_cong)

lemma remove_facts_frame: "\<exists>rows. remove_facts db ids = db\<lparr> db_facts := rows \<rparr>"
proof (induction ids arbitrary: db)
  case Nil
  show ?case by (intro exI [of _ "db_facts db"]) simp
next
  case (Cons a ids)
  then obtain rows where "remove_facts (db\<lparr> db_facts := filter (\<lambda>r. fw_rowid r \<noteq> a) (db_facts db) \<rparr>) ids
      = db\<lparr> db_facts := filter (\<lambda>r. fw_rowid r \<noteq> a) (db_facts db) \<rparr>\<lparr> db_facts := rows \<rparr>" by blast
  then show ?case by auto
qed

lemma keeps_outbox_simps [simp]:
  "keeps_outbox (\<lambda>r. if P r then r\<lparr> xw_state := 3, xw_changed := now \<rparr> else r) rows"
  "keeps_outbox (\<lambda>r. if P r then r\<lparr> xw_outcome_revision := v \<rparr> else r) rows"
  by (simp_all add: keeps_outbox_def outbox_key_def undelivered_def)

lemma keeps_outbox_keys: "keeps_outbox f rows \<Longrightarrow> map outbox_key (map f rows) = map outbox_key rows"
  by (simp add: keeps_outbox_def)

lemma insert_attention_items_frame [frames]:
  "insert_attention_items db ev items = Ok db' \<Longrightarrow> \<exists>rows. db' = db\<lparr> db_attention := rows \<rparr>"
proof (induction items arbitrary: db)
  case Nil
  then show ?case by (intro exI [of _ "db_attention db"]) simp
next
  case (Cons item items)
  from Cons.prems obtain row mid where row: "insert_attention_row db row = Ok mid"
    and rest: "insert_attention_items mid ev items = Ok db'" by (auto simp: and_then_Ok)
  from insert_attention_row_frame [OF row] Cons.IH [OF rest] show ?case by auto
qed

lemma commit_step_frames:
  "insert_projection db w = Ok db' \<Longrightarrow> \<exists>rows. db' = db\<lparr> db_projections := rows \<rparr>"
  "insert_attention db w = Ok db' \<Longrightarrow> \<exists>rows. db' = db\<lparr> db_attention := rows \<rparr>"
  "insert_outbox db w = Ok db' \<Longrightarrow> \<exists>rows. db' = db\<lparr> db_outbox := db_outbox db @ rows \<rparr>"
  "insert_tombstone db w = Ok db' \<Longrightarrow> \<exists>rows. db' = db\<lparr> db_tombstones := rows \<rparr>"
proof -
  assume "insert_projection db w = Ok db'"
  then show "\<exists>rows. db' = db\<lparr> db_projections := rows \<rparr>" by (auto simp: insert_projection_def Let_def and_then_Ok)
next
  assume "insert_attention db w = Ok db'"
  then show "\<exists>rows. db' = db\<lparr> db_attention := rows \<rparr>"
    by (auto simp: insert_attention_def and_then_Ok dest!: insert_attention_items_frame)
next
  assume out: "insert_outbox db w = Ok db'"
  show "\<exists>rows. db' = db\<lparr> db_outbox := db_outbox db @ rows \<rparr>"
  proof (cases "ws_outbox w")
    case None
    with out show ?thesis by (intro exI [of _ "[]"]) (simp add: insert_outbox_def)
  next
    case (Some a)
    with out show ?thesis by (auto simp: insert_outbox_def and_then_Ok dest!: insert_outbox_row_frame)
  qed
next
  assume tomb: "insert_tombstone db w = Ok db'"
  show "\<exists>rows. db' = db\<lparr> db_tombstones := rows \<rparr>"
  proof (cases "ws_tombstone w")
    case None
    with tomb show ?thesis by (intro exI [of _ "db_tombstones db"]) (simp add: insert_tombstone_def)
  next
    case (Some a)
    with tomb show ?thesis by (auto simp: insert_tombstone_def and_then_Ok dest!: insert_tombstone_row_frame)
  qed
qed

lemma set_delivery_keeps:
  assumes "distinct (map outbox_key rows)" and "row \<in> set rows" and "xw_state row < 2" and "outbox_key row = key"
  shows "keeps_outbox (\<lambda>r. if (xw_producer r, xw_generation r, xw_event r) = key
      then r\<lparr> xw_state := s, xw_changed := c \<rparr> else r) rows"
proof -
  have "r = row" if "r \<in> set rows" "outbox_key r = key" for r
    using that assms(1,2,4) by (auto simp: distinct_map inj_on_def)
  with assms(3) show ?thesis by (auto simp: keeps_outbox_def outbox_key_def undelivered_def)
qed

context table_invariant
begin

lemma holds_outbox:
  assumes "holds db" and "keeps_outbox f (db_outbox db)"
  shows "holds (db\<lparr> db_outbox := map f (db_outbox db) \<rparr>)"
  using assms keeps_outbox_keys [OF assms(2)] by (simp add: holds_def outbox_update del: map_map)

lemma remove_facts_holds: "holds db \<Longrightarrow> holds (remove_facts db ids)"
  by (induction ids arbitrary: db) (auto simp: holds_def facts_delete)

lemma remove_tombstones_holds: "remove_tombstones db ids = Ok db' \<Longrightarrow> holds db \<Longrightarrow> holds db'"
proof (induction ids arbitrary: db)
  case (Cons a ids)
  from Cons.prems(1) obtain p g where rest: "remove_tombstones (retire_one db p g \<lparr>
      db_tombstones := filter (\<lambda>t. tw_rowid t \<noteq> a) (db_tombstones (retire_one db p g)) \<rparr>) ids = Ok db'"
    by (auto simp: and_then_Ok Let_def split: option.splits)
  have "holds (retire_one db p g)" by (rule retire_one_holds [OF Cons.prems(2)])
  then have "holds (retire_one db p g \<lparr>
      db_tombstones := filter (\<lambda>t. tw_rowid t \<noteq> a) (db_tombstones (retire_one db p g)) \<rparr>)"
    by (simp add: holds_def tombstones_delete)
  with rest show ?case by (rule Cons.IH)
qed simp

lemma expire_deliveries_holds: "holds db \<Longrightarrow> holds (expire_deliveries db now ids)"
  by (induction ids arbitrary: db) (simp_all add: holds_outbox)

lemma execute_plan_holds: "execute_plan db plan = Ok db' \<Longrightarrow> holds db \<Longrightarrow> holds db'"
  by (auto simp: execute_plan_def and_then_Ok Let_def
      intro!: expire_deliveries_holds elim!: remove_tombstones_holds intro: remove_facts_holds)

lemma record_legacy_holds: "holds db \<Longrightarrow> holds (record_legacy db w n)"
proof -
  assume ok: "holds db"
  let ?f = "\<lambda>P r. if P r then r\<lparr> xw_outcome_revision := Some (number (Revision_value n)) \<rparr> else r"
  have "distinct (map outbox_key (map (?f P) (db_outbox db)))" for P
    using keeps_outbox_keys [OF keeps_outbox_simps(2) [of P _ "db_outbox db"]] ok by (simp only: holds_def)
  with ok show ?thesis
    by (auto simp: record_legacy_def Let_def holds_def active_scope_unchanged tombstone_key_def simp del: map_map
        intro!: attention_update outbox_update tombstones_update)
qed

lemma insert_outbox_holds: "insert_outbox db w = Ok db' \<Longrightarrow> holds db \<Longrightarrow> holds db'"
  by (auto simp: insert_outbox_def and_then_Ok capacity_Ok next_rowid_image split: option.splits elim!: insert_outbox_row_holds)

lemma insert_tombstone_holds: "insert_tombstone db w = Ok db' \<Longrightarrow> holds db \<Longrightarrow> holds db'"
  by (auto simp: insert_tombstone_def and_then_Ok capacity_Ok next_rowid_image split: option.splits elim!: insert_tombstone_row_holds)

lemma insert_attention_holds: "insert_attention db w = Ok db' \<Longrightarrow> holds db \<Longrightarrow> holds db'"
  by (auto simp: insert_attention_def and_then_Ok capacity_Ok elim!: insert_attention_items_holds)

lemma commit_holds:
  assumes "commit codec db w = Ok (db', r, d)" and "holds db"
  shows "holds db'"
proof (cases d)
  case True
  with assms show ?thesis by (auto dest: commit_dup)
next
  case False
  with assms(1) have "commit codec db w = Ok (db', r, False)" by simp
  then show ?thesis
  proof (rule commit_new, goal_cases)
    case (1 identity db1 db2 db3 db4 db5)
    have "holds db4"
      using assms(2) 1(5-8) insert_projection_holds insert_attention_holds insert_outbox_holds insert_tombstone_holds
      by metis
    then have ok: "holds (record_legacy db4 w r)" by (rule record_legacy_holds)
    have facts: "db_facts (record_legacy db4 w r) = db_facts db"
      using 1(5-8) by (auto simp: record_legacy_def Let_def dest!: commit_step_frames)
    have "holds db5" by (rule insert_fact_row_holds [OF 1(9) ok]) (use 1(4) facts in \<open>simp_all add: capacity_Ok fact_of_def next_rowid_image\<close>)
    then show ?thesis by (simp add: 1(10) holds_producers keeps_producer_def)
  qed
qed

lemma update_obligations_holds:
  assumes "update_obligations db rx g = Ok db'" and "holds db"
  shows "holds db'"
proof -
  define start where "start = (case rx_resolved_turn rx of None \<Rightarrow> db | Some key \<Rightarrow> resolve_transient db key)"
  have "holds start" using assms(2) by (simp add: start_def resolve_transient_holds split: option.splits)
  with assms(1) show ?thesis
    by (auto simp: update_obligations_def Let_def start_def [symmetric] continue_transient_def
        intro!: holds_attention_update split: option.splits if_splits)
qed

lemma reconcile_store_holds:
  assumes "reconcile_store db rx entropy = Ok (db', g, n)" and "holds db"
  shows "holds db'"
  using assms(1)
proof (rule reconcile_store_Ok, goal_cases)
  case (1 discarded db1 db2 db3)
  have "holds db1" by (rule registration_holds [OF 1(3) assms(2)])
  then have "holds db2" by (rule update_obligations_holds [OF 1(4)])
  then have "holds db3" by (rule write_projection_holds [OF 1(5)])
  then show ?thesis by (simp add: 1(6))
qed

lemma small_holds:
  "register_producer db reg entropy = Ok (db', g, n) \<Longrightarrow> holds db \<Longrightarrow> holds db'"
  "retire_store db pt = Ok (db', n) \<Longrightarrow> holds db \<Longrightarrow> holds db'"
  "review_outcome db ov = Ok (db', n) \<Longrightarrow> holds db \<Longrightarrow> holds db'"
  "update_policy db e h = Ok (db', p) \<Longrightarrow> holds db \<Longrightarrow> holds db'"
  "apply_cleanup db plan = Ok (db', n, res) \<Longrightarrow> holds db \<Longrightarrow> holds db'"
  "maintain db e now h = Ok (db', n, res) \<Longrightarrow> holds db \<Longrightarrow> holds db'"
  "mark_reviewed db ru = Ok (db', n) \<Longrightarrow> holds db \<Longrightarrow> holds db'"
        apply (auto simp: register_producer_def and_then_Ok split: prod.splits dest: registration_holds)[1]
       apply (auto simp: retire_store_def and_then_Ok Let_def retire_one_holds split: prod.splits if_splits)[1]
      apply (auto simp: review_outcome_def and_then_Ok Let_def active_scope_unchanged
        intro!: holds_attention_update split: if_splits)[1]
     apply (auto simp: update_policy_def and_then_Ok)[1]
    apply (auto simp: apply_cleanup_def and_then_Ok split: if_splits elim!: execute_plan_holds)[1]
   apply (auto simp: maintain_def and_then_Ok Let_def elim!: execute_plan_holds)[1]
  apply (auto simp: mark_reviewed_def and_then_Ok active_scope_unchanged intro!: holds_attention_update split: if_splits)[1]
  done

lemma set_delivery_holds: "set_delivery db du = Ok (db', n) \<Longrightarrow> holds db \<Longrightarrow> holds db'"
proof -
  assume ok: "holds db" and du: "set_delivery db du = Ok (db', n)"
  from du obtain row rest where row: "outbox_of db (du_outcome du) = row # rest" "xw_state row < 2"
    by (cases "outbox_of db (du_outcome du)") (auto simp: set_delivery_def and_then_Ok split: if_splits)
  then have "row \<in> set (outbox_of db (du_outcome du))" by simp
  then have mem: "row \<in> set (db_outbox db)" "outbox_key row = outcome_cells (du_outcome du)"
    by (auto simp: outbox_of_def outbox_key_def)
  have "holds (db\<lparr> db_outbox := map (\<lambda>r. if (xw_producer r, xw_generation r, xw_event r) = outcome_cells (du_outcome du)
      then r\<lparr> xw_state := delivery_code (du_state du), xw_changed := du_at du \<rparr> else r) (db_outbox db) \<rparr>)"
    by (rule holds_outbox [OF ok set_delivery_keeps]) (use ok mem row(2) in \<open>simp_all add: holds_def\<close>)
  with du row(1) show "holds db'" by (auto simp: set_delivery_def and_then_Ok split: if_splits)
qed

text \<open>Every request keeps the invariant.\<close>

lemma answer_holds:
  assumes "answer_request codec entropy owner db request = Ok (db', response)" and "holds db"
  shows "holds db'"
  using assms
  by (cases request; auto simp: answer_request_def map_ok_Ok
      dest: small_holds set_delivery_holds apply_write_holds commit_holds reconcile_store_holds)

lemma invalidate_generations_holds: "invalidate_generations db forced = Ok db' \<Longrightarrow> holds db \<Longrightarrow> holds db'"
  by (auto simp: invalidate_generations_def and_then_Ok retire_all_holds split: if_splits)

end

text \<open>Hence it is kept of every file of the store as well.\<close>

sublocale table_invariant \<subseteq> files: store_contents events_kind holds
  by unfold_locales (auto simp: events_kind_def intro: invalidate_generations_holds)

subsection \<open>The stores an engine reaches\<close>

text \<open>
  By creating a store, serving requests, opening again the files an engine left, and recovering the
  backup once the main file has become corrupt.
\<close>

inductive engine_reachable :: "store_codec \<Rightarrow> engine \<Rightarrow> bool" for codec where
  created: "engine_open no_files owner = Ok self \<Longrightarrow> engine_reachable codec self"
| reopened: "engine_reachable codec before \<Longrightarrow> engine_open (closed_files before) owner = Ok self
    \<Longrightarrow> engine_reachable codec self"
| recovered: "engine_reachable codec before
    \<Longrightarrow> recover_backup events_kind env ((closed_files before)\<lparr> sf_database := Some None \<rparr>) floor owner = (self, x)
    \<Longrightarrow> engine_reachable codec self"
| executed: "engine_reachable codec before \<Longrightarrow> execute codec env before request = (self, y)
    \<Longrightarrow> engine_reachable codec self"

lemma execute_cases:
  assumes "execute codec env self request = (self', x)"
  obtains (refused) e where "self' = self" "x = Err e"
  | (served) db db' response where "en_connection self = Some db" "en_connection self' = Some db'"
      "en_owner self' = en_owner self" "en_files self' = en_files self" "x = Ok response" "request \<noteq> RestoreBackup"
      "validate_request codec request = Ok ()"
      "answer_request codec (eo_entropy env) (en_owner self) db request = Ok (db', response)"
  | (backup) db files r where "request = Backup" "en_connection self = Some db"
      "backup_create env db (en_files self) = (files, r)" "self' = self\<lparr> en_files := files \<rparr>"
      "map_ok (\<lambda>_. BackupComplete) r = x"
  | (restore) r where "request = RestoreBackup" "restore_store events_kind env self = (self', r)" "map_ok Restored r = x"
proof -
  consider "self' = self \<and> (\<exists>e. x = Err e)"
    | "request = RestoreBackup" "map_prod id (map_ok Restored) (restore_store events_kind env self) = (self', x)"
    | db where "en_connection self = Some db" "validate_request codec request = Ok ()" "request \<noteq> RestoreBackup"
      "try_st (on_files (dispatch codec env (en_owner self) request db) self)
        (\<lambda>self (db, response). (self\<lparr> en_connection := Some db \<rparr>, Ok response)) = (self', x)"
    using assms unfolding execute_def serve_request_def
    by (cases "en_connection self") (auto simp: try_st_eq split: if_splits)
  then show thesis
  proof cases
    case 1
    then show thesis using refused by blast
  next
    case 2
    then show thesis by (cases "restore_store events_kind env self") (auto intro: restore)
  next
    case (3 db)
    show thesis
    proof (cases "request = Backup")
      case True
      obtain files r where b: "backup_create env db (en_files self) = (files, r)" by fastforce
      show thesis
        by (rule backup [OF True 3(1) b]) (use 3 True b in \<open>auto simp: dispatch_def on_files_def try_st_eq map_ok_def split: sum.splits\<close>)
    next
      case False
      show thesis
      proof (cases "answer_request codec (eo_entropy env) (en_owner self) db request")
        case (Inl e)
        with 3 False show thesis by (intro refused) (auto simp: dispatch_def on_files_def)
      next
        case (Inr stored)
        obtain db' response where "stored = (db', response)" by fastforce
        with Inr 3 False show thesis by (intro served) (auto simp: dispatch_def on_files_def)
      qed
    qed
  qed
qed

context table_invariant
begin

lemma execute_holds:
  assumes "execute codec env self request = (self', x)" and "engine_all holds self"
  shows "engine_all holds self'"
  using assms(1)
proof (cases rule: execute_cases)
  case (served db db' response)
  with assms(2) answer_holds show ?thesis by (auto simp: engine_all_def)
next
  case (backup db files r)
  with assms(2) files.backup_create_all show ?thesis by (auto simp: engine_all_def)
next
  case (restore r)
  from files.restore_store_all [OF restore(2) assms(2)] show ?thesis .
qed (use assms(2) in simp)

lemma reachable_all: "engine_reachable codec self \<Longrightarrow> holds initialize \<Longrightarrow> engine_all holds self"
proof (induction rule: engine_reachable.induct)
  case (created owner self)
  moreover have "files_all holds no_files" by (simp add: files_all_def no_files_def)
  ultimately show ?case using files.open_store_all by (auto simp: engine_open_def)
next
  case (reopened before owner self)
  then show ?case using files.open_store_all files.closed_files_all by (auto simp: engine_open_def)
next
  case (recovered before env floor owner self x)
  from recovered.IH [OF recovered.prems]
  have "files_all holds ((closed_files before)\<lparr> sf_database := Some None \<rparr>)"
    using files.closed_files_all by (auto simp: files_all_def)
  with files.recover_backup_all [OF recovered(2)] show ?case .
next
  case (executed before env request self y)
  then show ?case using execute_holds by blast
qed

lemma reachable_holds: "engine_reachable codec self \<Longrightarrow> holds initialize \<Longrightarrow> en_connection self = Some db \<Longrightarrow> holds db"
  using reachable_all [of codec self] by (auto simp: engine_all_def)

end

subsection \<open>The limits and the keys\<close>

lemma undelivered_update: "keeps_outbox f rows \<Longrightarrow> length (filter undelivered (map f rows)) \<le> length (filter undelivered rows)"
proof (induction rows)
  case (Cons r rows)
  then have "keeps_outbox f rows" "undelivered (f r) \<longrightarrow> undelivered r" by (simp_all add: keeps_outbox_def)
  with Cons.IH show ?case by auto
qed simp

lemma undelivered_length: "length (filter undelivered rows) \<le> length rows"
  by simp

interpretation limits: table_invariant
  "\<lambda>rows. length rows \<le> MAX_RUNS" "\<lambda>rows. length rows \<le> MAX_FACTS" "\<lambda>rows. length rows \<le> MAX_RUNS"
  "\<lambda>rows. length rows \<le> MAX_ATTENTION"
  "\<lambda>rows. length rows \<le> MAX_OUTBOX_AUDIT \<and> length (filter undelivered rows) \<le> MAX_OUTBOX_PENDING"
  "\<lambda>rows. length rows \<le> MAX_TOMBSTONES"
proof (unfold_locales, goal_cases)
  case (5 qs qp)
  then show ?case using length_filter_le [of qp qs] by linarith
next
  case (11 xs xf)
  have "length (filter undelivered (map xf xs)) \<le> length (filter undelivered xs)" by (rule undelivered_update [OF 11(2)])
  with 11(1) show ?case by (simp del: filter_map)
next
  case (14 ts tp)
  then show ?case using length_filter_le [of tp ts] by linarith
qed simp_all

definition one_active_producer :: "producer_row list \<Rightarrow> bool" where
  "one_active_producer rows \<longleftrightarrow> (\<forall>r\<in>set rows. \<forall>s\<in>set rows.
     pw_active r \<and> pw_active s \<and> pw_run r = pw_run s \<longrightarrow> pw_producer r = pw_producer s)"

lemma map_keys: "(\<And>r. k (f r) = k r) \<Longrightarrow> map k (map f rows) = map k rows"
  by simp

interpretation row_keys: table_invariant one_active_producer
  "\<lambda>rows. distinct (map (\<lambda>r. (fw_producer r, fw_generation r, fw_event r)) rows)
     \<and> distinct (map (\<lambda>r. (fw_producer r, fw_generation r, fw_seq r)) rows) \<and> distinct (map fw_rowid rows)"
  "\<lambda>rows. distinct (map jw_run rows)"
  "\<lambda>rows. distinct (map attention_key rows) \<and> active_scope_unique rows"
  "\<lambda>rows. distinct (map xw_rowid rows)"
  "\<lambda>rows. distinct (map tombstone_key rows) \<and> distinct (map tw_rowid rows)"
proof (unfold_locales, goal_cases)
  case (1 ps pf)
  show ?case
    unfolding one_active_producer_def
  proof (intro ballI impI)
    fix r s assume "r \<in> set (map pf ps)" "s \<in> set (map pf ps)" and a: "pw_active r \<and> pw_active s \<and> pw_run r = pw_run s"
    then obtain r0 s0 where rs: "r0 \<in> set ps" "s0 \<in> set ps" "r = pf r0" "s = pf s0" by auto
    with 1(2) a have "pw_producer r = pw_producer r0" "pw_run r = pw_run r0" "pw_active r0"
      "pw_producer s = pw_producer s0" "pw_run s = pw_run s0" "pw_active s0" by (simp_all add: keeps_producer_def)
    with 1(1) rs(1,2) a show "pw_producer r = pw_producer s" unfolding one_active_producer_def by metis
  qed
next
  case (2 ps p)
  show ?case
    unfolding one_active_producer_def
  proof (intro ballI impI)
    fix r s assume mem: "r \<in> set (ps @ [p])" "s \<in> set (ps @ [p])" and a: "pw_active r \<and> pw_active s \<and> pw_run r = pw_run s"
    show "pw_producer r = pw_producer s"
    proof (cases "r \<in> set ps \<and> s \<in> set ps")
      case True
      with 2(1) a show ?thesis unfolding one_active_producer_def by metis
    next
      case False
      with mem have "r = p \<or> s = p" by auto
      with 2(4) a mem show ?thesis by (metis Un_iff empty_iff list.set(1) list.set(2) insert_iff set_append)
    qed
  qed
next
  case (3 ps pf key run)
  show ?case
    unfolding one_active_producer_def
  proof (intro ballI impI)
    fix r s assume "r \<in> set (map pf ps)" "s \<in> set (map pf ps)" and a: "pw_active r \<and> pw_active s \<and> pw_run r = pw_run s"
    then obtain r0 s0 where rs: "r0 \<in> set ps" "s0 \<in> set ps" "r = pf r0" "s = pf s0" by auto
    with 3(2) have "pw_producer r = pw_producer r0" "pw_run r = pw_run r0" "pw_producer s = pw_producer s0" "pw_run s = pw_run s0" by auto
    moreover have "pw_producer r0 \<noteq> key \<Longrightarrow> r = r0" "pw_producer s0 \<noteq> key \<Longrightarrow> s = s0" using 3(4) rs by auto
    moreover have "pw_producer r0 = key \<Longrightarrow> pw_run r0 = run" "pw_producer s0 = key \<Longrightarrow> pw_run s0 = run" using 3(3) rs by auto
    ultimately show "pw_producer r = pw_producer s"
      using 3(1,5) rs(1,2) a unfolding one_active_producer_def by metis
  qed
next
  case (4 qs q)
  then show ?case by (auto simp: fact_collides_def)
next
  case (5 qs qp)
  then show ?case by (simp add: distinct_map_filter)
next
  case (7 js jf)
  then show ?case by (simp add: comp_def)
next
  case (9 as af)
  then have "map attention_key (map af as) = map attention_key as" by (simp add: keeps_attention_def)
  with 9 show ?case by (simp del: map_map)
next
  case (11 xs xf)
  then have "map xw_rowid (map xf xs) = map xw_rowid xs" by (simp add: keeps_outbox_def)
  with 11 show ?case by (simp del: map_map)
next
  case (13 ts tf)
  then show ?case by (simp add: comp_def)
next
  case (14 ts tp)
  then show ?case by (simp add: distinct_map_filter)
qed simp_all

lemma active_scope_unique_Nil [simp]: "active_scope_unique []"
  by (simp add: active_scope_unique_def)

lemma holds_initialize: "limits.holds initialize" "row_keys.holds initialize"
  by (simp_all add: limits.holds_def row_keys.holds_def initialize_def one_active_producer_def)

lemmas reachable_limits = limits.reachable_holds [OF _ holds_initialize(1), unfolded limits.holds_def]
lemmas reachable_keys = row_keys.reachable_holds [OF _ holds_initialize(2), unfolded row_keys.holds_def]

lemma sample_engine_reachable: "engine_reachable codec sample_engine"
  by (rule engine_reachable.executed [OF engine_reachable.created [OF sample_open] sample_execute])

lemma finish_engine_reachable: "engine_reachable finish_store finish_engine"
  by (rule engine_reachable.executed [OF sample_engine_reachable finish_execute])

subsection \<open>Properties of every request\<close>



text \<open>C14: Capacity. In every store an engine reaches by creating, reopening and serving any requests, the
  tables stay within their limits: producers and projections within the run limit, facts,
  tombstones, attention and deliveries within theirs, and the deliveries still to be made within
  the pending limit.\<close>

theorem store_within_limits:
  assumes "engine_reachable codec self" and "en_connection self = Some db"
  shows "length (db_producers db) \<le> MAX_RUNS \<and> length (db_projections db) \<le> MAX_RUNS
    \<and> length (db_facts db) \<le> MAX_FACTS \<and> length (db_tombstones db) \<le> MAX_TOMBSTONES
    \<and> length (db_attention db) \<le> MAX_ATTENTION \<and> length (db_outbox db) \<le> MAX_OUTBOX_AUDIT
    \<and> pending_deliveries db \<le> MAX_OUTBOX_PENDING"
  using reachable_limits [OF assms] by (simp add: pending_undelivered)

lemma store_within_limits_witness: "length (db_projections sample_reconciled) \<le> MAX_RUNS \<and> pending_deliveries sample_reconciled \<le> MAX_OUTBOX_PENDING"
  using store_within_limits [OF sample_engine_reachable] by (simp add: sample_engine_def)

text \<open>Identity. In every store an engine reaches, a producer, a run's projection, an event and a
  sequence of a generation, an attention item, a delivery and a turn's tombstone are each stored
  once, and so is every row number; at most one producer is active in a run; and each scope has at most one open transient
  reason of a kind.\<close>

lemma store_keys_unique:
  assumes "engine_reachable codec self" and "en_connection self = Some db"
  shows "distinct (map pw_producer (db_producers db)) \<and> distinct (map jw_run (db_projections db))
    \<and> distinct (map (\<lambda>r. (fw_producer r, fw_generation r, fw_event r)) (db_facts db))
    \<and> distinct (map (\<lambda>r. (fw_producer r, fw_generation r, fw_seq r)) (db_facts db))
    \<and> distinct (map attention_key (db_attention db)) \<and> distinct (map outbox_key (db_outbox db))
    \<and> distinct (map tombstone_key (db_tombstones db)) \<and> distinct (map fw_rowid (db_facts db))
    \<and> distinct (map xw_rowid (db_outbox db)) \<and> distinct (map tw_rowid (db_tombstones db))
    \<and> one_active_producer (db_producers db) \<and> active_scope_unique (db_attention db)"
  using reachable_keys [OF assms] by simp

lemma store_keys_unique_witness: "one_active_producer (db_producers sample_reconciled)"
  using store_keys_unique [OF sample_engine_reachable] by (simp add: sample_engine_def)

end
