(* ===== verification/Store_Safety.thy ===== *)
theory Store_Safety
  imports Store_Invariants
begin

section \<open>Storage: retirement, cleanup and delivery\<close>

text \<open>
  What an open, a retirement and a cleanup do to the generations that could still write, and how
  a delivery moves. An inactive generation cannot store a fact, so a turn whose tombstone was
  removed cannot come back.
\<close>

subsection \<open>Inactive generations\<close>

lemma inactive_refuses:
  assumes "\<And>r. r \<in> set (db_producers db) \<Longrightarrow> pw_producer r = ProducerId_as_str p
      \<Longrightarrow> pw_generation r = ProducerGeneration_as_str g \<Longrightarrow> \<not> pw_active r"
    and "ev_producer_id (rw_fact w) = p" and "ev_generation (rw_fact w) = g"
  shows "apply_write codec db w \<noteq> Ok (db', n, False)"
proof
  assume "apply_write codec db w = Ok (db', n, False)"
  then obtain rec where rec: "producer db p = Ok (Some rec)" "pc_active rec" "pc_generation rec = g"
    using assms(2,3) by (auto elim!: apply_write_producer)
  then obtain row where row: "find (\<lambda>row. pw_producer row = ProducerId_as_str p) (db_producers db) = Some row"
    and dec: "decode_producer p row = Ok rec" by (auto simp: producer_Ok split: option.splits)
  with find_SomeD [OF row] decode_producer_fields [OF dec] rec assms(1) show False by auto
qed

lemma commit_scope_Ok:
  "commit_scope db ev = Ok u \<longleftrightarrow> (\<exists>record. producer db (ev_producer_id ev) = Ok (Some record)
     \<and> pc_active record \<and> pc_generation record = ev_generation ev
     \<and> pc_run_id record = ev_run_id ev \<and> pc_next_sequence record = Some (ev_seq ev))"
  by (auto simp: commit_scope_def and_then_Ok ok_or_Ok sequence_in_turn_Ok split: if_splits)

lemma inactive_refuses_commit:
  assumes "\<And>r. r \<in> set (db_producers db) \<Longrightarrow> pw_producer r = ProducerId_as_str p
      \<Longrightarrow> pw_generation r = ProducerGeneration_as_str g \<Longrightarrow> \<not> pw_active r"
    and "ev_producer_id (ws_fact w) = p" and "ev_generation (ws_fact w) = g"
  shows "commit codec db w \<noteq> Ok (db', n, False)"
proof
  assume "commit codec db w = Ok (db', n, False)"
  then have "commit_scope db (ws_fact w) = Ok ()" by (rule commit_new)
  then obtain rec where rec: "producer db p = Ok (Some rec)" "pc_active rec" "pc_generation rec = g"
    using assms(2,3) by (auto simp: commit_scope_Ok)
  then obtain row where row: "find (\<lambda>row. pw_producer row = ProducerId_as_str p) (db_producers db) = Some row"
    and dec: "decode_producer p row = Ok rec" by (auto simp: producer_Ok split: option.splits)
  with find_SomeD [OF row] decode_producer_fields [OF dec] rec assms(1) show False by auto
qed

text \<open>A projection that may have been written by an active producer of the run.\<close>

definition observed_by :: "producer_row \<Rightarrow> projection_row \<Rightarrow> bool" where
  "observed_by p r \<longleftrightarrow> pw_active p \<and> pw_run p = jw_run r
     \<and> (jw_producer r = Some (pw_producer p) \<and> jw_generation r = Some (pw_generation p)
        \<or> jw_producer r = None \<and> jw_generation r = None)"

definition covers :: "(string \<times> string) option \<Rightarrow> producer_row \<Rightarrow> bool" where
  "covers scope p \<longleftrightarrow> (case scope of None \<Rightarrow> True
     | Some (producer_id, generation) \<Rightarrow> pw_producer p = producer_id \<and> pw_generation p = generation)"

definition degraded :: "projection_row \<Rightarrow> projection_row" where
  "degraded r = r\<lparr> jw_observation := 1, jw_turn := (if jw_turn r \<in> {4, 5, 6} then jw_turn r else 0) \<rparr>"

lemma degrade_projections:
  "db_projections (degrade db scope legacy) = map (\<lambda>r.
     if legacy \<and> jw_producer r = None \<and> jw_generation r = None
       \<or> (\<exists>p\<in>set (db_producers db). observed_by p r \<and> covers scope p)
     then degraded r else r) (db_projections db)"
  unfolding degrade_def degraded_def observed_by_def covers_def list_ex_iff by (simp add: conj_ac)

lemma retire_all_tables [simp]:
  "db_facts (retire_all db) = db_facts db" "db_attention (retire_all db) = db_attention db"
  "db_outbox (retire_all db) = db_outbox db" "db_tombstones (retire_all db) = db_tombstones db"
  by (simp_all add: retire_all_def Let_def degrade_def)

lemma retire_one_tables [simp]:
  "db_facts (retire_one db p g) = db_facts db" "db_attention (retire_one db p g) = db_attention db"
  "db_outbox (retire_one db p g) = db_outbox db" "db_tombstones (retire_one db p g) = db_tombstones db"
  by (simp_all add: retire_one_def Let_def degrade_def)

lemma retire_one_producers:
  "db_producers (retire_one db p g) = map (\<lambda>r. if pw_producer r = p \<and> pw_generation r = g \<and> pw_active r
     then r\<lparr> pw_active := False, pw_reconciled := False \<rparr> else r) (db_producers db)"
  by (simp add: retire_one_def Let_def degrade_def)

lemma retire_all_producers:
  "db_producers (retire_all db) = map (\<lambda>r. if pw_active r
     then r\<lparr> pw_active := False, pw_reconciled := False \<rparr> else r) (db_producers db)"
  by (simp add: retire_all_def Let_def degrade_def)

lemma retire_all_projections:
  "db_projections (retire_all db) = map (\<lambda>r. if \<exists>p\<in>set (db_producers db). observed_by p r then degraded r else r)
     (db_projections db)"
  by (simp add: retire_all_def Let_def degrade_projections covers_def)

lemma retire_one_projections:
  "db_projections (retire_one db p g) = map (\<lambda>r. if \<exists>x\<in>set (db_producers db). observed_by x r
     \<and> covers (Some (p, g)) x then degraded r else r) (db_projections db)"
  by (simp add: retire_one_def Let_def degrade_projections)

lemma retire_one_inactive:
  assumes "r \<in> set (db_producers (retire_one db p g))" and "pw_producer r = p" and "pw_generation r = g"
  shows "\<not> pw_active r"
proof -
  from assms(1) obtain x where "r = (if pw_producer x = p \<and> pw_generation x = g \<and> pw_active x
     then x\<lparr> pw_active := False, pw_reconciled := False \<rparr> else x)" unfolding retire_one_producers set_map by (rule imageE)
  with assms(2,3) show ?thesis by (simp split: if_splits)
qed

lemma retire_one_active:
  "r \<in> set (db_producers (retire_one db p g)) \<Longrightarrow> pw_active r \<Longrightarrow> r \<in> set (db_producers db)"
  by (auto simp: retire_one_producers split: if_splits)

subsection \<open>Cleanup\<close>

lemma remove_tombstones_producers:
  "remove_tombstones db ids = Ok db' \<Longrightarrow> r \<in> set (db_producers db') \<Longrightarrow> pw_active r \<Longrightarrow> r \<in> set (db_producers db)"
proof (induction ids arbitrary: db)
  case (Cons a ids)
  from Cons.prems(1) obtain p g where rest: "remove_tombstones (retire_one db p g \<lparr>
      db_tombstones := filter (\<lambda>t. tw_rowid t \<noteq> a) (db_tombstones (retire_one db p g)) \<rparr>) ids = Ok db'"
    by (auto simp: and_then_Ok Let_def split: option.splits)
  from Cons.IH [OF rest Cons.prems(2,3)] have "r \<in> set (db_producers (retire_one db p g))" by simp
  with Cons.prems(3) show ?case by (rule retire_one_active [rotated])
qed simp

lemma remove_tombstones_kept:
  "remove_tombstones db ids = Ok db' \<Longrightarrow> db_tombstones db' = filter (\<lambda>t. tw_rowid t \<notin> set ids) (db_tombstones db)"
proof (induction ids arbitrary: db)
  case (Cons a ids)
  from Cons.prems(1) obtain p g where rest: "remove_tombstones (retire_one db p g \<lparr>
      db_tombstones := filter (\<lambda>t. tw_rowid t \<noteq> a) (db_tombstones (retire_one db p g)) \<rparr>) ids = Ok db'"
    by (auto simp: and_then_Ok Let_def split: option.splits)
  from Cons.IH [OF rest] show ?case by (auto intro: filter_cong)
qed simp

lemma remove_tombstones_retires:
  assumes "remove_tombstones db ids = Ok db'" and "distinct (map tw_rowid (db_tombstones db))"
    and "t \<in> set (db_tombstones db)" and "tw_rowid t \<in> set ids"
  shows "\<forall>r\<in>set (db_producers db'). pw_producer r = tw_producer t \<and> pw_generation r = tw_generation t \<longrightarrow> \<not> pw_active r"
  using assms
proof (induction ids arbitrary: db)
  case (Cons a ids)
  show ?case
  proof (cases "tw_rowid t = a")
    case True
    have found: "find (\<lambda>x. tw_rowid x = a) (db_tombstones db) = Some t"
      by (rule find_unique [where key = tw_rowid]) (use Cons.prems True in auto)
    from Cons.prems(1) have rest: "remove_tombstones (retire_one db (tw_producer t) (tw_generation t) \<lparr>
        db_tombstones := filter (\<lambda>t. tw_rowid t \<noteq> a) (db_tombstones db) \<rparr>) ids = Ok db'"
      by (auto simp: found and_then_Ok Let_def parse_cell_Ok ProducerId.from_str_Ok Generation.from_str_Ok)
    show ?thesis
    proof (intro ballI impI notI)
      fix r assume r: "r \<in> set (db_producers db')" "pw_producer r = tw_producer t \<and> pw_generation r = tw_generation t" "pw_active r"
      from remove_tombstones_producers [OF rest r(1,3)]
      have "r \<in> set (db_producers (retire_one db (tw_producer t) (tw_generation t)))" by simp
      with retire_one_inactive r(2,3) show False by blast
    qed
  next
    case False
    from Cons.prems(1) obtain p g where rest: "remove_tombstones (retire_one db p g \<lparr>
        db_tombstones := filter (\<lambda>t. tw_rowid t \<noteq> a) (db_tombstones (retire_one db p g)) \<rparr>) ids = Ok db'"
      by (auto simp: and_then_Ok Let_def split: option.splits)
    show ?thesis
      by (rule Cons.IH [OF rest]) (use Cons.prems False in \<open>auto simp: distinct_map_filter\<close>)
  qed
qed simp

lemma expire_deliveries_tables [simp]:
  "db_producers (expire_deliveries db now ids) = db_producers db"
  "db_facts (expire_deliveries db now ids) = db_facts db"
  "db_tombstones (expire_deliveries db now ids) = db_tombstones db"
  "db_attention (expire_deliveries db now ids) = db_attention db"
  "db_projections (expire_deliveries db now ids) = db_projections db"
  by (induction ids arbitrary: db) simp_all

lemma remove_facts_tables [simp]:
  "db_producers (remove_facts db ids) = db_producers db"
  "db_tombstones (remove_facts db ids) = db_tombstones db"
  "db_attention (remove_facts db ids) = db_attention db"
  "db_outbox (remove_facts db ids) = db_outbox db"
  "db_projections (remove_facts db ids) = db_projections db"
  by (induction ids arbitrary: db) simp_all

lemma execute_plan_tables:
  assumes "execute_plan db plan = Ok db'"
  obtains mid where "remove_tombstones (remove_facts db (cp_facts plan)) (cp_tombstones plan) = Ok mid"
    "db_producers db' = db_producers mid" "db_tombstones db' = db_tombstones mid"
    "db_outbox db' = db_outbox (expire_deliveries mid (cp_now plan) (cp_deliveries plan))"
  using assms by (auto simp: execute_plan_def and_then_Ok Let_def)

lemma execute_plan_retires:
  assumes "execute_plan db plan = Ok db'" and "distinct (map tw_rowid (db_tombstones db))"
    and "t \<in> set (db_tombstones db)" and "t \<notin> set (db_tombstones db')"
  shows "\<forall>r\<in>set (db_producers db'). pw_producer r = tw_producer t \<and> pw_generation r = tw_generation t \<longrightarrow> \<not> pw_active r"
  using assms(1)
proof (rule execute_plan_tables)
  fix mid assume mid: "remove_tombstones (remove_facts db (cp_facts plan)) (cp_tombstones plan) = Ok mid"
    and eq: "db_producers db' = db_producers mid" "db_tombstones db' = db_tombstones mid"
  from remove_tombstones_kept [OF mid] eq(2) assms(3,4) have "tw_rowid t \<in> set (cp_tombstones plan)" by auto
  with remove_tombstones_retires [OF mid] assms(2,3) eq(1) show ?thesis by simp
qed

subsection \<open>Deliveries move forward\<close>

definition forward :: "outbox_row \<Rightarrow> outbox_row \<Rightarrow> bool" where
  "forward r r' \<longleftrightarrow> outbox_key r' = outbox_key r \<and> xw_rowid r' = xw_rowid r \<and> xw_created r' = xw_created r
     \<and> (xw_state r' = xw_state r \<or> undelivered r \<and> 1 \<le> xw_state r')"

text \<open>The deliveries of one store are those of another, each forward of it, with new ones behind.\<close>

definition outbox_forward :: "outbox_row list \<Rightarrow> outbox_row list \<Rightarrow> bool" where
  "outbox_forward rows rows' \<longleftrightarrow> length rows \<le> length rows' \<and> (\<forall>i<length rows. forward (rows ! i) (rows' ! i))"

lemma forward_refl [simp]: "forward r r"
  by (simp add: forward_def)

lemma forward_trans: "forward a b \<Longrightarrow> forward b c \<Longrightarrow> forward a c"
  by (auto simp: forward_def undelivered_def)

lemma outbox_forward_refl [simp]: "outbox_forward rows rows"
  by (simp add: outbox_forward_def)

lemma outbox_forward_append: "outbox_forward rows mid \<Longrightarrow> outbox_forward rows (mid @ new)"
  by (auto simp: outbox_forward_def nth_append)

lemma outbox_forward_map:
  assumes "outbox_forward rows mid" and "\<And>r. r \<in> set mid \<Longrightarrow> forward r (f r)"
  shows "outbox_forward rows (map f mid)"
  unfolding outbox_forward_def
proof (intro conjI allI impI)
  show "length rows \<le> length (map f mid)" using assms(1) by (simp add: outbox_forward_def)
  fix i assume i: "i < length rows"
  with assms(1) have "forward (rows ! i) (mid ! i)" "i < length mid" by (auto simp: outbox_forward_def)
  moreover from this(2) have "forward (mid ! i) (f (mid ! i))" by (simp add: assms(2))
  ultimately show "forward (rows ! i) (map f mid ! i)" using forward_trans by simp
qed

lemma outbox_forward_member:
  assumes "outbox_forward rows rows'" and "r \<in> set rows"
  shows "\<exists>r'\<in>set rows'. forward r r'"
proof -
  from assms(2) obtain i where "i < length rows" "r = rows ! i" by (auto simp: in_set_conv_nth)
  with assms(1) have "forward r (rows' ! i)" "rows' ! i \<in> set rows'" by (auto simp: outbox_forward_def)
  then show ?thesis by blast
qed

lemma apply_attention_outbox:
  assumes "apply_attention db w n = Ok db'"
  shows "\<exists>new. db_outbox db' = db_outbox db @ new"
proof -
  define start where "start = (case fx_resolve_transient (rw_effects w) of None \<Rightarrow> db | Some key \<Rightarrow> resolve_transient db key)"
  have same: "db_outbox start = db_outbox db" by (simp add: start_def resolve_transient_def split: option.splits)
  obtain mid b where mid: "ensure_all start w (fx_attention (rw_effects w)) n False = Ok (mid, b)"
    using assms by (cases "ensure_all start w (fx_attention (rw_effects w)) n False")
      (auto simp: apply_attention_def Let_def start_def [symmetric])
  from ensure_all_frame [OF mid] same have "db_outbox mid = db_outbox db" by auto
  with assms mid show ?thesis
    by (auto simp: apply_attention_def Let_def and_then_Ok start_def [symmetric] split: if_splits
        dest!: insert_outbox_row_frame)
qed

lemma apply_write_outbox: "apply_write codec db w = Ok (db', r, d) \<Longrightarrow> outbox_forward (db_outbox db) (db_outbox db')"
proof (cases d)
  case False
  assume "apply_write codec db w = Ok (db', r, d)"
  with False have "apply_write codec db w = Ok (db', r, False)" by simp
  then obtain db1 db2 where "apply_attention (db\<lparr> db_projections := db1 \<rparr>) w r = Ok db2" "db_outbox db' = db_outbox db2"
    by (auto elim: apply_write_tables)
  with apply_attention_outbox [OF this(1)] show ?thesis by (auto simp: outbox_forward_append)
qed (auto elim!: apply_write_dup)

lemma commit_outbox:
  assumes "commit codec db w = Ok (db', r, d)"
  shows "outbox_forward (db_outbox db) (db_outbox db')"
proof (cases d)
  case True
  with assms show ?thesis by (auto dest: commit_dup)
next
  case False
  with assms have "commit codec db w = Ok (db', r, False)" by simp
  then show ?thesis
  proof (rule commit_new, goal_cases)
    case (1 identity db1 db2 db3 db4 db5)
    have "\<exists>new. db_outbox db4 = db_outbox db @ new" using 1(5-8) by (auto dest!: commit_step_frames)
    then have "outbox_forward (db_outbox db) (db_outbox db4)" by (auto simp: outbox_forward_append)
    then have "outbox_forward (db_outbox db) (db_outbox (record_legacy db4 w r))"
      by (auto simp: record_legacy_def Let_def forward_def outbox_key_def intro!: outbox_forward_map)
    with insert_fact_row_frame [OF 1(9)] show ?thesis by (simp add: 1(10))
  qed
qed

lemma expire_deliveries_outbox:
  "outbox_forward rows (db_outbox db) \<Longrightarrow> (\<And>r. r \<in> set (db_outbox db) \<Longrightarrow> xw_rowid r \<in> set ids \<Longrightarrow> undelivered r \<or> xw_state r = 3)
     \<Longrightarrow> outbox_forward rows (db_outbox (expire_deliveries db now ids))"
proof (induction ids arbitrary: db)
  case (Cons a ids)
  let ?f = "\<lambda>r. if xw_rowid r = a then r\<lparr> xw_state := 3, xw_changed := now \<rparr> else r"
  have "outbox_forward rows (map ?f (db_outbox db))"
  proof (rule outbox_forward_map [OF Cons.prems(1)])
    fix r assume "r \<in> set (db_outbox db)"
    with Cons.prems(2) [of r] show "forward r (?f r)" by (auto simp: forward_def outbox_key_def)
  qed
  moreover have "undelivered r \<or> xw_state r = 3"
    if "r \<in> set (map ?f (db_outbox db))" "xw_rowid r \<in> set ids" for r
    using that Cons.prems(2) by (auto split: if_splits)
  ultimately show ?case using Cons.IH [of "db\<lparr> db_outbox := map ?f (db_outbox db) \<rparr>"] by simp
qed simp

lemma remove_tombstones_outbox: "remove_tombstones db ids = Ok db' \<Longrightarrow> db_outbox db' = db_outbox db"
proof (induction ids arbitrary: db)
  case (Cons a ids)
  then show ?case by (auto simp: and_then_Ok Let_def split: option.splits)
qed simp

lemma candidates_rows: "x \<in> set (candidates stamp rowid rows) \<Longrightarrow> \<exists>r\<in>set rows. rowid r = x"
  by (auto simp: candidates_def dest!: in_set_takeD)

lemma preview_deliveries:
  assumes "preview db now owner = Ok plan"
  shows "cp_deliveries plan = candidates xw_created xw_rowid
     (filter (\<lambda>r. (xw_state r = 0 \<or> xw_state r = 1) \<and> xw_created r \<le> saturating_sub now (7 * DAY)) (db_outbox db))"
proof -
  from assms obtain policy n m where "policy_of db = Ok policy" "count (db_facts db) = Ok n" "count (db_tombstones db) = Ok m"
    by (auto simp only: preview_def and_then_Ok)
  with assms show ?thesis by (auto simp only: preview_def and_then_simps Let_def and_then_Ok sum.inject CleanupPreview.select_convs)
qed

lemma execute_plan_outbox:
  assumes "execute_plan db plan = Ok db'" and "preview db0 now owner = Ok plan" and "db_outbox db = db_outbox db0"
    and "distinct (map xw_rowid (db_outbox db0))"
  shows "outbox_forward (db_outbox db0) (db_outbox db')"
  using assms(1)
proof (rule execute_plan_tables)
  fix mid assume mid: "remove_tombstones (remove_facts db (cp_facts plan)) (cp_tombstones plan) = Ok mid"
    and eq: "db_outbox db' = db_outbox (expire_deliveries mid (cp_now plan) (cp_deliveries plan))"
  have same: "db_outbox mid = db_outbox db0" using remove_tombstones_outbox [OF mid] assms(3) by simp
  have "undelivered r" if r: "r \<in> set (db_outbox db0)" "xw_rowid r \<in> set (cp_deliveries plan)" for r
  proof -
    note preview_deliveries [OF assms(2)]
    with r(2) obtain s where s: "s \<in> set (db_outbox db0)" "undelivered s" "xw_rowid s = xw_rowid r"
      by (auto simp: undelivered_def dest!: candidates_rows)
    with assms(4) r(1) have "s = r" by (auto simp: distinct_map inj_on_def)
    with s show ?thesis by simp
  qed
  then show ?thesis unfolding eq by (intro expire_deliveries_outbox) (simp_all add: same)
qed

lemma quiet_outbox:
  "register_producer db reg entropy = Ok (db', g, n) \<Longrightarrow> db_outbox db' = db_outbox db"
  "reconcile_store db rx entropy = Ok (db', g, n) \<Longrightarrow> db_outbox db' = db_outbox db"
  "retire_store db pt = Ok (db', n) \<Longrightarrow> db_outbox db' = db_outbox db"
  "review_outcome db ov = Ok (db', n) \<Longrightarrow> db_outbox db' = db_outbox db"
  "update_policy db e h = Ok (db', p) \<Longrightarrow> db_outbox db' = db_outbox db"
  "mark_reviewed db ru = Ok (db', n) \<Longrightarrow> db_outbox db' = db_outbox db"
proof -
  have reg: "registration_inside db reg a b entropy = Ok (db', g, n) \<Longrightarrow> db_outbox db' = db_outbox db" for db reg a b db' g n
    by (auto elim!: registration_inside_Ok simp: upsert_producer_def)
  { assume "register_producer db reg entropy = Ok (db', g, n)"
    then show "db_outbox db' = db_outbox db" by (auto simp: register_producer_def and_then_Ok split: prod.splits dest: reg) }
  { assume "reconcile_store db rx entropy = Ok (db', g, n)"
    then show "db_outbox db' = db_outbox db"
    proof (rule reconcile_store_Ok, goal_cases)
      case (1 discarded db1 db2 db3)
      have "db_outbox db2 = db_outbox db1"
        using 1(4) by (auto simp: update_obligations_def Let_def continue_transient_def resolve_transient_def
            split: option.splits if_splits)
      with reg [OF 1(3)] write_projection_frame [OF 1(5)] show ?case by (auto simp: 1(6))
    qed }
  { assume "retire_store db pt = Ok (db', n)"
    then show "db_outbox db' = db_outbox db"
      by (auto simp: retire_store_def and_then_Ok Let_def split: prod.splits if_splits) }
  { assume "review_outcome db ov = Ok (db', n)"
    then show "db_outbox db' = db_outbox db" by (auto simp: review_outcome_def and_then_Ok Let_def split: if_splits) }
  { assume "update_policy db e h = Ok (db', p)"
    then show "db_outbox db' = db_outbox db" by (auto simp: update_policy_def and_then_Ok) }
  { assume "mark_reviewed db ru = Ok (db', n)"
    then show "db_outbox db' = db_outbox db" by (auto simp: mark_reviewed_def and_then_Ok split: if_splits) }
qed

lemma set_delivery_outbox:
  assumes "set_delivery db du = Ok (db', n)" and "distinct (map outbox_key (db_outbox db))"
  shows "outbox_forward (db_outbox db) (db_outbox db')"
proof -
  from assms(1) obtain row rest where row: "outbox_of db (du_outcome du) = row # rest" "xw_state row < 2" "du_state du \<noteq> Pending"
    by (cases "outbox_of db (du_outcome du)") (auto simp: set_delivery_def and_then_Ok split: if_splits)
  then have "row \<in> set (outbox_of db (du_outcome du))" by simp
  then have mem: "row \<in> set (db_outbox db)" "outbox_key row = outcome_cells (du_outcome du)"
    by (auto simp: outbox_of_def outbox_key_def)
  have only: "r = row" if "r \<in> set (db_outbox db)" "outbox_key r = outcome_cells (du_outcome du)" for r
    using that mem assms(2) by (auto simp: distinct_map inj_on_def)
  have "1 \<le> delivery_code (du_state du)" using row(3) by (cases "du_state du") (simp_all add: delivery_code_def)
  then have "outbox_forward (db_outbox db) (map (\<lambda>r. if (xw_producer r, xw_generation r, xw_event r) = outcome_cells (du_outcome du)
      then r\<lparr> xw_state := delivery_code (du_state du), xw_changed := du_at du \<rparr> else r) (db_outbox db))"
    using only row(2) by (intro outbox_forward_map) (auto simp: forward_def outbox_key_def undelivered_def)
  with assms(1) row(1) show ?thesis by (auto simp: set_delivery_def and_then_Ok split: if_splits)
qed

lemma cleanup_outbox:
  "apply_cleanup db plan = Ok (db', n, res) \<Longrightarrow> distinct (map xw_rowid (db_outbox db)) \<Longrightarrow> outbox_forward (db_outbox db) (db_outbox db')"
  "maintain db e now h = Ok (db', n, res) \<Longrightarrow> distinct (map xw_rowid (db_outbox db)) \<Longrightarrow> outbox_forward (db_outbox db) (db_outbox db')"
proof -
  assume "apply_cleanup db plan = Ok (db', n, res)" and d: "distinct (map xw_rowid (db_outbox db))"
  then obtain mid where "preview db (cp_now plan) (cp_owner plan) = Ok plan" "execute_plan db plan = Ok mid"
    "db' = advance_revision mid n" by (auto simp: apply_cleanup_def and_then_Ok split: if_splits)
  with execute_plan_outbox [of db plan mid db] d show "outbox_forward (db_outbox db) (db_outbox db')" by simp
next
  assume "maintain db e now h = Ok (db', n, res)" and d: "distinct (map xw_rowid (db_outbox db))"
  then obtain plan mid where "preview (db\<lparr> db_history_days := HistoryRetention_days h \<rparr>) now 0 = Ok plan"
    "execute_plan (db\<lparr> db_history_days := HistoryRetention_days h \<rparr>) plan = Ok mid" "db' = advance_revision mid n"
    by (auto simp: maintain_def and_then_Ok Let_def)
  with execute_plan_outbox [of "db\<lparr> db_history_days := HistoryRetention_days h \<rparr>" plan mid "db\<lparr> db_history_days := HistoryRetention_days h \<rparr>"] d
  show "outbox_forward (db_outbox db) (db_outbox db')" by simp
qed

lemma answer_outbox:
  assumes "answer_request codec entropy owner db request = Ok (db', response)"
    and "distinct (map outbox_key (db_outbox db))" and "distinct (map xw_rowid (db_outbox db))"
  shows "outbox_forward (db_outbox db) (db_outbox db')"
  using assms
  by (cases request; auto simp: answer_request_def map_ok_Ok
      dest: quiet_outbox set_delivery_outbox cleanup_outbox apply_write_outbox commit_outbox)

subsection \<open>Requests that activate no producer\<close>

definition inactive :: "database \<Rightarrow> bool" where
  "inactive db \<longleftrightarrow> list_all (\<lambda>p. \<not> pw_active p) (db_producers db)"

definition activates :: "Request \<Rightarrow> bool" where
  "activates request \<longleftrightarrow> (case request of Register _ \<Rightarrow> True | Reconcile _ \<Rightarrow> True | _ \<Rightarrow> False)"

definition serve_all :: "store_codec \<Rightarrow> (engine_io \<times> Request) list \<Rightarrow> engine \<Rightarrow> engine" where
  "serve_all codec calls self = foldl (\<lambda>self (env, request). fst (execute codec env self request)) self calls"

lemma inactive_stores_nothing:
  assumes "inactive db"
  shows "apply_write codec db w \<noteq> Ok (s, n, False)" "commit codec db v \<noteq> Ok (s, n, False)"
proof -
  show "apply_write codec db w \<noteq> Ok (s, n, False)"
    by (rule inactive_refuses [OF _ refl refl]) (use assms in \<open>auto simp: inactive_def list_all_iff\<close>)
  show "commit codec db v \<noteq> Ok (s, n, False)"
    by (rule inactive_refuses_commit [OF _ refl refl]) (use assms in \<open>auto simp: inactive_def list_all_iff\<close>)
qed

lemma plan_inactive:
  assumes "execute_plan db plan = Ok db'" and "inactive db"
  shows "inactive (advance_revision db' n)"
  using assms remove_tombstones_producers
  by (fastforce simp: execute_plan_def and_then_Ok Let_def inactive_def list_all_iff)

lemma inactive_tables:
  "retire_store db pt = Ok (db', n) \<Longrightarrow> inactive db \<Longrightarrow> inactive db'"
  "review_outcome db ov = Ok (db', n) \<Longrightarrow> inactive db \<Longrightarrow> inactive db'"
  "update_policy db e h = Ok (db', p) \<Longrightarrow> inactive db \<Longrightarrow> inactive db'"
  "mark_reviewed db ru = Ok (db', n) \<Longrightarrow> inactive db \<Longrightarrow> inactive db'"
  "set_delivery db du = Ok (db', n) \<Longrightarrow> inactive db \<Longrightarrow> inactive db'"
  "apply_cleanup db plan = Ok (db', n, res) \<Longrightarrow> inactive db \<Longrightarrow> inactive db'"
  "maintain db e now h = Ok (db', n, res) \<Longrightarrow> inactive db \<Longrightarrow> inactive db'"
proof -
  show "inactive db'" if "retire_store db pt = Ok (db', n)" "inactive db"
    using that by (auto simp: retire_store_def and_then_Ok Let_def inactive_def list_all_iff retire_one_producers
        split: if_splits prod.splits option.splits)
  show "inactive db'" if "apply_cleanup db plan = Ok (db', n, res)" "inactive db"
    using that plan_inactive by (auto simp: apply_cleanup_def and_then_Ok split: if_splits)
  show "inactive db'" if "maintain db e now h = Ok (db', n, res)" "inactive db"
    using that plan_inactive by (fastforce simp: maintain_def and_then_Ok Let_def inactive_def)
  show "inactive db'" if "set_delivery db du = Ok (db', n)" "inactive db"
    using that by (cases "outbox_of db (du_outcome du)") (auto simp: set_delivery_def and_then_Ok inactive_def split: if_splits)
qed (auto simp: review_outcome_def update_policy_def mark_reviewed_def and_then_Ok Let_def inactive_def split: if_splits)

lemma answer_inactive:
  assumes "answer_request codec entropy owner db request = Ok (db', response)" and "inactive db" and "\<not> activates request"
  shows "inactive db'"
proof -
  have applied: "db' = db" if "apply_write codec db w = Ok (db', n, d)" for w n d
    using that inactive_stores_nothing(1) [OF assms(2)] by (cases d) (auto dest: apply_write_advances)
  have committed: "db' = db" if "commit codec db w = Ok (db', n, d)" for w n d
    using that inactive_stores_nothing(2) [OF assms(2)] by (cases d) (auto dest: commit_advances)
  show ?thesis
    using assms by (cases request) (auto simp: answer_request_def map_ok_Ok activates_def dest: inactive_tables applied committed)
qed

lemma execute_inactive:
  assumes "execute codec env self request = (self', x)" and "pred_option inactive (en_connection self)" and "\<not> activates request"
  shows "pred_option inactive (en_connection self')"
  using assms(1)
proof (cases rule: execute_cases)
  case (served db db' response)
  with assms(2,3) answer_inactive [OF served(8)] show ?thesis by simp
next
  case (restore r)
  have "inactive restored" if "vi_invalidate events_kind saved (Some n) = Ok restored" for saved n restored
    using that by (auto simp: events_kind_def invalidate_generations_def inactive_def list_all_iff retire_all_producers)
  with restore_store_ends [OF restore(2)] assms(2) show ?thesis by auto
qed (use assms(2) in simp_all)

lemma serve_all_inactive:
  assumes "pred_option inactive (en_connection self)" and "list_all (\<lambda>(env, request). \<not> activates request) calls"
  shows "pred_option inactive (en_connection (serve_all codec calls self))"
  using assms
proof (induction calls arbitrary: self)
  case (Cons call calls)
  obtain env request where call: "call = (env, request)" by fastforce
  obtain self' x where e: "execute codec env self request = (self', x)" by fastforce
  from execute_inactive [OF e] Cons.prems have "pred_option inactive (en_connection self')" by (simp add: call)
  with Cons show ?case by (simp add: serve_all_def call e)
qed (simp add: serve_all_def)

subsection \<open>Properties of retirement, cleanup and delivery\<close>

text \<open>C15: An open trusts nothing. After the engine opens a stored database, whatever producers were
  active in it, every projection an active producer may have written is stale and shows only a
  terminal or an unknown turn, and the facts, attention, deliveries and tombstones are kept. And
  through any later requests, served or refused, a restoration of the backup among them, until one
  registers or reconciles a producer: no producer is active in the store then open, and no write
  and no commit stores a new fact in it.\<close>

theorem open_trusts_nothing:
  assumes "engine_open files owner = Ok self" and "sf_database files = Some (Some db)"
  shows "\<exists>db'. en_connection self = Some db'
    \<and> db_projections db' = map (\<lambda>r. if \<exists>p\<in>set (db_producers db). observed_by p r then degraded r else r) (db_projections db)
    \<and> db_facts db' = db_facts db \<and> db_attention db' = db_attention db
    \<and> db_outbox db' = db_outbox db \<and> db_tombstones db' = db_tombstones db
    \<and> (\<forall>codec calls later. list_all (\<lambda>(env, request). \<not> activates request) calls
         \<and> en_connection (serve_all codec calls self) = Some later
         \<longrightarrow> list_all (\<lambda>p. \<not> pw_active p) (db_producers later)
           \<and> (\<forall>codec w s n. apply_write codec later w \<noteq> Ok (s, n, False))
           \<and> (\<forall>codec w s n. commit codec later w \<noteq> Ok (s, n, False)))"
proof -
  from assms obtain db' where inv: "invalidate_generations db None = Ok db'" and conn: "en_connection self = Some db'"
    by (auto simp: engine_open_def open_store_def events_kind_def map_ok_Ok split: if_splits)
  consider (all) r where "db' = advance_revision (retire_all db) r"
    | (none) "db' = db" "\<forall>p\<in>set (db_producers db). \<not> pw_active p"
    using inv by (auto simp: invalidate_generations_def and_then_Ok list_ex_iff split: if_splits)
  then have state: "(\<forall>p\<in>set (db_producers db'). \<not> pw_active p) \<and> db_projections db' =
      map (\<lambda>r. if \<exists>p\<in>set (db_producers db). observed_by p r then degraded r else r) (db_projections db)
    \<and> db_facts db' = db_facts db \<and> db_attention db' = db_attention db
    \<and> db_outbox db' = db_outbox db \<and> db_tombstones db' = db_tombstones db"
  proof cases
    case all
    then show ?thesis by (auto simp: retire_all_producers retire_all_projections)
  next
    case none
    then have "\<not> observed_by p r" if "p \<in> set (db_producers db)" for p r using that by (simp add: observed_by_def)
    then have "map (\<lambda>r. if \<exists>p\<in>set (db_producers db). observed_by p r then degraded r else r) (db_projections db)
        = map (\<lambda>r. r) (db_projections db)" by (intro map_cong) auto
    with none show ?thesis by simp
  qed
  from conn state have off: "pred_option inactive (en_connection self)" by (simp add: inactive_def list_all_iff)
  have "inactive later" if "list_all (\<lambda>(env, request). \<not> activates request) calls"
    "en_connection (serve_all codec calls self) = Some later" for codec calls later
    using serve_all_inactive [OF off that(1), of codec] that(2) by simp
  then show ?thesis using conn state inactive_stores_nothing unfolding inactive_def by blast
qed

definition sample_files :: "database state_files" where
  "sample_files = no_files\<lparr> sf_database := Some (Some sample_db) \<rparr>"

lemma sample_reopen: "\<exists>self. engine_open sample_files 1 = Ok self"
  by (simp add: engine_open_def open_store_def sample_files_def no_files_def events_kind_def invalidate_generations_def
      sample_db_def revision_def decode_number_number Revision_checked_next_def checked_add_def)

lemma open_trusts_nothing_witness:
  "\<exists>self db'. engine_open sample_files 1 = Ok self \<and> en_connection (serve_all sample_store [(sample_io, Request.Policy)] self) = Some db'
     \<and> apply_write sample_store db' (sample_write 1 True) \<noteq> Ok (sample_applied True, Revision 8, False)"
proof -
  from sample_reopen obtain self where self: "engine_open sample_files 1 = Ok self" by blast
  have db: "sf_database sample_files = Some (Some sample_db)" by (simp add: sample_files_def)
  from open_trusts_nothing [OF self db] obtain db1 where conn: "en_connection self = Some db1" by blast
  obtain self' x where e: "execute sample_store sample_io self Request.Policy = (self', x)" by fastforce
  then have "en_connection self' = Some db1"
    using conn by (cases rule: execute_cases) (auto simp: answer_request_def map_ok_Ok)
  with e have later: "en_connection (serve_all sample_store [(sample_io, Request.Policy)] self) = Some db1" by (simp add: serve_all_def)
  have "list_all (\<lambda>(env, request). \<not> activates request) [(sample_io, Request.Policy)]" by (simp add: activates_def)
  with open_trusts_nothing [OF self db] later self show ?thesis by blast
qed

text \<open>Retirement. Retiring a producer's generation ends it: the store knows it as inactive and
  unreconciled, no further write or commit of that generation is stored, the projections it may
  have written are stale with only a terminal or unknown turn, and nothing that was recorded
  (facts, attention, deliveries, tombstones) is touched. A generation that is not the producer's
  active one cannot be retired.\<close>

lemma retire_ends_generation:
  assumes "retire_store db request = Ok (db', n)"
  shows "(\<exists>before. producer db (pt_producer_id request) = Ok (Some before) \<and> pc_active before
        \<and> pc_generation before = pt_generation request
        \<and> producer db' (pt_producer_id request) = Ok (Some (before\<lparr> pc_active := False, pc_reconciled := False \<rparr>)))
    \<and> (\<forall>codec w s m. ev_producer_id (rw_fact w) = pt_producer_id request
         \<and> ev_generation (rw_fact w) = pt_generation request \<longrightarrow> apply_write codec db' w \<noteq> Ok (s, m, False))
    \<and> db_projections db' = map (\<lambda>r. if \<exists>p\<in>set (db_producers db). observed_by p r
         \<and> covers (Some (ProducerId_as_str (pt_producer_id request), ProducerGeneration_as_str (pt_generation request))) p
         then degraded r else r) (db_projections db)
    \<and> db_facts db' = db_facts db \<and> db_attention db' = db_attention db
    \<and> db_outbox db' = db_outbox db \<and> db_tombstones db' = db_tombstones db"
proof -
  let ?p = "ProducerId_as_str (pt_producer_id request)" and ?g = "ProducerGeneration_as_str (pt_generation request)"
  from assms obtain rec d where rec: "producer db (pt_producer_id request) = Ok (Some rec)" "pc_active rec"
    "pc_generation rec = pt_generation request"
    and db': "db' = advance_revision (retire_one db ?p ?g \<lparr> db_discarded := number d \<rparr>) n"
    by (auto simp: retire_store_def and_then_Ok ok_or_Ok Let_def producer_Ok decode_producer_fields(1)
        split: if_splits prod.splits option.splits)
  from rec(1) obtain row where row: "find (\<lambda>row. pw_producer row = ?p) (db_producers db) = Some row"
    and dec: "decode_producer (pt_producer_id request) row = Ok rec" by (auto simp: producer_Ok split: option.splits)
  have cells: "pw_producer row = ?p" "pw_generation row = ?g" "pw_active row"
    using find_SomeD [OF row] decode_producer_fields [OF dec] rec by simp_all
  have "decode_producer (pt_producer_id request) (row\<lparr> pw_active := False, pw_reconciled := False \<rparr>)
      = Ok (rec\<lparr> pc_active := False, pc_reconciled := False \<rparr>)"
    using dec by (auto simp: decode_producer_def result_simps)
  then have after: "producer db' (pt_producer_id request) = Ok (Some (rec\<lparr> pc_active := False, pc_reconciled := False \<rparr>))"
    using row cells by (simp add: producer_Ok db' retire_one_producers find_simps)
  have "apply_write codec db' w \<noteq> Ok (s, m, False)"
    if "ev_producer_id (rw_fact w) = pt_producer_id request \<and> ev_generation (rw_fact w) = pt_generation request" for codec w s m
    by (rule inactive_refuses [of _ "pt_producer_id request" "pt_generation request"])
      (use that retire_one_inactive in \<open>auto simp: db'\<close>)
  with rec after show ?thesis by (auto simp: db' retire_one_projections)
qed

definition sample_retirement :: ProducerRetirement where
  "sample_retirement = \<lparr> pt_expected_revision = Revision 7, pt_producer_id = sample_producer,
     pt_generation = sample_generation, pt_discarded_events = 3 \<rparr>"

lemma sample_retire: "is_ok (retire_store sample_db sample_retirement)"
  by (simp add: retire_store_def write_defs stored_projection_def sample_retirement_def sample_db_def Let_def)

lemma retire_ends_generation_witness:
  "\<exists>db' n. retire_store sample_db sample_retirement = Ok (db', n)
     \<and> apply_write sample_store db' (sample_write 1 True) \<noteq> Ok (sample_applied True, Revision 8, False)"
proof -
  from sample_retire obtain db' n where ok: "retire_store sample_db sample_retirement = Ok (db', n)"
    by (auto simp: is_ok_iff)
  have "ev_producer_id (rw_fact (sample_write 1 True)) = pt_producer_id sample_retirement
      \<and> ev_generation (rw_fact (sample_write 1 True)) = pt_generation sample_retirement"
    by (simp add: sample_write_def sample_event_def sample_retirement_def)
  with retire_ends_generation [OF ok] ok show ?thesis by blast
qed

subsection \<open>What a cleanup counts\<close>

lemma length_removed:
  "distinct (map k rows) \<Longrightarrow> distinct ids \<Longrightarrow> set ids \<subseteq> k ` set rows
     \<Longrightarrow> length (filter (\<lambda>r. k r \<notin> set ids) rows) + length ids = length rows"
proof -
  assume d: "distinct (map k rows)" "distinct ids" "set ids \<subseteq> k ` set rows"
  have "set (map k (filter (\<lambda>r. k r \<in> set ids) rows)) = set ids" using d(3) by auto
  moreover have "distinct (map k (filter (\<lambda>r. k r \<in> set ids) rows))" using d(1) by (rule distinct_map_filter)
  ultimately have "length (map k (filter (\<lambda>r. k r \<in> set ids) rows)) = length ids"
    using d(2) by (metis distinct_card)
  with sum_length_filter_compl [of "\<lambda>r. k r \<in> set ids" rows] show ?thesis by simp
qed

lemma candidates_bound: "length (candidates stamp rowid rows) \<le> 100"
  by (simp add: candidates_def)

lemma candidates_ids:
  assumes "distinct (map rowid rows)"
  shows "distinct (candidates stamp rowid (filter P rows)) \<and> set (candidates stamp rowid (filter P rows)) \<subseteq> rowid ` set rows"
proof -
  have "distinct (map rowid (sort_key (\<lambda>r. (stamp r, rowid r)) (filter P rows)))"
    using assms by (auto simp: distinct_map intro: inj_on_subset)
  then have "distinct (candidates stamp rowid (filter P rows))" unfolding candidates_def take_map [symmetric] by (rule distinct_take)
  then show ?thesis by (auto dest!: candidates_rows)
qed

lemma preview_fields:
  assumes "preview db now owner = Ok plan"
  obtains P Q where "cp_facts plan = candidates fw_accepted fw_rowid (filter P (db_facts db))"
    "cp_tombstones plan = candidates tw_created tw_rowid (filter Q (db_tombstones db))"
    "mr_facts_removed (cp_result plan) = length (cp_facts plan)"
    "mr_tombstones_removed (cp_result plan) = length (cp_tombstones plan)"
proof -
  have bounded: "bounded n = Ok m \<longleftrightarrow> n < 2 ^ 32 \<and> m = n" for n m by (auto simp: bounded_def)
  from assms obtain policy n m where "policy_of db = Ok policy" "count (db_facts db) = Ok n" "count (db_tombstones db) = Ok m"
    by (auto simp only: preview_def and_then_Ok)
  with assms show thesis
    by (auto simp only: preview_def and_then_simps Let_def and_then_Ok bounded sum.inject CleanupPreview.select_convs
        MaintenanceResult.select_convs intro: that)
qed

lemma execute_plan_counts:
  assumes "execute_plan db plan = Ok db'" and "preview db now owner = Ok plan"
    and "distinct (map fw_rowid (db_facts db))" and "distinct (map tw_rowid (db_tombstones db))"
  shows "length (db_facts db') + mr_facts_removed (cp_result plan) = length (db_facts db)
    \<and> length (db_tombstones db') + mr_tombstones_removed (cp_result plan) = length (db_tombstones db)
    \<and> mr_facts_removed (cp_result plan) \<le> 100 \<and> mr_tombstones_removed (cp_result plan) \<le> 100
    \<and> db_attention db' = db_attention db"
proof -
  from assms(1) obtain mid where mid: "remove_tombstones (remove_facts db (cp_facts plan)) (cp_tombstones plan) = Ok mid"
    and db': "db_facts db' = db_facts mid" "db_tombstones db' = db_tombstones mid" "db_attention db' = db_attention mid"
    by (auto simp: execute_plan_def and_then_Ok Let_def)
  have same: "db_facts b = db_facts a \<and> db_attention b = db_attention a"
    if "remove_tombstones a ids = Ok b" for a b ids
    using that
  proof (induction ids arbitrary: a)
    case (Cons i ids)
    then show ?case by (auto simp: and_then_Ok Let_def split: option.splits)
  qed simp
  from preview_fields [OF assms(2)] obtain P Q where plan:
    "cp_facts plan = candidates fw_accepted fw_rowid (filter P (db_facts db))"
    "cp_tombstones plan = candidates tw_created tw_rowid (filter Q (db_tombstones db))"
    "mr_facts_removed (cp_result plan) = length (cp_facts plan)"
    "mr_tombstones_removed (cp_result plan) = length (cp_tombstones plan)" by blast
  have facts: "length (db_facts db') + length (cp_facts plan) = length (db_facts db)"
    using length_removed [OF assms(3), of "cp_facts plan"] candidates_ids [OF assms(3), of fw_accepted P]
      same [OF mid] by (simp add: db' fold_filter_rows plan(1))
  have tombs: "length (db_tombstones db') + length (cp_tombstones plan) = length (db_tombstones db)"
    using length_removed [OF assms(4), of "cp_tombstones plan"] candidates_ids [OF assms(4), of tw_created Q]
      remove_tombstones_kept [OF mid] by (simp add: db' plan(2))
  from facts tombs show ?thesis using same [OF mid] by (simp add: plan db' candidates_bound)
qed

text \<open>C16: Safe cleanup. In any store an engine reached, a served cleanup removes at most a hundred facts and
  a hundred tombstones, exactly as many as it reports, and leaves every attention item; and a turn
  whose tombstone it removed cannot be reopened, because the generation that owned the turn is no
  longer active and no write or commit of it is stored.\<close>

theorem cleanup_is_safe:
  assumes "engine_reachable codec self" and "en_connection self = Some db"
    and "execute codec env self request = (self', Ok (Maintained n res))" and "en_connection self' = Some db'"
  shows "length (db_facts db') + mr_facts_removed res = length (db_facts db)
    \<and> length (db_tombstones db') + mr_tombstones_removed res = length (db_tombstones db)
    \<and> mr_facts_removed res \<le> 100 \<and> mr_tombstones_removed res \<le> 100 \<and> db_attention db' = db_attention db
    \<and> (\<forall>t\<in>set (db_tombstones db) - set (db_tombstones db').
         (\<forall>p\<in>set (db_producers db'). pw_producer p = tw_producer t \<and> pw_generation p = tw_generation t \<longrightarrow> \<not> pw_active p)
         \<and> (\<forall>w s m. ProducerId_as_str (ev_producer_id (rw_fact w)) = tw_producer t
              \<and> ProducerGeneration_as_str (ev_generation (rw_fact w)) = tw_generation t
              \<longrightarrow> apply_write codec db' w \<noteq> Ok (s, m, False))
         \<and> (\<forall>w s m. ProducerId_as_str (ev_producer_id (ws_fact w)) = tw_producer t
              \<and> ProducerGeneration_as_str (ev_generation (ws_fact w)) = tw_generation t
              \<longrightarrow> commit codec db' w \<noteq> Ok (s, m, False)))"
proof -
  from assms(3) obtain old new where step: "en_connection self = Some old" "en_connection self' = Some new"
    "answer_request codec (eo_entropy env) (en_owner self) old request = Ok (new, Maintained n res)"
    by (cases rule: execute_cases) (auto simp: map_ok_Ok)
  with assms(2,4) have d: "answer_request codec (eo_entropy env) (en_owner self) db request = Ok (db', Maintained n res)" by simp
  from reachable_keys [OF assms(1,2)] have keys: "distinct (map tw_rowid (db_tombstones db))"
    "distinct (map fw_rowid (db_facts db))" by simp_all
  from d obtain start mid plan now owner where plan: "preview start now owner = Ok plan" "execute_plan start plan = Ok mid"
    "db' = advance_revision mid n" "res = cp_result plan"
    and start: "db_facts start = db_facts db" "db_tombstones start = db_tombstones db" "db_attention start = db_attention db"
  proof (cases request)
    case (ApplyCleanup v)
    with d obtain mid where "preview db (cp_now v) (cp_owner v) = Ok v" "execute_plan db v = Ok mid"
      "db' = advance_revision mid n" "res = cp_result v"
      by (auto simp: answer_request_def map_ok_Ok apply_cleanup_def and_then_Ok split: if_splits)
    then show thesis by (intro that [of db]) simp_all
  next
    case (Maintain e now h)
    with d obtain plan mid where "preview (db\<lparr> db_history_days := HistoryRetention_days h \<rparr>) now 0 = Ok plan"
      "execute_plan (db\<lparr> db_history_days := HistoryRetention_days h \<rparr>) plan = Ok mid"
      "db' = advance_revision mid n" "res = cp_result plan"
      by (auto simp: answer_request_def map_ok_Ok maintain_def and_then_Ok Let_def)
    then show thesis by (intro that [of "db\<lparr> db_history_days := HistoryRetention_days h \<rparr>"]) simp_all
  qed (use d in \<open>auto simp: answer_request_def map_ok_Ok split: prod.splits\<close>)
  from execute_plan_counts [OF plan(2,1)] keys start
  have counts: "length (db_facts db') + mr_facts_removed res = length (db_facts db)
    \<and> length (db_tombstones db') + mr_tombstones_removed res = length (db_tombstones db)
    \<and> mr_facts_removed res \<le> 100 \<and> mr_tombstones_removed res \<le> 100 \<and> db_attention db' = db_attention db"
    by (simp add: plan(3,4))
  have off: "\<forall>p\<in>set (db_producers db'). pw_producer p = tw_producer t \<and> pw_generation p = tw_generation t \<longrightarrow> \<not> pw_active p"
    if "t \<in> set (db_tombstones db) - set (db_tombstones db')" for t
    using execute_plan_retires [OF plan(2), of t] that keys(1) start by (simp add: plan(3))
  moreover have "apply_write codec db' w \<noteq> Ok (s, m, False)"
    if "t \<in> set (db_tombstones db) - set (db_tombstones db')"
      "ProducerId_as_str (ev_producer_id (rw_fact w)) = tw_producer t
         \<and> ProducerGeneration_as_str (ev_generation (rw_fact w)) = tw_generation t" for t w s m
    by (rule inactive_refuses [OF _ refl refl]) (use off [OF that(1)] that(2) in auto)
  moreover have "commit codec db' w \<noteq> Ok (s, m, False)"
    if "t \<in> set (db_tombstones db) - set (db_tombstones db')"
      "ProducerId_as_str (ev_producer_id (ws_fact w)) = tw_producer t
         \<and> ProducerGeneration_as_str (ev_generation (ws_fact w)) = tw_generation t" for t w s m
    by (rule inactive_refuses_commit [OF _ refl refl]) (use off [OF that(1)] that(2) in auto)
  ultimately show ?thesis using counts by blast
qed

definition cleanup_result :: MaintenanceResult where
  "cleanup_result = \<lparr> mr_facts_removed = 1, mr_tombstones_removed = 1, mr_generations_retired = 1,
     mr_deliveries_expired = 1, mr_more = False \<rparr>"

lemma finish_cleanup:
  "map_ok (\<lambda>(db, n, r). (db_facts db, db_tombstones db, map pw_active (db_producers db), map xw_state (db_outbox db), r))
     (maintain finish_db (Revision 2) 2593000 SevenDays) = Ok ([], [], [False], [3], cleanup_result)"
  by (simp add: maintain_def require_revision_def revision_def preview_def policy_of_def decode_number_number
      finish_db_def sample_reconciled_def initialize_def sample_db_def fact_of_def Revision_checked_next_def checked_add_def
      HistoryRetention_from_days_def HistoryRetention_days_def count_def bounded_def candidates_def saturating_sub_def
      DAY_def MAX_FACTS_def MAX_TOMBSTONES_def next_rowid_def Let_def map_filter_def protected_producer_def
      execute_plan_def retire_one_def degrade_def parse_cell_def add_maintenance_def cleanup_result_def)

lemma finish_maintain:
  obtains db' n where "execute finish_store sample_io finish_engine (Maintain (Revision 2) 2593000 SevenDays)
      = (finish_engine\<lparr> en_connection := Some db' \<rparr>, Ok (Maintained n cleanup_result))"
    "db_tombstones db' = []" "map xw_state (db_outbox db') = [3]"
  using finish_cleanup
  by (auto simp: map_ok_Ok execute_def serve_request_def on_files_def answer_request_def validate_request_def read_only_def sample_io_def finish_engine_def dispatch_def)

lemma cleanup_is_safe_witness:
  "\<exists>self' db' n. execute finish_store sample_io finish_engine (Maintain (Revision 2) 2593000 SevenDays)
       = (self', Ok (Maintained n cleanup_result))
     \<and> en_connection self' = Some db' \<and> db_facts db' = []
     \<and> apply_write finish_store db' finish_write \<noteq> Ok (finish_db, Revision 2, False)"
proof -
  obtain db' n where step: "execute finish_store sample_io finish_engine (Maintain (Revision 2) 2593000 SevenDays)
      = (finish_engine\<lparr> en_connection := Some db' \<rparr>, Ok (Maintained n cleanup_result))" "db_tombstones db' = []"
    by (rule finish_maintain)
  have conn: "en_connection finish_engine = Some finish_db" "en_connection (finish_engine\<lparr> en_connection := Some db' \<rparr>) = Some db'"
    by (simp_all add: finish_engine_def)
  note safe = cleanup_is_safe [OF finish_engine_reachable conn(1) step(1) conn(2)]
  have "hd (db_tombstones finish_db) \<in> set (db_tombstones finish_db) - set (db_tombstones db')"
    by (simp add: step(2) finish_db_def)
  moreover have "ProducerId_as_str (ev_producer_id (rw_fact finish_write)) = tw_producer (hd (db_tombstones finish_db))
      \<and> ProducerGeneration_as_str (ev_generation (rw_fact finish_write)) = tw_generation (hd (db_tombstones finish_db))"
    by (simp add: finish_db_def finish_write_def sample_event_def)
  ultimately have "apply_write finish_store db' finish_write \<noteq> Ok (finish_db, Revision 2, False)" using safe by blast
  moreover have "db_facts db' = []" using safe by (simp add: cleanup_result_def finish_db_def)
  ultimately show ?thesis using step(1) conn(2) by blast
qed



end
