(* ===== verification/Store_Refine.thy ===== *)
theory Store_Refine
  imports Store_Safety
begin

section \<open>Storage refines the owner of a run's lifecycle\<close>

text \<open>
  The specification of \<open>Lifecycle\<close> says what the reducer's caller stores. Here the store is that
  owner: what it hands the reducer is the owner's state, what it writes is the owner after the
  effects, and the write the reducer produced always passes the shape checks. Identifiers are
  values of the Rust newtypes, so their text parses: \<open>event_canonical\<close>.
\<close>

subsection \<open>Canonical values and the represented owner\<close>

definition key_canonical :: "TurnKey \<Rightarrow> bool" where
  "key_canonical key \<longleftrightarrow> canonical_uuid (ProducerId_as_str (tk_producer_id key))
     \<and> canonical_uuid (ProducerGeneration_as_str (tk_generation key))
     \<and> canonical_uuid (RunId_as_str (tk_run_id key)) \<and> opaque (TurnId_as_str (tk_turn_id key)) 256"

definition event_canonical :: "EventEnvelope \<Rightarrow> bool" where
  "event_canonical ev \<longleftrightarrow> canonical_uuid (EventId_as_str (ev_event_id ev))
     \<and> canonical_uuid (ProducerId_as_str (ev_producer_id ev))
     \<and> canonical_uuid (ProducerGeneration_as_str (ev_generation ev))
     \<and> canonical_uuid (RunId_as_str (ev_run_id ev))
     \<and> (\<forall>t. EventPayload_turn_id (ev_event ev) = Some t \<longrightarrow> opaque (TurnId_as_str t) 256)"

definition represents :: "database \<Rightarrow> RunId \<Rightarrow> Owner \<Rightarrow> bool" where
  "represents db run ow \<longleftrightarrow>
     stored_projection db run = Ok (ow_projection ow, ow_current ow)
     \<and> (\<forall>key. tk_run_id key = run \<longrightarrow> stored_tombstone db key = Ok (ow_tombstones ow key))"

lemma represents_new:
  assumes "RunId_as_str run \<notin> jw_run ` set (db_projections db)" and "RunId_as_str run \<notin> tw_run ` set (db_tombstones db)"
  shows "represents db run (new_owner run)"
proof -
  have "find (\<lambda>row. jw_run row = RunId_as_str run) (db_projections db) = None"
    using assms(1) unfolding find_None_iff by (metis imageI)
  moreover have "find (tombstone_matches key) (db_tombstones db) = None" if "tk_run_id key = run" for key
    using assms(2) that unfolding find_None_iff tombstone_matches_def by (metis imageI)
  ultimately show ?thesis by (simp add: represents_def stored_projection_def stored_tombstone_def new_owner_def)
qed

lemma turn_key_run: "turn_key ev = Some key \<Longrightarrow> tk_run_id key = ev_run_id ev"
  by (auto simp: turn_key_def)

text \<open>What the reader hands the reducer.\<close>

lemma context_state:
  assumes "represents db (ev_run_id ev) ow" and "context_of codec db ev = Ok ctx"
  shows "rc_state ctx = owner_state ow ev"
  using assms
  by (auto simp: context_of_def and_then_Ok represents_def owner_state_def turn_key_def split: option.splits prod.splits)

subsection \<open>Writing and reading a projection\<close>

lemma stored_projection_run:
  "stored_projection db run = Ok (p, c) \<Longrightarrow> rp_run_id p = run
     \<and> (\<forall>key. c = Some key \<longrightarrow> tk_run_id key = run \<and> opaque (TurnId_as_str (tk_turn_id key)) 256)"
  by (auto simp: stored_projection_def and_then_Ok transpose_option_Ok parse_cell_Ok TurnId.from_str_Ok
      split: option.splits prod.splits)

lemma stored_projection_cells:
  assumes "find (\<lambda>row. jw_run row = RunId_as_str run) (db_projections db) = Some (projection_cells p c)"
    and "rp_run_id p = run" and "rp_turn_id p = map_option tk_turn_id c"
    and "\<And>key. c = Some key \<Longrightarrow> key_canonical key \<and> tk_run_id key = run"
  shows "stored_projection db run = Ok (p, c)"
proof (cases c)
  case None
  with assms show ?thesis
    by (simp add: stored_projection_def projection_cells_def codec_simps)
next
  case (Some key)
  with assms(4) have key: "key_canonical key" "tk_run_id key = run" by simp_all
  then have "ProducerId_from_str (ProducerId_as_str (tk_producer_id key)) = Ok (tk_producer_id key)"
    "ProducerGeneration_from_str (ProducerGeneration_as_str (tk_generation key)) = Ok (tk_generation key)"
    "TurnId_from_str (TurnId_as_str (tk_turn_id key)) = Ok (tk_turn_id key)"
    by (simp_all add: key_canonical_def ProducerId.parse_as_str Generation.parse_as_str TurnId.parse_as_str)
  with assms(1-3) Some key(2) show ?thesis
    by (simp add: stored_projection_def projection_cells_def codec_simps transpose_option_def parse_cell_def)
qed

lemma write_projection_find:
  assumes "write_projection db p c = Ok db'"
  shows "find (\<lambda>row. jw_run row = s) (db_projections db') =
    (if s = RunId_as_str (rp_run_id p) then Some (projection_cells p c)
     else find (\<lambda>row. jw_run row = s) (db_projections db))"
proof -
  let ?row = "projection_cells p c"
  have run: "jw_run ?row = RunId_as_str (rp_run_id p)" by (simp add: projection_cells_def)
  have upd: "find (\<lambda>row. jw_run row = s) (map (\<lambda>r. if jw_run r = jw_run ?row then ?row else r) rows) =
    (if s = jw_run ?row \<and> (\<exists>r\<in>set rows. jw_run r = jw_run ?row) then Some ?row else find (\<lambda>row. jw_run row = s) rows)" for rows
    by (induction rows) auto
  have app: "find (\<lambda>row. jw_run row = s) (rows @ [?row]) = (if s = jw_run ?row then Some ?row else find (\<lambda>row. jw_run row = s) rows)"
    if "\<forall>r\<in>set rows. jw_run r \<noteq> jw_run ?row" for rows
    using that by (induction rows) auto
  show ?thesis
  proof (cases "list_ex (\<lambda>r. jw_run r = jw_run ?row) (db_projections db)")
    case True
    with assms have "db' = db\<lparr> db_projections := map (\<lambda>r. if jw_run r = jw_run ?row then ?row else r) (db_projections db) \<rparr>"
      by (simp add: write_projection_def Let_def)
    with True upd run show ?thesis by (auto simp: list_ex_iff)
  next
    case False
    with assms have "db' = db\<lparr> db_projections := db_projections db @ [?row] \<rparr>"
      by (auto simp: write_projection_def Let_def and_then_Ok)
    with False app run show ?thesis by (auto simp: list_ex_iff)
  qed
qed

lemma stored_projection_find:
  "find (\<lambda>row. jw_run row = RunId_as_str run) (db_projections a) = find (\<lambda>row. jw_run row = RunId_as_str run) (db_projections b)
     \<Longrightarrow> stored_projection a run = stored_projection b run"
  by (simp add: stored_projection_def)

lemma stored_tombstone_rows: "db_tombstones a = db_tombstones b \<Longrightarrow> stored_tombstone a key = stored_tombstone b key"
  by (simp add: stored_tombstone_def)

subsection \<open>Writing and reading a tombstone\<close>

lemma write_tombstone_stored:
  assumes "write_tombstone db w n = Ok db'"
    and "\<And>item. fx_tombstone (rw_effects w) = Some item \<Longrightarrow> canonical_uuid (EventId_as_str (te_outcome_id item))
        \<and> (\<exists>kind. te_terminal item = Some kind \<and> is_terminal kind)"
  shows "stored_tombstone db' key = (case fx_tombstone (rw_effects w) of
      None \<Rightarrow> stored_tombstone db key
    | Some item \<Rightarrow> if key = te_key item then Ok (Some item) else stored_tombstone db key)"
proof (cases "fx_tombstone (rw_effects w)")
  case None
  with assms(1) show ?thesis by (simp add: write_tombstone_def)
next
  case (Some item)
  from assms(2) [OF Some] obtain kind where kind: "canonical_uuid (EventId_as_str (te_outcome_id item))"
    "te_terminal item = Some kind" "is_terminal kind" by blast
  from assms(1) Some obtain row where none: "stored_tombstone db (te_key item) = Ok None"
    and db': "db_tombstones db' = db_tombstones db @ [row]"
    and row: "tw_producer row = ProducerId_as_str (tk_producer_id (te_key item))"
      "tw_generation row = ProducerGeneration_as_str (tk_generation (te_key item))"
      "tw_run row = RunId_as_str (tk_run_id (te_key item))" "tw_turn_id row = TurnId_as_str (tk_turn_id (te_key item))"
      "tw_event row = EventId_as_str (te_outcome_id item)" "tw_terminal row = Some (turn_code kind)"
    by (auto simp: write_tombstone_def and_then_Ok kind(2) split: if_splits dest!: insert_tombstone_row_frame)
  have matches: "tombstone_matches key row \<longleftrightarrow> key = te_key item" for key
    by (cases key; cases "te_key item")
      (auto simp: tombstone_matches_def row ProducerId.as_str_inj Generation.as_str_inj RunId.as_str_inj TurnId.as_str_inj)
  show ?thesis
  proof (cases "key = te_key item")
    case True
    from none have "find (tombstone_matches (te_key item)) (db_tombstones db) = None"
      by (auto simp: stored_tombstone_def transpose_option_Ok split: option.splits)
    moreover have "decode_tombstone (te_key item) row = Ok item"
      using kind row by (simp add: decode_tombstone_def codec_simps transpose_option_def parse_cell_def EventId.parse_as_str)
    ultimately show ?thesis using Some True
      by (simp add: stored_tombstone_def db' find_simps matches transpose_option_def)
  next
    case False
    then have "find (tombstone_matches key) (db_tombstones db') = find (tombstone_matches key) (db_tombstones db)"
      by (simp add: db' find_simps matches split: option.splits)
    with Some False show ?thesis by (simp add: stored_tombstone_def)
  qed
qed

subsection \<open>One reducer write\<close>

lemma apply_write_represents:
  assumes "represents db run ow" and "event_canonical (rw_fact w)" and "run = ev_run_id (rw_fact w)"
    and "reduce (owner_state ow (rw_fact w)) (rw_fact w) policy = Ok (rw_effects w)"
    and "apply_write codec db w = Ok (db', n, False)"
  shows "represents db' run (store_effects ow (rw_effects w))
    \<and> (\<forall>other ow2. other \<noteq> run \<longrightarrow> represents db other ow2 \<longrightarrow> represents db' other ow2)"
  using assms(5)
proof (rule apply_write_tables, goal_cases)
  case (1 identity)
  let ?fx = "rw_effects w" and ?ev = "rw_fact w"
  from 1(9) obtain db1 where db1: "write_projection db (fx_projection ?fx) (fx_current_turn ?fx) = Ok db1"
    "db_projections db' = db_projections db1" by blast
  from 1(11) obtain a b where tomb: "write_tombstone a w n = Ok b" "db_tombstones a = db_tombstones db"
    "db_tombstones db' = db_tombstones b" by blast
  have ok: "effects_ok ?ev ?fx" by (rule reduce_effects_ok [OF assms(4)])
  have run_eq: "rp_run_id (fx_projection ?fx) = run" using ok assms(3) by (simp add: effects_ok_def)
  have turns: "key_canonical key \<and> tk_run_id key = run" if cur: "fx_current_turn ?fx = Some key" for key
  proof -
    from ok cur have scope: "same_scope key ?ev" by (simp add: effects_ok_def)
    have "ow_current ow = Some key \<or> turn_key ?ev = Some key"
      using reduce_current [OF assms(4) cur] by (auto simp: owner_state_def)
    then have "opaque (TurnId_as_str (tk_turn_id key)) 256"
      using assms(1,2) stored_projection_run [of db run "ow_projection ow" "ow_current ow"]
      by (auto simp: represents_def turn_key_def event_canonical_def)
    with scope assms(2,3) show ?thesis by (simp add: key_canonical_def same_scope_def event_canonical_def)
  qed
  have found: "find (\<lambda>row. jw_run row = RunId_as_str other) (db_projections db') =
      (if other = run then Some (projection_cells (fx_projection ?fx) (fx_current_turn ?fx))
       else find (\<lambda>row. jw_run row = RunId_as_str other) (db_projections db))" for other
    using write_projection_find [OF db1(1), of "RunId_as_str other"] by (simp add: db1(2) run_eq RunId.as_str_inj)
  have proj: "stored_projection db' run = Ok (fx_projection ?fx, fx_current_turn ?fx)"
    by (rule stored_projection_cells) (use found run_eq turns ok in \<open>simp_all add: effects_ok_def\<close>)
  have item: "canonical_uuid (EventId_as_str (te_outcome_id item)) \<and> (\<exists>kind. te_terminal item = Some kind \<and> is_terminal kind)
      \<and> tk_run_id (te_key item) = run"
    if "fx_tombstone ?fx = Some item" for item
    using ok that assms(2,3) turn_key_run [of ?ev "te_key item"] by (simp add: effects_ok_def event_canonical_def)
  have tombs: "stored_tombstone db' key = (case fx_tombstone ?fx of None \<Rightarrow> stored_tombstone db key
      | Some item \<Rightarrow> if key = te_key item then Ok (Some item) else stored_tombstone db key)" for key
    using write_tombstone_stored [OF tomb(1), of key] item stored_tombstone_rows [OF tomb(2)] stored_tombstone_rows [OF tomb(3)]
    by (simp split: option.splits)
  have "represents db' run (store_effects ow ?fx)"
    using proj tombs assms(1) by (auto simp: represents_def store_effects_def split: option.splits)
  moreover have "represents db' other ow2" if "other \<noteq> run" "represents db other ow2" for other ow2
    using that tombs found [of other] stored_projection_find [of other db' db] item
    by (auto simp: represents_def split: option.splits)
  ultimately show ?case by blast
qed

subsection \<open>Serving events from the store\<close>

text \<open>Each event is read with its context, reduced, and the write applied.\<close>

inductive committed_run :: "store_codec \<Rightarrow> database \<Rightarrow> (EventEnvelope \<times> ObservationPolicy) list \<Rightarrow> database \<Rightarrow> bool"
  for codec where
  none: "committed_run codec db [] db"
| more: "context_of codec db (rw_fact w) = Ok ctx \<Longrightarrow> reduce (rc_state ctx) (rw_fact w) policy = Ok (rw_effects w)
    \<Longrightarrow> apply_write codec db w = Ok (mid, n, False) \<Longrightarrow> committed_run codec mid steps db'
    \<Longrightarrow> committed_run codec db ((rw_fact w, policy) # steps) db'"

inductive_cases committed_run_Cons: "committed_run codec db (step # steps) db'"

definition steps_of :: "RunId \<Rightarrow> (EventEnvelope \<times> ObservationPolicy) list \<Rightarrow> bool" where
  "steps_of run steps \<longleftrightarrow> list_all (\<lambda>(ev, policy). event_canonical ev \<and> ev_run_id ev = run) steps"

lemma committed_run_represents:
  "committed_run codec db steps db' \<Longrightarrow> steps_of run steps \<Longrightarrow> represents db run ow
     \<Longrightarrow> \<exists>ow'. owner_run ow steps = Ok ow' \<and> represents db' run ow'
         \<and> (\<forall>other ow2. other \<noteq> run \<longrightarrow> represents db other ow2 \<longrightarrow> represents db' other ow2)"
proof (induction arbitrary: ow rule: committed_run.induct)
  case (more db w ctx policy mid n steps db')
  from more.prems have ev: "event_canonical (rw_fact w)" "ev_run_id (rw_fact w) = run" and rest: "steps_of run steps"
    by (auto simp: steps_of_def)
  from more.prems(2) ev(2) have "rc_state ctx = owner_state ow (rw_fact w)"
    using context_state [OF _ more.hyps(1)] by simp
  with more.hyps(2) have red: "reduce (owner_state ow (rw_fact w)) (rw_fact w) policy = Ok (rw_effects w)" by simp
  note step = apply_write_represents [OF more.prems(2) ev(1) ev(2) [symmetric] red more.hyps(3)]
  then obtain ow' where "owner_run (store_effects ow (rw_effects w)) steps = Ok ow'" "represents db' run ow'"
    "\<forall>other ow2. other \<noteq> run \<longrightarrow> represents mid other ow2 \<longrightarrow> represents db' other ow2"
    using more.IH [OF rest] by blast
  with red step show ?case by (auto simp: owner_apply_def)
qed auto

subsection \<open>Receipts\<close>

text \<open>The bytes of a stored write parse back to its event: what \<open>serde_json\<close> printed, it reads.\<close>

definition reads_back :: "store_codec \<Rightarrow> ReducerWrite \<Rightarrow> bool" where
  "reads_back codec w \<longleftrightarrow> (case sk_reducer_write codec w of None \<Rightarrow> False
     | Some identity \<Rightarrow> decode_fact codec identity = Ok (rw_fact w))"

subsection \<open>Properties\<close>

text \<open>C18: The store implements the owner. When a run's events are served one after another from the store
  (context, reduction, apply), the store ends where the abstract owner ends that accepts the same
  events: the same projection, current turn and tombstones. Other runs keep what they had. In
  particular the stored tombstone of a turn the run began without is the first terminal event
  served for it.\<close>

theorem store_refines_owner:
  assumes "committed_run codec db steps db'" and "steps_of run steps" and "represents db run ow"
  shows "(\<exists>ow'. owner_run ow steps = Ok ow' \<and> represents db' run ow')
    \<and> (\<forall>other ow2. other \<noteq> run \<longrightarrow> represents db other ow2 \<longrightarrow> represents db' other ow2)
    \<and> (\<forall>key. tk_run_id key = run \<and> ow_tombstones ow key = None
         \<longrightarrow> stored_tombstone db' key = Ok (first_terminal steps key))"
proof -
  from committed_run_represents [OF assms] obtain ow' where
    run: "owner_run ow steps = Ok ow'" "represents db' run ow'"
    "\<forall>other ow2. other \<noteq> run \<longrightarrow> represents db other ow2 \<longrightarrow> represents db' other ow2" by blast
  have "stored_tombstone db' key = Ok (first_terminal steps key)" if "tk_run_id key = run" "ow_tombstones ow key = None" for key
    using owner_run_tombstones [OF run(1), of key] that run(2) by (simp add: represents_def)
  with run show ?thesis by blast
qed

definition baseline_owner :: Owner where
  "baseline_owner = \<lparr> ow_projection = sample_baseline, ow_current = None, ow_tombstones = (\<lambda>_. None) \<rparr>"

lemma sample_represents: "represents sample_reconciled sample_run baseline_owner"
  by (simp add: represents_def stored_projection_def stored_tombstone_def sample_reconciled_def initialize_def
      baseline_owner_def sample_baseline_def projection_cells_def codec_simps)

lemma sample_committed: "committed_run finish_store sample_reconciled [(sample_event 1 completed, sample_policy Fresh)] finish_db"
proof -
  have "map_ok (\<lambda>c. reduce (rc_state c) (sample_event 1 completed) (sample_policy Fresh))
      (context_of finish_store sample_reconciled (sample_event 1 completed)) = Ok (Ok finish_effects)" by code_simp
  then obtain ctx where "context_of finish_store sample_reconciled (rw_fact finish_write) = Ok ctx"
    "reduce (rc_state ctx) (rw_fact finish_write) (sample_policy Fresh) = Ok (rw_effects finish_write)"
    by (auto simp: map_ok_Ok finish_write_def)
  from committed_run.more [OF this finish_apply committed_run.none]
  show ?thesis by (simp add: finish_write_def)
qed

lemma sample_steps: "steps_of sample_run [(sample_event 1 completed, sample_policy Fresh)]"
  using sample_canonical by (simp add: steps_of_def event_canonical_def sample_event_def)

lemma store_refines_owner_witness:
  "stored_tombstone finish_db sample_key
     = Ok (first_terminal [(sample_event 1 completed, sample_policy Fresh)] sample_key)"
proof -
  have "tk_run_id sample_key = sample_run \<and> ow_tombstones baseline_owner sample_key = None"
    by (simp add: sample_key_def baseline_owner_def)
  with store_refines_owner [OF sample_committed sample_steps sample_represents] show ?thesis by blast
qed

text \<open>A lost answer can be looked up. Once a write is applied, the receipt of its event is exact and
  carries the revision of that first application, in the store as it is then and in every store
  later writes make of it, whatever became of the producer.\<close>

lemma receipt_is_exact:
  assumes "apply_write codec db w = Ok (db', n, d)" and "applied codec db' later" and "reads_back codec w"
  shows "receipt codec later (rw_fact w) found = Ok (Exact n)"
proof -
  from assms(1) obtain identity row where stored: "sk_reducer_write codec w = Some identity"
    "find (same_fact (rw_fact w)) (db_facts db') = Some row" "fw_write_set row = identity"
    "decode_number (fw_revision row) = Ok (Revision_value n)" by (rule apply_write_stored)
  have "find (same_fact (rw_fact w)) (db_facts later) = Some row" by (rule applied_find [OF assms(2) stored(2)])
  moreover have "decode_fact codec identity = Ok (rw_fact w)" using assms(3) stored(1) by (simp add: reads_back_def)
  ultimately show ?thesis using stored(3,4) by (simp add: receipt_def)
qed

lemma finish_reads_back: "reads_back finish_store finish_write"
proof -
  have frame: "butlast sample_frame @ [newline] = sample_frame" by (simp add: sample_frame_def)
  show ?thesis
    by (simp add: reads_back_def finish_store_def sample_store_def finish_write_def decode_fact_def Value_get_def
        sample_event_def frame sample_parse [unfolded sample_event_def])
qed

lemma receipt_is_exact_witness: "receipt finish_store finish_db (sample_event 1 completed) None = Ok (Exact (Revision 2))"
proof -
  have "rw_fact finish_write = sample_event 1 completed" by (simp add: finish_write_def)
  with receipt_is_exact [OF finish_apply applied.none finish_reads_back, of None] show ?thesis by simp
qed

text \<open>Reduced writes are well formed. A write whose effects are what the reducer returned for its event
  is refused before queueing only for a negative time or for its bytes: for every other reason the
  shape checks have, the reducer's effects satisfy it.\<close>

lemma reduced_writes_validate:
  assumes "reduce state (rw_fact w) policy = Ok (rw_effects w)" and "0 \<le> rw_accepted_at w"
  shows "validate_apply codec w = and_then (encodable codec (rw_fact w)) (\<lambda>_. bounded_bytes (sk_reducer_write codec w))"
proof -
  have ok: "effects_ok (rw_fact w) (rw_effects w)" by (rule reduce_effects_ok [OF assms(1)])
  have "card (reason_code ` set (fx_attention (rw_effects w))) = length (fx_attention (rw_effects w))"
    using ok by (simp add: effects_ok_def card_image inj_on_def distinct_card)
  moreover have "length (fx_attention (rw_effects w)) \<le> 8"
  proof -
    have "set (fx_attention (rw_effects w)) \<subseteq> {Input, NativeApproval, Failure, ConnectionUncertainty, Completion}"
      using AttentionReason.exhaust by auto
    then have "card (set (fx_attention (rw_effects w))) \<le> card {Input, NativeApproval, Failure, ConnectionUncertainty, Completion}"
      by (intro card_mono) simp_all
    also have "\<dots> \<le> 8" by (simp add: card_insert_if)
    finally show ?thesis using ok by (simp add: effects_ok_def distinct_card)
  qed
  moreover have "terminal_kind (rw_fact w) = Some (turn_state (ev_event (rw_fact w)))"
    if "is_terminal (turn_state (ev_event (rw_fact w)))"
    using that by (cases "ev_event (rw_fact w)") (simp_all add: terminal_kind_def)
  moreover have "same_scope key (rw_fact w) \<and> EventPayload_turn_id (ev_event (rw_fact w)) = Some (tk_turn_id key)"
    if "turn_key (rw_fact w) = Some key" for key
    using that by (auto simp: turn_key_def same_scope_def)
  ultimately show ?thesis
    using ok assms(2)
    by (auto simp: validate_apply_def Let_def effects_ok_def split: option.splits)
qed

lemma reduced_writes_validate_witness: "validate_apply finish_store finish_write = and_then (encodable finish_store (rw_fact finish_write))
     (\<lambda>_. bounded_bytes (sk_reducer_write finish_store finish_write))"
proof -
  have "reduce \<lparr> st_projection = sample_baseline, st_current_turn = None, st_tombstone = None \<rparr> (rw_fact finish_write)
      (sample_policy Fresh) = Ok (rw_effects finish_write)" by code_simp
  moreover have "0 \<le> rw_accepted_at finish_write" by (simp add: finish_write_def)
  ultimately show ?thesis by (rule reduced_writes_validate)
qed

end
