(* ===== verification/Worker.thy ===== *)
theory Worker
  imports Store_Invariants
begin

section \<open>The database worker (storage/worker.rs, storage/worker/pending.rs)\<close>

text \<open>
  One thread owns the engine; clients hold tickets. A submission is a number: it names the
  shared \<open>Arc<Pending>\<close>, its envelope and its one-slot reply channel.
  \<^item> \<open>wo_pendings\<close> holds the live \<open>Arc<Pending>\<close> allocations with their strong counts, and
    \<open>wo_count\<close> the atomic counter their permits decrement when the last reference goes.
  \<^item> \<open>wo_channel\<close> holds the queued envelopes, \<open>wo_replies\<close> the reply slots whose receiving
    ticket is alive. \<open>wo_thread\<close> is the position of the loop in \<open>serve\<close>, and the envelope it holds.
  \<^item> The sender half of a reply lives exactly as long as its envelope, queued or in hand.
  A step of a client or of the thread is one function; \<open>worker_step\<close> interleaves them in any order.
  The start of the thread reports through \<open>start\<close>; a panic of the thread is not modelled.
\<close>

datatype SubmitFailure = Invalid StorageError | Full | Stopped

record SubmitError =
  sb_request :: Request
  sb_reason :: SubmitFailure

datatype ReceiptError = Pending | UnknownOutcome | AlreadyReceived | Storage StorageError

record PendingRequest =
  pn_request :: Request
  pn_strong :: nat

record Ticket =
  ti_pending :: nat
  ti_received :: bool

datatype ServeState = Idle | Received nat | Replied nat | Finished

record DatabaseWorker =
  wo_engine :: engine
  wo_thread :: ServeState
  wo_stopping :: bool
  wo_sender :: bool
  wo_count :: nat
  wo_pendings :: "(nat \<times> PendingRequest) list"
  wo_channel :: "nat list"
  wo_replies :: "(nat \<times> (StorageError + Response) option) list"
  wo_next :: nat

definition MAX_OUTSTANDING :: nat where "MAX_OUTSTANDING = 64"

subsection \<open>Starting and stopping\<close>

text \<open>
  \<open>opened\<close> is what \<open>Engine::open\<close> or \<open>Engine::recover_backup\<close> returned in the thread, \<open>arrived\<close>
  whether its report came within \<open>STARTUP_TIMEOUT\<close>; \<open>spawned\<close> whether the thread exists at all.
\<close>

definition start :: "bool \<Rightarrow> bool \<Rightarrow> StorageError + engine \<Rightarrow> StorageError + DatabaseWorker" where
  "start spawned arrived opened =
     (if \<not> spawned then Err PersistenceUnavailable
      else if \<not> arrived then Err PersistenceUnavailable
      else map_ok (\<lambda>engine. \<lparr> wo_engine = engine, wo_thread = Idle, wo_stopping = False,
             wo_sender = True, wo_count = 0, wo_pendings = [], wo_channel = [], wo_replies = [],
             wo_next = 0 \<rparr>) opened)"

definition request_shutdown :: "DatabaseWorker \<Rightarrow> DatabaseWorker" where
  "request_shutdown w = w\<lparr> wo_stopping := True \<rparr>"

definition is_finished :: "DatabaseWorker \<Rightarrow> bool" where
  "is_finished w \<longleftrightarrow> wo_thread w = Finished"

definition worker_drop :: "DatabaseWorker \<Rightarrow> DatabaseWorker" where
  "worker_drop w = (request_shutdown w)\<lparr> wo_sender := False \<rparr>"

subsection \<open>Permits\<close>

text \<open>Dropping one reference to a pending request; the last one drops its permit.\<close>

definition release_pending :: "nat \<Rightarrow> DatabaseWorker \<Rightarrow> DatabaseWorker" where
  "release_pending i w = (case map_of (wo_pendings w) i of
     None \<Rightarrow> w
   | Some p \<Rightarrow>
       if pn_strong p \<le> 1
       then w\<lparr> wo_pendings := AList.delete i (wo_pendings w), wo_count := wo_count w - 1 \<rparr>
       else w\<lparr> wo_pendings := AList.update i (p\<lparr> pn_strong := pn_strong p - 1 \<rparr>) (wo_pendings w) \<rparr>)"

definition outstanding :: "DatabaseWorker \<Rightarrow> nat" where
  "outstanding w = wo_count w"

text \<open>
  A submission: the permit, the two references of envelope and ticket, the send. A refused send
  hands the envelope back; it, the receiver and then the pending itself are dropped.
\<close>

definition unqueued ::
    "DatabaseWorker \<Rightarrow> nat \<Rightarrow> Request \<Rightarrow> SubmitFailure \<Rightarrow> DatabaseWorker \<times> (SubmitError + Ticket)" where
  "unqueued w i request failure =
     (let w = release_pending i w;
          w = release_pending i w
      in (w\<lparr> wo_replies := AList.delete i (wo_replies w) \<rparr>,
          Err \<lparr> sb_request = request, sb_reason = failure \<rparr>))"

definition pool_submit :: "DatabaseWorker \<Rightarrow> Request \<Rightarrow> DatabaseWorker \<times> (SubmitError + Ticket)" where
  "pool_submit w request =
     (if \<not> wo_count w < MAX_OUTSTANDING
      then (w, Err \<lparr> sb_request = request, sb_reason = Full \<rparr>)
      else
        let i = wo_next w;
            w = w\<lparr> wo_count := wo_count w + 1, wo_next := i + 1,
                   wo_pendings := AList.update i \<lparr> pn_request = request, pn_strong = 2 \<rparr> (wo_pendings w),
                   wo_replies := AList.update i None (wo_replies w) \<rparr>
        in if wo_thread w = Finished then unqueued w i request Stopped
           else if MAX_OUTSTANDING \<le> length (wo_channel w) then unqueued w i request Full
           else (w\<lparr> wo_channel := wo_channel w @ [i] \<rparr>, Ok \<lparr> ti_pending = i, ti_received = False \<rparr>))"

definition try_submit ::
    "store_codec \<Rightarrow> DatabaseWorker \<Rightarrow> Request \<Rightarrow> DatabaseWorker \<times> (SubmitError + Ticket)" where
  "try_submit codec w request = (case validate_request codec request of
     Err error \<Rightarrow> (w, Err \<lparr> sb_request = request, sb_reason = Invalid error \<rparr>)
   | Ok _ \<Rightarrow>
       if wo_stopping w then (w, Err \<lparr> sb_request = request, sb_reason = Stopped \<rparr>)
       else pool_submit w request)"

subsection \<open>The serving loop\<close>

definition in_hand :: "DatabaseWorker \<Rightarrow> nat \<Rightarrow> bool" where
  "in_hand w i \<longleftrightarrow> wo_thread w = Received i \<or> wo_thread w = Replied i"

text \<open>Leaving the loop drops the receiver of the channel and every envelope in it.\<close>

definition serve_exit :: "DatabaseWorker \<Rightarrow> DatabaseWorker" where
  "serve_exit w = fold release_pending (wo_channel w) (w\<lparr> wo_thread := Finished, wo_channel := [] \<rparr>)"

definition serve_poll :: "DatabaseWorker \<Rightarrow> DatabaseWorker" where
  "serve_poll w =
     (if wo_thread w \<noteq> Idle then w
      else if wo_stopping w then serve_exit w
      else case wo_channel w of
        i # rest \<Rightarrow> w\<lparr> wo_channel := rest, wo_thread := Received i \<rparr>
      | [] \<Rightarrow> if wo_sender w then w else serve_exit w)"

definition serve_execute :: "store_codec \<Rightarrow> engine_io \<Rightarrow> DatabaseWorker \<Rightarrow> DatabaseWorker" where
  "serve_execute codec env w = (case wo_thread w of
     Received i \<Rightarrow> (case map_of (wo_pendings w) i of
       None \<Rightarrow> w
     | Some p \<Rightarrow> (case execute codec env (wo_engine w) (pn_request p) of (engine, result) \<Rightarrow>
         w\<lparr> wo_engine := engine, wo_thread := Replied i,
            wo_replies := (if contains_key (wo_replies w) i
              then AList.update i (Some result) (wo_replies w) else wo_replies w) \<rparr>))
   | _ \<Rightarrow> w)"

definition serve_release :: "DatabaseWorker \<Rightarrow> DatabaseWorker" where
  "serve_release w = (case wo_thread w of
     Replied i \<Rightarrow> (release_pending i w)\<lparr> wo_thread := Idle \<rparr>
   | _ \<Rightarrow> w)"

subsection \<open>Tickets\<close>

definition Ticket_request :: "DatabaseWorker \<Rightarrow> Ticket \<Rightarrow> Request option" where
  "Ticket_request w t = map_option pn_request (map_of (wo_pendings w) (ti_pending t))"

text \<open>What \<open>recv_timeout\<close> finds when it returns: the reply, a live sender, or none.\<close>

definition wait_timeout ::
    "DatabaseWorker \<Rightarrow> Ticket \<Rightarrow> DatabaseWorker \<times> Ticket \<times> (ReceiptError + Response)" where
  "wait_timeout w t =
     (if ti_received t then (w, t, Err AlreadyReceived)
      else case map_of (wo_replies w) (ti_pending t) of
        Some (Some result) \<Rightarrow>
          (w\<lparr> wo_replies := AList.update (ti_pending t) None (wo_replies w) \<rparr>,
           t\<lparr> ti_received := True \<rparr>, map_err Storage result)
      | _ \<Rightarrow>
          if ti_pending t \<in> set (wo_channel w) \<or> in_hand w (ti_pending t)
          then (w, t, Err ReceiptError.Pending) else (w, t, Err UnknownOutcome))"

definition drop_ticket :: "DatabaseWorker \<Rightarrow> Ticket \<Rightarrow> DatabaseWorker" where
  "drop_ticket w t = release_pending (ti_pending t)
     (w\<lparr> wo_replies := AList.delete (ti_pending t) (wo_replies w) \<rparr>)"

subsection \<open>Interleavings\<close>

text \<open>
  One step of the system, labelled with the ticket it uses. A ticket is used only while it is
  alive; its owner alone does so, which is what the label says.
\<close>

inductive worker_step :: "store_codec \<Rightarrow> DatabaseWorker \<Rightarrow> nat option \<Rightarrow> DatabaseWorker \<Rightarrow> bool" for codec where
  submitted: "try_submit codec w request = (w', x) \<Longrightarrow> worker_step codec w None w'"
| polled: "worker_step codec w None (serve_poll w)"
| ran: "worker_step codec w None (serve_execute codec env w)"
| released: "worker_step codec w None (serve_release w)"
| shut: "worker_step codec w None (request_shutdown w)"
| abandoned: "worker_step codec w None (worker_drop w)"
| waited: "contains_key (wo_replies w) (ti_pending t) \<Longrightarrow> wait_timeout w t = (w', t', x)
    \<Longrightarrow> worker_step codec w (Some (ti_pending t)) w'"
| dropped: "contains_key (wo_replies w) (ti_pending t)
    \<Longrightarrow> worker_step codec w (Some (ti_pending t)) (drop_ticket w t)"

inductive worker_reachable :: "store_codec \<Rightarrow> DatabaseWorker \<Rightarrow> bool" for codec where
  started: "engine_reachable codec engine \<Longrightarrow> start True True (Ok engine) = Ok w \<Longrightarrow> worker_reachable codec w"
| stepped: "worker_reachable codec w \<Longrightarrow> worker_step codec w label w' \<Longrightarrow> worker_reachable codec w'"

text \<open>The steps of everyone but the owner of one ticket.\<close>

inductive others :: "store_codec \<Rightarrow> nat \<Rightarrow> DatabaseWorker \<Rightarrow> DatabaseWorker \<Rightarrow> bool" for codec i w where
  none: "others codec i w w"
| more: "others codec i w w' \<Longrightarrow> worker_step codec w' label w'' \<Longrightarrow> label \<noteq> Some i \<Longrightarrow> others codec i w w''"

inductive_cases worker_step_None: "worker_step codec w None w'"
inductive_cases worker_step_Some: "worker_step codec w (Some i) w'"

subsection \<open>Permits are counted references\<close>

text \<open>
  The references the worker's state shows to a submission: its envelope and its ticket.
  \<open>counted extra\<close> is the ledger with \<open>extra\<close> references about to be dropped.
\<close>

definition enveloped :: "DatabaseWorker \<Rightarrow> nat \<Rightarrow> bool" where
  "enveloped w i \<longleftrightarrow> i \<in> set (wo_channel w) \<or> in_hand w i"

definition references :: "DatabaseWorker \<Rightarrow> nat \<Rightarrow> nat" where
  "references w i = of_bool (enveloped w i) + of_bool (contains_key (wo_replies w) i)"

definition strong :: "DatabaseWorker \<Rightarrow> nat \<Rightarrow> nat" where
  "strong w i = (case map_of (wo_pendings w) i of None \<Rightarrow> 0 | Some p \<Rightarrow> pn_strong p)"

definition counted :: "(nat \<Rightarrow> nat) \<Rightarrow> DatabaseWorker \<Rightarrow> bool" where
  "counted extra w \<longleftrightarrow> distinct_keys (wo_pendings w) \<and> distinct_keys (wo_replies w)
     \<and> wo_count w = length (wo_pendings w) \<and> distinct (wo_channel w)
     \<and> (\<forall>i. in_hand w i \<longrightarrow> i \<notin> set (wo_channel w))
     \<and> (\<forall>i p. map_of (wo_pendings w) i = Some p \<longrightarrow> 0 < pn_strong p)
     \<and> (\<forall>i. strong w i = references w i + extra i)
     \<and> (\<forall>i. wo_next w \<le> i \<longrightarrow> references w i + extra i = 0)"

lemma length_delete:
  "distinct_keys m \<Longrightarrow> map_of m k = Some v \<Longrightarrow> length (AList.delete k m) = length m - 1"
proof (induction m)
  case (Cons a m)
  then show ?case
  proof (cases "fst a = k")
    case True
    with Cons.prems(1) have "map_of m k = None" by (auto simp: distinct_keys_def keys_def map_of_eq_None_iff)
    with True show ?thesis by (simp add: AList.delete_simps delete_absent)
  next
    case False
    with Cons.prems have "map_of m k = Some v" "distinct_keys m" by (auto simp: distinct_keys_def keys_def)
    moreover from this have "m \<noteq> []" by auto
    ultimately show ?thesis using Cons.IH False by (simp add: AList.delete_simps)
  qed
qed simp

lemma release_frame [simp]:
  "wo_channel (release_pending i w) = wo_channel w" "wo_replies (release_pending i w) = wo_replies w"
  "wo_thread (release_pending i w) = wo_thread w" "wo_engine (release_pending i w) = wo_engine w"
  "wo_next (release_pending i w) = wo_next w" "wo_stopping (release_pending i w) = wo_stopping w"
  "wo_sender (release_pending i w) = wo_sender w"
  "enveloped (release_pending i w) = enveloped w" "references (release_pending i w) = references w"
  "in_hand (release_pending i w) = in_hand w"
  by (auto simp: release_pending_def references_def enveloped_def in_hand_def split: option.splits)

lemma release_request:
  "map_of (wo_pendings (release_pending i w)) j = Some p
     \<Longrightarrow> \<exists>q. map_of (wo_pendings w) j = Some q \<and> pn_request p = pn_request q"
  by (auto simp: release_pending_def amap_simps split: option.splits if_splits)

lemma strong_release: "strong (release_pending i w) j = (if j = i then strong w i - 1 else strong w j)"
  by (auto simp: strong_def release_pending_def amap_simps split: option.splits)

lemma release_ledger:
  assumes "distinct_keys (wo_pendings w)" and "wo_count w = length (wo_pendings w)"
    and "\<And>j p. map_of (wo_pendings w) j = Some p \<Longrightarrow> 0 < pn_strong p"
  shows "distinct_keys (wo_pendings (release_pending i w))"
    and "wo_count (release_pending i w) = length (wo_pendings (release_pending i w))"
    and "map_of (wo_pendings (release_pending i w)) j = Some p \<Longrightarrow> 0 < pn_strong p"
  using assms by (auto simp: release_pending_def amap_simps length_delete split: option.splits if_splits)

lemma counted_release:
  assumes "counted extra w" and "0 < extra i"
  shows "counted (extra(i := extra i - 1)) (release_pending i w)"
proof -
  note w = assms(1) [unfolded counted_def]
  from w release_ledger [of w i] show ?thesis
    unfolding counted_def release_frame using assms(2) by (auto simp: strong_release)
qed

lemma counted_releases:
  "counted extra w \<Longrightarrow> distinct ids \<Longrightarrow> (\<And>i. i \<in> set ids \<Longrightarrow> extra i = 1) \<Longrightarrow> (\<And>i. i \<notin> set ids \<Longrightarrow> extra i = 0)
     \<Longrightarrow> counted (\<lambda>_. 0) (fold release_pending ids w)"
proof (induction ids arbitrary: w extra)
  case Nil
  then have "extra = (\<lambda>_. 0)" by auto
  with Nil show ?case by simp
next
  case (Cons i ids)
  from counted_release [OF Cons.prems(1), of i] Cons.prems(3)
  have "counted (extra(i := 0)) (release_pending i w)" by simp
  then have "counted (\<lambda>_. 0) (fold release_pending ids (release_pending i w))"
  proof (rule Cons.IH)
    show "distinct ids" using Cons.prems(2) by simp
    show "(extra(i := 0)) j = 1" if "j \<in> set ids" for j using that Cons.prems(2,3) by auto
    show "(extra(i := 0)) j = 0" if "j \<notin> set ids" for j using that Cons.prems(4) by auto
  qed
  then show ?case by simp
qed

subsection \<open>Answers come from the engine\<close>

definition answered :: "store_codec \<Rightarrow> Request \<Rightarrow> StorageError + Response \<Rightarrow> bool" where
  "answered codec request result \<longleftrightarrow>
     (\<exists>self env. engine_reachable codec self \<and> snd (execute codec env self request) = result)"

definition sound :: "store_codec \<Rightarrow> DatabaseWorker \<Rightarrow> bool" where
  "sound codec w \<longleftrightarrow> engine_reachable codec (wo_engine w) \<and> wo_count w \<le> MAX_OUTSTANDING
     \<and> (\<forall>i p. map_of (wo_pendings w) i = Some p \<longrightarrow> validate_request codec (pn_request p) = Ok ()
          \<and> (\<forall>result. map_of (wo_replies w) i = Some (Some result) \<longrightarrow> answered codec (pn_request p) result))"

definition worker_ok :: "store_codec \<Rightarrow> DatabaseWorker \<Rightarrow> bool" where
  "worker_ok codec w \<longleftrightarrow> counted (\<lambda>_. 0) w \<and> sound codec w"

lemma sound_release: "sound codec w \<Longrightarrow> sound codec (release_pending i w)"
  using release_request [of i w]
  by (fastforce simp: sound_def release_pending_def amap_simps split: option.splits if_splits)

lemma sound_releases: "sound codec w \<Longrightarrow> sound codec (fold release_pending ids w)"
  by (induction ids arbitrary: w) (simp_all add: sound_release)

lemma worker_okD:
  assumes "worker_ok codec w"
  shows "counted (\<lambda>_. 0) w" "sound codec w" "distinct (wo_channel w)" "distinct_keys (wo_replies w)"
    "\<And>i. in_hand w i \<Longrightarrow> i \<notin> set (wo_channel w)"
  using assms by (simp_all add: worker_ok_def counted_def)

lemma counted_frame:
  assumes "counted extra w" and "wo_count w' = wo_count w" "wo_pendings w' = wo_pendings w"
    "wo_next w' = wo_next w" "distinct (wo_channel w')" "\<And>i. in_hand w' i \<Longrightarrow> i \<notin> set (wo_channel w')"
    "distinct_keys (wo_replies w')" "\<And>i. references w i + extra i = references w' i + extra' i"
  shows "counted extra' w'"
proof -
  have "strong w' = strong w" by (simp add: fun_eq_iff strong_def assms(3))
  then show ?thesis using assms unfolding counted_def by auto
qed

lemma worker_ok_exit:
  assumes "worker_ok codec w" and "wo_thread w = Idle" shows "worker_ok codec (serve_exit w)"
proof -
  let ?w = "w\<lparr> wo_thread := Finished, wo_channel := [] \<rparr>"
  have "counted (\<lambda>i. of_bool (i \<in> set (wo_channel w))) ?w"
    by (rule counted_frame [OF worker_okD(1) [OF assms(1)]])
      (auto simp: references_def enveloped_def in_hand_def assms(2) worker_okD(4) [OF assms(1)])
  then have "counted (\<lambda>_. 0) (serve_exit w)" unfolding serve_exit_def
    by (rule counted_releases) (auto simp: worker_okD(3) [OF assms(1)])
  moreover have "sound codec ?w" using worker_okD(2) [OF assms(1)] by (simp add: sound_def)
  ultimately show ?thesis by (simp add: worker_ok_def serve_exit_def sound_releases)
qed

lemma worker_ok_poll: assumes "worker_ok codec w" shows "worker_ok codec (serve_poll w)"
proof (cases "wo_thread w = Idle \<and> \<not> wo_stopping w \<and> wo_channel w \<noteq> []")
  case True
  then obtain i rest where c: "wo_channel w = i # rest" by (cases "wo_channel w") auto
  have "counted (\<lambda>_. 0) (w\<lparr> wo_channel := rest, wo_thread := Received i \<rparr>)"
    using worker_okD(3,4) [OF assms] True c
    by (intro counted_frame [OF worker_okD(1) [OF assms]]) (auto simp: references_def enveloped_def in_hand_def)
  with assms True c show ?thesis by (simp add: serve_poll_def worker_ok_def sound_def)
next
  case False
  then show ?thesis using assms worker_ok_exit [OF assms]
    by (auto simp: serve_poll_def split: list.splits)
qed

lemma worker_ok_execute: assumes "worker_ok codec w" shows "worker_ok codec (serve_execute codec env w)"
proof (cases "\<exists>i p. wo_thread w = Received i \<and> map_of (wo_pendings w) i = Some p")
  case True
  then obtain i p where i: "wo_thread w = Received i" "map_of (wo_pendings w) i = Some p" by blast
  obtain engine result where e: "execute codec env (wo_engine w) (pn_request p) = (engine, result)"
    by (cases "execute codec env (wo_engine w) (pn_request p)")
  have here: "engine_reachable codec (wo_engine w)" using assms by (simp add: worker_ok_def sound_def)
  have reach: "engine_reachable codec engine" by (rule engine_reachable.executed [OF here e])
  have ans: "answered codec (pn_request p) result" using here e by (metis answered_def snd_conv)
  have eq: "serve_execute codec env w = w\<lparr> wo_engine := engine, wo_thread := Replied i,
      wo_replies := (if contains_key (wo_replies w) i then AList.update i (Some result) (wo_replies w) else wo_replies w) \<rparr>"
    by (simp add: serve_execute_def i e)
  have "counted (\<lambda>_. 0) (serve_execute codec env w)"
    using worker_okD(3-5) [OF assms] i unfolding eq by (intro counted_frame [OF worker_okD(1) [OF assms]])
      (auto simp: references_def enveloped_def in_hand_def contains_key_def map_of_update)
  moreover have "sound codec (serve_execute codec env w)"
    using assms reach ans i unfolding eq by (auto simp: worker_ok_def sound_def amap_simps)
  ultimately show ?thesis by (simp add: worker_ok_def)
next
  case False
  then have "serve_execute codec env w = w"
    by (auto simp: serve_execute_def split: ServeState.splits option.splits)
  with assms show ?thesis by simp
qed

lemma worker_ok_release: assumes "worker_ok codec w" shows "worker_ok codec (serve_release w)"
proof (cases "\<exists>i. wo_thread w = Replied i")
  case True
  then obtain i where i: "wo_thread w = Replied i" by blast
  let ?w = "w\<lparr> wo_thread := Idle \<rparr>"
  have eq: "serve_release w = release_pending i ?w"
    by (simp add: serve_release_def i release_pending_def split: option.splits)
  have hand: "in_hand w i" by (simp add: in_hand_def i)
  have "counted (\<lambda>j. of_bool (j = i)) ?w"
    using worker_okD(3-5) [OF assms] i hand by (intro counted_frame [OF worker_okD(1) [OF assms]])
      (auto simp: references_def enveloped_def in_hand_def)
  from counted_release [OF this, of i] have "counted (\<lambda>_. 0) (release_pending i ?w)"
    by (simp add: fun_upd_def of_bool_def cong: if_cong)
  moreover have "sound codec ?w" using worker_okD(2) [OF assms] by (simp add: sound_def)
  ultimately show ?thesis by (simp add: worker_ok_def eq sound_release)
next
  case False
  then have "serve_release w = w" by (auto simp: serve_release_def split: ServeState.splits)
  with assms show ?thesis by simp
qed

lemma worker_ok_drop:
  assumes "worker_ok codec w" and "contains_key (wo_replies w) (ti_pending t)"
  shows "worker_ok codec (drop_ticket w t)"
proof -
  let ?i = "ti_pending t"
  let ?w = "w\<lparr> wo_replies := AList.delete ?i (wo_replies w) \<rparr>"
  have "counted (\<lambda>j. of_bool (j = ?i)) ?w"
    using worker_okD(3-5) [OF assms(1)] assms(2) by (intro counted_frame [OF worker_okD(1) [OF assms(1)]])
      (auto simp: references_def enveloped_def in_hand_def contains_key_def map_of_delete)
  from counted_release [OF this, of ?i] have "counted (\<lambda>_. 0) (drop_ticket w t)"
    by (simp add: drop_ticket_def fun_upd_def of_bool_def cong: if_cong)
  moreover have "sound codec ?w" using worker_okD(2) [OF assms(1)] by (auto simp: sound_def map_of_delete)
  ultimately show ?thesis by (simp add: worker_ok_def drop_ticket_def sound_release)
qed

lemma wait_timeout_cases:
  assumes "wait_timeout w t = (w', t', x)"
  obtains (consumed) "ti_received t" "w' = w" "t' = t" "x = Err AlreadyReceived"
  | (delivered) result where "\<not> ti_received t" "map_of (wo_replies w) (ti_pending t) = Some (Some result)"
      "w' = w\<lparr> wo_replies := AList.update (ti_pending t) None (wo_replies w) \<rparr>"
      "t' = t\<lparr> ti_received := True \<rparr>" "x = map_err Storage result"
  | (unanswered) "\<not> ti_received t" "w' = w" "t' = t" "enveloped w (ti_pending t)" "x = Err ReceiptError.Pending"
  | (lost) "\<not> ti_received t" "w' = w" "t' = t" "\<not> enveloped w (ti_pending t)" "x = Err UnknownOutcome"
proof (cases "ti_received t")
  case True
  then have "wait_timeout w t = (w, t, Err AlreadyReceived)" by (simp add: wait_timeout_def)
  then show ?thesis using consumed [OF True] assms by (simp only: prod.inject)
next
  case False
  show ?thesis
  proof (cases "\<exists>result. map_of (wo_replies w) (ti_pending t) = Some (Some result)")
    case True
    then obtain result where r: "map_of (wo_replies w) (ti_pending t) = Some (Some result)" by blast
    have "wait_timeout w t = (w\<lparr> wo_replies := AList.update (ti_pending t) None (wo_replies w) \<rparr>,
        t\<lparr> ti_received := True \<rparr>, map_err Storage result)"
      by (simp add: wait_timeout_def False r)
    then show ?thesis using delivered [OF False r] assms by (simp only: prod.inject)
  next
    case none: False
    then have "wait_timeout w t = (w, t, Err (if enveloped w (ti_pending t) then ReceiptError.Pending else UnknownOutcome))"
      using False by (auto simp: wait_timeout_def enveloped_def split: option.splits)
    then show ?thesis using assms unanswered [OF False] lost [OF False]
      by (cases "enveloped w (ti_pending t)") (simp_all only: prod.inject if_True if_False simp_thms)
  qed
qed

lemma worker_ok_wait:
  assumes "worker_ok codec w" and "contains_key (wo_replies w) (ti_pending t)" and "wait_timeout w t = (w', t', x)"
  shows "worker_ok codec w'"
  using assms(3)
proof (cases rule: wait_timeout_cases)
  case (delivered result)
  have "counted (\<lambda>_. 0) w'"
    using worker_okD(3-5) [OF assms(1)] assms(2) delivered by (intro counted_frame [OF worker_okD(1) [OF assms(1)]])
      (auto simp: references_def enveloped_def in_hand_def contains_key_def map_of_update)
  moreover have "sound codec w'" using worker_okD(2) [OF assms(1)] delivered by (auto simp: sound_def map_of_update)
  ultimately show ?thesis by (simp add: worker_ok_def)
qed (use assms(1) in simp_all)

text \<open>Of a submission, every branch at once; the refusals leave the worker as it was.\<close>

definition enqueued :: "DatabaseWorker \<Rightarrow> Request \<Rightarrow> DatabaseWorker" where
  "enqueued w request = w\<lparr> wo_count := wo_count w + 1, wo_next := wo_next w + 1,
     wo_pendings := AList.update (wo_next w) \<lparr> pn_request = request, pn_strong = 2 \<rparr> (wo_pendings w),
     wo_replies := AList.update (wo_next w) None (wo_replies w), wo_channel := wo_channel w @ [wo_next w] \<rparr>"

lemma fresh_id:
  assumes "worker_ok codec w"
  shows "map_of (wo_pendings w) (wo_next w) = None" "map_of (wo_replies w) (wo_next w) = None" "\<not> enveloped w (wo_next w)"
proof -
  from worker_okD(1) [OF assms] have "references w (wo_next w) = 0" "strong w (wo_next w) = 0"
    "\<And>p. map_of (wo_pendings w) (wo_next w) = Some p \<Longrightarrow> 0 < pn_strong p"
    by (auto simp: counted_def)
  then show "map_of (wo_pendings w) (wo_next w) = None" "map_of (wo_replies w) (wo_next w) = None"
    "\<not> enveloped w (wo_next w)"
    by (auto simp: references_def strong_def contains_key_def split: option.splits)
qed

lemma worker_ok_enqueued:
  assumes "worker_ok codec w" and "wo_count w < MAX_OUTSTANDING" and "validate_request codec request = Ok ()"
  shows "worker_ok codec (enqueued w request)"
proof -
  note fresh = fresh_id [OF assms(1)] and w = worker_okD(1) [OF assms(1), unfolded counted_def]
  have refs: "references (enqueued w request) i = (if i = wo_next w then 2 else references w i)" for i
    using fresh by (auto simp: references_def enveloped_def in_hand_def enqueued_def contains_key_def map_of_update)
  have str: "strong (enqueued w request) i = (if i = wo_next w then 2 else strong w i)" for i
    by (simp add: strong_def enqueued_def map_of_update)
  have "counted (\<lambda>_. 0) (enqueued w request)"
    unfolding counted_def refs str using w fresh
    by (auto simp: enqueued_def map_of_update length_update enveloped_def in_hand_def)
  moreover have "sound codec (enqueued w request)"
    using worker_okD(2) [OF assms(1)] assms(2,3) by (auto simp: sound_def enqueued_def map_of_update)
  ultimately show ?thesis by (simp add: worker_ok_def)
qed

lemma channel_bounded:
  assumes "worker_ok codec w" shows "length (wo_channel w) \<le> wo_count w"
proof -
  note w = worker_okD(1) [OF assms, unfolded counted_def]
  have "set (wo_channel w) \<subseteq> set (keys (wo_pendings w))"
  proof
    fix i assume "i \<in> set (wo_channel w)"
    then have "0 < references w i" by (simp add: references_def enveloped_def)
    with w have "strong w i \<noteq> 0" by simp
    then have "contains_key (wo_pendings w) i" by (simp add: strong_def contains_key_def split: option.splits)
    then show "i \<in> set (keys (wo_pendings w))" by (simp add: contains_key_iff)
  qed
  then have "card (set (wo_channel w)) \<le> length (keys (wo_pendings w))"
    by (meson card_length card_mono finite_set order.trans)
  with w show ?thesis by (simp add: distinct_card keys_def)
qed

lemma try_submit_cases:
  assumes "worker_ok codec w" and "try_submit codec w request = (w', x)"
  obtains (refused) failure where "w' = w" "x = Err \<lparr> sb_request = request, sb_reason = failure \<rparr>"
      "validate_request codec request \<noteq> Ok () \<and> (\<exists>e. failure = Invalid e \<and> validate_request codec request = Err e)
       \<or> validate_request codec request = Ok () \<and> wo_stopping w \<and> failure = Stopped
       \<or> validate_request codec request = Ok () \<and> \<not> wo_stopping w \<and> wo_count w = MAX_OUTSTANDING \<and> failure = Full"
  | (closed) "w' = w\<lparr> wo_next := wo_next w + 1 \<rparr>" "x = Err \<lparr> sb_request = request, sb_reason = Stopped \<rparr>"
      "validate_request codec request = Ok ()" "\<not> wo_stopping w" "wo_thread w = Finished" "wo_count w < MAX_OUTSTANDING"
  | (accepted) "w' = enqueued w request" "x = Ok \<lparr> ti_pending = wo_next w, ti_received = False \<rparr>"
      "validate_request codec request = Ok ()" "\<not> wo_stopping w" "wo_thread w \<noteq> Finished" "wo_count w < MAX_OUTSTANDING"
proof (cases "validate_request codec request = Ok () \<and> \<not> wo_stopping w \<and> wo_count w < MAX_OUTSTANDING")
  case False
  have "wo_count w \<le> MAX_OUTSTANDING" using worker_okD(2) [OF assms(1)] by (simp add: sound_def)
  with False show ?thesis using assms(2) refused
    by (cases "validate_request codec request") (auto simp: try_submit_def pool_submit_def split: if_splits)
next
  case True
  note fresh = fresh_id [OF assms(1)]
  have room: "length (wo_channel w) < MAX_OUTSTANDING" using channel_bounded [OF assms(1)] True by simp
  show ?thesis
  proof (cases "wo_thread w = Finished")
    case fin: True
    have "(w', x) = (w\<lparr> wo_next := wo_next w + 1 \<rparr>, Err \<lparr> sb_request = request, sb_reason = Stopped \<rparr>)"
      using assms(2) True fin fresh
      by (simp add: try_submit_def pool_submit_def unqueued_def release_pending_def Let_def map_of_update
          update_update delete_update_new)
    then show ?thesis using closed True fin by simp
  next
    case live: False
    then show ?thesis using assms(2) True room accepted
      by (auto simp: try_submit_def pool_submit_def Let_def enqueued_def)
  qed
qed

lemma worker_ok_next:
  assumes "worker_ok codec w" shows "worker_ok codec (w\<lparr> wo_next := wo_next w + 1 \<rparr>)"
  using worker_okD(1) [OF assms] worker_okD(2) [OF assms]
  by (simp add: worker_ok_def sound_def counted_def references_def enveloped_def in_hand_def strong_def contains_key_def)

lemma worker_ok_submit:
  assumes "worker_ok codec w" and "try_submit codec w request = (w', x)" shows "worker_ok codec w'"
  using assms
proof (cases rule: try_submit_cases)
  case closed
  then show ?thesis using worker_ok_next [OF assms(1)] by simp
next
  case accepted
  then show ?thesis using worker_ok_enqueued [OF assms(1)] by simp
qed (use assms(1) in simp)

lemma worker_ok_shut: "worker_ok codec w \<Longrightarrow> worker_ok codec (request_shutdown w)"
  and worker_ok_abandon: "worker_ok codec w \<Longrightarrow> worker_ok codec (worker_drop w)"
  by (simp_all add: worker_drop_def request_shutdown_def worker_ok_def sound_def counted_def references_def
      enveloped_def in_hand_def strong_def)

lemma worker_ok_step: "worker_step codec w label w' \<Longrightarrow> worker_ok codec w \<Longrightarrow> worker_ok codec w'"
  by (erule worker_step.cases)
    (blast intro: worker_ok_submit worker_ok_poll worker_ok_execute worker_ok_release worker_ok_wait worker_ok_drop
      worker_ok_shut worker_ok_abandon)+

lemma worker_reachable_ok: "worker_reachable codec w \<Longrightarrow> worker_ok codec w"
proof (induction rule: worker_reachable.induct)
  case (started engine w)
  then show ?case
    by (auto simp: start_def worker_ok_def sound_def counted_def references_def enveloped_def in_hand_def
        strong_def contains_key_def MAX_OUTSTANDING_def)
next
  case (stepped w label w')
  then show ?case using worker_ok_step by blast
qed

subsection \<open>A ticket stays what it is\<close>

definition holds :: "DatabaseWorker \<Rightarrow> Ticket \<Rightarrow> bool" where
  "holds w t \<longleftrightarrow> contains_key (wo_replies w) (ti_pending t)"

lemma releases_frame [simp]: "wo_replies (fold release_pending ids w) = wo_replies w"
  "wo_engine (fold release_pending ids w) = wo_engine w" "wo_thread (fold release_pending ids w) = wo_thread w"
  "wo_channel (fold release_pending ids w) = wo_channel w"
  by (induction ids arbitrary: w) simp_all

lemma releases_request:
  "map_of (wo_pendings (fold release_pending ids w)) j = Some p
     \<Longrightarrow> \<exists>q. map_of (wo_pendings w) j = Some q \<and> pn_request p = pn_request q"
proof (induction ids arbitrary: w)
  case (Cons a ids)
  from Cons.prems have "map_of (wo_pendings (fold release_pending ids (release_pending a w))) j = Some p" by simp
  from Cons.IH [OF this] show ?case by (metis release_request)
qed simp

lemma held_pending:
  assumes "worker_ok codec w" and "contains_key (wo_replies w) i"
  obtains p where "map_of (wo_pendings w) i = Some p"
proof -
  have "0 < strong w i"
    using worker_okD(1) [OF assms(1)] assms(2) by (simp add: counted_def references_def)
  then show ?thesis using that by (simp add: strong_def split: option.splits)
qed

lemma submit_keeps:
  assumes "worker_ok codec w" "try_submit codec w request = (w', x)" "contains_key (wo_replies w) i"
  shows "contains_key (wo_replies w') i \<and> map_of (wo_pendings w') i = map_of (wo_pendings w) i"
proof -
  have new: "i \<noteq> wo_next w" using fresh_id(2) [OF assms(1)] assms(3) by (auto simp: contains_key_def)
  show ?thesis
    using assms(1,2)
  proof (cases rule: try_submit_cases)
    case accepted
    then show ?thesis using new assms(3) by (simp add: enqueued_def contains_key_def map_of_update)
  qed (use assms(3) in simp_all)
qed

lemma exit_keeps:
  "wo_replies (serve_exit w) = wo_replies w"
  "map_of (wo_pendings (serve_exit w)) i = Some p \<Longrightarrow> \<exists>q. map_of (wo_pendings w) i = Some q \<and> pn_request p = pn_request q"
  by (auto simp: serve_exit_def dest!: releases_request)

lemma poll_keeps:
  "wo_replies (serve_poll w) = wo_replies w"
  "map_of (wo_pendings (serve_poll w)) i = Some p \<Longrightarrow> \<exists>q. map_of (wo_pendings w) i = Some q \<and> pn_request p = pn_request q"
  using exit_keeps by (auto simp: serve_poll_def split: list.splits if_splits)

lemma execute_keeps:
  "contains_key (wo_replies (serve_execute codec env w)) i = contains_key (wo_replies w) i"
  "wo_pendings (serve_execute codec env w) = wo_pendings w"
  by (auto simp: serve_execute_def contains_key_def map_of_update split: ServeState.splits option.splits prod.splits)

lemma serve_release_keeps:
  "wo_replies (serve_release w) = wo_replies w"
  "map_of (wo_pendings (serve_release w)) i = Some p \<Longrightarrow> \<exists>q. map_of (wo_pendings w) i = Some q \<and> pn_request p = pn_request q"
  by (auto simp: serve_release_def dest!: release_request split: ServeState.splits)

lemma drop_keeps:
  "wo_replies (drop_ticket w t) = AList.delete (ti_pending t) (wo_replies w)"
  "map_of (wo_pendings (drop_ticket w t)) i = Some p \<Longrightarrow> \<exists>q. map_of (wo_pendings w) i = Some q \<and> pn_request p = pn_request q"
  by (auto simp: drop_ticket_def dest!: release_request)

lemma wait_keeps:
  assumes "wait_timeout w t = (w', t', x)"
  shows "ti_pending t' = ti_pending t" "wo_pendings w' = wo_pendings w"
    "contains_key (wo_replies w') i = contains_key (wo_replies w) i"
  using assms by (cases rule: wait_timeout_cases; simp add: contains_key_def map_of_update)+

lemma step_keeps:
  assumes "worker_step codec w label w'" and "worker_ok codec w" and "label \<noteq> Some i" and "contains_key (wo_replies w) i"
  shows "contains_key (wo_replies w') i
    \<and> map_option pn_request (map_of (wo_pendings w') i) = map_option pn_request (map_of (wo_pendings w) i)"
proof -
  have both: "contains_key (wo_replies w') i
      \<and> (\<forall>p. map_of (wo_pendings w') i = Some p \<longrightarrow> (\<exists>q. map_of (wo_pendings w) i = Some q \<and> pn_request p = pn_request q))"
    using assms(1)
  proof (cases rule: worker_step.cases)
    case (submitted request x)
    then show ?thesis
      using submit_keeps assms(2,4) by metis
  next
    case (waited t t' x)
    then show ?thesis using wait_keeps [OF waited(3)] assms(4) by simp
  next
    case (dropped t)
    then show ?thesis using drop_keeps(1) [of w t] drop_keeps(2) [of w t] assms(3,4)
      by (auto simp: contains_key_def map_of_delete)
  qed (use assms(4) poll_keeps execute_keeps serve_release_keeps in
      \<open>auto simp: request_shutdown_def worker_drop_def\<close>)
  then obtain p where "map_of (wo_pendings w') i = Some p"
    using held_pending [OF worker_ok_step [OF assms(1,2)]] by blast
  with both show ?thesis by auto
qed

subsection \<open>The ticket service\<close>

text \<open>
  What a client of the worker relies on: a submission answers with a ticket for exactly that request; the
  ticket survives whatever everyone else does, and every poll of it; and a final answer is an
  answer to the request, given once.
\<close>

locale ticket_service =
  fixes good :: "'s \<Rightarrow> bool" and held :: "'s \<Rightarrow> 't \<Rightarrow> bool" and asked :: "'s \<Rightarrow> 't \<Rightarrow> 'q option"
    and submit :: "'s \<Rightarrow> 'q \<Rightarrow> 's \<times> ('f + 't)" and wait :: "'s \<Rightarrow> 't \<Rightarrow> 's \<times> 't \<times> 'r"
    and aside :: "'t \<Rightarrow> 's \<Rightarrow> 's \<Rightarrow> bool" and final :: "'r \<Rightarrow> bool" and answer :: "'q \<Rightarrow> 'r \<Rightarrow> bool"
    and spent :: "'t \<Rightarrow> bool"
  assumes submit_ticket: "good s \<Longrightarrow> submit s q = (s', Ok t)
      \<Longrightarrow> good s' \<and> held s' t \<and> asked s' t = Some q"
    and aside_keeps: "good s \<Longrightarrow> held s t \<Longrightarrow> aside t s s'
      \<Longrightarrow> good s' \<and> held s' t \<and> asked s' t = asked s t"
    and wait_law: "good s \<Longrightarrow> held s t \<Longrightarrow> wait s t = (s', t', r)
      \<Longrightarrow> good s' \<and> held s' t' \<and> asked s' t' = asked s t \<and> (spent t \<longrightarrow> spent t')
        \<and> (final r \<longrightarrow> \<not> spent t \<and> spent t' \<and> (\<exists>q. asked s t = Some q \<and> answer q r))"
begin

end

text \<open>A client's history with one ticket: its polls, and what happens between them.\<close>

inductive polls :: "('s \<Rightarrow> 't \<Rightarrow> 's \<times> 't \<times> 'r) \<Rightarrow> ('t \<Rightarrow> 's \<Rightarrow> 's \<Rightarrow> bool) \<Rightarrow> 's \<Rightarrow> 't \<Rightarrow> 's \<Rightarrow> 't \<Rightarrow> bool"
  for wait aside s t where
  fresh: "polls wait aside s t s t"
| meanwhile: "polls wait aside s t s' t' \<Longrightarrow> aside t' s' s'' \<Longrightarrow> polls wait aside s t s'' t'"
| again: "polls wait aside s t s' t' \<Longrightarrow> wait s' t' = (s'', t'', r) \<Longrightarrow> polls wait aside s t s'' t''"

context ticket_service
begin

lemma polls_keep:
  assumes "polls wait aside s t s' t'" and "good s" and "held s t"
  shows "good s' \<and> held s' t' \<and> asked s' t' = asked s t \<and> (spent t \<longrightarrow> spent t')"
  using assms(1)
proof (induction rule: polls.induct)
  case (meanwhile s' t' s'')
  with aside_keeps [of s' t' s''] show ?case by simp
next
  case (again s' t' s'' t'' r)
  with wait_law [of s' t' s'' t'' r] show ?case by simp
qed (simp add: assms)

text \<open>Whatever happens between a submission and its final answer, the answer is to that request.\<close>

lemma final_answers_request:
  assumes "good s" and "submit s q = (s0, Ok t)" and "polls wait aside s0 t s' t'"
    and "wait s' t' = (s'', t'', r)" and "final r"
  shows "answer q r"
  using submit_ticket [OF assms(1,2)] polls_keep [OF assms(3)] wait_law [of s' t' s'' t'' r] assms(4,5)
  by auto

text \<open>And there is no second one.\<close>

lemma final_once:
  assumes "good s" and "held s t" and "wait s t = (s0, t0, r0)" and "final r0"
    and "polls wait aside s0 t0 s' t'" and "wait s' t' = (s'', t'', r)"
  shows "\<not> final r"
proof -
  have "good s0 \<and> held s0 t0 \<and> spent t0" using wait_law [OF assms(1-3)] assms(4) by simp
  with polls_keep [OF assms(5)] wait_law [of s' t' s'' t'' r] assms(6) show ?thesis by auto
qed

end

text \<open>The worker provides it.\<close>

definition final_receipt :: "ReceiptError + Response \<Rightarrow> bool" where
  "final_receipt x = (case x of Ok _ \<Rightarrow> True | Err (Storage _) \<Rightarrow> True | Err _ \<Rightarrow> False)"

definition receipt_answers :: "store_codec \<Rightarrow> Request \<Rightarrow> ReceiptError + Response \<Rightarrow> bool" where
  "receipt_answers codec request x \<longleftrightarrow> (\<exists>result. x = map_err Storage result \<and> answered codec request result)"

lemma others_keep:
  assumes "others codec i w w'" and "worker_ok codec w" and "contains_key (wo_replies w) i"
  shows "worker_ok codec w' \<and> contains_key (wo_replies w') i
    \<and> map_option pn_request (map_of (wo_pendings w') i) = map_option pn_request (map_of (wo_pendings w) i)"
  using assms(1)
proof (induction rule: others.induct)
  case (more w' label w'')
  then show ?case using step_keeps [of codec w' label w'' i] worker_ok_step [of codec w' label w''] assms by auto
qed (use assms in simp)

interpretation db_worker: ticket_service "worker_ok codec" holds Ticket_request "try_submit codec" wait_timeout
  "\<lambda>t. others codec (ti_pending t)" final_receipt "receipt_answers codec" ti_received for codec
proof
  fix w q w' t
  assume ok: "worker_ok codec w" and sub: "try_submit codec w q = (w', Ok t)"
  from sub show "worker_ok codec w' \<and> holds w' t \<and> Ticket_request w' t = Some q"
    using worker_ok_submit [OF ok sub]
    by (cases rule: try_submit_cases [OF ok])
      (auto simp: holds_def Ticket_request_def enqueued_def contains_key_def map_of_update)
next
  fix w t w'
  assume "worker_ok codec w" "holds w t" "others codec (ti_pending t) w w'"
  then show "worker_ok codec w' \<and> holds w' t \<and> Ticket_request w' t = Ticket_request w t"
    using others_keep [of codec "ti_pending t" w w'] by (simp add: holds_def Ticket_request_def)
next
  fix w t w' t' r
  assume ok: "worker_ok codec w" and held: "holds w t" and wait: "wait_timeout w t = (w', t', r)"
  from held_pending [OF ok held [unfolded holds_def]] obtain p where p: "map_of (wo_pendings w) (ti_pending t) = Some p" .
  have ok': "worker_ok codec w'" using worker_ok_wait [OF ok held [unfolded holds_def] wait] .
  have "(ti_received t \<longrightarrow> ti_received t') \<and> (final_receipt r \<longrightarrow> \<not> ti_received t \<and> ti_received t' \<and> receipt_answers codec (pn_request p) r)"
    using wait
  proof (cases rule: wait_timeout_cases)
    case (delivered result)
    then have "answered codec (pn_request p) result"
      using worker_okD(2) [OF ok] p by (auto simp: sound_def)
    then show ?thesis using delivered by (auto simp: receipt_answers_def)
  qed (simp_all add: final_receipt_def)
  then show "worker_ok codec w' \<and> holds w' t' \<and> Ticket_request w' t' = Ticket_request w t
      \<and> (ti_received t \<longrightarrow> ti_received t') \<and> (final_receipt r \<longrightarrow> \<not> ti_received t \<and> ti_received t'
        \<and> (\<exists>q. Ticket_request w t = Some q \<and> receipt_answers codec q r))"
    using ok' held p wait_keeps [OF wait] by (simp add: holds_def Ticket_request_def)
qed

subsection \<open>The loop makes progress\<close>

definition serve_round :: "store_codec \<Rightarrow> engine_io \<Rightarrow> DatabaseWorker \<Rightarrow> DatabaseWorker" where
  "serve_round codec env w = serve_release (serve_execute codec env (serve_poll w))"

lemma serve_round_reachable: "worker_reachable codec w \<Longrightarrow> worker_reachable codec (serve_round codec env w)"
  unfolding serve_round_def by (blast intro: worker_reachable.stepped worker_step.intros)

lemma serve_round_head:
  assumes ok: "worker_ok codec w" and state: "wo_thread w = Idle" "\<not> wo_stopping w" "wo_channel w = i # rest"
  shows "wo_thread (serve_round codec env w) = Idle" "\<not> wo_stopping (serve_round codec env w)"
    "wo_channel (serve_round codec env w) = rest"
    "contains_key (wo_replies (serve_round codec env w)) j = contains_key (wo_replies w) j"
    "contains_key (wo_replies w) i \<Longrightarrow> \<exists>r. map_of (wo_replies (serve_round codec env w)) i = Some (Some r)"
    "j \<noteq> i \<Longrightarrow> map_of (wo_replies (serve_round codec env w)) j = map_of (wo_replies w) j"
proof -
  have "0 < references w i" by (simp add: references_def enveloped_def state(3))
  then have "0 < strong w i" using worker_okD(1) [OF ok] by (simp add: counted_def)
  then obtain p where p: "map_of (wo_pendings w) i = Some p" by (auto simp: strong_def split: option.splits)
  obtain engine result where e: "execute codec env (wo_engine w) (pn_request p) = (engine, result)"
    by (cases "execute codec env (wo_engine w) (pn_request p)")
  have eq: "serve_round codec env w = (release_pending i (w\<lparr> wo_channel := rest, wo_engine := engine, wo_thread := Replied i,
      wo_replies := (if contains_key (wo_replies w) i then AList.update i (Some result) (wo_replies w)
        else wo_replies w) \<rparr>))\<lparr> wo_thread := Idle \<rparr>"
    by (simp add: serve_round_def serve_poll_def serve_execute_def serve_release_def state p e)
  show "wo_thread (serve_round codec env w) = Idle" "\<not> wo_stopping (serve_round codec env w)"
    "wo_channel (serve_round codec env w) = rest"
    "contains_key (wo_replies (serve_round codec env w)) j = contains_key (wo_replies w) j"
    "contains_key (wo_replies w) i \<Longrightarrow> \<exists>r. map_of (wo_replies (serve_round codec env w)) i = Some (Some r)"
    "j \<noteq> i \<Longrightarrow> map_of (wo_replies (serve_round codec env w)) j = map_of (wo_replies w) j"
    unfolding eq using state(2) by (simp_all add: contains_key_def map_of_update)
qed

lemma rounds_answer:
  assumes "worker_reachable codec w" and "wo_thread w = Idle" and "\<not> wo_stopping w"
    and "wo_channel w = before @ i # after" and "contains_key (wo_replies w) i" and "length envs = Suc (length before)"
  shows "\<exists>r. map_of (wo_replies (fold (serve_round codec) envs w)) i = Some (Some r)"
  using assms
proof (induction before arbitrary: w envs)
  case Nil
  then obtain env where "envs = [env]" by (cases envs) auto
  with Nil serve_round_head(5) [OF worker_reachable_ok, of codec w i after env] show ?case by simp
next
  case (Cons k before)
  then obtain env rest where envs: "envs = env # rest" "length rest = Suc (length before)" by (cases envs) auto
  note round = serve_round_head [OF worker_reachable_ok [OF Cons.prems(1)] Cons.prems(2,3), where i = k and rest = "before @ i # after" and env = env]
  have c: "wo_channel w = k # before @ i # after" using Cons.prems(4) by simp
  show ?case unfolding envs(1) fold_simps
    by (rule Cons.IH [OF serve_round_reachable [OF Cons.prems(1)] round(1-3) [OF c]])
      (use round(4) [OF c] Cons.prems(5) envs(2) in simp_all)
qed

subsection \<open>A concrete worker\<close>

definition sample_worker :: DatabaseWorker where
  "sample_worker = \<lparr> wo_engine = sample_engine, wo_thread = Idle, wo_stopping = False, wo_sender = True,
     wo_count = 0, wo_pendings = [], wo_channel = [], wo_replies = [], wo_next = 0 \<rparr>"

definition sample_ticket :: Ticket where
  "sample_ticket = \<lparr> ti_pending = 0, ti_received = False \<rparr>"

lemma sample_worker_reachable: "worker_reachable codec sample_worker"
  by (rule worker_reachable.started [OF sample_engine_reachable]) (simp add: start_def sample_worker_def)

lemma sample_submit: "try_submit codec sample_worker Request.Policy = (enqueued sample_worker Request.Policy, Ok sample_ticket)"
  by (simp add: try_submit_def validate_request_def pool_submit_def enqueued_def sample_worker_def sample_ticket_def
      MAX_OUTSTANDING_def)

lemma sample_enqueued_reachable: "worker_reachable codec (enqueued sample_worker Request.Policy)"
  by (rule worker_reachable.stepped [OF sample_worker_reachable worker_step.submitted [OF sample_submit]])

definition sample_served :: DatabaseWorker where
  "sample_served = serve_round sample_store sample_io (enqueued sample_worker Request.Policy)"

lemma sample_policy: "execute codec sample_io sample_engine Request.Policy =
    (sample_engine, Ok (Response.Policy \<lparr> po_revision = Revision 1, po_history = ThirtyDays \<rparr>))"
  by (simp add: execute_def serve_request_def on_files_def answer_request_def validate_request_def sample_engine_def sample_io_def read_only_def dispatch_def policy_of_def
      revision_def sample_reconciled_def initialize_def decode_number_number HistoryRetention_from_days_def)

lemma sample_served:
  "map_of (wo_replies sample_served) 0 = Some (Some (Ok (Response.Policy \<lparr> po_revision = Revision 1, po_history = ThirtyDays \<rparr>)))"
  by (simp add: sample_served_def serve_round_def serve_poll_def serve_execute_def serve_release_def enqueued_def
      sample_worker_def sample_policy contains_key_def map_of_update release_pending_def)

lemma sample_wait: "wait_timeout sample_served sample_ticket =
    (sample_served\<lparr> wo_replies := AList.update 0 None (wo_replies sample_served) \<rparr>, sample_ticket\<lparr> ti_received := True \<rparr>,
     Ok (Response.Policy \<lparr> po_revision = Revision 1, po_history = ThirtyDays \<rparr>))"
  by (simp add: wait_timeout_def sample_ticket_def sample_served)

lemma sample_served_polls:
  "polls wait_timeout (\<lambda>t. others sample_store (ti_pending t)) (enqueued sample_worker Request.Policy) sample_ticket
     sample_served sample_ticket"
  unfolding sample_served_def serve_round_def
  by (rule polls.meanwhile [OF polls.fresh], rule others.more [OF others.more [OF others.more [OF others.none]]],
      rule worker_step.polled, simp, rule worker_step.ran, simp, rule worker_step.released, simp)

subsection \<open>Properties of the worker\<close>

text \<open>C19: Permits. In every state the worker reaches, whatever its clients and its thread do and in
  whatever order, at most 64 requests are outstanding; the counter is exactly the number of
  requests still referenced, and a request is referenced exactly while its envelope is queued or
  in the thread's hand or its ticket is alive. So neither a lost ticket nor a dropped queue leaks a
  permit, and the bounded channel never overflows.\<close>

theorem permits_bounded:
  assumes "worker_reachable codec w"
  shows "outstanding w \<le> MAX_OUTSTANDING \<and> outstanding w = length (wo_pendings w)
    \<and> length (wo_channel w) \<le> outstanding w
    \<and> contains_key (wo_pendings w) i = (i \<in> set (wo_channel w) \<or> in_hand w i \<or> contains_key (wo_replies w) i)"
proof -
  note ok = worker_reachable_ok [OF assms]
  note w = worker_okD(1) [OF ok, unfolded counted_def]
  have "strong w i = references w i" using w by simp
  moreover have "contains_key (wo_pendings w) i = (0 < strong w i)"
    using w by (cases "map_of (wo_pendings w) i") (auto simp: contains_key_def strong_def)
  moreover have "(0 < references w i) = (enveloped w i \<or> contains_key (wo_replies w) i)"
    by (simp add: references_def)
  ultimately have "contains_key (wo_pendings w) i = (enveloped w i \<or> contains_key (wo_replies w) i)" by simp
  moreover have "wo_count w \<le> MAX_OUTSTANDING" using worker_okD(2) [OF ok] by (simp add: sound_def)
  ultimately show ?thesis using w channel_bounded [OF ok] by (simp add: outstanding_def enveloped_def)
qed

lemma permits_bounded_witness:
  "outstanding (enqueued sample_worker Request.Policy) \<le> MAX_OUTSTANDING
    \<and> contains_key (wo_pendings (enqueued sample_worker Request.Policy)) 0"
  using permits_bounded [OF sample_enqueued_reachable, of 0]
  by (simp add: enqueued_def sample_worker_def)

text \<open>C20: Submission. An invalid request, a stopping worker, an exhausted pool and a finished thread each
  refuse with their own reason, hand back exactly the request and queue nothing, releasing the
  permit they took; otherwise the request is last in the channel with a new ticket. \<open>Full\<close> means
  exactly that 64 permits are out.\<close>

theorem submit_exact:
  assumes "worker_reachable codec w" and "try_submit codec w request = (w', x)"
  shows "(case validate_request codec request of
      Err e \<Rightarrow> w' = w \<and> x = Err \<lparr> sb_request = request, sb_reason = Invalid e \<rparr>
    | Ok _ \<Rightarrow>
        if wo_stopping w then w' = w \<and> x = Err \<lparr> sb_request = request, sb_reason = Stopped \<rparr>
        else if outstanding w = MAX_OUTSTANDING then w' = w \<and> x = Err \<lparr> sb_request = request, sb_reason = Full \<rparr>
        else if is_finished w
        then w' = w\<lparr> wo_next := wo_next w + 1 \<rparr> \<and> x = Err \<lparr> sb_request = request, sb_reason = Stopped \<rparr>
        else \<exists>t. x = Ok t \<and> \<not> ti_received t \<and> Ticket_request w' t = Some request
          \<and> \<not> contains_key (wo_pendings w) (ti_pending t) \<and> wo_channel w' = wo_channel w @ [ti_pending t]
          \<and> outstanding w' = outstanding w + 1)"
  using assms(2) fresh_id [OF worker_reachable_ok [OF assms(1)]]
  by (cases rule: try_submit_cases [OF worker_reachable_ok [OF assms(1)]])
    (auto simp: outstanding_def is_finished_def enqueued_def Ticket_request_def contains_key_def map_of_update)

lemma submit_exact_witness:
  "\<exists>t. try_submit sample_store sample_worker Request.Policy = (enqueued sample_worker Request.Policy, Ok t)
    \<and> Ticket_request (enqueued sample_worker Request.Policy) t = Some Request.Policy"
  using submit_exact [OF sample_worker_reachable sample_submit [of sample_store]]
  by (auto simp: validate_request_def sample_worker_def outstanding_def is_finished_def MAX_OUTSTANDING_def sample_submit [unfolded sample_worker_def])

text \<open>C21: Receipts. Submit a request, let every other client, the thread and polls of the ticket go on
  in any order: a result the ticket then receives, a response or a storage error, is what the
  engine, in a state it reached, answered to exactly this request; and no later poll receives a
  result again.\<close>

theorem ticket_answers_request:
  assumes "worker_reachable codec w" and "try_submit codec w request = (w0, Ok t)"
    and "polls wait_timeout (\<lambda>t. others codec (ti_pending t)) w0 t w1 t1"
    and "wait_timeout w1 t1 = (w2, t2, x)" and "final_receipt x"
    and "polls wait_timeout (\<lambda>t. others codec (ti_pending t)) w2 t2 w3 t3"
  shows "(\<exists>self env. engine_reachable codec self \<and> x = map_err Storage (snd (execute codec env self request)))
    \<and> \<not> final_receipt (snd (snd (wait_timeout w3 t3)))"
proof
  note ok = worker_reachable_ok [OF assms(1)]
  from db_worker.final_answers_request [OF ok assms(2-5)]
  show "\<exists>self env. engine_reachable codec self \<and> x = map_err Storage (snd (execute codec env self request))"
    by (auto simp: receipt_answers_def answered_def)
  have "worker_ok codec w0 \<and> holds w0 t" using db_worker.submit_ticket [OF ok assms(2)] by simp
  then have "worker_ok codec w1 \<and> holds w1 t1" using db_worker.polls_keep [OF assms(3)] by simp
  then show "\<not> final_receipt (snd (snd (wait_timeout w3 t3)))"
    by (metis db_worker.final_once assms(4-6) prod.collapse)
qed

lemma ticket_answers_request_witness:
  "\<not> final_receipt (snd (snd (wait_timeout (fst (wait_timeout sample_served sample_ticket)) (sample_ticket\<lparr> ti_received := True \<rparr>))))"
  using ticket_answers_request [OF sample_worker_reachable sample_submit sample_served_polls sample_wait _ polls.fresh]
  by (simp add: sample_wait final_receipt_def)

text \<open>C22: Progress. A request queued behind \<open>n\<close> others, with the thread running and no shutdown
  asked, has its result after \<open>n + 1\<close> rounds of the loop: a poll of its ticket then receives a result.\<close>

theorem queued_is_answered:
  assumes "worker_reachable codec w" and "wo_thread w = Idle" and "\<not> wo_stopping w"
    and "wo_channel w = before @ ti_pending t # after" and "contains_key (wo_replies w) (ti_pending t)"
    and "\<not> ti_received t" and "length envs = Suc (length before)"
  shows "final_receipt (snd (snd (wait_timeout (fold (serve_round codec) envs w) t)))"
proof -
  from rounds_answer [OF assms(1-5,7)] obtain r
    where "map_of (wo_replies (fold (serve_round codec) envs w)) (ti_pending t) = Some (Some r)" by blast
  then show ?thesis using assms(6) by (cases r) (simp_all add: wait_timeout_def final_receipt_def)
qed

lemma queued_is_answered_witness:
  "final_receipt (snd (snd (wait_timeout (fold (serve_round sample_store) [sample_io] (enqueued sample_worker Request.Policy)) sample_ticket)))"
  by (rule queued_is_answered [OF sample_enqueued_reachable, where before = "[]" and after = "[]"])
    (simp_all add: enqueued_def sample_worker_def sample_ticket_def contains_key_def)

end
