(* ===== verification/Spool_Names.thy ===== *)
theory Spool_Names
  imports Event
begin

section \<open>Spool file names (recovery/names.rs)\<close>

text \<open>
  A spooled event is named after its producer, generation, sequence, id and the time it was
  observed; only such a name is ever classified by age. \<open>split_on\<close> is \<open>str::split\<close> on one
  character, \<open>strip_prefix\<close> and \<open>strip_suffix\<close> are the methods of \<open>str\<close>, and \<open>pad20\<close> is the
  format \<open>{:020}\<close>.
\<close>

definition SPOOL_TTL_MS :: u64 where "SPOOL_TTL_MS = 86400000"

record SpoolName =
  sn_producer :: ProducerId
  sn_generation :: ProducerGeneration
  sn_event :: EventId
  sn_sequence :: Seq
  sn_observed_ms :: u64
  sn_partial :: bool

definition SpoolName_new :: "EventEnvelope \<Rightarrow> u64 \<Rightarrow> bool \<Rightarrow> SpoolName" where
  "SpoolName_new event observed_ms part = \<lparr> sn_producer = ev_producer_id event,
     sn_generation = ev_generation event, sn_event = ev_event_id event, sn_sequence = ev_seq event,
     sn_observed_ms = observed_ms, sn_partial = part \<rparr>"

fun split_on :: "char \<Rightarrow> string \<Rightarrow> string list" where
  "split_on d [] = [[]]"
| "split_on d (c # cs) =
     (if c = d then [] # split_on d cs
      else case split_on d cs of [] \<Rightarrow> [[c]] | piece # pieces \<Rightarrow> (c # piece) # pieces)"

definition strip_prefix :: "string \<Rightarrow> string \<Rightarrow> string option" where
  "strip_prefix p s = (if take (length p) s = p then Some (drop (length p) s) else None)"

definition strip_suffix :: "string \<Rightarrow> string \<Rightarrow> string option" where
  "strip_suffix q s = (if length q \<le> length s \<and> drop (length s - length q) s = q
     then Some (take (length s - length q) s) else None)"

definition pad20 :: "u64 \<Rightarrow> string" where
  "pad20 n = replicate (20 - length (u64_display n)) (CHR ''0'') @ u64_display n"

definition get_ok :: "'e + 'a \<Rightarrow> 'a option" where
  "get_ok r = (case r of Ok x \<Rightarrow> Some x | Err _ \<Rightarrow> None)"

text \<open>The fields of a name, once its prefix and suffix are off.\<close>

definition SpoolName_pieces :: "string list \<Rightarrow> bool \<Rightarrow> SpoolName option" where
  "SpoolName_pieces pieces part =
     (if length pieces \<noteq> 5
       \<or> list_ex (\<lambda>field. length field \<noteq> 20 \<or> \<not> list_all is_ascii_digit field) [pieces ! 2, pieces ! 4]
     then None
     else
       Option.bind (get_ok (ProducerId_from_str (pieces ! 0))) (\<lambda>producer.
       Option.bind (get_ok (ProducerGeneration_from_str (pieces ! 1))) (\<lambda>generation.
       Option.bind (u64_parse (pieces ! 2)) (\<lambda>sequence.
       Option.bind (get_ok (EventId_from_str (pieces ! 3))) (\<lambda>event.
       Option.bind (u64_parse (pieces ! 4)) (\<lambda>observed_ms.
       Some \<lparr> sn_producer = producer, sn_generation = generation, sn_event = event,
         sn_sequence = Seq sequence, sn_observed_ms = observed_ms, sn_partial = part \<rparr>))))))"

definition SpoolName_parse :: "string \<Rightarrow> SpoolName option" where
  "SpoolName_parse name =
     Option.bind (strip_prefix ''spool-'' name) (\<lambda>body.
     Option.bind (case strip_suffix ''.part'' body of
         Some body \<Rightarrow> Some (body, True)
       | None \<Rightarrow> map_option (\<lambda>body. (body, False)) (strip_suffix ''.json'' body)) (\<lambda>(body, part).
     SpoolName_pieces (split_on (CHR ''_'') body) part))"

definition filename :: "SpoolName \<Rightarrow> string" where
  "filename n = ''spool-'' @ ProducerId_as_str (sn_producer n) @ ''_''
     @ ProducerGeneration_as_str (sn_generation n) @ ''_'' @ pad20 (Seq_value (sn_sequence n)) @ ''_''
     @ EventId_as_str (sn_event n) @ ''_'' @ pad20 (sn_observed_ms n) @ ''.''
     @ (if sn_partial n then ''part'' else ''json'')"

definition same_event_identity :: "SpoolName \<Rightarrow> EventEnvelope \<Rightarrow> bool" where
  "same_event_identity n event \<longleftrightarrow> sn_producer n = ev_producer_id event
     \<and> sn_generation n = ev_generation event \<and> sn_event n = ev_event_id event"

definition matches :: "SpoolName \<Rightarrow> EventEnvelope \<Rightarrow> bool" where
  "matches n event \<longleftrightarrow> same_event_identity n event \<and> sn_sequence n = ev_seq event"

definition expired :: "SpoolName \<Rightarrow> u64 \<Rightarrow> bool" where
  "expired n now_ms = (case checked_sub now_ms (sn_observed_ms n) of
     None \<Rightarrow> False | Some age \<Rightarrow> SPOOL_TTL_MS \<le> age)"

subsection \<open>Pieces of a name\<close>

lemma strip_prefix_Some [simp]: "strip_prefix p s = Some r \<longleftrightarrow> s = p @ r"
  by (auto simp: strip_prefix_def) (metis append_take_drop_id)

lemma strip_suffix_Some [simp]: "strip_suffix q s = Some r \<longleftrightarrow> s = r @ q"
  by (auto simp: strip_suffix_def) (metis append_take_drop_id)

lemma strip_suffix_None: "strip_suffix q s = None \<longleftrightarrow> (\<forall>r. s \<noteq> r @ q)"
  using strip_suffix_Some [of q s] by (metis not_None_eq)

lemma split_on_single: "d \<notin> set p \<Longrightarrow> split_on d p = [p]"
  by (induction p) auto

lemma split_on_append: "d \<notin> set p \<Longrightarrow> split_on d (p @ d # s) = p # split_on d s"
  by (induction p) auto

lemma split_on_join: "concat (map (\<lambda>p. p @ [d]) (split_on d s)) = s @ [d]"
proof (induction s)
  case (Cons c s)
  then show ?case by (cases "split_on d s") auto
qed simp

lemma canonical_no_underscore: "canonical_uuid s \<Longrightarrow> CHR ''_'' \<notin> set s"
  unfolding canonical_uuid_def list_all_iff
proof
  assume c: "length s = 36 \<and> (\<forall>x\<in>set (List.enumerate 0 s). case x of (i, c) \<Rightarrow>
      if i = 8 \<or> i = 13 \<or> i = 18 \<or> i = 23 then c = CHR ''-'' else is_lower_hex c)" and "CHR ''_'' \<in> set s"
  then obtain i where "i < length s" "s ! i = CHR ''_''" by (auto simp: in_set_conv_nth)
  then have "(i, CHR ''_'') \<in> set (List.enumerate 0 s)" by (auto simp: in_set_enumerate_eq)
  with c show False by (auto simp: is_lower_hex_def is_ascii_digit_def split: if_splits)
qed

lemma digits_value_append: "digits_value (replicate n (CHR ''0'') @ s) = digits_value s"
  by (induction n) (simp_all add: digits_value_def)

lemma show_nat_length: "n < 10 ^ k \<Longrightarrow> 0 < k \<Longrightarrow> length (show_nat n) \<le> k"
proof (induction n arbitrary: k rule: show_nat.induct)
  case (1 n)
  show ?case
  proof (cases "n < 10")
    case True
    then show ?thesis using 1(3) by (simp add: show_nat.simps)
  next
    case False
    with 1(2,3) obtain j where k: "k = Suc j" "0 < j" by (cases k; cases "k - 1") auto
    then have "n div 10 < 10 ^ j" using 1(2) by auto
    from 1(1) [OF False this k(2)] show ?thesis using False k(1) by (subst show_nat.simps) simp
  qed
qed

lemma u64_display_length: "length (u64_display n) \<le> 20"
proof -
  have "unat n < 10 ^ 20" using unat_u64_less [of n] by simp
  then show ?thesis unfolding u64_display_def by (rule show_nat_length) simp
qed

lemma pad20_shape: "length (pad20 n) = 20" "list_all is_ascii_digit (pad20 n)" "CHR ''_'' \<notin> set (pad20 n)"
proof -
  show len: "length (pad20 n) = 20" using u64_display_length [of n] by (simp add: pad20_def)
  show digits: "list_all is_ascii_digit (pad20 n)"
    using show_nat_digits [of "unat n"] by (auto simp: pad20_def u64_display_def list_all_iff is_ascii_digit_def)
  then show "CHR ''_'' \<notin> set (pad20 n)" by (auto simp: list_all_iff is_ascii_digit_def)
qed

lemma parse_pad20: "u64_parse (pad20 n) = Some n"
  using pad20_shape [of n] unat_u64_less [of n]
  by (auto simp: u64_parse_def pad20_def digits_value_append u64_display_def digits_value_show_nat)

lemma digits_inj:
  "list_all is_ascii_digit s \<Longrightarrow> list_all is_ascii_digit t \<Longrightarrow> length s = length t
     \<Longrightarrow> digits_value s = digits_value t \<Longrightarrow> s = t"
proof (induction s arbitrary: t rule: rev_induct)
  case (snoc c s)
  then obtain d r where t: "t = r @ [d]" by (cases t rule: rev_cases) auto
  from snoc.prems t have c: "is_ascii_digit c" "is_ascii_digit d" by simp_all
  then have "byte c - 48 < 10" "byte d - 48 < 10" using is_ascii_digit_bound by blast+
  moreover have "10 * digits_value s + (byte c - 48) = 10 * digits_value r + (byte d - 48)"
    using snoc.prems(4) t by (simp add: digits_value_snoc)
  ultimately have "digits_value s = digits_value r" "byte c - 48 = byte d - 48" by presburger+
  moreover from this(2) c have "c = d" by (metis is_ascii_digit_char)
  ultimately show ?case using snoc.IH [of r] snoc.prems t by simp
qed simp

lemma pad20_parse: "length s = 20 \<Longrightarrow> u64_parse s = Some n \<Longrightarrow> pad20 n = s"
proof -
  assume s: "length s = 20" "u64_parse s = Some n"
  then have "list_all is_ascii_digit s" "digits_value s = unat n"
    by (auto simp: u64_parse_def unat_of_nat_u64 split: if_splits)
  moreover have "digits_value (pad20 n) = unat n"
    by (simp add: pad20_def digits_value_append u64_display_def digits_value_show_nat)
  ultimately show "pad20 n = s" using pad20_shape [of n] s(1) by (intro digits_inj) auto
qed

subsection \<open>Names and their parts\<close>

text \<open>The ids of a name come from the parsers of the wire, so they are canonical.\<close>

definition name_ok :: "SpoolName \<Rightarrow> bool" where
  "name_ok n \<longleftrightarrow> canonical_uuid (ProducerId_as_str (sn_producer n))
     \<and> canonical_uuid (ProducerGeneration_as_str (sn_generation n))
     \<and> canonical_uuid (EventId_as_str (sn_event n))"

lemma get_ok_Some [simp]: "get_ok r = Some x \<longleftrightarrow> r = Ok x"
  by (cases r) (simp_all add: get_ok_def)

lemma parse_body:
  "SpoolName_parse (''spool-'' @ body @ (if part then ''.part'' else ''.json'')) = SpoolName_pieces (split_on (CHR ''_'') body) part"
proof -
  have "strip_prefix ''spool-'' (''spool-'' @ body @ (if part then ''.part'' else ''.json'')) = Some (body @ (if part then ''.part'' else ''.json''))"
    by simp
  moreover have "(case strip_suffix ''.part'' (body @ (if part then ''.part'' else ''.json'')) of
      Some body \<Rightarrow> Some (body, True)
    | None \<Rightarrow> map_option (\<lambda>body. (body, False)) (strip_suffix ''.json'' (body @ (if part then ''.part'' else ''.json'')))) = Some (body, part)"
  proof (cases part)
    case True
    have "strip_suffix ''.part'' (body @ ''.part'') = Some body" by simp
    with True show ?thesis by (simp only: option.case if_True)
  next
    case False
    have "strip_suffix ''.part'' (body @ ''.json'') = None" unfolding strip_suffix_None by auto
    moreover have "strip_suffix ''.json'' (body @ ''.json'') = Some body" by simp
    ultimately show ?thesis using False by (simp only: option.case if_False option.map)
  qed
  ultimately show ?thesis unfolding SpoolName_parse_def by (simp only: Option.bind.simps prod.case)
qed

lemma parse_name: "SpoolName_parse name = Some n \<longleftrightarrow> name_ok n \<and> filename n = name"
proof
  assume parsed: "SpoolName_parse name = Some n"
  then obtain body0 body part where name: "name = ''spool-'' @ body0"
    and body0: "body0 = body @ (if part then ''.part'' else ''.json'')" and
    body: "SpoolName_pieces (split_on (CHR ''_'') body) part = Some n"
    unfolding SpoolName_parse_def by (auto simp: bind_eq_Some_conv split: option.splits)
  let ?p = "split_on (CHR ''_'') body"
  from body have five: "length ?p = 5" by (auto simp: SpoolName_pieces_def split: if_splits)
  then obtain a b c d e where p: "?p = [a, b, c, d, e]"
    by (auto simp: numeral_eq_Suc length_Suc_conv)
  from split_on_join [of "CHR ''_''" body] p
  have joined: "body = a @ ''_'' @ b @ ''_'' @ c @ ''_'' @ d @ ''_'' @ e" by simp
  from body p have fields: "ProducerId_from_str a = Ok (sn_producer n)" "ProducerGeneration_from_str b = Ok (sn_generation n)"
    "u64_parse c = Some (Seq_value (sn_sequence n))" "EventId_from_str d = Ok (sn_event n)"
    "u64_parse e = Some (sn_observed_ms n)" "sn_partial n = part" "length c = 20" "length e = 20"
    by (auto simp: SpoolName_pieces_def bind_eq_Some_conv split: if_splits)
  from fields show "name_ok n \<and> filename n = name"
    by (auto simp: name_ok_def filename_def name body0 joined pad20_parse ProducerId.from_str_Ok Generation.from_str_Ok
        EventId.from_str_Ok)
next
  assume n: "name_ok n \<and> filename n = name"
  let ?body = "ProducerId_as_str (sn_producer n) @ ''_'' @ ProducerGeneration_as_str (sn_generation n) @ ''_''
     @ pad20 (Seq_value (sn_sequence n)) @ ''_'' @ EventId_as_str (sn_event n) @ ''_'' @ pad20 (sn_observed_ms n)"
  have pieces: "split_on (CHR ''_'') ?body = [ProducerId_as_str (sn_producer n), ProducerGeneration_as_str (sn_generation n),
      pad20 (Seq_value (sn_sequence n)), EventId_as_str (sn_event n), pad20 (sn_observed_ms n)]"
    using n by (simp add: split_on_append split_on_single canonical_no_underscore pad20_shape(3) name_ok_def)
  have "name = ''spool-'' @ ?body @ (if sn_partial n then ''.part'' else ''.json'')"
    using n by (auto simp: filename_def)
  then have "SpoolName_parse name = SpoolName_pieces (split_on (CHR ''_'') ?body) (sn_partial n)"
    by (simp only: parse_body)
  also have "\<dots> = Some n"
    using n unfolding pieces
    by (simp add: SpoolName_pieces_def get_ok_def pad20_shape parse_pad20 name_ok_def ProducerId.parse_as_str
        Generation.parse_as_str EventId.parse_as_str)
  finally show "SpoolName_parse name = Some n" .
qed

text \<open>C23: File names. The name of an event parses back to exactly its parts; conversely whatever name
  parses is the file name of the parts it parsed to. So a file is recognised as spooled exactly when
  its name was generated, one name stands for one event, and a foreign name is never classified.\<close>

theorem names_roundtrip: "SpoolName_parse name = Some n \<longleftrightarrow> name_ok n \<and> filename n = name"
  by (rule parse_name)

text \<open>A file expires exactly when at least a day has passed since it was observed by the same
  clock; a time of observation in the future never expires, and nothing wraps.\<close>

lemma expired_exact: "expired n now \<longleftrightarrow> unat (sn_observed_ms n) + 24 * 60 * 60 * 1000 \<le> unat now"
proof (cases "checked_sub now (sn_observed_ms n)")
  case None
  then show ?thesis by (auto simp: expired_def checked_sub_def split: if_splits)
next
  case (Some age)
  then have "unat age = unat now - unat (sn_observed_ms n)" "unat (sn_observed_ms n) \<le> unat now"
    by (auto simp: checked_sub_unat) (auto simp: checked_sub_def split: if_splits)
  then show ?thesis using Some by (auto simp: expired_def SPOOL_TTL_MS_def word_le_nat_alt)
qed

end
