(* ===== verification/Spool_Files.thy ===== *)
theory Spool_Files
  imports Spool_Names "HOL-Library.Char_ord" "HOL-Library.List_Lexorder"
begin

section \<open>The recovery directory (recovery/mod.rs, files.rs, paths.rs)\<close>

text \<open>
  The private directory as its directory entries in the order the kernel lists them, each with its
  metadata and bytes. During one call the directory does not change under the manager; between
  calls anything may have happened to it, which is why every held entry is checked again. What the
  kernel answers (the metadata of a file it creates, which call fails) is an argument. The
  descriptors of the directory and of the lock are the single value \<open>dr_check\<close>: what \<open>check\<close>
  finds when it compares them. File names that are not UTF-8 are not modelled.
  Field prefixes: \<open>st_\<close> \<open>Stat\<close>, \<open>id_\<close> \<open>Identity\<close>, \<open>en_\<close> \<open>Entry\<close>, \<open>hd_\<close> \<open>EntryHandle\<close>, \<open>dr_\<close> \<open>Directory\<close>.
\<close>

datatype RecoveryError =
    UnsupportedAdapter | UnprovenSource | InvalidRecord | UnsafePath | AlreadyOwned | BoundExceeded
  | IdentityChanged | Io

fun RecoveryError_display :: "RecoveryError \<Rightarrow> string" where
  "RecoveryError_display UnsupportedAdapter = ''unsupported_adapter''"
| "RecoveryError_display UnprovenSource = ''unproven_source''"
| "RecoveryError_display InvalidRecord = ''invalid_record''"
| "RecoveryError_display UnsafePath = ''unsafe_path''"
| "RecoveryError_display AlreadyOwned = ''already_owned''"
| "RecoveryError_display BoundExceeded = ''bound_exceeded''"
| "RecoveryError_display IdentityChanged = ''identity_changed''"
| "RecoveryError_display Io = ''io_unavailable''"

definition MAX_PRODUCER_BYTES :: u64 where "MAX_PRODUCER_BYTES = 262144"
definition MAX_SPOOL_BYTES :: u64 where "MAX_SPOOL_BYTES = 8388608"
definition MAX_SPOOL_FILES :: nat where "MAX_SPOOL_FILES = 1024"
definition MAX_PRODUCER_FILES :: nat where "MAX_PRODUCER_FILES = 64"
definition MAX_RECORD_BYTES :: nat where "MAX_RECORD_BYTES = 16384"
definition MAX_REPLAY_BATCH :: nat where "MAX_REPLAY_BATCH = 32"
definition MAX_CLEANUP_BATCH :: nat where "MAX_CLEANUP_BATCH = 128"
definition MAX_HELD_HANDLES :: nat where "MAX_HELD_HANDLES = 128"
definition MAX_LOG_BYTES :: u64 where "MAX_LOG_BYTES = 1048576"
definition LOG_FILES :: nat where "LOG_FILES = 4"
definition LOCK :: string where "LOCK = ''recovery.lock''"

subsection \<open>Metadata\<close>

record Stat =
  st_regular :: bool
  st_uid :: u32
  st_mode :: u32
  st_nlink :: u64
  st_dev :: u64
  st_ino :: u64
  st_size :: int
  st_mtime :: "int \<times> u64"
  st_ctime :: "int \<times> u64"

record FileIdentity =
  id_device :: u64
  id_inode :: u64
  id_bytes :: u64
  id_modified :: "int \<times> u64"
  id_changed :: "int \<times> u64"

definition Identity_from_stat :: "Stat \<Rightarrow> RecoveryError + FileIdentity" where
  "Identity_from_stat stat =
     and_then (if 0 \<le> st_size stat \<and> st_size stat < 2 ^ 64 then Ok (word_of_int (st_size stat)) else Err UnsafePath)
       (\<lambda>bytes. Ok \<lparr> id_device = st_dev stat, id_inode = st_ino stat, id_bytes = bytes,
          id_modified = st_mtime stat, id_changed = st_ctime stat \<rparr>)"

definition private_file :: "Stat \<Rightarrow> u32 \<Rightarrow> RecoveryError + unit" where
  "private_file stat uid =
     (if \<not> st_regular stat \<or> st_uid stat \<noteq> uid \<or> unat (st_mode stat) mod 4096 \<noteq> 384 \<or> st_nlink stat \<noteq> 1
      then Err UnsafePath else Ok ())"

text \<open>The fixed names of the log files (logs.rs).\<close>

definition LOG_NAMES :: "string list" where
  "LOG_NAMES = [''metadata.0.log'', ''metadata.1.log'', ''metadata.2.log'', ''metadata.3.log'']"

definition is_log :: "string \<Rightarrow> bool" where
  "is_log name \<longleftrightarrow> name \<in> set LOG_NAMES"

subsection \<open>Scanning\<close>

record Entry =
  en_name :: string
  en_identity :: FileIdentity
  en_spool :: "SpoolName option"

definition Entry_bytes :: "Entry \<Rightarrow> u64" where
  "Entry_bytes e = id_bytes (en_identity e)"

definition counts :: "Entry \<Rightarrow> bool" where
  "counts e \<longleftrightarrow> en_name e \<noteq> LOCK \<and> \<not> is_log (en_name e)"

fun scan_children :: "u32 \<Rightarrow> Entry list \<Rightarrow> (string \<times> Stat) list \<Rightarrow> RecoveryError + Entry list" where
  "scan_children uid entries [] = Ok entries"
| "scan_children uid entries ((name, stat) # children) =
     (if MAX_SPOOL_FILES + LOG_FILES < length entries then Err BoundExceeded
      else
        and_then (private_file stat uid) (\<lambda>_.
        and_then (Identity_from_stat stat) (\<lambda>identity.
        if (is_log name \<and> MAX_LOG_BYTES < id_bytes identity) \<or> (name = LOCK \<and> id_bytes identity \<noteq> 0)
        then Err BoundExceeded
        else scan_children uid
          (entries @ [\<lparr> en_name = name, en_identity = identity, en_spool = SpoolName_parse name \<rparr>]) children)))"

definition scan_entries :: "u32 \<Rightarrow> (string \<times> Stat) list \<Rightarrow> RecoveryError + Entry list" where
  "scan_entries uid children =
     and_then (scan_children uid [] children) (\<lambda>entries.
       let entries = sort_key en_name entries in
       if MAX_SPOOL_FILES < length (filter counts entries) then Err BoundExceeded else Ok entries)"

subsection \<open>The open directory\<close>

record fs_file =
  fl_stat :: Stat
  fl_content :: string

record Directory =
  dr_uid :: u32
  dr_files :: "(string \<times> fs_file) list"
  dr_check :: "RecoveryError + unit"
  dr_authority :: nat
  dr_handles :: nat

record EntryHandle =
  hd_entry :: Entry
  hd_lease :: nat

definition scan :: "Directory \<Rightarrow> RecoveryError + Entry list" where
  "scan d = and_then (dr_check d) (\<lambda>_. scan_entries (dr_uid d) (map (\<lambda>(n, f). (n, fl_stat f)) (dr_files d)))"

definition validate_held :: "Directory \<Rightarrow> EntryHandle \<Rightarrow> RecoveryError + unit" where
  "validate_held d held =
     and_then (dr_check d) (\<lambda>_.
     if hd_lease held \<noteq> dr_authority d then Err IdentityChanged
     else
       and_then (ok_or IdentityChanged (map_of (dr_files d) (en_name (hd_entry held)))) (\<lambda>named.
       and_then (private_file (fl_stat named) (dr_uid d)) (\<lambda>_.
       and_then (Identity_from_stat (fl_stat named)) (\<lambda>identity.
       if identity \<noteq> en_identity (hd_entry held) then Err IdentityChanged else Ok ()))))"

text \<open>\<open>file_identity\<close>: the name still is the opened file, and private.\<close>

definition file_identity :: "Directory \<Rightarrow> string \<Rightarrow> fs_file \<Rightarrow> RecoveryError + FileIdentity" where
  "file_identity d name opened =
     and_then (dr_check d) (\<lambda>_.
     and_then (ok_or IdentityChanged (map_of (dr_files d) name)) (\<lambda>named.
     and_then (private_file (fl_stat named) (dr_uid d)) (\<lambda>_.
     and_then (private_file (fl_stat opened) (dr_uid d)) (\<lambda>_.
     and_then (Identity_from_stat (fl_stat opened)) (\<lambda>identity.
     and_then (Identity_from_stat (fl_stat named)) (\<lambda>other.
     if other \<noteq> identity then Err IdentityChanged else Ok identity))))))"

definition open_handle :: "Directory \<Rightarrow> EntryHandle \<Rightarrow> RecoveryError + fs_file" where
  "open_handle d held =
     and_then (validate_held d held) (\<lambda>_.
     and_then (ok_or Io (map_of (dr_files d) (en_name (hd_entry held)))) (\<lambda>file.
     and_then (file_identity d (en_name (hd_entry held)) file) (\<lambda>identity.
     if identity \<noteq> en_identity (hd_entry held) then Err IdentityChanged else Ok file)))"

definition drop_handle :: "Directory \<Rightarrow> EntryHandle \<Rightarrow> Directory" where
  "drop_handle d held =
     (if hd_lease held = dr_authority d then d\<lparr> dr_handles := dr_handles d - 1 \<rparr> else d)"

definition hold :: "Directory \<Rightarrow> Entry \<Rightarrow> Directory \<times> (RecoveryError + EntryHandle)" where
  "hold d entry = (case dr_check d of
     Err e \<Rightarrow> (d, Err e)
   | Ok _ \<Rightarrow>
       if \<not> dr_handles d < MAX_HELD_HANDLES then (d, Err BoundExceeded)
       else
         let d = d\<lparr> dr_handles := dr_handles d + 1 \<rparr>;
             held = \<lparr> hd_entry = entry, hd_lease = dr_authority d \<rparr>
         in (case open_handle d held of
               Err e \<Rightarrow> (drop_handle d held, Err e)
             | Ok _ \<Rightarrow> (d, Ok held)))"

definition read_held :: "Directory \<Rightarrow> EntryHandle \<Rightarrow> nat \<Rightarrow> RecoveryError + string" where
  "read_held d held maximum =
     (if maximum < unat (Entry_bytes (hd_entry held)) then Err BoundExceeded
      else
        and_then (open_handle d held) (\<lambda>file.
        let bytes = take (maximum + 1) (fl_content file) in
        and_then (file_identity d (en_name (hd_entry held)) file) (\<lambda>identity.
        if identity \<noteq> en_identity (hd_entry held) \<or> maximum < length bytes
          \<or> length bytes \<noteq> unat (Entry_bytes (hd_entry held))
        then Err IdentityChanged else Ok bytes)))"

text \<open>\<open>fails\<close> says whether \<open>unlinkat\<close> itself fails.\<close>

definition unlink :: "bool \<Rightarrow> Directory \<Rightarrow> EntryHandle \<Rightarrow> Directory \<times> (RecoveryError + unit)" where
  "unlink fails d held = (case and_then (open_handle d held) (\<lambda>_. validate_held d held) of
     Err e \<Rightarrow> (d, Err e)
   | Ok _ \<Rightarrow>
       if fails then (d, Err Io)
       else (d\<lparr> dr_files := AList.delete (en_name (hd_entry held)) (dr_files d) \<rparr>, Ok ()))"

definition remove_held :: "bool \<Rightarrow> bool \<Rightarrow> Directory \<Rightarrow> EntryHandle \<Rightarrow> Directory \<times> (RecoveryError + unit)" where
  "remove_held fails sync_fails d held =
     try_st (unlink fails d held) (\<lambda>d _. if sync_fails then (d, Err Io) else (d, Ok ()))"

subsection \<open>Facts\<close>

lemma validate_held_Ok:
  "validate_held d held = Ok () \<longleftrightarrow> dr_check d = Ok () \<and> hd_lease held = dr_authority d
     \<and> (\<exists>file. map_of (dr_files d) (en_name (hd_entry held)) = Some file \<and> private_file (fl_stat file) (dr_uid d) = Ok ()
          \<and> Identity_from_stat (fl_stat file) = Ok (en_identity (hd_entry held)))"
  by (auto simp: validate_held_def and_then_Ok ok_or_Ok split: if_splits)

lemma open_handle_Ok:
  "open_handle d held = Ok file \<longleftrightarrow> validate_held d held = Ok () \<and> map_of (dr_files d) (en_name (hd_entry held)) = Some file"
  by (auto simp: open_handle_def file_identity_def validate_held_Ok and_then_Ok ok_or_Ok split: if_splits)

lemma hold_cases:
  assumes "hold d entry = (d', x)"
  obtains (refused) e where "d' = d" "x = Err e"
  | (held) "d' = d\<lparr> dr_handles := dr_handles d + 1 \<rparr>" "x = Ok \<lparr> hd_entry = entry, hd_lease = dr_authority d \<rparr>"
      "dr_handles d < MAX_HELD_HANDLES" "validate_held d' \<lparr> hd_entry = entry, hd_lease = dr_authority d \<rparr> = Ok ()"
proof (cases "dr_check d")
  case (Inl e)
  then show ?thesis using assms refused [of e] by (simp add: hold_def)
next
  case (Inr u)
  let ?d = "d\<lparr> dr_handles := dr_handles d + 1 \<rparr>" and ?h = "\<lparr> hd_entry = entry, hd_lease = dr_authority d \<rparr>"
  show ?thesis
  proof (cases "dr_handles d < MAX_HELD_HANDLES")
    case False
    then show ?thesis using assms refused [of BoundExceeded] Inr by (simp add: hold_def)
  next
    case room: True
    show ?thesis
    proof (cases "open_handle ?d ?h")
      case (Inl e)
      then have "hold d entry = (d, Err e)" using Inr room by (simp add: hold_def Let_def drop_handle_def)
      then show ?thesis using assms refused [of e] by simp
    next
      case (Inr f)
      then have "hold d entry = (?d, Ok ?h)" using \<open>dr_check d = Inr u\<close> room by (simp add: hold_def Let_def)
      moreover have "validate_held ?d ?h = Ok ()" using Inr by (simp add: open_handle_Ok)
      ultimately show ?thesis using assms held room by (simp only: prod.inject)
    qed
  qed
qed

lemma read_held_Ok:
  "read_held d held n = Ok bytes \<Longrightarrow> length bytes \<le> n \<and> validate_held d held = Ok ()
     \<and> (\<exists>file. map_of (dr_files d) (en_name (hd_entry held)) = Some file \<and> bytes = fl_content file)"
  by (auto simp: read_held_def and_then_Ok open_handle_Ok Let_def split: if_splits)

end
