(* ===== verification/Spool.thy ===== *)
theory Spool
  imports Spool_Files "HOL-Library.Multiset"
begin

section \<open>The event spool (recovery/provenance.rs, recovery/spool.rs, recovery/mod.rs)\<close>

text \<open>
  Staging and replay of eligible events. The table of reviewed mappings is an argument, as in the
  source's \<open>_reviewed\<close> methods; production passes \<open>REVIEWED\<close>, which is empty. What \<open>serde_json\<close>
  does is the record \<open>record_codec\<close>; a \<open>json!\<close> object lists its members in the order written.
  Field prefixes: \<open>ar_\<close> \<open>AdapterRecord\<close>, \<open>mp_\<close> \<open>Mapping\<close>, \<open>em_\<close> \<open>EligibleMetadata\<close>, \<open>rr_\<close> \<open>Record\<close>,
  \<open>re_\<close>, \<open>rp_\<close> of earlier theories; \<open>ry_\<close> \<open>ReplayEntry\<close>, \<open>as_\<close> \<open>ArtifactStore\<close>.
\<close>

record AdapterRecord =
  ar_harness :: HarnessKind
  ar_version :: string
  ar_source :: string

text \<open>The variants after the first exist in the source's tests only.\<close>

datatype Source = Metadata | Unproven | Prompt | Environment

record Mapping =
  mp_harness :: HarnessKind
  mp_version :: string
  mp_turn :: Source
  mp_session :: Source
  mp_health_version :: Source

definition REVIEWED :: "Mapping list" where "REVIEWED = []"

record EligibleMetadata =
  em_event :: EventEnvelope
  em_harness :: HarnessKind
  em_version :: string

record SpoolRecord =
  rr_format :: u8
  rr_harness :: HarnessKind
  rr_mapping_version :: string
  rr_observed_ms :: u64
  rr_event :: Value

record record_codec =
  rc_events :: event_codec
  rc_parse :: "string \<Rightarrow> Value option"
  rc_print :: "Value \<Rightarrow> string option"
  rc_kind :: "Value \<Rightarrow> EventKind option"
  rc_kind_value :: "EventKind \<Rightarrow> Value"
  rc_event_value :: "EventEnvelope \<Rightarrow> Value option"
  rc_record :: "string \<Rightarrow> SpoolRecord option"
  rc_record_print :: "SpoolRecord \<Rightarrow> string option"

subsection \<open>Provenance\<close>

definition mapping_of :: "HarnessKind \<Rightarrow> string \<Rightarrow> Mapping list \<Rightarrow> RecoveryError + Mapping" where
  "mapping_of harness version reviewed =
     ok_or UnsupportedAdapter (find (\<lambda>item. mp_harness item = harness \<and> mp_version item = version) reviewed)"

text \<open>\<open>value[key]\<close> of \<open>serde_json\<close>: \<open>Null\<close> where there is no such member.\<close>

definition Value_index :: "Value \<Rightarrow> string \<Rightarrow> Value" where
  "Value_index v key = (case Value_get v key of Some x \<Rightarrow> x | None \<Rightarrow> Null)"

definition payload_of :: "Value \<Rightarrow> EventKind \<Rightarrow> Mapping \<Rightarrow> RecoveryError + Value" where
  "payload_of metadata kind mapping =
     (let source = Value_index metadata ''payload'' in
      case kind of
        EventKind.RunStarted \<Rightarrow> Ok (Object [(''harness_session_id'',
          if mp_session mapping = Metadata then Value_index source ''harness_session_id'' else Null)])
      | EventKind.RunExited \<Rightarrow>
          if Value_get source ''exit_code'' \<noteq> None
          then Ok (Object [(''exit_code'', Value_index source ''exit_code'')])
          else Ok (Object [(''reason'', Value_index source ''reason'')])
      | EventKind.ProducerHealth \<Rightarrow>
          if mp_health_version mapping \<noteq> Metadata then Err UnprovenSource
          else Ok (Object [(''adapter_version'', String (mp_version mapping)),
            (''signals'', Value_index source ''signals'')])
      | _ \<Rightarrow>
          if mp_turn mapping \<noteq> Metadata then Err UnprovenSource
          else if kind = EventKind.TurnFailed
          then Ok (Object [(''turn_id'', Value_index source ''turn_id''), (''reason'', Value_index source ''reason'')])
          else Ok (Object [(''turn_id'', Value_index source ''turn_id'')]))"

definition eligible :: "record_codec \<Rightarrow> AdapterRecord \<Rightarrow> Mapping list \<Rightarrow> RecoveryError + EligibleMetadata" where
  "eligible codec input reviewed =
     (if ar_version input = [] \<or> 64 < length (ar_version input) \<or> MAX_RECORD_BYTES < length (ar_source input)
      then Err BoundExceeded
      else
        and_then (mapping_of (ar_harness input) (ar_version input) reviewed) (\<lambda>mapping.
        and_then (ok_or InvalidRecord (rc_parse codec (ar_source input))) (\<lambda>raw.
        and_then (ok_or InvalidRecord (Value_get raw ''metadata'')) (\<lambda>metadata.
        and_then (ok_or InvalidRecord (rc_kind codec (Value_index metadata ''kind''))) (\<lambda>kind.
        and_then (payload_of metadata kind mapping) (\<lambda>payload.
        let event = Object [(''protocol'', Number (PosInt 0)), (''channel'', String ''event''),
              (''event_id'', Value_index metadata ''event_id''), (''producer_id'', Value_index metadata ''producer_id''),
              (''generation'', Value_index metadata ''generation''), (''run_id'', Value_index metadata ''run_id''),
              (''seq'', Value_index metadata ''seq''), (''kind'', rc_kind_value codec kind), (''payload'', payload)] in
        and_then (ok_or InvalidRecord (rc_print codec event)) (\<lambda>frame.
        and_then (map_err (\<lambda>_. InvalidRecord) (parse_event (rc_events codec) (frame @ [newline]))) (\<lambda>event.
        Ok \<lparr> em_event = event, em_harness = ar_harness input, em_version = mp_version mapping \<rparr>))))))))"

definition validate_replay :: "EventEnvelope \<Rightarrow> Mapping \<Rightarrow> RecoveryError + unit" where
  "validate_replay event mapping = (case ev_event event of
     RunStarted payload \<Rightarrow>
       if rs_harness_session_id payload \<noteq> None \<and> mp_session mapping \<noteq> Metadata then Err UnprovenSource else Ok ()
   | RunExited _ \<Rightarrow> Ok ()
   | ProducerHealth payload \<Rightarrow>
       if mp_health_version mapping \<noteq> Metadata
         \<or> AdapterVersion_as_str (hp_adapter_version payload) \<noteq> mp_version mapping
       then Err UnprovenSource else Ok ()
   | _ \<Rightarrow> if mp_turn mapping \<noteq> Metadata then Err UnprovenSource else Ok ())"

subsection \<open>The artifact store (mod.rs)\<close>

record ReplayEntry =
  ry_event :: EventEnvelope
  ry_harness :: HarnessKind
  ry_held :: EntryHandle

record ArtifactStore =
  as_directory :: Directory
  as_rejected_attempts :: u64
  as_discarded_artifacts :: u64
  as_unknown_gap :: bool
  as_revision :: u64

record RecoveryStatus =
  rt_spool_bytes :: u64
  rt_spool_files :: nat
  rt_protected_files :: nat
  rt_log_bytes :: u64
  rt_rejected_attempts :: u64
  rt_discarded_artifacts :: u64
  rt_unknown_gap :: bool

definition store_open :: "RecoveryError + Directory \<Rightarrow> RecoveryError + ArtifactStore" where
  "store_open opened =
     and_then opened (\<lambda>directory.
     and_then (scan directory) (\<lambda>_.
     Ok \<lparr> as_directory = directory, as_rejected_attempts = 0, as_discarded_artifacts = 0,
       as_unknown_gap = True, as_revision = 0 \<rparr>))"

definition store_snapshot :: "ArtifactStore \<Rightarrow> RecoveryError + RecoveryStatus" where
  "store_snapshot s = map_ok (\<lambda>entries. fold (\<lambda>entry status.
       if is_log (en_name entry)
       then status\<lparr> rt_log_bytes := saturating_add (rt_log_bytes status) (Entry_bytes entry) \<rparr>
       else if en_name entry \<noteq> LOCK
       then status\<lparr> rt_spool_files := rt_spool_files status + 1,
              rt_spool_bytes := saturating_add (rt_spool_bytes status) (Entry_bytes entry),
              rt_protected_files := rt_protected_files status + of_bool (en_spool entry = None) \<rparr>
       else status) entries
     \<lparr> rt_spool_bytes = 0, rt_spool_files = 0, rt_protected_files = 0, rt_log_bytes = 0,
       rt_rejected_attempts = as_rejected_attempts s, rt_discarded_artifacts = as_discarded_artifacts s,
       rt_unknown_gap = as_unknown_gap s \<rparr>) (scan (as_directory s))"

definition failure :: "ArtifactStore \<Rightarrow> ArtifactStore" where
  "failure s = s\<lparr> as_rejected_attempts := saturating_add (as_rejected_attempts s) 1, as_unknown_gap := True \<rparr>"

definition changing :: "ArtifactStore \<Rightarrow> RecoveryError + ArtifactStore" where
  "changing s = map_ok (\<lambda>r. s\<lparr> as_revision := r \<rparr>) (ok_or BoundExceeded (checked_add (as_revision s) 1))"

subsection \<open>Reading an entry back (spool.rs)\<close>

definition decode_held ::
    "record_codec \<Rightarrow> Mapping list \<Rightarrow> Directory \<Rightarrow> SpoolName \<Rightarrow> EntryHandle \<Rightarrow> RecoveryError + ReplayEntry" where
  "decode_held codec reviewed d name held =
     and_then (read_held d held MAX_RECORD_BYTES) (\<lambda>bytes.
     and_then (ok_or InvalidRecord (rc_record codec bytes)) (\<lambda>record.
     and_then (mapping_of (rr_harness record) (rr_mapping_version record) reviewed) (\<lambda>mapping.
     if rr_format record \<noteq> 1 \<or> rr_observed_ms record \<noteq> sn_observed_ms name then Err InvalidRecord
     else
       and_then (ok_or InvalidRecord (rc_print codec (rr_event record))) (\<lambda>frame.
       and_then (map_err (\<lambda>_. InvalidRecord) (parse_event (rc_events codec) (frame @ [newline]))) (\<lambda>event.
       and_then (validate_replay event mapping) (\<lambda>_.
       if \<not> matches name event then Err InvalidRecord
       else Ok \<lparr> ry_event = event, ry_harness = rr_harness record, ry_held = held \<rparr>))))))"

definition decode_entry ::
    "record_codec \<Rightarrow> Mapping list \<Rightarrow> Directory \<Rightarrow> Entry \<Rightarrow> Directory \<times> (RecoveryError + ReplayEntry)" where
  "decode_entry codec reviewed d entry =
     (case (case en_spool entry of Some name \<Rightarrow> if sn_partial name then None else Some name | None \<Rightarrow> None) of
       None \<Rightarrow> (d, Err InvalidRecord)
     | Some name \<Rightarrow>
         try_st (hold d entry) (\<lambda>d held. case decode_held codec reviewed d name held of
             Err e \<Rightarrow> (drop_handle d held, Err e)
           | Ok replay \<Rightarrow> (d, Ok replay)))"

fun decode_all ::
    "record_codec \<Rightarrow> Mapping list \<Rightarrow> Directory \<Rightarrow> ReplayEntry list \<Rightarrow> Entry list
     \<Rightarrow> Directory \<times> (RecoveryError + ReplayEntry list)" where
  "decode_all codec reviewed d done [] = (d, Ok done)"
| "decode_all codec reviewed d done (entry # entries) =
     (case decode_entry codec reviewed d entry of
       (d, Err e) \<Rightarrow> (fold (\<lambda>r d. drop_handle d (ry_held r)) done d, Err e)
     | (d, Ok replay) \<Rightarrow> decode_all codec reviewed d (done @ [replay]) entries)"

definition read_reviewed ::
    "record_codec \<Rightarrow> ArtifactStore \<Rightarrow> u64 \<Rightarrow> Mapping list \<Rightarrow> ArtifactStore \<times> (RecoveryError + ReplayEntry list)" where
  "read_reviewed codec s now_ms reviewed =
     (case scan (as_directory s) of
       Err e \<Rightarrow> (s, Err e)
     | Ok entries \<Rightarrow>
         (case decode_all codec reviewed (as_directory s) []
           (take MAX_REPLAY_BATCH (filter (\<lambda>entry. case en_spool entry of
              None \<Rightarrow> False | Some name \<Rightarrow> \<not> sn_partial name \<and> \<not> expired name now_ms) entries)) of
           (d, result) \<Rightarrow> (s\<lparr> as_directory := d \<rparr>, result)))"

definition read_batch :: "record_codec \<Rightarrow> ArtifactStore \<Rightarrow> u64 \<Rightarrow> ArtifactStore \<times> (RecoveryError + ReplayEntry list)" where
  "read_batch codec s now_ms = read_reviewed codec s now_ms REVIEWED"

subsection \<open>Staging an event (spool.rs)\<close>

definition budget :: "Entry list \<Rightarrow> EventEnvelope \<Rightarrow> nat \<Rightarrow> RecoveryError + unit" where
  "budget entries event additional =
     (if MAX_RECORD_BYTES < additional then Err BoundExceeded
      else
        (case fold (\<lambda>entry (everything, producer, files, producer_files).
            let everything = saturating_add everything (Entry_bytes entry); files = files + 1 in
            if (case en_spool entry of None \<Rightarrow> False | Some name \<Rightarrow> sn_producer name = ev_producer_id event)
            then (everything, saturating_add producer (Entry_bytes entry), files, producer_files + 1)
            else (everything, producer, files, producer_files))
            (filter counts entries) (of_nat additional, of_nat additional, 1, 1) of
          (everything :: u64, producer :: u64, files :: nat, producer_files :: nat) \<Rightarrow>
            if MAX_SPOOL_BYTES < everything \<or> MAX_PRODUCER_BYTES < producer
              \<or> MAX_SPOOL_FILES < files \<or> MAX_PRODUCER_FILES < producer_files
            then Err BoundExceeded else Ok ()))"

text \<open>What the kernel answers while a record is written.\<close>

record stage_io =
  si_open :: bool
  si_created :: Stat
  si_write :: "nat option"
  si_sync :: bool
  si_staged :: Stat
  si_rename :: bool
  si_publish_sync :: bool
  si_published :: Stat

definition write_stage ::
    "record_codec \<Rightarrow> stage_io \<Rightarrow> Directory \<Rightarrow> EventEnvelope \<Rightarrow> u64 \<Rightarrow> string \<Rightarrow> Mapping list
     \<Rightarrow> Directory \<times> (RecoveryError + ReplayEntry)" where
  "write_stage codec env d event observed_ms bytes reviewed =
     (let part = filename (SpoolName_new event observed_ms True);
          ready = filename (SpoolName_new event observed_ms False) in
      try_st (d, dr_check d) (\<lambda>d _.
      if \<not> si_open env \<or> contains_key (dr_files d) part then (d, Err Io)
      else
        let file = \<lparr> fl_stat = si_created env, fl_content = [] \<rparr>;
            d = d\<lparr> dr_files := dr_files d @ [(part, file)] \<rparr> in
        try_st (d, file_identity d part file) (\<lambda>d _.
        case si_write env of
          None \<Rightarrow> (d, Err Io)
        | Some n \<Rightarrow>
          let file = \<lparr> fl_stat = si_staged env, fl_content = take n bytes \<rparr>;
              d = d\<lparr> dr_files := AList.update part file (dr_files d) \<rparr> in
          if n \<noteq> length bytes \<or> \<not> si_sync env then (d, Err Io)
          else
            try_st (d, file_identity d part file) (\<lambda>d identity.
            try_st (hold d \<lparr> en_name = part, en_identity = identity, en_spool = SpoolName_parse part \<rparr>) (\<lambda>d held.
            try_st (case validate_held d held of Err e \<Rightarrow> (drop_handle d held, Err e) | Ok u \<Rightarrow> (d, Ok u)) (\<lambda>d _.
            if \<not> si_rename env \<or> contains_key (dr_files d) ready then (drop_handle d held, Err Io)
            else
              let d = drop_handle (d\<lparr> dr_files := AList.delete part (dr_files d)
                    @ [(ready, \<lparr> fl_stat = si_published env, fl_content = take n bytes \<rparr>)] \<rparr>) held in
              if \<not> si_publish_sync env then (d, Err Io)
              else
                try_st (d, Identity_from_stat (si_published env)) (\<lambda>d identity.
                decode_entry codec reviewed d
                  \<lparr> en_name = ready, en_identity = identity, en_spool = SpoolName_parse ready \<rparr>)))))))"

definition stage_metadata ::
    "record_codec \<Rightarrow> stage_io \<Rightarrow> ArtifactStore \<Rightarrow> EligibleMetadata \<Rightarrow> u64 \<Rightarrow> Mapping list
     \<Rightarrow> ArtifactStore \<times> (RecoveryError + ReplayEntry)" where
  "stage_metadata codec env s metadata observed_ms reviewed =
     (let event = em_event metadata in
      try_st (s, scan (as_directory s)) (\<lambda>s entries.
      case find (\<lambda>entry. case en_spool entry of None \<Rightarrow> False | Some name \<Rightarrow> same_event_identity name event) entries of
        Some existing \<Rightarrow>
          (case decode_entry codec reviewed (as_directory s) existing of
            (d, Err e) \<Rightarrow> (s\<lparr> as_directory := d \<rparr>, Err e)
          | (d, Ok replay) \<Rightarrow>
              if ry_event replay \<noteq> event
              then (s\<lparr> as_directory := drop_handle d (ry_held replay) \<rparr>, Err InvalidRecord)
              else (s\<lparr> as_directory := d \<rparr>, Ok replay))
      | None \<Rightarrow>
          try_st (s, and_then (ok_or InvalidRecord (rc_event_value codec event)) (\<lambda>value.
            ok_or InvalidRecord (rc_record_print codec \<lparr> rr_format = 1, rr_harness = em_harness metadata,
              rr_mapping_version = em_version metadata, rr_observed_ms = observed_ms, rr_event = value \<rparr>))) (\<lambda>s bytes.
          try_st (s, budget entries event (length bytes)) (\<lambda>s _.
          try_st (s, changing s) (\<lambda>_ s.
          case write_stage codec env (as_directory s) event observed_ms bytes reviewed of
            (d, result) \<Rightarrow> (s\<lparr> as_directory := d \<rparr>, result))))))"

definition stage_reviewed ::
    "record_codec \<Rightarrow> stage_io \<Rightarrow> ArtifactStore \<Rightarrow> AdapterRecord \<Rightarrow> u64 \<Rightarrow> Mapping list
     \<Rightarrow> ArtifactStore \<times> (RecoveryError + ReplayEntry)" where
  "stage_reviewed codec env s input observed_ms reviewed =
     (case try_st (s, eligible codec input reviewed) (\<lambda>s metadata.
         stage_metadata codec env s metadata observed_ms reviewed) of
       (s, Err e) \<Rightarrow> (failure s, Err e)
     | (s, Ok receipt) \<Rightarrow> (s, Ok receipt))"

definition stage ::
    "record_codec \<Rightarrow> stage_io \<Rightarrow> ArtifactStore \<Rightarrow> AdapterRecord \<Rightarrow> u64
     \<Rightarrow> ArtifactStore \<times> (RecoveryError + ReplayEntry)" where
  "stage codec env s input observed_ms = stage_reviewed codec env s input observed_ms REVIEWED"

text \<open>Disposal of an entry whose event is proven durable.\<close>

definition confirm_committed ::
    "bool \<Rightarrow> bool \<Rightarrow> ArtifactStore \<Rightarrow> ReplayEntry \<Rightarrow> EventEnvelope \<Rightarrow> ArtifactStore \<times> (RecoveryError + unit)" where
  "confirm_committed fails sync_fails s entry durable_event =
     (let held = ry_held entry;
          dropped = (\<lambda>s. s\<lparr> as_directory := drop_handle (as_directory s) held \<rparr>) in
      if ry_event entry \<noteq> durable_event then (dropped s, Err InvalidRecord)
      else case validate_held (as_directory s) held of
        Err e \<Rightarrow> (dropped s, Err e)
      | Ok _ \<Rightarrow> (case changing s of
          Err e \<Rightarrow> (dropped s, Err e)
        | Ok s \<Rightarrow> (case remove_held fails sync_fails (as_directory s) held of
            (d, result) \<Rightarrow> (dropped (s\<lparr> as_directory := d \<rparr>), result))))"

subsection \<open>What the scan and the entries say\<close>

definition entry_at :: "string \<times> fs_file \<Rightarrow> Entry" where
  "entry_at nf = \<lparr> en_name = fst nf, en_identity = projr (Identity_from_stat (fl_stat (snd nf))),
     en_spool = SpoolName_parse (fst nf) \<rparr>"

lemma scan_children_Ok:
  "scan_children uid es (map (\<lambda>(n, f). (n, fl_stat f)) files) = Ok es' \<Longrightarrow> es' = es @ map entry_at files"
proof (induction files arbitrary: es)
  case (Cons nf files)
  obtain n f where nf: "nf = (n, f)" by (cases nf)
  from Cons.prems nf obtain identity where "Identity_from_stat (fl_stat f) = Ok identity"
    and "scan_children uid (es @ [\<lparr> en_name = n, en_identity = identity, en_spool = SpoolName_parse n \<rparr>])
      (map (\<lambda>(n, f). (n, fl_stat f)) files) = Ok es'"
    by (auto simp: and_then_Ok split: if_splits)
  from Cons.IH [OF this(2)] this(1) nf show ?case by (simp add: entry_at_def)
qed simp

lemma scan_Ok:
  assumes "scan d = Ok entries"
  shows "mset entries = mset (map entry_at (dr_files d))" "length (filter counts entries) \<le> MAX_SPOOL_FILES"
  using assms scan_children_Ok [of "dr_uid d" "[]" "dr_files d"]
  by (auto simp: scan_def scan_entries_def and_then_Ok Let_def split: if_splits)

text \<open>The measures the budget bounds.\<close>

definition spool_bytes :: "Entry list \<Rightarrow> nat" where
  "spool_bytes es = sum_list (map (\<lambda>e. unat (Entry_bytes e)) (filter counts es))"

definition owned :: "ProducerId \<Rightarrow> Entry list \<Rightarrow> Entry list" where
  "owned p es = filter (\<lambda>e. counts e \<and> (case en_spool e of None \<Rightarrow> False | Some name \<Rightarrow> sn_producer name = p)) es"

lemma min_again: "min (min (a + e) m + s) m = min (a + (e + s :: nat)) m"
  by (simp add: min_def)

lemma budget_fold:
  "fold (\<lambda>entry (everything, producer, files, producer_files).
      let everything = saturating_add everything (Entry_bytes entry); files = files + 1 in
      if (case en_spool entry of None \<Rightarrow> False | Some name \<Rightarrow> sn_producer name = p)
      then (everything, saturating_add producer (Entry_bytes entry), files, producer_files + 1)
      else (everything, producer, files, producer_files)) (filter counts es) (a, b, m, n) = (a', b', m', n')
   \<Longrightarrow> unat a' = min (unat a + spool_bytes es) (2 ^ 64 - 1) \<and> unat b' = min (unat b + spool_bytes (owned p es)) (2 ^ 64 - 1)
     \<and> m' = m + length (filter counts es) \<and> n' = n + length (owned p es)"
proof (induction es arbitrary: a b m n)
  case Nil
  then show ?case using unat_u64_less [of a] unat_u64_less [of b] by (auto simp: spool_bytes_def owned_def)
next
  case (Cons e es)
  show ?case
  proof (cases "counts e")
    case False
    then show ?thesis using Cons by (simp add: spool_bytes_def owned_def)
  next
    case True
    show ?thesis
    proof (cases "case en_spool e of None \<Rightarrow> False | Some name \<Rightarrow> sn_producer name = p")
      case own: True
      from Cons.prems True own Cons.IH [of "saturating_add a (Entry_bytes e)" "saturating_add b (Entry_bytes e)" "m + 1" "n + 1"]
      show ?thesis by (simp add: Let_def spool_bytes_def owned_def saturating_add_unat min_again)
    next
      case other: False
      from Cons.prems True other Cons.IH [of "saturating_add a (Entry_bytes e)" b "m + 1" n]
      show ?thesis by (simp add: Let_def spool_bytes_def owned_def saturating_add_unat min_again)
    qed
  qed
qed

lemma budget_Ok:
  assumes "budget es event n = Ok ()"
  shows "n \<le> MAX_RECORD_BYTES" "n + spool_bytes es \<le> unat MAX_SPOOL_BYTES"
    "n + spool_bytes (owned (ev_producer_id event) es) \<le> unat MAX_PRODUCER_BYTES"
    "Suc (length (filter counts es)) \<le> MAX_SPOOL_FILES" "Suc (length (owned (ev_producer_id event) es)) \<le> MAX_PRODUCER_FILES"
proof -
  let ?f = "fold (\<lambda>entry (everything, producer, files, producer_files).
      let everything = saturating_add everything (Entry_bytes entry); files = files + 1 in
      if (case en_spool entry of None \<Rightarrow> False | Some name \<Rightarrow> sn_producer name = ev_producer_id event)
      then (everything, saturating_add producer (Entry_bytes entry), files, producer_files + 1)
      else (everything, producer, files, producer_files)) (filter counts es) (of_nat n, of_nat n, 1 :: nat, 1 :: nat)"
  from assms show n: "n \<le> MAX_RECORD_BYTES" by (simp add: budget_def split: if_splits)
  then have word: "unat (of_nat n :: u64) = n" by (intro unat_of_nat_u64) (simp add: MAX_RECORD_BYTES_def)
  obtain a b k l where f: "?f = (a, b, k, l)" by (cases ?f)
  from budget_fold [OF f] word have eqs: "unat a = min (n + spool_bytes es) (2 ^ 64 - 1)"
    "unat b = min (n + spool_bytes (owned (ev_producer_id event) es)) (2 ^ 64 - 1)"
    "k = 1 + length (filter counts es)" "l = 1 + length (owned (ev_producer_id event) es)" by simp_all
  from assms n f have lim: "\<not> MAX_SPOOL_BYTES < a" "\<not> MAX_PRODUCER_BYTES < b" "\<not> MAX_SPOOL_FILES < k" "\<not> MAX_PRODUCER_FILES < l"
    by (simp_all add: budget_def split: if_splits)
  from lim(1,2) have "unat a \<le> unat MAX_SPOOL_BYTES" "unat b \<le> unat MAX_PRODUCER_BYTES"
    by (simp_all add: word_less_nat_alt)
  then show "n + spool_bytes es \<le> unat MAX_SPOOL_BYTES"
    "n + spool_bytes (owned (ev_producer_id event) es) \<le> unat MAX_PRODUCER_BYTES"
    unfolding eqs by (simp_all add: MAX_SPOOL_BYTES_def MAX_PRODUCER_BYTES_def min_def split: if_splits)
  from lim(3,4) show "Suc (length (filter counts es)) \<le> MAX_SPOOL_FILES"
    "Suc (length (owned (ev_producer_id event) es)) \<le> MAX_PRODUCER_FILES"
    unfolding eqs by simp_all
qed

subsection \<open>What a decoded entry is\<close>

text \<open>\<open>replayable\<close> is what an entry of a given name must satisfy to be replayed: the provenance gate.\<close>

definition replayable :: "Mapping list \<Rightarrow> SpoolName \<Rightarrow> ReplayEntry \<Rightarrow> bool" where
  "replayable reviewed name replay \<longleftrightarrow> \<not> sn_partial name \<and> matches name (ry_event replay)
     \<and> (\<exists>mapping\<in>set reviewed. mp_harness mapping = ry_harness replay
          \<and> validate_replay (ry_event replay) mapping = Ok ())"

lemma mapping_of_Ok:
  "mapping_of harness version reviewed = Ok m \<Longrightarrow> m \<in> set reviewed \<and> mp_harness m = harness \<and> mp_version m = version"
  by (auto simp: mapping_of_def ok_or_Ok dest!: find_SomeD)

lemma drop_handle_frame [simp]:
  "dr_files (drop_handle d h) = dr_files d" "dr_check (drop_handle d h) = dr_check d" "dr_uid (drop_handle d h) = dr_uid d"
  "dr_authority (drop_handle d h) = dr_authority d"
  by (simp_all add: drop_handle_def)

lemma drop_handles_frame [simp]:
  "dr_files (fold (\<lambda>r d. drop_handle d (ry_held r)) rs d) = dr_files d"
  by (induction rs arbitrary: d) simp_all

lemma hold_frame: "hold d entry = (d', x) \<Longrightarrow> dr_files d' = dr_files d \<and> dr_authority d' = dr_authority d"
  by (erule hold_cases) simp_all

lemma decode_held_Ok:
  assumes "decode_held codec reviewed d name held = Ok replay"
  shows "ry_held replay = held" "matches name (ry_event replay)"
    "\<exists>mapping\<in>set reviewed. mp_harness mapping = ry_harness replay \<and> validate_replay (ry_event replay) mapping = Ok ()"
    "\<exists>bytes. read_held d held MAX_RECORD_BYTES = Ok bytes"
  using assms by (auto simp: decode_held_def and_then_Ok ok_or_Ok dest!: mapping_of_Ok split: if_splits)

lemma decode_entry_frame:
  assumes "decode_entry codec reviewed d entry = (d', x)"
  shows "dr_files d' = dr_files d \<and> dr_authority d' = dr_authority d"
proof (cases "\<exists>name. en_spool entry = Some name \<and> \<not> sn_partial name")
  case False
  with assms show ?thesis by (auto simp: decode_entry_def split: option.splits if_splits)
next
  case True
  then obtain name where name: "en_spool entry = Some name" "\<not> sn_partial name" by blast
  obtain d1 y where h: "hold d entry = (d1, y)" by (cases "hold d entry")
  note fr = hold_frame [OF h]
  show ?thesis
  proof (cases y)
    case (Inl e)
    with assms name h fr show ?thesis by (simp add: decode_entry_def)
  next
    case (Inr held)
    with assms name h fr show ?thesis
      by (cases "decode_held codec reviewed d1 name held") (auto simp: decode_entry_def)
  qed
qed

lemma decode_entry_Ok:
  assumes "decode_entry codec reviewed d entry = (d', Ok replay)"
  obtains name bytes where "en_spool entry = Some name" "replayable reviewed name replay"
    "hd_entry (ry_held replay) = entry" "hd_lease (ry_held replay) = dr_authority d"
    "read_held d' (ry_held replay) MAX_RECORD_BYTES = Ok bytes" "dr_files d' = dr_files d"
proof -
  from assms obtain name where name: "en_spool entry = Some name" "\<not> sn_partial name"
    by (auto simp: decode_entry_def split: option.splits if_splits)
  obtain d1 y where h: "hold d entry = (d1, y)" by (cases "hold d entry")
  with assms name obtain held where y: "y = Ok held" by (cases y) (auto simp: decode_entry_def)
  with assms name h have r: "decode_held codec reviewed d1 name held = Ok replay" and d': "d' = d1"
    by (auto simp: decode_entry_def split: sum.splits)
  have held: "held = \<lparr> hd_entry = entry, hd_lease = dr_authority d \<rparr>"
    using h y by (auto elim: hold_cases)
  from decode_held_Ok [OF r] obtain bytes where "read_held d' held MAX_RECORD_BYTES = Ok bytes" by (auto simp: d')
  then show ?thesis
    using decode_held_Ok [OF r] name held hold_frame [OF h] d' that [of name bytes] by (simp add: replayable_def)
qed

subsection \<open>What a staged entry is\<close>

lemma read_held_length: "read_held d held n = Ok bytes \<Longrightarrow> length bytes = unat (Entry_bytes (hd_entry held))"
  by (auto simp: read_held_def and_then_Ok Let_def split: if_splits)

lemma write_stage_steps:
  assumes "write_stage codec env d event ms bytes reviewed = (d', Ok replay)"
  obtains d5 identity where
    "map_of (dr_files d) (filename (SpoolName_new event ms False)) = None"
    "dr_files d5 = dr_files d @ [(filename (SpoolName_new event ms False), \<lparr> fl_stat = si_published env, fl_content = bytes \<rparr>)]"
    "decode_entry codec reviewed d5 \<lparr> en_name = filename (SpoolName_new event ms False), en_identity = identity,
       en_spool = SpoolName_parse (filename (SpoolName_new event ms False)) \<rparr> = (d', Ok replay)"
    "Identity_from_stat (si_published env) = Ok identity"
proof -
  let ?part = "filename (SpoolName_new event ms True)" and ?ready = "filename (SpoolName_new event ms False)"
  let ?d1 = "d\<lparr> dr_files := dr_files d @ [(?part, \<lparr> fl_stat = si_created env, fl_content = [] \<rparr>)] \<rparr>"
  from assms have new: "map_of (dr_files d) ?part = None"
    by (auto simp: write_stage_def Let_def try_st_Ok contains_key_def split: if_splits)
  have upd: "AList.update ?part f (dr_files d @ [(?part, g)]) = AList.update ?part f (dr_files d)" for f g
    using new by (simp add: update_append_new [symmetric] update_update)
  from assms obtain d3 held identity where
    h: "hold (?d1\<lparr> dr_files := AList.update ?part \<lparr> fl_stat = si_staged env, fl_content = bytes \<rparr> (dr_files ?d1) \<rparr>)
        \<lparr> en_name = ?part, en_identity = identity, en_spool = SpoolName_parse ?part \<rparr> = (d3, Ok held)"
    and ready: "\<not> contains_key (dr_files d3) ?ready"
    and fin: "\<exists>identity. Identity_from_stat (si_published env) = Ok identity \<and>
      decode_entry codec reviewed (drop_handle (d3\<lparr> dr_files := AList.delete ?part (dr_files d3)
          @ [(?ready, \<lparr> fl_stat = si_published env, fl_content = bytes \<rparr>)] \<rparr>) held)
        \<lparr> en_name = ?ready, en_identity = identity, en_spool = SpoolName_parse ?ready \<rparr> = (d', Ok replay)"
    by (auto simp: write_stage_def Let_def try_st_Ok split: if_splits option.splits sum.splits)
  from fin obtain identity' where fin: "Identity_from_stat (si_published env) = Ok identity'"
    "decode_entry codec reviewed (drop_handle (d3\<lparr> dr_files := AList.delete ?part (dr_files d3)
          @ [(?ready, \<lparr> fl_stat = si_published env, fl_content = bytes \<rparr>)] \<rparr>) held)
        \<lparr> en_name = ?ready, en_identity = identity', en_spool = SpoolName_parse ?ready \<rparr> = (d', Ok replay)" by blast
  have "AList.delete ?part (dr_files d3) = dr_files d"
    using hold_frame [OF h] new by (simp add: upd delete_update_new)
  moreover have "map_of (dr_files d) ?ready = None"
    using ready hold_frame [OF h] by (auto simp: upd contains_key_def map_of_update split: if_splits)
  ultimately show ?thesis by (intro that [OF _ _ fin(2) fin(1)]) simp_all
qed

lemma filter_entry_at: "length (filter counts (map entry_at fs)) = length (filter (\<lambda>nf. fst nf \<noteq> LOCK \<and> \<not> is_log (fst nf)) fs)"
  by (induction fs) (simp_all add: counts_def entry_at_def)

lemma spool_measures_mset:
  assumes "mset es = mset es'"
  shows "length (filter counts es) = length (filter counts es')" "spool_bytes es = spool_bytes es'"
    "length (owned p es) = length (owned p es')" "spool_bytes (owned p es) = spool_bytes (owned p es')"
proof -
  have f: "mset (filter P es) = mset (filter P es')" for P using assms by (simp add: mset_filter)
  show "length (filter counts es) = length (filter counts es')" using f [of counts] by (metis size_mset)
  show "length (owned p es) = length (owned p es')" unfolding owned_def using f by (metis size_mset)
  have sums: "mset xs = mset ys \<Longrightarrow> spool_bytes xs = spool_bytes ys" for xs ys
    by (simp add: spool_bytes_def sum_mset_sum_list [symmetric])
  show "spool_bytes es = spool_bytes es'" using assms by (rule sums)
  show "spool_bytes (owned p es) = spool_bytes (owned p es')" unfolding owned_def using f by (intro sums)
qed

lemma spool_measures_append [simp]:
  "spool_bytes (es @ es') = spool_bytes es + spool_bytes es'" "owned p (es @ es') = owned p es @ owned p es'"
  by (simp_all add: spool_bytes_def owned_def)

lemma decode_all_Ok:
  "decode_all codec reviewed d done entries = (d', Ok batch)
   \<Longrightarrow> dr_files d' = dr_files d \<and> (\<exists>rs. batch = done @ rs
     \<and> list_all2 (\<lambda>entry r. \<exists>name. en_spool entry = Some name \<and> replayable reviewed name r \<and> hd_entry (ry_held r) = entry) entries rs)"
proof (induction entries arbitrary: d "done")
  case (Cons entry entries)
  obtain d1 x where e: "decode_entry codec reviewed d entry = (d1, x)" by (cases "decode_entry codec reviewed d entry")
  with Cons.prems obtain r where x: "x = Ok r" by (cases x) auto
  from e x Cons.prems have "decode_all codec reviewed d1 (done @ [r]) entries = (d', Ok batch)" by simp
  from Cons.IH [OF this] obtain rs where rs: "dr_files d' = dr_files d1" "batch = done @ r # rs"
    "list_all2 (\<lambda>entry r. \<exists>name. en_spool entry = Some name \<and> replayable reviewed name r \<and> hd_entry (ry_held r) = entry) entries rs"
    by auto
  from e x obtain name where "en_spool entry = Some name" "replayable reviewed name r" "hd_entry (ry_held r) = entry"
    "dr_files d1 = dr_files d" by (auto elim: decode_entry_Ok)
  with rs show ?case by (intro conjI exI [of _ "r # rs"]) auto
qed simp

lemma decode_all_Err:
  "decode_all codec reviewed d done entries = (d', x) \<Longrightarrow> dr_files d' = dr_files d"
proof (induction entries arbitrary: d "done")
  case (Cons entry entries)
  obtain d1 y where e: "decode_entry codec reviewed d entry = (d1, y)" by (cases "decode_entry codec reviewed d entry")
  with decode_entry_frame [OF e] Cons show ?case by (cases y) auto
qed simp

lemma stage_metadata_Ok:
  assumes "stage_metadata codec env s metadata ms reviewed = (s', Ok receipt)"
  obtains (present) entries existing name where "scan (as_directory s) = Ok entries" "existing \<in> set entries"
      "en_spool existing = Some name" "same_event_identity name (em_event metadata)"
      "decode_entry codec reviewed (as_directory s) existing = (as_directory s', Ok receipt)"
      "ry_event receipt = em_event metadata"
  | (written) entries and bytes :: string and f where "scan (as_directory s) = Ok entries"
      "budget entries (em_event metadata) (length bytes) = Ok ()"
      "dr_files (as_directory s') = dr_files (as_directory s)
        @ [(filename (SpoolName_new (em_event metadata) ms False), f)]"
      "unat (Entry_bytes (entry_at (filename (SpoolName_new (em_event metadata) ms False), f))) = length bytes"
      "\<forall>entry\<in>set entries. \<forall>name. en_spool entry = Some name \<longrightarrow> \<not> same_event_identity name (em_event metadata)"
      "en_name (hd_entry (ry_held receipt)) = filename (SpoolName_new (em_event metadata) ms False)"
proof -
  let ?same = "\<lambda>entry. case en_spool entry of None \<Rightarrow> False | Some name \<Rightarrow> same_event_identity name (em_event metadata)"
  from assms obtain entries where scan: "scan (as_directory s) = Ok entries"
    by (auto simp: stage_metadata_def Let_def try_st_Ok)
  show ?thesis
  proof (cases "find ?same entries")
    case (Some existing)
    obtain d x where e: "decode_entry codec reviewed (as_directory s) existing = (d, x)"
      by (cases "decode_entry codec reviewed (as_directory s) existing")
    from assms scan Some e have "d = as_directory s'" "x = Ok receipt" "ry_event receipt = em_event metadata"
      by (cases x; auto simp: stage_metadata_def Let_def split: if_splits)+
    moreover have "existing \<in> set entries" "?same existing" using find_SomeD [OF Some] by auto
    ultimately show ?thesis using scan e by (auto intro: present split: option.splits)
  next
    case None
    from assms scan None obtain bytes s1 where b: "budget entries (em_event metadata) (length bytes) = Ok ()"
      and c: "changing s = Ok s1"
      and w: "(case write_stage codec env (as_directory s1) (em_event metadata) ms bytes reviewed of
          (d, result) \<Rightarrow> (s1\<lparr> as_directory := d \<rparr>, result)) = (s', Ok receipt)"
      by (auto simp: stage_metadata_def Let_def try_st_Ok)
    have s1: "as_directory s1 = as_directory s" using c by (auto simp: changing_def map_ok_Ok)
    obtain d x where e: "write_stage codec env (as_directory s) (em_event metadata) ms bytes reviewed = (d, x)"
      by (cases "write_stage codec env (as_directory s) (em_event metadata) ms bytes reviewed")
    from w s1 e have e': "write_stage codec env (as_directory s) (em_event metadata) ms bytes reviewed = (d, Ok receipt)"
      and s': "as_directory s' = d" by auto
    from write_stage_steps [OF e'] obtain d5 identity where
      files: "dr_files d5 = dr_files (as_directory s) @ [(filename (SpoolName_new (em_event metadata) ms False),
        \<lparr> fl_stat = si_published env, fl_content = bytes \<rparr>)]"
      and dec: "decode_entry codec reviewed d5 \<lparr> en_name = filename (SpoolName_new (em_event metadata) ms False),
        en_identity = identity, en_spool = SpoolName_parse (filename (SpoolName_new (em_event metadata) ms False)) \<rparr> = (d, Ok receipt)"
      and ident: "Identity_from_stat (si_published env) = Ok identity"
      and absent: "map_of (dr_files (as_directory s)) (filename (SpoolName_new (em_event metadata) ms False)) = None" .
    from dec obtain bytes' where r: "read_held d (ry_held receipt) MAX_RECORD_BYTES = Ok bytes'"
      "hd_entry (ry_held receipt) = \<lparr> en_name = filename (SpoolName_new (em_event metadata) ms False),
        en_identity = identity, en_spool = SpoolName_parse (filename (SpoolName_new (em_event metadata) ms False)) \<rparr>"
      "dr_files d = dr_files d5" by (rule decode_entry_Ok)
    from read_held_Ok [OF r(1)] have "bytes' = bytes" using absent files r(2,3) by (auto simp: map_add_def)
    then have len: "length bytes = unat (id_bytes identity)"
      using read_held_length [OF r(1)] r(2) by (simp add: Entry_bytes_def)
    show ?thesis
    proof (rule written [OF scan b])
      show "dr_files (as_directory s') = dr_files (as_directory s) @ [(filename (SpoolName_new (em_event metadata) ms False),
          \<lparr> fl_stat = si_published env, fl_content = bytes \<rparr>)]" using s' r(3) files by simp
      show "unat (Entry_bytes (entry_at (filename (SpoolName_new (em_event metadata) ms False),
          \<lparr> fl_stat = si_published env, fl_content = bytes \<rparr>))) = length bytes"
        using len ident by (simp add: entry_at_def Entry_bytes_def)
      show "\<forall>entry\<in>set entries. \<forall>name. en_spool entry = Some name \<longrightarrow> \<not> same_event_identity name (em_event metadata)"
        using None by (auto simp: find_None_iff split: option.splits)
      show "en_name (hd_entry (ry_held receipt)) = filename (SpoolName_new (em_event metadata) ms False)" by (simp add: r(2))
    qed
  qed
qed

end
