(* ===== verification/Spool_Safety.thy ===== *)
theory Spool_Safety
  imports Spool Samples
begin

section \<open>What the spool promises\<close>

text \<open>
  The budget of the spool over every staging, the gate every replayed event passes, and concrete
  runs of both over a directory that holds its lock and one spooled event.
\<close>

subsection \<open>A concrete spool\<close>

definition sample_stat :: "nat \<Rightarrow> Stat" where
  "sample_stat bytes = \<lparr> st_regular = True, st_uid = 1000, st_mode = 0x8180, st_nlink = 1, st_dev = 7,
     st_ino = 9, st_size = int bytes, st_mtime = (0, 0), st_ctime = (0, 0) \<rparr>"

definition sample_reviewed :: "Mapping list" where
  "sample_reviewed = [\<lparr> mp_harness = Claude, mp_version = ''1'', mp_turn = Metadata, mp_session = Metadata,
     mp_health_version = Metadata \<rparr>]"

definition sample_record :: record_codec where
  "sample_record = \<lparr> rc_events = sample_codec_of EventKind.TurnCompleted,
     rc_parse = (\<lambda>_. Some (Object [(''metadata'', Object [])])), rc_print = (\<lambda>_. Some (butlast sample_frame)),
     rc_kind = (\<lambda>_. Some EventKind.TurnCompleted), rc_kind_value = (\<lambda>_. Null), rc_event_value = (\<lambda>_. Some Null),
     rc_record = (\<lambda>_. Some \<lparr> rr_format = 1, rr_harness = Claude, rr_mapping_version = ''1'',
       rr_observed_ms = 5, rr_event = Null \<rparr>),
     rc_record_print = (\<lambda>_. Some ''r'') \<rparr>"

definition sample_spool_name :: SpoolName where
  "sample_spool_name = SpoolName_new (sample_event 1 completed) 5 False"

definition sample_directory :: Directory where
  "sample_directory = \<lparr> dr_uid = 1000, dr_files = [(LOCK, \<lparr> fl_stat = sample_stat 0, fl_content = [] \<rparr>)],
     dr_check = Ok (), dr_authority = 0, dr_handles = 0 \<rparr>"

definition sample_artifacts :: ArtifactStore where
  "sample_artifacts = \<lparr> as_directory = sample_directory, as_rejected_attempts = 0,
     as_discarded_artifacts = 0, as_unknown_gap = True, as_revision = 0 \<rparr>"

definition sample_input :: AdapterRecord where
  "sample_input = \<lparr> ar_harness = Claude, ar_version = ''1'', ar_source = ''{}'' \<rparr>"

definition sample_stage_io :: stage_io where
  "sample_stage_io = \<lparr> si_open = True, si_created = sample_stat 0, si_write = Some 1, si_sync = True,
     si_staged = sample_stat 1, si_rename = True, si_publish_sync = True, si_published = sample_stat 1 \<rparr>"

lemma sample_name_ok: "name_ok (SpoolName_new (sample_event 1 completed) 5 b)"
  by (simp add: name_ok_def SpoolName_new_def sample_event_def) code_simp

lemmas sample_codec_simps = parse_event_def decode_def sample_frame_def newline_def carriage_return_def
  MAX_FRAME_BYTES_def MAX_JSON_DEPTH_def sample_codec_of_def is_object_def as_u64_def typed_def Value_get_def
  EventPayload_decode_def

lemma sample_eligible: "eligible sample_record sample_input sample_reviewed
   = Ok \<lparr> em_event = sample_event 1 completed, em_harness = Claude, em_version = ''1'' \<rparr>"
  by (simp add: eligible_def sample_record_def sample_input_def sample_reviewed_def MAX_RECORD_BYTES_def mapping_of_def
      payload_of_def Let_def sample_codec_simps sample_event_def)

lemma sample_identity: "n < 100 \<Longrightarrow> Identity_from_stat (sample_stat n) = Ok \<lparr> id_device = 7, id_inode = 9, id_bytes = of_nat n, id_modified = (0,0), id_changed = (0,0) \<rparr>"
  by (simp add: Identity_from_stat_def sample_stat_def)

lemma sample_private: "private_file (sample_stat n) 1000 = Ok ()"
  by (simp add: private_file_def sample_stat_def)

lemma lock_none: "SpoolName_parse LOCK = None"
  by code_simp

lemma lock_nolog: "\<not> is_log LOCK"
  by code_simp

lemma filename_nolog: "filename n \<noteq> LOCK" "\<not> is_log (filename n)"
  by (auto simp: filename_def LOCK_def is_log_def LOG_NAMES_def)

lemma sample_scan: "scan sample_directory = Ok [\<lparr> en_name = LOCK, en_identity = \<lparr> id_device = 7, id_inode = 9, id_bytes = 0, id_modified = (0,0), id_changed = (0,0) \<rparr>, en_spool = None \<rparr>]"
  by (simp add: scan_def sample_directory_def scan_entries_def sample_private sample_identity lock_none counts_def is_log_def LOG_NAMES_def)

lemma sample_names_differ: "filename (SpoolName_new event ms True) \<noteq> filename (SpoolName_new event ms False)"
  by (simp add: filename_def SpoolName_new_def)

lemma sample_parse_name:
  "SpoolName_parse (filename (SpoolName_new (sample_event (Suc 0) completed) 5 b)) = Some (SpoolName_new (sample_event (Suc 0) completed) 5 b)"
  using sample_name_ok [of b] by (simp add: parse_name)

definition sample_entry :: ReplayEntry where
  "sample_entry = \<lparr> ry_event = sample_event 1 completed, ry_harness = Claude,
     ry_held = \<lparr> hd_entry = \<lparr> en_name = filename sample_spool_name, en_identity = \<lparr> id_device = 7, id_inode = 9,
       id_bytes = 1, id_modified = (0, 0), id_changed = (0, 0) \<rparr>, en_spool = Some sample_spool_name \<rparr>, hd_lease = 0 \<rparr> \<rparr>"

definition sample_staged :: "nat \<Rightarrow> ArtifactStore" where
  "sample_staged handles = sample_artifacts\<lparr> as_directory := sample_directory\<lparr> dr_files := dr_files sample_directory
       @ [(filename sample_spool_name, \<lparr> fl_stat = sample_stat 1, fl_content = ''r'' \<rparr>)], dr_handles := handles \<rparr>,
     as_revision := 1 \<rparr>"

lemmas directory_simps = Let_def contains_key_def filename_nolog filename_nolog(1) [symmetric] sample_names_differ sample_names_differ [symmetric]
  file_identity_def sample_private sample_identity hold_def open_handle_def validate_held_def MAX_HELD_HANDLES_def
  drop_handle_def

lemma sample_decode:
  "decode_entry sample_record sample_reviewed (as_directory (sample_staged 0)) (hd_entry (ry_held sample_entry))
     = (as_directory (sample_staged 1), Ok sample_entry)"
  by (simp add: decode_entry_def sample_staged_def sample_artifacts_def sample_directory_def sample_entry_def sample_spool_name_def
      directory_simps SpoolName_new_def decode_held_def read_held_def MAX_RECORD_BYTES_def Entry_bytes_def sample_record_def
      sample_codec_simps mapping_of_def sample_reviewed_def validate_replay_def matches_def same_event_identity_def sample_event_def)

lemma sample_staging: "stage_reviewed sample_record sample_stage_io sample_artifacts sample_input 5 sample_reviewed
    = (sample_staged 1, Ok sample_entry)"
proof -
  have w: "write_stage sample_record sample_stage_io sample_directory (sample_event (Suc 0) completed) 5 ''r'' sample_reviewed
      = decode_entry sample_record sample_reviewed (as_directory (sample_staged 0)) (hd_entry (ry_held sample_entry))"
    by (simp add: write_stage_def sample_directory_def sample_stage_io_def directory_simps sample_staged_def sample_artifacts_def
        sample_entry_def sample_spool_name_def sample_parse_name)
  show ?thesis
    unfolding stage_reviewed_def sample_eligible
    apply (simp add: stage_metadata_def Let_def sample_artifacts_def sample_scan)
    apply (simp add: sample_record_def budget_def MAX_RECORD_BYTES_def changing_def checked_add_def counts_def
        MAX_SPOOL_BYTES_def MAX_PRODUCER_BYTES_def MAX_SPOOL_FILES_def MAX_PRODUCER_FILES_def)
    apply (simp add: sample_record_def [symmetric] w sample_decode)
    apply (simp add: sample_staged_def sample_artifacts_def)
    done
qed

subsection \<open>Properties\<close>

text \<open>C24: Spool budget. A staging that succeeds either found a file already named after the event, read from
  it the very same event, which is its receipt, and wrote nothing; or no file was named after the
  event, and it added exactly one, which its receipt is read from. Any scan after such an addition
  finds at most 1024 spooled files of 8 MiB together, and at most 64 of 256 KiB of the event's
  producer, the new file included.\<close>

theorem stage_within_budget:
  assumes "stage_reviewed codec env s input ms reviewed = (s', Ok receipt)"
    and "scan (as_directory s') = Ok entries"
  shows "\<exists>metadata before. eligible codec input reviewed = Ok metadata \<and> scan (as_directory s) = Ok before \<and>
    ((\<exists>existing\<in>set before. \<exists>name. en_spool existing = Some name \<and> same_event_identity name (em_event metadata)
        \<and> decode_entry codec reviewed (as_directory s) existing = (as_directory s', Ok receipt)
        \<and> hd_entry (ry_held receipt) = existing \<and> ry_event receipt = em_event metadata
        \<and> dr_files (as_directory s') = dr_files (as_directory s))
     \<or> ((\<forall>entry\<in>set before. \<forall>name. en_spool entry = Some name \<longrightarrow> \<not> same_event_identity name (em_event metadata))
       \<and> (\<exists>f. dr_files (as_directory s') = dr_files (as_directory s)
            @ [(filename (SpoolName_new (em_event metadata) ms False), f)])
       \<and> en_name (hd_entry (ry_held receipt)) = filename (SpoolName_new (em_event metadata) ms False)
       \<and> length (filter counts entries) \<le> 1024 \<and> spool_bytes entries \<le> 8 * 1024 * 1024
       \<and> length (owned (ev_producer_id (em_event metadata)) entries) \<le> 64
       \<and> spool_bytes (owned (ev_producer_id (em_event metadata)) entries) \<le> 256 * 1024))"
proof -
  from assms(1) obtain metadata where metadata: "eligible codec input reviewed = Ok metadata"
    and staged: "stage_metadata codec env s metadata ms reviewed = (s', Ok receipt)"
    by (cases "eligible codec input reviewed") (auto simp: stage_reviewed_def split: prod.splits sum.splits)
  from staged show ?thesis
  proof (cases rule: stage_metadata_Ok)
    case (present before existing name)
    then have "hd_entry (ry_held receipt) = existing" by (auto elim: decode_entry_Ok)
    moreover have "dr_files (as_directory s') = dr_files (as_directory s)" using decode_entry_frame [OF present(5)] by simp
    ultimately show ?thesis using metadata present by blast
  next
    case (written before bytes f)
    let ?p = "ev_producer_id (em_event metadata)"
    let ?new = "entry_at (filename (SpoolName_new (em_event metadata) ms False), f)"
    have after: "mset entries = mset (before @ [?new])"
      using scan_Ok(1) [OF assms(2)] scan_Ok(1) [OF written(1)] written(3) by simp
    have one: "length (filter counts [?new]) \<le> 1" "length (owned ?p [?new]) \<le> 1"
      "spool_bytes [?new] \<le> length bytes" "spool_bytes (owned ?p [?new]) \<le> length bytes"
      using written(4) by (simp_all add: owned_def spool_bytes_def)
    have "length (filter counts entries) \<le> 1024 \<and> spool_bytes entries \<le> 8 * 1024 * 1024
       \<and> length (owned ?p entries) \<le> 64 \<and> spool_bytes (owned ?p entries) \<le> 256 * 1024"
      using one budget_Ok [OF written(2)] unfolding spool_measures_mset [OF after]
      by (simp add: MAX_SPOOL_FILES_def MAX_SPOOL_BYTES_def MAX_PRODUCER_FILES_def MAX_PRODUCER_BYTES_def)
    with metadata written(1,3,5,6) show ?thesis by blast
  qed
qed

lemma sample_scan_staged: "\<exists>entries. scan (as_directory (sample_staged n)) = Ok entries \<and> length entries = 2"
  by (simp add: scan_def sample_staged_def sample_artifacts_def sample_directory_def scan_entries_def sample_private
      sample_identity lock_none counts_def MAX_SPOOL_FILES_def LOG_FILES_def sample_spool_name_def sample_parse_name
      filename_nolog is_log_def LOG_NAMES_def MAX_LOG_BYTES_def)

lemma stage_within_budget_witness:
  "\<exists>entries. scan (as_directory (sample_staged 1)) = Ok entries
    \<and> (dr_files (as_directory (sample_staged 1)) = dr_files sample_directory \<or> spool_bytes entries \<le> 8 * 1024 * 1024)"
proof -
  from sample_scan_staged [of 1] obtain entries where "scan (as_directory (sample_staged 1)) = Ok entries" by blast
  with stage_within_budget [OF sample_staging this] show ?thesis by (auto simp: sample_artifacts_def)
qed

text \<open>C25: Replay gate. A batch that is read changes no file and holds at most 32 events; each is held
  under a name of its own, complete and not expired, which names exactly that event, and its
  harness has a reviewed mapping that admits every part of it. With the production table, which is
  empty, nothing is ever replayed.\<close>

theorem replay_is_eligible:
  assumes "read_reviewed codec s now reviewed = (s', Ok batch)"
  shows "dr_files (as_directory s') = dr_files (as_directory s) \<and> length batch \<le> 32
    \<and> (\<forall>r\<in>set batch. \<exists>name. en_spool (hd_entry (ry_held r)) = Some name \<and> replayable reviewed name r
         \<and> \<not> expired name now)
    \<and> (reviewed = REVIEWED \<longrightarrow> batch = [])"
proof -
  let ?due = "\<lambda>entry. case en_spool entry of None \<Rightarrow> False | Some name \<Rightarrow> \<not> sn_partial name \<and> \<not> expired name now"
  from assms obtain entries d where d: "decode_all codec reviewed (as_directory s) [] (take MAX_REPLAY_BATCH (filter ?due entries))
      = (d, Ok batch)" and s': "s' = s\<lparr> as_directory := d \<rparr>"
    by (auto simp: read_reviewed_def split: sum.splits prod.splits)
  from decode_all_Ok [OF d] have files: "dr_files d = dr_files (as_directory s)"
    and all: "list_all2 (\<lambda>entry r. \<exists>name. en_spool entry = Some name \<and> replayable reviewed name r \<and> hd_entry (ry_held r) = entry)
      (take MAX_REPLAY_BATCH (filter ?due entries)) batch" by auto
  have "length batch \<le> 32" using list_all2_lengthD [OF all] by (simp add: MAX_REPLAY_BATCH_def)
  moreover have "dr_files (as_directory s') = dr_files (as_directory s)" by (simp add: s' files)
  moreover have each: "\<exists>name. en_spool (hd_entry (ry_held r)) = Some name \<and> replayable reviewed name r \<and> \<not> expired name now"
    if "r \<in> set batch" for r
  proof -
    from that obtain i where i: "i < length batch" "batch ! i = r" by (auto simp: in_set_conv_nth)
    let ?e = "take MAX_REPLAY_BATCH (filter ?due entries) ! i"
    from list_all2_nthD2 [OF all i(1)] obtain name where
      n: "en_spool ?e = Some name" "replayable reviewed name r" "hd_entry (ry_held r) = ?e"
      unfolding i(2) by blast
    have "i < length (take MAX_REPLAY_BATCH (filter ?due entries))" using i(1) list_all2_lengthD [OF all] by (simp only:)
    then have "?e \<in> set (filter ?due entries)" by (rule in_set_takeD [OF nth_mem])
    then have "?due ?e" by (simp only: set_filter mem_Collect_eq)
    with n show ?thesis by auto
  qed
  moreover have "batch = []" if "reviewed = REVIEWED"
    using each that by (cases batch) (auto simp: replayable_def REVIEWED_def)
  ultimately show ?thesis by blast
qed

lemma new_name: "sn_partial (SpoolName_new event ms b) = b" "sn_observed_ms (SpoolName_new event ms b) = ms"
  by (simp_all add: SpoolName_new_def)

lemma sample_due:
  "\<exists>entries. scan (as_directory (sample_staged 0)) = Ok entries
    \<and> filter (\<lambda>entry. case en_spool entry of None \<Rightarrow> False | Some name \<Rightarrow> \<not> sn_partial name \<and> \<not> expired name 6) entries
       = [hd_entry (ry_held sample_entry)]"
  by (simp add: scan_def sample_staged_def sample_artifacts_def sample_directory_def scan_entries_def sample_private
      sample_identity lock_none counts_def MAX_SPOOL_FILES_def LOG_FILES_def sample_spool_name_def sample_parse_name
      filename_nolog lock_nolog new_name sample_entry_def expired_def
      checked_sub_def SPOOL_TTL_MS_def word_le_nat_alt)

lemma sample_read:
  "read_reviewed sample_record (sample_staged 0) 6 sample_reviewed = (sample_staged 1, Ok [sample_entry])"
  using sample_due sample_decode by (auto simp: read_reviewed_def MAX_REPLAY_BATCH_def sample_staged_def sample_artifacts_def)

lemma replay_is_eligible_witness:
  "\<exists>name. en_spool (hd_entry (ry_held sample_entry)) = Some name \<and> replayable sample_reviewed name sample_entry \<and> \<not> expired name 6"
  using replay_is_eligible [OF sample_read] by auto

end
