(* ===== verification/Coordinator.thy ===== *)
theory Coordinator
  imports Worker Registry Spool
begin

section \<open>The coordinator's operations and commit jobs (coordinator/operation.rs, commit.rs, decision.rs, mod.rs)\<close>

text \<open>
  One event is carried into the store: its context is read, the event reduced, the write applied; or
  its producer is retired. A job owns its event and one database intent at a time, and holds the
  registry exclusively; the worker is shared, so it is an argument of every poll and its result.
  An \<open>expect\<close> of the source is a branch without value: \<open>None\<close> is a panic.
  Field prefixes: \<open>ox_\<close> \<open>Operation\<close>, \<open>cj_\<close> \<open>CommitJob\<close>, \<open>pm_\<close> \<open>PendingCommit\<close>, \<open>dc_\<close> \<open>DurableReceipt\<close>.
\<close>

subsection \<open>One retained intent (operation.rs)\<close>

record JobOperation =
  ox_request :: "Request option"
  ox_ticket :: "Ticket option"

datatype Poll = Pending | Backpressure | Unknown | Result "StorageError + Response"

definition Operation_new :: "Request \<Rightarrow> JobOperation" where
  "Operation_new request = \<lparr> ox_request = Some request, ox_ticket = None \<rparr>"

definition Operation_request :: "DatabaseWorker \<Rightarrow> JobOperation \<Rightarrow> Request option" where
  "Operation_request w op = (case ox_ticket op of
     Some t \<Rightarrow> Ticket_request w t
   | None \<Rightarrow> ox_request op)"

definition poll_ticket :: "DatabaseWorker \<Rightarrow> JobOperation \<Rightarrow> Ticket \<Rightarrow> DatabaseWorker \<times> JobOperation \<times> Poll" where
  "poll_ticket w op t = (case wait_timeout w t of (w, t, x) \<Rightarrow>
     (w, op\<lparr> ox_ticket := Some t \<rparr>,
      case x of
        Ok response \<Rightarrow> Result (Ok response)
      | Err ReceiptError.Pending \<Rightarrow> Poll.Pending
      | Err (Storage e) \<Rightarrow> Result (Err e)
      | Err UnknownOutcome \<Rightarrow> Poll.Unknown
      | Err AlreadyReceived \<Rightarrow> Poll.Unknown))"

definition Operation_poll ::
    "store_codec \<Rightarrow> DatabaseWorker \<Rightarrow> JobOperation \<Rightarrow> (DatabaseWorker \<times> JobOperation \<times> Poll) option" where
  "Operation_poll codec w op = (case ox_ticket op of
     Some t \<Rightarrow> Some (poll_ticket w op t)
   | None \<Rightarrow> (case ox_request op of
       None \<Rightarrow> None
     | Some request \<Rightarrow>
         let op = op\<lparr> ox_request := None \<rparr> in
         (case try_submit codec w request of
           (w, Ok t) \<Rightarrow> Some (poll_ticket w (op\<lparr> ox_ticket := Some t \<rparr>) t)
         | (w, Err e) \<Rightarrow>
             Some (w, op\<lparr> ox_request := Some (sb_request e) \<rparr>, case sb_reason e of
                 Full \<Rightarrow> Poll.Backpressure
               | Stopped \<Rightarrow> Result (Err StorageError.PersistenceUnavailable)
               | Invalid error \<Rightarrow> Result (Err error)))))"

text \<open>Assigning a new operation drops the old one, and with it its ticket.\<close>

definition drop_operation :: "DatabaseWorker \<Rightarrow> JobOperation \<Rightarrow> DatabaseWorker" where
  "drop_operation w op = (case ox_ticket op of Some t \<Rightarrow> drop_ticket w t | None \<Rightarrow> w)"

subsection \<open>Commit jobs (commit.rs)\<close>

datatype CommitFailure =
    Unreconciled | Conflict | SequenceGap | PriorSequenceUnverifiable | InvalidEvidence
  | Storage StorageError

datatype CommitProgress =
    Pending | Backpressure | UnknownOutcome | Committed Revision | Rejected CommitFailure

datatype Purpose = Context | Apply | Retire CommitFailure

record DurableReceipt =
  dc_event :: EventEnvelope
  dc_harness :: HarnessKind
  dc_revision :: Revision

record PendingCommit =
  pm_entry :: ReplayEntry
  pm_request :: Request
  pm_purpose :: Purpose
  pm_policy :: ObservationPolicy
  pm_accepted_at :: int
  pm_notify :: bool
  pm_discarded :: u64
  pm_unknown_gap :: bool

record CommitStatus =
  cs_known_queued_discards :: u64
  cs_unknown_gap :: bool

record CommitJob =
  cj_registry :: Registry
  cj_entry :: "ReplayEntry option"
  cj_operation :: JobOperation
  cj_purpose :: Purpose
  cj_policy :: ObservationPolicy
  cj_accepted_at :: int
  cj_notify :: bool
  cj_discarded :: u64
  cj_unknown_gap :: bool
  cj_retries :: u8
  cj_progress :: CommitProgress
  cj_done :: bool
  cj_receipt :: "DurableReceipt option"

definition CommitJob_new ::
    "Registry \<Rightarrow> ReplayEntry \<Rightarrow> ObservationPolicy \<Rightarrow> int \<Rightarrow> bool \<Rightarrow> CommitJob" where
  "CommitJob_new registry entry policy accepted_at notify = \<lparr> cj_registry = registry,
     cj_entry = Some entry, cj_operation = Operation_new (Request.Context (ry_event entry)),
     cj_purpose = Purpose.Context, cj_policy = policy, cj_accepted_at = accepted_at, cj_notify = notify,
     cj_discarded = 0, cj_unknown_gap = False, cj_retries = 0, cj_progress = CommitProgress.Pending,
     cj_done = False, cj_receipt = None \<rparr>"

definition resume :: "Registry \<Rightarrow> PendingCommit \<Rightarrow> CommitJob" where
  "resume registry pending = \<lparr> cj_registry = registry, cj_entry = Some (pm_entry pending),
     cj_operation = Operation_new (pm_request pending), cj_purpose = pm_purpose pending,
     cj_policy = pm_policy pending, cj_accepted_at = pm_accepted_at pending, cj_notify = pm_notify pending,
     cj_discarded = pm_discarded pending, cj_unknown_gap = pm_unknown_gap pending, cj_retries = 0,
     cj_progress = CommitProgress.Pending, cj_done = False, cj_receipt = None \<rparr>"

definition commit_status :: "CommitJob \<Rightarrow> CommitStatus" where
  "commit_status job = \<lparr> cs_known_queued_discards = cj_discarded job, cs_unknown_gap = cj_unknown_gap job \<rparr>"

subsection \<open>Decisions (decision.rs)\<close>

definition job_event :: "CommitJob \<Rightarrow> EventEnvelope option" where
  "job_event job = map_option ry_event (cj_entry job)"

definition freeze :: "CommitJob \<Rightarrow> CommitJob" where
  "freeze job = (case cj_entry job of
     None \<Rightarrow> job
   | Some entry \<Rightarrow>
       (case invalidate_generation (cj_registry job) (ev_producer_id (ry_event entry))
           (Some (ev_generation (ry_event entry))) of
         (r, Ok gone) \<Rightarrow> job\<lparr> cj_registry := r,
             cj_discarded := saturating_add (cj_discarded job) (u64_of_usize gone) \<rparr>
       | (r, Err _) \<Rightarrow> job\<lparr> cj_registry := r \<rparr>))"

definition reject :: "CommitJob \<Rightarrow> CommitFailure \<Rightarrow> CommitJob \<times> CommitProgress" where
  "reject job cause = (job\<lparr> cj_done := True \<rparr>, Rejected cause)"

definition job_accept :: "CommitJob \<Rightarrow> Revision \<Rightarrow> (CommitJob \<times> CommitProgress) option" where
  "job_accept job rv = map_option (\<lambda>entry.
     (job\<lparr> cj_receipt := Some \<lparr> dc_event = ry_event entry, dc_harness = ry_harness entry,
        dc_revision = rv \<rparr>, cj_done := True \<rparr>, CommitProgress.Committed rv)) (cj_entry job)"

definition job_retire ::
    "DatabaseWorker \<Rightarrow> CommitJob \<Rightarrow> Revision \<Rightarrow> CommitFailure
     \<Rightarrow> (DatabaseWorker \<times> CommitJob \<times> CommitProgress) option" where
  "job_retire w job rv cause =
     (let job = freeze job in map_option (\<lambda>event.
       (drop_operation w (cj_operation job),
        job\<lparr> cj_operation := Operation_new (RetireProducer \<lparr> pt_expected_revision = rv,
            pt_producer_id = ev_producer_id event, pt_generation = ev_generation event,
            pt_discarded_events = cj_discarded job \<rparr>),
          cj_purpose := Retire cause \<rparr>, CommitProgress.Pending)) (job_event job))"

definition job_context ::
    "DatabaseWorker \<Rightarrow> CommitJob \<Rightarrow> ReducerContext \<Rightarrow> (DatabaseWorker \<times> CommitJob \<times> CommitProgress) option" where
  "job_context w job context = (case rc_producer context of
     None \<Rightarrow> Some (w, reject job Unreconciled)
   | Some record \<Rightarrow> Option.bind (cj_entry job) (\<lambda>entry.
       let event = ry_event entry in
       if pc_run_id record \<noteq> ev_run_id event \<or> pc_harness record \<noteq> ry_harness entry
       then Some (w, reject job Unreconciled)
       else case rc_receipt context of
         Exact rv \<Rightarrow> map_option (Pair w) (job_accept job rv)
       | stored \<Rightarrow>
           if pc_generation record \<noteq> ev_generation event \<or> \<not> pc_active record \<or> \<not> pc_reconciled record
           then Some (w, reject job Unreconciled)
           else
             let cause = (case stored of
                 EventReceipt.Conflict \<Rightarrow> Some CommitFailure.Conflict
               | EventReceipt.PriorSequenceUnverifiable \<Rightarrow> Some CommitFailure.PriorSequenceUnverifiable
               | _ \<Rightarrow> if pc_next_sequence record \<noteq> Some (ev_seq event) then Some CommitFailure.SequenceGap else None)
             in (case cause of
               Some cause \<Rightarrow> job_retire w job (rc_revision context) cause
             | None \<Rightarrow> (case reduce (rc_state context) event (cj_policy job) of
                 Err _ \<Rightarrow> job_retire w job (rc_revision context) CommitFailure.InvalidEvidence
               | Ok effects \<Rightarrow>
                   let job = (if fx_reconciliation_required effects then freeze job else job) in
                   Some (drop_operation w (cj_operation job),
                     job\<lparr> cj_operation := Operation_new (Request.Apply \<lparr>
                         rw_expected_revision = rc_revision context, rw_fact = event, rw_effects = effects,
                         rw_accepted_at = cj_accepted_at job, rw_notify = cj_notify job,
                         rw_discarded_events = cj_discarded job \<rparr>),
                       cj_purpose := Purpose.Apply \<rparr>, CommitProgress.Pending)))))"

definition job_response ::
    "DatabaseWorker \<Rightarrow> CommitJob \<Rightarrow> StorageError + Response
     \<Rightarrow> (DatabaseWorker \<times> CommitJob \<times> CommitProgress) option" where
  "job_response w job result =
     (let invalid = Some (w, reject job CommitFailure.InvalidEvidence) in case result of
       Ok (Response.Context context) \<Rightarrow>
         if cj_purpose job = Purpose.Context then job_context w job context else invalid
     | Ok (Response.Committed rv _) \<Rightarrow>
         if cj_purpose job = Purpose.Apply then map_option (Pair w) (job_accept job rv) else invalid
     | Ok (Retired _) \<Rightarrow> (case cj_purpose job of
         Retire cause \<Rightarrow> Some (w, reject job cause) | _ \<Rightarrow> invalid)
     | Err e \<Rightarrow>
         if e = StorageError.StaleRevision \<and> cj_retries job < 3
         then map_option (\<lambda>event. (drop_operation w (cj_operation job),
             job\<lparr> cj_retries := cj_retries job + 1, cj_purpose := Purpose.Context,
               cj_operation := Operation_new (Request.Context event) \<rparr>, CommitProgress.Pending)) (job_event job)
         else Some (w, reject ((freeze job)\<lparr> cj_unknown_gap := True \<rparr>) (CommitFailure.Storage e))
     | _ \<Rightarrow> invalid)"

subsection \<open>Polling a job\<close>

definition job_poll ::
    "store_codec \<Rightarrow> DatabaseWorker \<Rightarrow> CommitJob \<Rightarrow> (DatabaseWorker \<times> CommitJob \<times> CommitProgress) option" where
  "job_poll codec w job =
     (if cj_done job then Some (w, job, cj_progress job)
      else Option.bind (Operation_poll codec w (cj_operation job)) (\<lambda>(w, op, p).
        let job = job\<lparr> cj_operation := op \<rparr> in
        map_option (\<lambda>(w, job, progress). (w, job\<lparr> cj_progress := progress \<rparr>, progress))
          (case p of
             Poll.Pending \<Rightarrow> Some (w, job, CommitProgress.Pending)
           | Poll.Backpressure \<Rightarrow> Some (w, job, CommitProgress.Backpressure)
           | Poll.Unknown \<Rightarrow> Some (w, (freeze job)\<lparr> cj_unknown_gap := True, cj_done := True \<rparr>,
               CommitProgress.UnknownOutcome)
           | Result result \<Rightarrow> job_response w job result)))"

definition take_committed :: "CommitJob \<Rightarrow> CommitJob \<times> (DurableReceipt \<times> ReplayEntry) option" where
  "take_committed job = (case cj_receipt job of
     None \<Rightarrow> (job, None)
   | Some proof_of \<Rightarrow>
       (job\<lparr> cj_receipt := None, cj_entry := None \<rparr>, map_option (Pair proof_of) (cj_entry job)))"

definition into_pending :: "DatabaseWorker \<Rightarrow> CommitJob \<Rightarrow> DatabaseWorker \<times> Registry \<times> PendingCommit option option" where
  "into_pending w job =
     (let job = freeze job in
      (drop_operation w (cj_operation job), cj_registry job,
       case cj_entry job of
         None \<Rightarrow> Some None
       | Some entry \<Rightarrow> map_option (\<lambda>request. Some \<lparr> pm_entry = entry, pm_request = request,
           pm_purpose = cj_purpose job, pm_policy = cj_policy job, pm_accepted_at = cj_accepted_at job,
           pm_notify = cj_notify job, pm_discarded = cj_discarded job, pm_unknown_gap = cj_unknown_gap job \<rparr>)
           (Operation_request w (cj_operation job))))"

subsection \<open>Disposal of the spooled entry (mod.rs)\<close>

definition confirm_spool ::
    "bool \<Rightarrow> bool \<Rightarrow> ArtifactStore \<Rightarrow> ReplayEntry \<Rightarrow> DurableReceipt \<Rightarrow> ArtifactStore \<times> (RecoveryError + unit)" where
  "confirm_spool fails sync_fails store entry durable =
     (if ry_harness entry \<noteq> dc_harness durable
      then (store\<lparr> as_directory := drop_handle (as_directory store) (ry_held entry) \<rparr>, Err InvalidRecord)
      else confirm_committed fails sync_fails store entry (dc_event durable))"

end
