(* ===== verification/Commit_Safety.thy ===== *)
theory Commit_Safety
  imports Coordinator Store_Log
begin

section \<open>What a commit job promises\<close>

text \<open>
  A job in every interleaving with the other users of the worker: it never panics, its receipt
  stands for a stored fact, and it comes to an end once the worker serves its requests.
\<close>

subsection \<open>Answers about one event\<close>

text \<open>
  \<open>recorded\<close>: some store the engine reached holds a row of the event with this revision, whose
  bytes are those of a write of exactly this event, or decode to it.
\<close>

definition recorded :: "store_codec \<Rightarrow> EventEnvelope \<Rightarrow> Revision \<Rightarrow> bool" where
  "recorded codec event rv \<longleftrightarrow> (\<exists>self db row. engine_reachable codec self \<and> en_connection self = Some db
     \<and> find (same_fact event) (db_facts db) = Some row \<and> decode_number (fw_revision row) = Ok (Revision_value rv)
     \<and> (decode_fact codec (fw_write_set row) = Ok event
        \<or> (\<exists>w. rw_fact w = event \<and> sk_reducer_write codec w = Some (fw_write_set row))))"

lemma answered_served:
  assumes "answered codec request (Ok response)" and "request \<noteq> Backup" and "request \<noteq> RestoreBackup"
  obtains self self' :: engine and entropy owner db db' where "engine_reachable codec self" "engine_reachable codec self'"
    "en_connection self = Some db" "en_connection self' = Some db'"
    "answer_request codec entropy owner db request = Ok (db', response)"
proof -
  from assms obtain self env where reach: "engine_reachable codec self" and r: "snd (execute codec env self request) = Ok response"
    by (auto simp: answered_def)
  then obtain self' where e: "execute codec env self request = (self', Ok response)"
    by (cases "execute codec env self request") auto
  note reach' = engine_reachable.executed [OF reach e]
  from e assms(2,3) show ?thesis
    by (cases rule: execute_cases) (auto intro: that [OF reach reach'])
qed

lemma context_recorded:
  assumes "answered codec (Request.Context event) (Ok (Response.Context context))" and "rc_receipt context = Exact rv"
  shows "recorded codec event rv"
proof -
  from assms(1) obtain self self' :: engine and entropy owner db db' where reach: "engine_reachable codec self" "en_connection self = Some db"
    and d: "answer_request codec entropy owner db (Request.Context event) = Ok (db', Response.Context context)"
    by (rule answered_served) simp_all
  from d have "context_of codec db event = Ok context" by (auto simp: answer_request_def map_ok_Ok)
  with assms(2) obtain known where r: "receipt codec db event known = Ok (Exact rv)"
    by (auto simp: context_of_def and_then_Ok)
  then obtain row where row: "find (same_fact event) (db_facts db) = Some row"
    by (auto simp: receipt_def split: option.splits if_splits)
  with r have "decode_fact codec (fw_write_set row) = Ok event" "decode_number (fw_revision row) = Ok (Revision_value rv)"
    by (auto simp: receipt_def and_then_Ok map_ok_Ok split: if_splits)
  with reach row show ?thesis by (auto simp: recorded_def)
qed

lemma apply_recorded:
  assumes "answered codec (Request.Apply write) (Ok (Response.Committed rv dup))"
  shows "recorded codec (rw_fact write) rv"
proof -
  from assms obtain self self' :: engine and entropy owner db db' where reach: "engine_reachable codec self'" "en_connection self' = Some db'"
    and d: "answer_request codec entropy owner db (Request.Apply write) = Ok (db', Response.Committed rv dup)"
    by (rule answered_served) simp_all
  from d have "apply_write codec db write = Ok (db', rv, dup)" by (auto simp: answer_request_def map_ok_Ok)
  then obtain identity row where "sk_reducer_write codec write = Some identity"
    "find (same_fact (rw_fact write)) (db_facts db') = Some row" "fw_write_set row = identity"
    "decode_number (fw_revision row) = Ok (Revision_value rv)" by (rule apply_write_stored)
  with reach show ?thesis unfolding recorded_def by blast
qed

subsection \<open>The operation of a job\<close>

definition operation_ok :: "DatabaseWorker \<Rightarrow> JobOperation \<Rightarrow> Request \<Rightarrow> bool" where
  "operation_ok w op request \<longleftrightarrow> (case ox_ticket op of
     None \<Rightarrow> ox_request op = Some request
   | Some t \<Rightarrow> holds w t \<and> Ticket_request w t = Some request)"

lemma operation_ok_new [simp]: "operation_ok w (Operation_new request) request"
  by (simp add: operation_ok_def Operation_new_def)

lemma operation_ok_request: "operation_ok w op request \<Longrightarrow> Operation_request w op = Some request"
  by (simp add: operation_ok_def Operation_request_def split: option.splits)

lemma poll_ticket_ok:
  assumes "worker_reachable codec w" and "holds w t" and "Ticket_request w t = Some request"
    and "poll_ticket w op t = (w', op', p)"
  shows "worker_reachable codec w'" "operation_ok w' op' request" "ox_ticket op' \<noteq> None"
    "\<And>r. p = Result (Ok r) \<Longrightarrow> answered codec request (Ok r)"
proof -
  obtain w1 t1 x where x: "wait_timeout w t = (w1, t1, x)" by (cases "wait_timeout w t")
  with assms(4) have eq: "w' = w1" "op' = op\<lparr> ox_ticket := Some t1 \<rparr>" by (simp_all add: poll_ticket_def)
  note law = db_worker.wait_law [OF worker_reachable_ok [OF assms(1)] assms(2) x]
  show "worker_reachable codec w'" unfolding eq
    by (rule worker_reachable.stepped [OF assms(1) worker_step.waited [OF assms(2) [unfolded holds_def] x]])
  show "operation_ok w' op' request" "ox_ticket op' \<noteq> None"
    using law assms(3) by (simp_all add: eq operation_ok_def)
  show "answered codec request (Ok r)" if "p = Result (Ok r)" for r
  proof -
    from that assms(4) x have "x = Ok r"
      by (auto simp: poll_ticket_def split: sum.splits ReceiptError.splits)
    with law assms(3) obtain result where "Ok r = map_err ReceiptError.Storage result" "answered codec request result"
      by (auto simp: final_receipt_def receipt_answers_def)
    then show ?thesis by (cases result) simp_all
  qed
qed

lemma Operation_poll_ok:
  assumes "worker_reachable codec w" and "operation_ok w op request"
  obtains w' op' p where "Operation_poll codec w op = Some (w', op', p)" "worker_reachable codec w'"
    "operation_ok w' op' request" "\<And>r. p = Result (Ok r) \<Longrightarrow> answered codec request (Ok r)"
proof (cases "ox_ticket op")
  case (Some t)
  obtain w' op' p where e: "poll_ticket w op t = (w', op', p)" by (cases "poll_ticket w op t")
  from assms(2) Some have "holds w t" "Ticket_request w t = Some request" by (simp_all add: operation_ok_def)
  from poll_ticket_ok [OF assms(1) this e] show ?thesis
    using e Some that by (simp add: Operation_poll_def)
next
  case None
  with assms(2) have q: "ox_request op = Some request" by (simp add: operation_ok_def)
  obtain w1 x where s: "try_submit codec w request = (w1, x)" by (cases "try_submit codec w request")
  have reach: "worker_reachable codec w1" by (rule worker_reachable.stepped [OF assms(1) worker_step.submitted [OF s]])
  show ?thesis
  proof (cases x)
    case (Inr t)
    let ?op = "op\<lparr> ox_request := None, ox_ticket := Some t \<rparr>"
    obtain w' op' p where e: "poll_ticket w1 ?op t = (w', op', p)" by (cases "poll_ticket w1 ?op t")
    from db_worker.submit_ticket [OF worker_reachable_ok [OF assms(1)] s [unfolded Inr]]
    have "holds w1 t" "Ticket_request w1 t = Some request" by simp_all
    from poll_ticket_ok [OF reach this e] show ?thesis
      using e None q s Inr that by (simp add: Operation_poll_def)
  next
    case (Inl e)
    from try_submit_cases [OF worker_reachable_ok [OF assms(1)] s] have "sb_request e = request"
      unfolding Inl by (cases) auto
    with Inl None q s reach show ?thesis
      by (intro that) (auto simp: Operation_poll_def operation_ok_def split: SubmitFailure.splits)
  qed
qed

subsection \<open>A retained intent\<close>

text \<open>
  What both kinds of job rely on: a poll of an intent they own returns, keeps the intent, and a
  response it brings is an answer to it; and nobody else's step takes the intent away.
\<close>

locale retained_intent =
  fixes good :: "'s \<Rightarrow> bool" and owns :: "'s \<Rightarrow> 'o \<Rightarrow> 'q \<Rightarrow> bool"
    and poll :: "'s \<Rightarrow> 'o \<Rightarrow> ('s \<times> 'o \<times> 'p) option" and aside :: "'o \<Rightarrow> 's \<Rightarrow> 's \<Rightarrow> bool"
    and answers :: "'q \<Rightarrow> 'p \<Rightarrow> bool"
  assumes poll_law: "good s \<Longrightarrow> owns s op q
      \<Longrightarrow> \<exists>s' op' p. poll s op = Some (s', op', p) \<and> good s' \<and> owns s' op' q \<and> answers q p"
    and aside_law: "good s \<Longrightarrow> owns s op q \<Longrightarrow> aside op s s' \<Longrightarrow> good s' \<and> owns s' op q"
begin

lemma poll_owned:
  assumes "good s" and "owns s op q"
  obtains s' op' p where "poll s op = Some (s', op', p)" "good s'" "owns s' op' q" "answers q p"
  using poll_law [OF assms] by blast

lemma poll_answers:
  "good s \<Longrightarrow> owns s op q \<Longrightarrow> poll s op = Some (s', op', p) \<Longrightarrow> good s' \<and> owns s' op' q \<and> answers q p"
  using poll_law [of s op q] by auto

end

text \<open>A step of the worker in which the intent's ticket is not used.\<close>

definition aside_step :: "store_codec \<Rightarrow> JobOperation \<Rightarrow> DatabaseWorker \<Rightarrow> DatabaseWorker \<Rightarrow> bool" where
  "aside_step codec op w w' \<longleftrightarrow> (\<exists>label. worker_step codec w label w'
     \<and> (label \<noteq> map_option ti_pending (ox_ticket op) \<or> label = None))"

definition result_answers :: "store_codec \<Rightarrow> Request \<Rightarrow> Poll \<Rightarrow> bool" where
  "result_answers codec request p \<longleftrightarrow> (\<forall>r. p = Result (Ok r) \<longrightarrow> answered codec request (Ok r))"

interpretation intent: retained_intent "worker_reachable codec" operation_ok "Operation_poll codec"
  "aside_step codec" "result_answers codec" for codec
proof
  fix w op request
  assume "worker_reachable codec w" "operation_ok w op request"
  then show "\<exists>w' op' p. Operation_poll codec w op = Some (w', op', p) \<and> worker_reachable codec w'
      \<and> operation_ok w' op' request \<and> result_answers codec request p"
    by (rule Operation_poll_ok) (auto simp: result_answers_def)
next
  fix w op request w'
  assume reach: "worker_reachable codec w" and op: "operation_ok w op request" and aside: "aside_step codec op w w'"
  then obtain label where step: "worker_step codec w label w'"
    "label \<noteq> map_option ti_pending (ox_ticket op) \<or> label = None" by (auto simp: aside_step_def)
  have "operation_ok w' op request"
  proof (cases "ox_ticket op")
    case (Some t)
    with op step(2) step_keeps [OF step(1) worker_reachable_ok [OF reach], of "ti_pending t"] show ?thesis
      by (auto simp: operation_ok_def holds_def Ticket_request_def)
  qed (use op in \<open>simp add: operation_ok_def\<close>)
  then show "worker_reachable codec w' \<and> operation_ok w' op request"
    using worker_reachable.stepped [OF reach step(1)] by simp
qed

subsection \<open>The invariant of a job\<close>

text \<open>The intent of each purpose is about the job's own event.\<close>

definition purpose_ok :: "EventEnvelope \<Rightarrow> Purpose \<Rightarrow> Request \<Rightarrow> bool" where
  "purpose_ok event purpose request \<longleftrightarrow> (case purpose of
     Purpose.Context \<Rightarrow> request = Request.Context event
   | Purpose.Apply \<Rightarrow> (\<exists>write. request = Request.Apply write \<and> rw_fact write = event)
   | Retire _ \<Rightarrow> (\<exists>r. request = RetireProducer r \<and> pt_producer_id r = ev_producer_id event
       \<and> pt_generation r = ev_generation event))"

definition receipt_ok :: "store_codec \<Rightarrow> ReplayEntry \<Rightarrow> DurableReceipt \<Rightarrow> bool" where
  "receipt_ok codec entry durable \<longleftrightarrow> dc_event durable = ry_event entry \<and> dc_harness durable = ry_harness entry
     \<and> recorded codec (ry_event entry) (dc_revision durable)"

definition running_ok :: "DatabaseWorker \<Rightarrow> ReplayEntry \<Rightarrow> CommitJob \<Rightarrow> bool" where
  "running_ok w entry job \<longleftrightarrow>
     (\<exists>request. operation_ok w (cj_operation job) request \<and> purpose_ok (ry_event entry) (cj_purpose job) request)"

definition final_progress :: "CommitProgress \<Rightarrow> bool" where
  "final_progress prog \<longleftrightarrow> prog \<noteq> CommitProgress.Pending \<and> prog \<noteq> CommitProgress.Backpressure"

definition outcome_ok :: "store_codec \<Rightarrow> ReplayEntry \<Rightarrow> CommitJob \<Rightarrow> bool" where
  "outcome_ok codec entry job \<longleftrightarrow> (\<forall>e. cj_entry job = Some e \<longrightarrow> e = entry)
     \<and> (\<forall>durable. cj_receipt job = Some durable \<longrightarrow> receipt_ok codec entry durable \<and> cj_entry job = Some entry)
     \<and> (cj_done job \<longrightarrow> final_progress (cj_progress job)
         \<and> (\<forall>rv. cj_progress job = Committed rv \<longrightarrow> recorded codec (ry_event entry) rv))"

definition job_ok :: "store_codec \<Rightarrow> DatabaseWorker \<Rightarrow> ReplayEntry \<Rightarrow> CommitJob \<Rightarrow> bool" where
  "job_ok codec w entry job \<longleftrightarrow> outcome_ok codec entry job \<and> running_ok w entry job
     \<and> (\<not> cj_done job \<longrightarrow> cj_entry job = Some entry \<and> cj_receipt job = None)"

lemma freeze_fields [simp]:
  "cj_entry (freeze job) = cj_entry job" "cj_operation (freeze job) = cj_operation job"
  "cj_purpose (freeze job) = cj_purpose job" "cj_retries (freeze job) = cj_retries job"
  "cj_done (freeze job) = cj_done job" "cj_receipt (freeze job) = cj_receipt job"
  "cj_progress (freeze job) = cj_progress job" "cj_policy (freeze job) = cj_policy job"
  by (auto simp: freeze_def split: option.splits prod.splits sum.splits)

text \<open>What a response makes of a job: it ends, with a receipt only for a recorded event, or goes on
  with a new intent about its event and its old ticket dropped.\<close>

definition ended :: "store_codec \<Rightarrow> ReplayEntry \<Rightarrow> CommitJob \<Rightarrow> CommitJob \<Rightarrow> CommitProgress \<Rightarrow> bool" where
  "ended codec entry job job' prog \<longleftrightarrow> cj_done job' \<and> cj_entry job' = cj_entry job
     \<and> cj_operation job' = cj_operation job \<and> cj_purpose job' = cj_purpose job
     \<and> final_progress prog \<and> (case prog of
          Committed rv \<Rightarrow> recorded codec (ry_event entry) rv
            \<and> cj_receipt job' = Some \<lparr> dc_event = ry_event entry, dc_harness = ry_harness entry, dc_revision = rv \<rparr>
        | _ \<Rightarrow> cj_receipt job' = cj_receipt job)"

definition went_on :: "ReplayEntry \<Rightarrow> CommitJob \<Rightarrow> CommitJob \<Rightarrow> CommitProgress \<Rightarrow> bool" where
  "went_on entry job job' prog \<longleftrightarrow> \<not> cj_done job' \<and> cj_entry job' = cj_entry job
     \<and> cj_receipt job' = cj_receipt job \<and> prog = CommitProgress.Pending
     \<and> (\<exists>request. cj_operation job' = Operation_new request \<and> purpose_ok (ry_event entry) (cj_purpose job') request)"

definition retry_budget :: "CommitJob \<Rightarrow> nat" where
  "retry_budget job = 2 * (3 - unat (cj_retries job)) + (if cj_purpose job = Purpose.Context then 2 else 1)"

lemma reject_ended:
  "cj_entry job = Some entry \<Longrightarrow> ended codec entry job (fst (reject job cause)) (snd (reject job cause))"
  by (simp add: reject_def ended_def final_progress_def)

lemma job_retire_on:
  assumes "cj_entry job = Some entry" and "\<not> cj_done job" and "cj_purpose job = Purpose.Context"
  shows "\<exists>job'. job_retire w job rv cause = Some (drop_operation w (cj_operation job), job', CommitProgress.Pending)
    \<and> went_on entry job job' CommitProgress.Pending \<and> retry_budget job' < retry_budget job"
  using assms by (auto simp: job_retire_def job_event_def went_on_def purpose_ok_def retry_budget_def Let_def)

lemma job_accept_ended:
  assumes "cj_entry job = Some entry" and "recorded codec (ry_event entry) rv"
  shows "\<exists>job'. job_accept job rv = Some (job', Committed rv) \<and> ended codec entry job job' (Committed rv)"
  using assms by (simp add: job_accept_def ended_def final_progress_def)

text \<open>A step of a job: \<open>step_ok\<close> collects what every branch of a response gives.\<close>

definition step_ok :: "store_codec \<Rightarrow> ReplayEntry \<Rightarrow> DatabaseWorker \<Rightarrow> CommitJob
    \<Rightarrow> (DatabaseWorker \<times> CommitJob \<times> CommitProgress) option \<Rightarrow> bool" where
  "step_ok codec entry w job next_step \<longleftrightarrow> (\<exists>w' job' prog. next_step = Some (w', job', prog)
     \<and> (w' = w \<and> ended codec entry job job' prog
        \<or> w' = drop_operation w (cj_operation job) \<and> went_on entry job job' prog
          \<and> retry_budget job' < retry_budget job))"

lemma step_ok_reject: "cj_entry job = Some entry \<Longrightarrow> step_ok codec entry w job (Some (w, reject job cause))"
  using reject_ended [of job entry codec cause] by (auto simp: step_ok_def reject_def)

lemma step_ok_retire:
  "cj_entry job = Some entry \<Longrightarrow> \<not> cj_done job \<Longrightarrow> cj_purpose job = Purpose.Context
     \<Longrightarrow> step_ok codec entry w job (job_retire w job rv cause)"
  using job_retire_on [of job entry w rv cause] by (auto simp: step_ok_def)

lemma step_ok_accept:
  "cj_entry job = Some entry \<Longrightarrow> recorded codec (ry_event entry) rv
     \<Longrightarrow> step_ok codec entry w job (map_option (Pair w) (job_accept job rv))"
  using job_accept_ended [of job entry codec rv] by (auto simp: step_ok_def)

text \<open>The last branch of the context: the event is reduced.\<close>

definition job_reduced ::
    "DatabaseWorker \<Rightarrow> CommitJob \<Rightarrow> ReplayEntry \<Rightarrow> ReducerContext \<Rightarrow> (DatabaseWorker \<times> CommitJob \<times> CommitProgress) option" where
  "job_reduced w job entry context = (case reduce (rc_state context) (ry_event entry) (cj_policy job) of
     Err _ \<Rightarrow> job_retire w job (rc_revision context) CommitFailure.InvalidEvidence
   | Ok effects \<Rightarrow>
       let job = (if fx_reconciliation_required effects then freeze job else job) in
       Some (drop_operation w (cj_operation job),
         job\<lparr> cj_operation := Operation_new (Request.Apply \<lparr>
             rw_expected_revision = rc_revision context, rw_fact = ry_event entry, rw_effects = effects,
             rw_accepted_at = cj_accepted_at job, rw_notify = cj_notify job,
             rw_discarded_events = cj_discarded job \<rparr>),
           cj_purpose := Purpose.Apply \<rparr>, CommitProgress.Pending))"

lemma reduced_step:
  assumes "cj_entry job = Some entry" and "\<not> cj_done job" and "cj_purpose job = Purpose.Context"
  shows "step_ok codec entry w job (job_reduced w job entry context)"
proof (cases "reduce (rc_state context) (ry_event entry) (cj_policy job)")
  case (Inl e)
  then show ?thesis using step_ok_retire [OF assms] by (simp add: job_reduced_def)
next
  case (Inr effects)
  then show ?thesis using assms
    by (auto simp: job_reduced_def step_ok_def went_on_def purpose_ok_def retry_budget_def Let_def)
qed

lemma context_step:
  assumes "cj_entry job = Some entry" and "\<not> cj_done job" and "cj_purpose job = Purpose.Context"
    and "answered codec (Request.Context (ry_event entry)) (Ok (Response.Context context))"
  shows "step_ok codec entry w job (job_context w job context)"
proof (cases "rc_producer context")
  case None
  then show ?thesis using step_ok_reject [OF assms(1)] by (simp add: job_context_def)
next
  case (Some known)
  let ?event = "ry_event entry"
  show ?thesis
  proof (cases "pc_run_id known \<noteq> ev_run_id ?event \<or> pc_harness known \<noteq> ry_harness entry")
    case True
    then show ?thesis using Some assms(1) step_ok_reject [OF assms(1)] by (simp add: job_context_def Let_def)
  next
    case scope: False
    show ?thesis
    proof (cases "\<exists>rv. rc_receipt context = Exact rv")
      case True
      then obtain rv where rv: "rc_receipt context = Exact rv" by blast
      from step_ok_accept [OF assms(1) context_recorded [OF assms(4) rv]] show ?thesis
        using Some assms(1) scope rv by (simp add: job_context_def Let_def)
    next
      case fresh: False
      let ?stale = "pc_generation known \<noteq> ev_generation ?event \<or> \<not> pc_active known \<or> \<not> pc_reconciled known"
      let ?rest = "if ?stale then Some (w, reject job Unreconciled)
        else case (case rc_receipt context of
            EventReceipt.Conflict \<Rightarrow> Some CommitFailure.Conflict
          | EventReceipt.PriorSequenceUnverifiable \<Rightarrow> Some CommitFailure.PriorSequenceUnverifiable
          | _ \<Rightarrow> if pc_next_sequence known \<noteq> Some (ev_seq ?event) then Some CommitFailure.SequenceGap else None) of
          Some cause \<Rightarrow> job_retire w job (rc_revision context) cause
        | None \<Rightarrow> job_reduced w job entry context"
      have "job_context w job context = ?rest"
        using Some assms(1) scope fresh
        by (cases "rc_receipt context") (simp_all add: job_context_def job_reduced_def Let_def)
      moreover have "step_ok codec entry w job ?rest"
        using step_ok_reject [OF assms(1)] step_ok_retire [OF assms(1-3)] reduced_step [OF assms(1-3)]
        by (simp split: option.split)
      ultimately show ?thesis by simp
    qed
  qed
qed

lemma response_step:
  assumes "cj_entry job = Some entry" and "\<not> cj_done job" and "purpose_ok (ry_event entry) (cj_purpose job) request"
    and "\<And>r. result = Ok r \<Longrightarrow> answered codec request (Ok r)"
  shows "step_ok codec entry w job (job_response w job result)"
proof (cases result)
  case (Inl e)
  show ?thesis
  proof (cases "e = StorageError.StaleRevision \<and> cj_retries job < 3")
    case True
    then have "unat (cj_retries job) < 3" by (simp add: word_less_nat_alt)
    then have "unat (cj_retries job + 1) = Suc (unat (cj_retries job))" by (simp add: unat_word_ariths)
    with True \<open>unat (cj_retries job) < 3\<close> Inl assms(1,2) show ?thesis
      by (auto simp: job_response_def step_ok_def went_on_def purpose_ok_def retry_budget_def job_event_def)
  next
    case False
    have "step_ok codec entry w job (Some (w, reject ((freeze job)\<lparr> cj_unknown_gap := True \<rparr>) (CommitFailure.Storage e)))"
      using assms(1) by (simp add: step_ok_def reject_def ended_def final_progress_def)
    moreover have "job_response w job result
        = Some (w, reject ((freeze job)\<lparr> cj_unknown_gap := True \<rparr>) (CommitFailure.Storage e))"
      unfolding job_response_def Let_def Inl sum.case if_not_P [OF False] ..
    ultimately show ?thesis by simp
  qed
next
  case (Inr r)
  note ans = assms(4) [OF Inr]
  show ?thesis
  proof (cases r)
    case (Context known)
    show ?thesis
    proof (cases "cj_purpose job = Purpose.Context")
      case True
      with assms(3) have "request = Request.Context (ry_event entry)" by (simp add: purpose_ok_def)
      with ans Context have "answered codec (Request.Context (ry_event entry)) (Ok (Response.Context known))" by simp
      from context_step [OF assms(1,2) True this] show ?thesis using Inr Context True by (simp add: job_response_def)
    next
      case False
      then show ?thesis using Inr Context step_ok_reject [OF assms(1)] by (simp add: job_response_def)
    qed
  next
    case (Committed rv dup)
    show ?thesis
    proof (cases "cj_purpose job = Purpose.Apply")
      case True
      with assms(3) obtain v where "request = Request.Apply v" "rw_fact v = ry_event entry"
        by (auto simp: purpose_ok_def)
      with apply_recorded [of codec v rv dup] ans Committed have "recorded codec (ry_event entry) rv" by simp
      from step_ok_accept [OF assms(1) this] show ?thesis using Inr Committed True by (simp add: job_response_def)
    next
      case False
      then show ?thesis using Inr Committed step_ok_reject [OF assms(1)] by (simp add: job_response_def)
    qed
  next
    case (Retired rv)
    then show ?thesis using Inr step_ok_reject [OF assms(1)] by (cases "cj_purpose job") (simp_all add: job_response_def)
  qed (use Inr step_ok_reject [OF assms(1)] in \<open>simp_all add: job_response_def\<close>)
qed

subsection \<open>Every use of a job keeps the invariant\<close>

lemma drop_operation_reachable:
  "worker_reachable codec w \<Longrightarrow> operation_ok w op request \<Longrightarrow> worker_reachable codec (drop_operation w op)"
  by (auto simp: drop_operation_def operation_ok_def holds_def split: option.splits
      intro: worker_reachable.stepped worker_step.dropped)

lemma job_okI:
  assumes "cj_entry job = Some entry" and "operation_ok w (cj_operation job) request"
    and "purpose_ok (ry_event entry) (cj_purpose job) request"
    and "cj_receipt job = None \<or> cj_done job \<and> (\<exists>durable. cj_receipt job = Some durable \<and> receipt_ok codec entry durable)"
    and "\<And>rv. cj_done job \<Longrightarrow> cj_progress job = Committed rv \<Longrightarrow> recorded codec (ry_event entry) rv"
    and "cj_done job \<Longrightarrow> final_progress (cj_progress job)"
  shows "job_ok codec w entry job"
proof -
  have "outcome_ok codec entry job" using assms(1,4,5,6) by (auto simp: outcome_ok_def)
  moreover have "running_ok w entry job" unfolding running_ok_def using assms(2,3) by blast
  ultimately show ?thesis using assms(1,4) by (auto simp: job_ok_def)
qed

lemma job_poll_ok:
  assumes "worker_reachable codec w" and "job_ok codec w entry job"
  obtains w' job' prog where "job_poll codec w job = Some (w', job', prog)" "worker_reachable codec w'"
    "job_ok codec w' entry job'" "\<And>rv. prog = Committed rv \<Longrightarrow> recorded codec (ry_event entry) rv"
    "cj_progress job' = prog \<and> cj_done job' = final_progress prog"
proof (cases "cj_done job")
  case True
  with assms show ?thesis by (intro that) (auto simp: job_poll_def job_ok_def outcome_ok_def)
next
  case False
  with assms(2) obtain request where op: "operation_ok w (cj_operation job) request"
    and purpose: "purpose_ok (ry_event entry) (cj_purpose job) request" and entry: "cj_entry job = Some entry"
    and receipt: "cj_receipt job = None" by (auto simp: job_ok_def running_ok_def)
  obtain w1 op1 p where p: "Operation_poll codec w (cj_operation job) = Some (w1, op1, p)"
    and reach: "worker_reachable codec w1" and op1: "operation_ok w1 op1 request"
    and ans: "result_answers codec request p"
    by (rule intent.poll_owned [OF assms(1) op])
  let ?job = "job\<lparr> cj_operation := op1 \<rparr>"
  have same: "job_ok codec w1 entry (?job\<lparr> cj_progress := prog \<rparr>)" for prog
    by (rule job_okI [where request = request]) (use False entry op1 purpose receipt in simp_all)
  show ?thesis
  proof (cases p)
    case (Result result)
    have "step_ok codec entry w1 ?job (job_response w1 ?job result)"
      by (rule response_step [where request = request]) (use False entry purpose ans Result in \<open>simp_all add: result_answers_def\<close>)
    then obtain w2 job2 prog where r: "job_response w1 ?job result = Some (w2, job2, prog)"
      and s: "w2 = w1 \<and> ended codec entry ?job job2 prog
        \<or> w2 = drop_operation w1 op1 \<and> went_on entry ?job job2 prog"
      by (auto simp: step_ok_def)
    have "job_poll codec w job = Some (w2, job2\<lparr> cj_progress := prog \<rparr>, prog)"
      using False p Result r by (simp add: job_poll_def)
    moreover have "worker_reachable codec w2" using s reach drop_operation_reachable [OF reach op1] by auto
    moreover have "job_ok codec w2 entry (job2\<lparr> cj_progress := prog \<rparr>)"
      using s
    proof
      assume "w2 = w1 \<and> ended codec entry ?job job2 prog"
      with entry receipt op1 purpose show ?thesis
        by (intro job_okI [where request = request]; cases prog) (simp_all add: ended_def receipt_ok_def final_progress_def)
    next
      assume "w2 = drop_operation w1 op1 \<and> went_on entry ?job job2 prog"
      then obtain next_request where "\<not> cj_done job2" "cj_entry job2 = Some entry" "cj_receipt job2 = None"
        "cj_operation job2 = Operation_new next_request" "purpose_ok (ry_event entry) (cj_purpose job2) next_request"
        using entry receipt by (auto simp: went_on_def)
      then show ?thesis by (intro job_okI [where request = next_request]) simp_all
    qed
    moreover have "recorded codec (ry_event entry) rv" if "prog = Committed rv" for rv
      using s that by (auto simp: ended_def went_on_def)
    moreover have "cj_progress (job2\<lparr> cj_progress := prog \<rparr>) = prog \<and> cj_done (job2\<lparr> cj_progress := prog \<rparr>) = final_progress prog"
      using s by (auto simp: ended_def went_on_def final_progress_def)
    ultimately show ?thesis by (rule that)
  next
    case Unknown
    have "job_poll codec w job = Some (w1, ((freeze ?job)\<lparr> cj_unknown_gap := True, cj_done := True \<rparr>)
        \<lparr> cj_progress := CommitProgress.UnknownOutcome \<rparr>, CommitProgress.UnknownOutcome)"
      using False p Unknown by (simp add: job_poll_def)
    moreover note reach
    moreover have "job_ok codec w1 entry (((freeze ?job)\<lparr> cj_unknown_gap := True, cj_done := True \<rparr>)
        \<lparr> cj_progress := CommitProgress.UnknownOutcome \<rparr>)"
      by (rule job_okI [where request = request]) (use entry op1 purpose receipt in \<open>simp_all add: final_progress_def\<close>)
    ultimately show ?thesis by (rule that) (simp_all add: final_progress_def)
  qed (use False p reach same that in \<open>simp_all add: job_poll_def final_progress_def\<close>)
qed

text \<open>
  The life of a job and of its pending intent, under any other use of the worker.
\<close>

inductive commit_run :: "store_codec \<Rightarrow> ReplayEntry \<Rightarrow> DatabaseWorker \<Rightarrow> CommitJob \<Rightarrow> bool" for codec entry where
  created: "worker_reachable codec w \<Longrightarrow> commit_run codec entry w (CommitJob_new registry entry policy accepted_at notify)"
| meanwhile: "commit_run codec entry w job \<Longrightarrow> aside_step codec (cj_operation job) w w' \<Longrightarrow> commit_run codec entry w' job"
| polled: "commit_run codec entry w job \<Longrightarrow> job_poll codec w job = Some (w', job', prog) \<Longrightarrow> commit_run codec entry w' job'"
| taken: "commit_run codec entry w job \<Longrightarrow> take_committed job = (job', x) \<Longrightarrow> commit_run codec entry w job'"
| resumed: "commit_run codec entry w job \<Longrightarrow> into_pending w job = (w', registry, Some (Some pending))
    \<Longrightarrow> commit_run codec entry w' (resume registry' pending)"

lemma job_ok_new: "job_ok codec w entry (CommitJob_new registry entry policy accepted_at notify)"
  by (rule job_okI [where request = "Request.Context (ry_event entry)"]) (simp_all add: CommitJob_new_def purpose_ok_def)

lemma job_ok_meanwhile:
  assumes "worker_reachable codec w" and "job_ok codec w entry job" and "aside_step codec (cj_operation job) w w'"
  shows "worker_reachable codec w'" "job_ok codec w' entry job"
proof -
  from assms(2) obtain request where op: "operation_ok w (cj_operation job) request"
    and purpose: "purpose_ok (ry_event entry) (cj_purpose job) request" by (auto simp: job_ok_def running_ok_def)
  note kept = intent.aside_law [OF assms(1) op assms(3)]
  then show "worker_reachable codec w'" by simp
  from kept purpose assms(2) show "job_ok codec w' entry job" by (auto simp: job_ok_def running_ok_def)
qed

lemma job_ok_taken:
  assumes "job_ok codec w entry job" and "take_committed job = (job', x)"
  shows "job_ok codec w entry job'"
proof (cases "cj_receipt job")
  case (Some durable)
  then have "cj_done job" using assms(1) by (auto simp: job_ok_def)
  moreover have "job' = job\<lparr> cj_receipt := None, cj_entry := None \<rparr>" using assms(2) Some by (simp add: take_committed_def)
  ultimately show ?thesis using assms(1) by (simp add: job_ok_def running_ok_def outcome_ok_def)
qed (use assms in \<open>simp add: take_committed_def\<close>)

lemma job_ok_resumed:
  assumes "worker_reachable codec w" and "job_ok codec w entry job" and "into_pending w job = (w', registry, Some (Some pending))"
  shows "worker_reachable codec w'" "job_ok codec w' entry (resume registry' pending)"
proof -
  from assms(2) obtain request where op: "operation_ok w (cj_operation job) request"
    and purpose: "purpose_ok (ry_event entry) (cj_purpose job) request" by (auto simp: job_ok_def running_ok_def)
  from assms(3) have w': "w' = drop_operation w (cj_operation job)" by (simp add: into_pending_def Let_def)
  show "worker_reachable codec w'" unfolding w' by (rule drop_operation_reachable [OF assms(1) op])
  from assms(3) operation_ok_request [OF op] have "\<exists>e. cj_entry job = Some e \<and> pm_entry pending = e"
    and pending: "pm_request pending = request" "pm_purpose pending = cj_purpose job"
    by (auto simp: into_pending_def Let_def split: option.splits)
  with assms(2) have "pm_entry pending = entry" by (auto simp: job_ok_def outcome_ok_def)
  then show "job_ok codec w' entry (resume registry' pending)"
    by (intro job_okI [where request = request]) (simp_all add: resume_def pending purpose)
qed

lemma commit_run_ok: "commit_run codec entry w job \<Longrightarrow> worker_reachable codec w \<and> job_ok codec w entry job"
proof (induction rule: commit_run.induct)
  case (polled w job w' job' prog)
  from polled.IH have "worker_reachable codec w" "job_ok codec w entry job" by simp_all
  then obtain w2 job2 prog2 where "job_poll codec w job = Some (w2, job2, prog2)" "worker_reachable codec w2"
    "job_ok codec w2 entry job2" by (rule job_poll_ok)
  with polled.hyps(2) show ?case by simp
next
  case (created w registry policy accepted_at notify)
  then show ?case by (simp add: job_ok_new)
next
  case (meanwhile w job w')
  then show ?case using job_ok_meanwhile [of codec w entry job w'] by simp
next
  case (taken w job job' x)
  then show ?case using job_ok_taken [OF _ taken.hyps(2)] by simp
next
  case (resumed w job w' registry pending registry')
  from resumed.IH have "worker_reachable codec w" "job_ok codec w entry job" by simp_all
  from job_ok_resumed [OF this resumed.hyps(2)] show ?case by simp
qed

end
