(* ===== verification/Commit_Properties.thy ===== *)
theory Commit_Properties
  imports Commit_Safety Store_Refine Spool_Safety
begin

section \<open>A commit job runs to its end\<close>

text \<open>
  A worker with nothing queued answers the job's request in one round of its loop; a job asks at
  most eight times. The section ends with a concrete run and the properties of the jobs.
\<close>

subsection \<open>One drive: a poll, then a round of the worker\<close>

definition quiet :: "DatabaseWorker \<Rightarrow> bool" where
  "quiet w \<longleftrightarrow> wo_thread w = Idle \<and> \<not> wo_stopping w \<and> wo_sender w \<and> wo_channel w = []"

fun drives :: "store_codec \<Rightarrow> engine_io list \<Rightarrow> DatabaseWorker \<Rightarrow> CommitJob \<Rightarrow> (DatabaseWorker \<times> CommitJob) option" where
  "drives codec [] w job = Some (w, job)"
| "drives codec (env # envs) w job = Option.bind (job_poll codec w job)
     (\<lambda>(w, job, _). drives codec envs (serve_round codec env w) job)"

text \<open>The job's request is either not submitted, with a permit to spare, or already answered.\<close>

definition ready :: "DatabaseWorker \<Rightarrow> JobOperation \<Rightarrow> bool" where
  "ready w op \<longleftrightarrow> (case ox_ticket op of
     None \<Rightarrow> outstanding w < MAX_OUTSTANDING
   | Some t \<Rightarrow> \<not> ti_received t \<and> (\<exists>r. map_of (wo_replies w) (ti_pending t) = Some (Some r)))"

definition waiting :: "CommitJob \<Rightarrow> nat" where
  "waiting job = 2 * retry_budget job - (if ox_ticket (cj_operation job) = None then 0 else 1)"

lemma retry_budget_bound: "0 < retry_budget job \<and> retry_budget job \<le> 8"
  using diff_le_self [of 3 "unat (cj_retries job)"] by (auto simp: retry_budget_def simp del: diff_le_self)

lemma quiet_round:
  "quiet w \<Longrightarrow> serve_round codec env w = w"
  by (simp add: quiet_def serve_round_def serve_poll_def serve_execute_def serve_release_def)

lemma releases_sender [simp]: "wo_sender (fold release_pending ids w) = wo_sender w"
  by (induction ids arbitrary: w) simp_all

lemma round_sender [simp]: "wo_sender (serve_round codec env w) = wo_sender w"
  by (simp add: serve_round_def serve_poll_def serve_exit_def serve_execute_def serve_release_def
      split: list.split ServeState.split option.split prod.split)

lemma quiet_drop:
  assumes "worker_reachable codec w" and "quiet w" and "holds w t"
  shows "quiet (drop_ticket w t)" "outstanding (drop_ticket w t) < MAX_OUTSTANDING"
proof -
  note ok = worker_reachable_ok [OF assms(1)]
  have "references w (ti_pending t) = 1"
    using assms(2,3) by (simp add: references_def enveloped_def in_hand_def quiet_def holds_def)
  then have "strong w (ti_pending t) = 1" using worker_okD(1) [OF ok] by (simp add: counted_def)
  moreover from held_pending [OF ok assms(3) [unfolded holds_def]] obtain p
    where p: "map_of (wo_pendings w) (ti_pending t) = Some p" .
  ultimately have one: "pn_strong p = 1" by (simp add: strong_def)
  have "0 < wo_count w" using p worker_okD(1) [OF ok] by (auto simp: counted_def)
  moreover have "wo_count w \<le> MAX_OUTSTANDING" using worker_okD(2) [OF ok] by (simp add: sound_def)
  ultimately show "quiet (drop_ticket w t)" "outstanding (drop_ticket w t) < MAX_OUTSTANDING"
    using assms(2) p one by (auto simp: drop_ticket_def release_pending_def quiet_def outstanding_def)
qed

lemma accepted_round:
  assumes "worker_reachable codec (enqueued w request)" and "quiet w"
  shows "quiet (serve_round codec env (enqueued w request))"
    "\<exists>r. map_of (wo_replies (serve_round codec env (enqueued w request))) (wo_next w) = Some (Some r)"
proof -
  have "wo_sender (enqueued w request)" using assms(2) by (simp add: quiet_def enqueued_def)
  moreover have "wo_thread (enqueued w request) = Idle" "\<not> wo_stopping (enqueued w request)"
    "wo_channel (enqueued w request) = wo_next w # []" "contains_key (wo_replies (enqueued w request)) (wo_next w)"
    using assms(2) by (simp_all add: quiet_def enqueued_def contains_key_def map_of_update)
  note round = serve_round_head [OF worker_reachable_ok [OF assms(1)] this(1-3), where env = env] this(4)
  ultimately show "quiet (serve_round codec env (enqueued w request))"
    "\<exists>r. map_of (wo_replies (serve_round codec env (enqueued w request))) (wo_next w) = Some (Some r)"
    using round by (simp_all add: quiet_def)
qed

subsection \<open>What one poll does\<close>

lemma result_step:
  assumes "worker_reachable codec w" and "job_ok codec w entry job" and "\<not> cj_done job"
    and "Operation_poll codec w (cj_operation job) = Some (w1, op1, Result result)"
  obtains w2 job2 prog where "job_poll codec w job = Some (w2, job2\<lparr> cj_progress := prog \<rparr>, prog)"
    "worker_reachable codec w1" "w2 = w1 \<and> cj_done job2
       \<or> w2 = drop_operation w1 op1 \<and> retry_budget job2 < retry_budget job
         \<and> (\<exists>request. cj_operation job2 = Operation_new request)"
proof -
  let ?job = "job\<lparr> cj_operation := op1 \<rparr>"
  from assms(2,3) obtain request where op: "operation_ok w (cj_operation job) request"
    and purpose: "purpose_ok (ry_event entry) (cj_purpose job) request" and entry: "cj_entry job = Some entry"
    by (auto simp: job_ok_def running_ok_def)
  from intent.poll_answers [OF assms(1) op assms(4)] have reach: "worker_reachable codec w1"
    and ans: "\<And>r. result = Ok r \<Longrightarrow> answered codec request (Ok r)" by (simp_all add: result_answers_def)
  have "step_ok codec entry w1 ?job (job_response w1 ?job result)"
    by (rule response_step [where request = request]) (use assms(3) entry purpose ans in simp_all)
  then obtain w2 job2 prog where r: "job_response w1 ?job result = Some (w2, job2, prog)"
    and s: "w2 = w1 \<and> ended codec entry ?job job2 prog
      \<or> w2 = drop_operation w1 op1 \<and> went_on entry ?job job2 prog \<and> retry_budget job2 < retry_budget ?job"
    by (auto simp: step_ok_def)
  have "job_poll codec w job = Some (w2, job2\<lparr> cj_progress := prog \<rparr>, prog)"
    using assms(3,4) r by (simp add: job_poll_def)
  moreover note reach
  moreover have "w2 = w1 \<and> cj_done job2 \<or> w2 = drop_operation w1 op1 \<and> retry_budget job2 < retry_budget job
      \<and> (\<exists>request. cj_operation job2 = Operation_new request)"
    using s by (auto simp: ended_def went_on_def retry_budget_def)
  ultimately show ?thesis by (rule that)
qed

subsection \<open>One drive of a job on a quiet worker\<close>

definition driven :: "store_codec \<Rightarrow> ReplayEntry \<Rightarrow> DatabaseWorker \<Rightarrow> CommitJob \<Rightarrow> bool" where
  "driven codec entry w job \<longleftrightarrow> worker_reachable codec w \<and> job_ok codec w entry job \<and> quiet w
     \<and> (\<not> cj_done job \<longrightarrow> ready w (cj_operation job))"

lemma unlabelled: "worker_step codec w None w' \<Longrightarrow> aside_step codec op w w'"
  by (auto simp: aside_step_def)

lemma round_keeps_job:
  assumes "worker_reachable codec w" and "job_ok codec w entry job"
  shows "worker_reachable codec (serve_round codec env w)" "job_ok codec (serve_round codec env w) entry job"
proof -
  note step = job_ok_meanwhile [OF _ _ unlabelled]
  note a = step [OF assms worker_step.polled] and b = step [OF step [OF assms worker_step.polled] worker_step.ran]
  show "worker_reachable codec (serve_round codec env w)" "job_ok codec (serve_round codec env w) entry job"
    unfolding serve_round_def by (rule step [OF b worker_step.released])+
qed

lemma drive_submit:
  assumes "driven codec entry w job" and "\<not> cj_done job" and "ox_ticket (cj_operation job) = None"
  obtains w' job' prog where "job_poll codec w job = Some (w', job', prog)"
    "quiet (serve_round codec env w')"
    "cj_done job' \<or> ready (serve_round codec env w') (cj_operation job') \<and> waiting job' < waiting job"
proof -
  from assms obtain request where reach: "worker_reachable codec w" and q: "quiet w" "outstanding w < MAX_OUTSTANDING"
    and ok: "job_ok codec w entry job" and op: "ox_request (cj_operation job) = Some request"
    by (auto simp: driven_def ready_def job_ok_def running_ok_def operation_ok_def)
  let ?op = "(cj_operation job)\<lparr> ox_request := None \<rparr>"
  obtain w1 x where s: "try_submit codec w request = (w1, x)" by (cases "try_submit codec w request")
  from worker_reachable_ok [OF reach] s show ?thesis
  proof (cases rule: try_submit_cases)
    case accepted
    let ?t = "\<lparr> ti_pending = wo_next w, ti_received = False \<rparr>"
    have reach1: "worker_reachable codec w1" by (rule worker_reachable.stepped [OF reach worker_step.submitted [OF s]])
    have wait: "wait_timeout w1 ?t = (w1, ?t, Err ReceiptError.Pending)"
      by (simp add: wait_timeout_def accepted(1) enqueued_def map_of_update)
    have "job_poll codec w job = Some (w1, job\<lparr> cj_operation := ?op\<lparr> ox_ticket := Some ?t \<rparr>,
        cj_progress := CommitProgress.Pending \<rparr>, CommitProgress.Pending)"
      using assms(2,3) op s accepted(2) wait by (simp add: job_poll_def Operation_poll_def poll_ticket_def)
    moreover have round: "quiet (serve_round codec env w1)"
      "\<exists>r. map_of (wo_replies (serve_round codec env w1)) (wo_next w) = Some (Some r)"
      unfolding accepted(1) using accepted_round [OF reach1 [unfolded accepted(1)] q(1)] by simp_all
    ultimately show ?thesis
      using assms(3) retry_budget_bound [of job]
      by (intro that) (auto simp: ready_def waiting_def retry_budget_def)
  next
    case (refused failure)
    with q have invalid: "\<exists>e. failure = Invalid e" by (auto simp: quiet_def outstanding_def)
    then obtain e where e: "failure = Invalid e" by blast
    have "Operation_poll codec w (cj_operation job) = Some (w, ?op\<lparr> ox_request := Some request \<rparr>, Result (Err e))"
      using assms(3) op s refused(1,2) e by (simp add: Operation_poll_def)
    then obtain w2 job2 prog where "job_poll codec w job = Some (w2, job2\<lparr> cj_progress := prog \<rparr>, prog)"
      "w2 = w \<and> cj_done job2 \<or> w2 = drop_operation w (?op\<lparr> ox_request := Some request \<rparr>)
         \<and> retry_budget job2 < retry_budget job \<and> (\<exists>request. cj_operation job2 = Operation_new request)"
      by (rule result_step [OF reach ok assms(2)]) blast
    then show ?thesis using q assms(3)
      by (intro that) (auto simp: quiet_round drop_operation_def ready_def Operation_new_def waiting_def retry_budget_def)
  qed (use q in \<open>simp_all add: quiet_def\<close>)
qed

lemma drive_receive:
  assumes "driven codec entry w job" and "\<not> cj_done job" and "ox_ticket (cj_operation job) = Some t"
  obtains w' job' prog where "job_poll codec w job = Some (w', job', prog)"
    "quiet (serve_round codec env w')"
    "cj_done job' \<or> ready (serve_round codec env w') (cj_operation job') \<and> waiting job' < waiting job"
proof -
  from assms obtain request where reach: "worker_reachable codec w" and q: "quiet w" and held: "holds w t"
    and ok: "job_ok codec w entry job"
    and r: "\<not> ti_received t" "\<exists>r. map_of (wo_replies w) (ti_pending t) = Some (Some r)"
    by (auto simp: driven_def ready_def job_ok_def running_ok_def operation_ok_def)
  from r(2) obtain r where r: "map_of (wo_replies w) (ti_pending t) = Some (Some r)" "\<not> ti_received t" using r(1) by blast
  let ?w = "w\<lparr> wo_replies := AList.update (ti_pending t) None (wo_replies w) \<rparr>"
  let ?op = "(cj_operation job)\<lparr> ox_ticket := Some (t\<lparr> ti_received := True \<rparr>) \<rparr>"
  have "wait_timeout w t = (?w, t\<lparr> ti_received := True \<rparr>, map_err ReceiptError.Storage r)"
    using r by (simp add: wait_timeout_def)
  then have "Operation_poll codec w (cj_operation job) = Some (?w, ?op, Result r)"
    using assms(3) by (cases r) (simp_all add: Operation_poll_def poll_ticket_def)
  then obtain w2 job2 prog where step: "job_poll codec w job = Some (w2, job2\<lparr> cj_progress := prog \<rparr>, prog)"
    "worker_reachable codec ?w" "w2 = ?w \<and> cj_done job2
      \<or> w2 = drop_operation ?w ?op \<and> retry_budget job2 < retry_budget job
         \<and> (\<exists>request. cj_operation job2 = Operation_new request)"
    by (rule result_step [OF reach ok assms(2)])
  have q1: "quiet ?w" using q by (simp add: quiet_def)
  have held1: "holds ?w (t\<lparr> ti_received := True \<rparr>)" by (simp add: holds_def contains_key_def map_of_update)
  note gone = quiet_drop [OF step(2) q1 held1]
  have "drop_operation ?w ?op = drop_ticket ?w (t\<lparr> ti_received := True \<rparr>)" by (simp add: drop_operation_def)
  with step(3) q1 gone have "quiet w2" "cj_done job2 \<or> outstanding w2 < MAX_OUTSTANDING
      \<and> ox_ticket (cj_operation job2) = None \<and> retry_budget job2 < retry_budget job"
    by (auto simp: Operation_new_def)
  then show ?thesis using step(1) assms(3)
    by (intro that) (auto simp: quiet_round ready_def waiting_def retry_budget_def)
qed

lemma drive_step:
  assumes "driven codec entry w job"
  obtains w' job' prog where "job_poll codec w job = Some (w', job', prog)"
    "driven codec entry (serve_round codec env w') job'"
    "cj_done job' \<or> \<not> cj_done job \<and> waiting job' < waiting job"
proof (cases "cj_done job")
  case True
  with assms have "driven codec entry (serve_round codec env w) job"
    using round_keeps_job [of codec w entry job env] by (simp add: driven_def quiet_round)
  with True show ?thesis by (intro that) (auto simp: job_poll_def)
next
  case False
  have "\<exists>w' job' prog. job_poll codec w job = Some (w', job', prog) \<and> quiet (serve_round codec env w')
      \<and> (cj_done job' \<or> ready (serve_round codec env w') (cj_operation job') \<and> waiting job' < waiting job)"
  proof (cases "ox_ticket (cj_operation job)")
    case None
    show ?thesis by (rule drive_submit [OF assms False None, where env = env]) blast
  next
    case (Some t)
    show ?thesis by (rule drive_receive [OF assms False Some, where env = env]) blast
  qed
  then obtain w' job' prog where poll: "job_poll codec w job = Some (w', job', prog)"
    and q: "quiet (serve_round codec env w')"
    and less: "cj_done job' \<or> ready (serve_round codec env w') (cj_operation job') \<and> waiting job' < waiting job"
    by blast
  from assms have "worker_reachable codec w" "job_ok codec w entry job" by (simp_all add: driven_def)
  then obtain w2 job2 prog2 where "job_poll codec w job = Some (w2, job2, prog2)" "worker_reachable codec w2"
    "job_ok codec w2 entry job2" by (rule job_poll_ok)
  with poll have "worker_reachable codec w'" "job_ok codec w' entry job'" by simp_all
  from round_keeps_job [OF this] q less have "driven codec entry (serve_round codec env w') job'"
    by (auto simp: driven_def)
  with poll less False show ?thesis by (intro that) auto
qed

lemma drives_end:
  assumes "driven codec entry w job" and "cj_done job \<or> waiting job \<le> length envs"
  shows "\<exists>w' job'. drives codec envs w job = Some (w', job') \<and> cj_done job'"
  using assms
proof (induction envs arbitrary: w job)
  case Nil
  have "0 < waiting job" using retry_budget_bound [of job] by (auto simp: waiting_def)
  with Nil show ?case by simp
next
  case (Cons env envs)
  obtain w' job' prog where step: "job_poll codec w job = Some (w', job', prog)"
    "driven codec entry (serve_round codec env w') job'" "cj_done job' \<or> \<not> cj_done job \<and> waiting job' < waiting job"
    by (rule drive_step [OF Cons.prems(1)])
  with Cons.prems(2) have "cj_done job' \<or> waiting job' \<le> length envs" by auto
  from Cons.IH [OF step(2) this] step(1) show ?case by simp
qed

subsection \<open>A concrete run\<close>

text \<open>The store already holds the event: the first answer is its exact receipt.\<close>

definition finish_worker :: DatabaseWorker where
  "finish_worker = sample_worker\<lparr> wo_engine := finish_engine \<rparr>"

definition sample_job :: CommitJob where
  "sample_job = CommitJob_new sample_registry sample_entry (sample_policy ObservationState.Fresh) 1000 True"

lemma finish_worker_reachable: "worker_reachable finish_store finish_worker"
  by (rule worker_reachable.started [OF finish_engine_reachable]) (simp add: start_def finish_worker_def sample_worker_def)

lemma finish_producer:
  "map_ok (map_option (\<lambda>p. (pc_run_id p, pc_harness p))) (producer finish_db sample_producer) = Ok (Some (sample_run, Claude))"
  by code_simp

lemma finish_reads: "revision finish_db = Ok (Revision 2)" "is_ok (stored_projection finish_db sample_run)"
  "is_ok (stored_tombstone finish_db sample_key)"
  by code_simp+

lemma finish_receipt: "receipt finish_store finish_db (sample_event 1 completed) known = Ok (Exact (Revision 2))"
proof -
  from finish_apply obtain identity row where stored: "sk_reducer_write finish_store finish_write = Some identity"
    "find (same_fact (rw_fact finish_write)) (db_facts finish_db) = Some row" "fw_write_set row = identity"
    "decode_number (fw_revision row) = Ok (Revision_value (Revision 2))" by (rule apply_write_stored)
  moreover have "decode_fact finish_store identity = Ok (sample_event 1 completed)"
    using finish_reads_back stored(1) by (simp add: reads_back_def finish_write_def)
  ultimately show ?thesis by (simp add: receipt_def finish_write_def)
qed

lemma sample_event_fields [simp]: "ev_producer_id (sample_event n x) = sample_producer"
  "ev_generation (sample_event n x) = sample_generation" "ev_run_id (sample_event n x) = sample_run"
  "ev_event (sample_event n x) = x"
  by (simp_all add: sample_event_def)

lemma finish_context: "\<exists>c p. context_of finish_store finish_db (sample_event 1 completed) = Ok c
  \<and> rc_receipt c = Exact (Revision 2) \<and> rc_producer c = Some p \<and> pc_run_id p = sample_run \<and> pc_harness p = Claude"
proof -
  from finish_producer obtain x where x: "producer finish_db sample_producer = Ok x"
    "map_option (\<lambda>p. (pc_run_id p, pc_harness p)) x = Some (sample_run, Claude)" by (auto simp: map_ok_Ok dest: sym)
  then obtain p where "producer finish_db sample_producer = Ok (Some p)" "pc_run_id p = sample_run"
    "pc_harness p = Claude" by (cases x) auto
  moreover obtain pr c where "stored_projection finish_db sample_run = Ok (pr, c)" using finish_reads(2) by (auto simp: is_ok_def split: sum.splits)
  moreover obtain tomb where "stored_tombstone finish_db sample_key = Ok tomb" using finish_reads(3) by (auto simp: is_ok_def split: sum.splits)
  ultimately show ?thesis
    by (simp add: context_of_def finish_reads(1) finish_receipt [unfolded One_nat_def] sample_key_def)
qed

lemma finish_validate: "validate_request finish_store (Request.Context (sample_event 1 completed)) = Ok ()"
  by (simp add: validate_request_def encodable_def bounded_bytes_def finish_store_def sample_store_def
      sample_event_def encode_frame_def FrameWriter_write_def decode_def sample_frame_def
      newline_def carriage_return_def MAX_FRAME_BYTES_def MAX_JSON_DEPTH_def sample_codec_of_def is_object_def
      Value_get_def as_u64_def)

definition sample_durable :: DurableReceipt where
  "sample_durable = \<lparr> dc_event = sample_event 1 completed, dc_harness = Claude, dc_revision = Revision 2 \<rparr>"

lemma sample_commit:
  obtains w job job' where "commit_run finish_store sample_entry w job"
    "take_committed job = (job', Some (sample_durable, sample_entry))"
proof -
  let ?request = "Request.Context (sample_event 1 completed)"
  let ?t = "\<lparr> ti_pending = 0, ti_received = False \<rparr>"
  let ?op = "\<lparr> ox_request = None, ox_ticket = Some ?t \<rparr>"
  let ?w = "serve_round finish_store sample_io (enqueued finish_worker ?request)"
  let ?job = "sample_job\<lparr> cj_operation := ?op, cj_progress := CommitProgress.Pending \<rparr>"
  obtain c p where c: "context_of finish_store finish_db (sample_event 1 completed) = Ok c" "rc_receipt c = Exact (Revision 2)"
    "rc_producer c = Some p" "pc_run_id p = sample_run" "pc_harness p = Claude" using finish_context by blast
  have first: "job_poll finish_store finish_worker sample_job
      = Some (enqueued finish_worker ?request, ?job, CommitProgress.Pending)"
    by (simp add: job_poll_def sample_job_def CommitJob_new_def Operation_poll_def Operation_new_def sample_entry_def
        try_submit_def finish_validate [simplified] pool_submit_def enqueued_def finish_worker_def sample_worker_def
        MAX_OUTSTANDING_def poll_ticket_def wait_timeout_def map_of_update)
  have served: "map_of (wo_replies ?w) 0 = Some (Some (Ok (Response.Context c)))"
    by (simp add: serve_round_def serve_poll_def serve_execute_def serve_release_def enqueued_def
        finish_worker_def sample_worker_def execute_def serve_request_def on_files_def answer_request_def finish_validate [simplified] finish_engine_def sample_io_def read_only_def
        dispatch_def c(1) [simplified] contains_key_def map_of_update release_pending_def)
  have second: "\<exists>w' op. job_poll finish_store ?w ?job = Some (w', ?job\<lparr> cj_operation := op, cj_receipt := Some sample_durable,
      cj_done := True, cj_progress := Committed (Revision 2) \<rparr>, Committed (Revision 2))"
    using served c(2-5) by (simp add: job_poll_def sample_job_def CommitJob_new_def Operation_poll_def sample_entry_def
        poll_ticket_def wait_timeout_def job_response_def job_context_def job_accept_def sample_durable_def sample_event_def Let_def)
  then obtain w' op where second: "job_poll finish_store ?w ?job = Some (w', ?job\<lparr> cj_operation := op, cj_receipt := Some sample_durable,
      cj_done := True, cj_progress := Committed (Revision 2) \<rparr>, Committed (Revision 2))" by blast
  have "commit_run finish_store sample_entry (enqueued finish_worker ?request) ?job"
    unfolding sample_job_def
    by (rule commit_run.polled [OF commit_run.created [OF finish_worker_reachable] first [unfolded sample_job_def]])
  from commit_run.meanwhile [OF commit_run.meanwhile [OF commit_run.meanwhile [OF this unlabelled [OF worker_step.polled]]
      unlabelled [OF worker_step.ran]] unlabelled [OF worker_step.released]]
  have "commit_run finish_store sample_entry ?w ?job" by (simp add: serve_round_def)
  from commit_run.polled [OF this second] show ?thesis
    by (rule that) (simp add: take_committed_def sample_job_def CommitJob_new_def)
qed

subsection \<open>Properties of commit jobs\<close>

text \<open>C26: Acknowledgement. Whatever the other users of the worker do, whatever polls, pauses and resumptions a job
  goes through: the receipt it hands out names exactly the spooled entry it was given, with its
  event and harness, and a store the engine reached holds that event's row under the revision of
  the receipt. It hands it out once.\<close>

theorem commit_receipt_durable:
  assumes "commit_run codec entry w job" and "take_committed job = (job', Some (durable, e))"
  shows "e = entry \<and> dc_event durable = ry_event entry \<and> dc_harness durable = ry_harness entry
    \<and> recorded codec (ry_event entry) (dc_revision durable) \<and> snd (take_committed job') = None"
proof -
  from commit_run_ok [OF assms(1)] have "outcome_ok codec entry job" by (simp add: job_ok_def)
  moreover from assms(2) have "cj_receipt job = Some durable" "cj_entry job = Some e" "cj_receipt job' = None"
    by (auto simp: take_committed_def split: option.splits)
  ultimately show ?thesis by (auto simp: outcome_ok_def receipt_ok_def take_committed_def)
qed

lemma commit_receipt_durable_witness:
  "recorded finish_store (sample_event 1 completed) (Revision 2)"
proof -
  obtain w job job' where "commit_run finish_store sample_entry w job"
    "take_committed job = (job', Some (sample_durable, sample_entry))" by (rule sample_commit)
  from commit_receipt_durable [OF this] show ?thesis by (simp add: sample_durable_def sample_entry_def)
qed

text \<open>C27: No panic. In every state a job reaches, a poll returns, whatever the worker answered: none of the
  source's \<open>expect\<close>s is violated, and neither does turning the job into a pending intent. The poll
  leaves the job done exactly when the progress it reports is final; a final progress is reported
  again, unchanged, by every later poll.\<close>

theorem commit_job_total:
  assumes "commit_run codec entry w job"
  shows "(\<exists>w' job' prog. job_poll codec w job = Some (w', job', prog) \<and> cj_done job' = final_progress prog
      \<and> (final_progress prog \<longrightarrow> (\<forall>later. job_poll codec later job' = Some (later, job', prog))))
    \<and> (\<exists>w' registry pending. into_pending w job = (w', registry, Some pending))"
proof
  note ok = commit_run_ok [OF assms]
  then obtain w' job' prog where "job_poll codec w job = Some (w', job', prog)"
    "cj_progress job' = prog \<and> cj_done job' = final_progress prog" by (metis job_poll_ok)
  then show "\<exists>w' job' prog. job_poll codec w job = Some (w', job', prog) \<and> cj_done job' = final_progress prog
      \<and> (final_progress prog \<longrightarrow> (\<forall>later. job_poll codec later job' = Some (later, job', prog)))"
    by (auto simp: job_poll_def)
  from ok obtain request where "operation_ok w (cj_operation job) request" by (auto simp: job_ok_def running_ok_def)
  from operation_ok_request [OF this] show "\<exists>w' registry pending. into_pending w job = (w', registry, Some pending)"
    by (auto simp: into_pending_def Let_def split: option.split)
qed

lemma commit_job_total_witness:
  "\<exists>w' job' prog. job_poll sample_store sample_worker sample_job = Some (w', job', prog)"
  using commit_job_total [OF commit_run.created [OF sample_worker_reachable]] unfolding sample_job_def by blast

text \<open>C28: A job ends. On a running worker with an empty queue and a permit to spare, sixteen polls of a new
  job, each followed by one round of the worker's loop, bring it to a final progress, whatever the
  engine answers: at most three stale revisions are retried, and every other answer ends the job or
  moves it on to its last request.\<close>

theorem commit_job_ends:
  assumes "worker_reachable codec w" and "quiet w" and "outstanding w < MAX_OUTSTANDING" and "16 \<le> length envs"
  shows "\<exists>w' job. drives codec envs w (CommitJob_new registry entry policy accepted_at notify) = Some (w', job) \<and> cj_done job"
proof (rule drives_end)
  show "driven codec entry w (CommitJob_new registry entry policy accepted_at notify)"
    using assms job_ok_new by (simp add: driven_def ready_def CommitJob_new_def Operation_new_def)
  show "cj_done (CommitJob_new registry entry policy accepted_at notify)
      \<or> waiting (CommitJob_new registry entry policy accepted_at notify) \<le> length envs"
    using assms(4) retry_budget_bound [of "CommitJob_new registry entry policy accepted_at notify"] by (auto simp: waiting_def)
qed

lemma commit_job_ends_witness:
  "\<exists>w' job. drives sample_store (replicate 16 sample_io) sample_worker sample_job = Some (w', job) \<and> cj_done job"
  unfolding sample_job_def
  by (rule commit_job_ends [OF sample_worker_reachable])
    (simp_all add: sample_worker_def quiet_def outstanding_def MAX_OUTSTANDING_def)

end
