(* ===== verification/Reconcile_Job.thy ===== *)
theory Reconcile_Job
  imports Commit_Properties
begin

section \<open>Reconciliation of one producer (coordinator/registration.rs)\<close>

text \<open>
  A producer whose grants are to be renewed is blocked first; the store is asked for a new
  generation with the evidence's verified projection as its baseline; only a verified, answered
  request installs the generation. The job holds the registry exclusively, as a commit job does.
  Field prefixes: \<open>qi_\<close> \<open>ReconciliationInput\<close>, \<open>rj_\<close> \<open>ReconciliationJob\<close>.
\<close>

record ReconciliationInput =
  qi_registration :: Registration
  qi_evidence :: "ReconciliationEvidence option"
  qi_uid :: u32
  qi_allowed_signals :: "EventKind list"
  qi_resolved_turn :: "TurnKey option"
  qi_continued_turn :: "TurnKey option"

datatype ReconciliationProgress =
    Pending | Backpressure | UnknownOutcome
  | Installed ProducerGeneration Revision
  | Unavailable ProducerGeneration Revision
  | Rejected StorageError
  | AdmissionRejected AdmissionError

record ReconciliationJob =
  rj_registry :: Registry
  rj_input :: ReconciliationInput
  rj_operation :: JobOperation
  rj_verified :: bool
  rj_done :: bool
  rj_progress :: ReconciliationProgress

definition baseline :: "ReconciliationInput \<Rightarrow> ReconciliationBaseline" where
  "baseline input = (case qi_evidence input of
     None \<Rightarrow> ReconciliationBaseline.Unavailable
   | Some evidence \<Rightarrow>
       let scope = rv_expected_scope evidence;
           registration = qi_registration input
       in if sc_producer_id scope \<noteq> rn_producer_id registration \<or> sc_run_id scope \<noteq> rn_run_id registration
            \<or> sc_harness scope \<noteq> rn_harness registration
            \<or> sc_previous_generation scope \<noteq> rn_previous_generation registration
          then ReconciliationBaseline.Unavailable
          else case reconcile_projection evidence of
            Ok projection \<Rightarrow> Verified projection (rp_turn_id projection)
          | Err _ \<Rightarrow> ReconciliationBaseline.Unavailable)"

definition is_verified :: "ReconciliationBaseline \<Rightarrow> bool" where
  "is_verified b = (case b of Verified _ _ \<Rightarrow> True | _ \<Rightarrow> False)"

definition reconcile_request :: "ReconciliationInput \<Rightarrow> nat \<Rightarrow> Request" where
  "reconcile_request input discarded = Reconcile \<lparr> rx_registration = qi_registration input,
     rx_baseline = baseline input, rx_discarded_events = u64_of_usize discarded,
     rx_resolved_turn = qi_resolved_turn input, rx_continued_turn = qi_continued_turn input \<rparr>"

definition ReconciliationJob_new ::
    "Registry \<Rightarrow> ReconciliationInput \<Rightarrow> Registry \<times> (AdmissionError + ReconciliationJob)" where
  "ReconciliationJob_new registry input =
     (case ObservationPolicy_new (qi_allowed_signals input) ObservationState.Fresh of
       Err _ \<Rightarrow> (registry, Err InvalidHandshake)
     | Ok _ \<Rightarrow>
         if qi_resolved_turn input \<noteq> None \<and> qi_continued_turn input \<noteq> None
         then (registry, Err ReconciliationRequired)
         else let verified = is_verified (baseline input) in
           if \<not> verified \<and> (qi_resolved_turn input \<noteq> None \<or> qi_continued_turn input \<noteq> None)
           then (registry, Err ReconciliationRequired)
           else case invalidate_generation registry (rn_producer_id (qi_registration input))
               (rn_previous_generation (qi_registration input)) of
             (registry, Err e) \<Rightarrow> (registry, Err e)
           | (registry, Ok discarded) \<Rightarrow> (registry, Ok \<lparr> rj_registry = registry, rj_input = input,
               rj_operation = Operation_new (reconcile_request input discarded), rj_verified = verified,
               rj_done = False, rj_progress = ReconciliationProgress.Pending \<rparr>))"

definition received ::
    "ReconciliationJob \<Rightarrow> StorageError + Response \<Rightarrow> ReconciliationJob \<times> ReconciliationProgress" where
  "received job result = (case result of
     Err e \<Rightarrow> (job, ReconciliationProgress.Rejected e)
   | Ok (Registered generation rv) \<Rightarrow>
       if \<not> rj_verified job then (job, ReconciliationProgress.Unavailable generation rv)
       else
         let registration = qi_registration (rj_input job) in
         (case install_committed (rj_registry job) \<lparr> pr_producer_id = rn_producer_id registration,
             pr_generation = generation, pr_run_id = rn_run_id registration, pr_harness = rn_harness registration,
             pr_uid = qi_uid (rj_input job), pr_allowed_signals = qi_allowed_signals (rj_input job),
             pr_next_sequence = rn_next_sequence registration \<rparr> of
           (r, Ok _) \<Rightarrow> (job\<lparr> rj_registry := r \<rparr>, Installed generation rv)
         | (r, Err e) \<Rightarrow> (job\<lparr> rj_registry := r \<rparr>, AdmissionRejected e))
   | _ \<Rightarrow> (job, ReconciliationProgress.Rejected InvalidRequest))"

definition reconcile_poll ::
    "store_codec \<Rightarrow> DatabaseWorker \<Rightarrow> ReconciliationJob
     \<Rightarrow> (DatabaseWorker \<times> ReconciliationJob \<times> ReconciliationProgress) option" where
  "reconcile_poll codec w job =
     (if rj_done job then Some (w, job, rj_progress job)
      else map_option (\<lambda>(w, op, p).
        let job = job\<lparr> rj_operation := op \<rparr>;
            (job, prog) = (case p of
              Poll.Pending \<Rightarrow> (job, ReconciliationProgress.Pending)
            | Poll.Backpressure \<Rightarrow> (job, ReconciliationProgress.Backpressure)
            | Poll.Unknown \<Rightarrow> (job\<lparr> rj_done := True \<rparr>, ReconciliationProgress.UnknownOutcome)
            | Result result \<Rightarrow> received (job\<lparr> rj_done := True \<rparr>) result)
        in (w, job\<lparr> rj_progress := prog \<rparr>, prog)) (Operation_poll codec w (rj_operation job)))"

definition reconcile_job_request :: "DatabaseWorker \<Rightarrow> ReconciliationJob \<Rightarrow> Request option" where
  "reconcile_job_request w job = Operation_request w (rj_operation job)"

subsection \<open>Its runs\<close>

inductive reconcile_run ::
    "store_codec \<Rightarrow> ReconciliationInput \<Rightarrow> DatabaseWorker \<Rightarrow> ReconciliationJob \<Rightarrow> bool" for codec input where
  created: "worker_reachable codec w \<Longrightarrow> ReconciliationJob_new registry input = (registry', Ok job)
    \<Longrightarrow> reconcile_run codec input w job"
| meanwhile: "reconcile_run codec input w job \<Longrightarrow> aside_step codec (rj_operation job) w w' \<Longrightarrow> reconcile_run codec input w' job"
| polled: "reconcile_run codec input w job \<Longrightarrow> reconcile_poll codec w job = Some (w', job', prog)
    \<Longrightarrow> reconcile_run codec input w' job'"

text \<open>The evidence behind an installation, and the fence around everything else.\<close>

definition proven :: "ReconciliationInput \<Rightarrow> bool" where
  "proven input \<longleftrightarrow> (\<exists>evidence projection. qi_evidence input = Some evidence \<and> reconcile_projection evidence = Ok projection
     \<and> rv_expected_scope evidence = \<lparr> sc_producer_id = rn_producer_id (qi_registration input),
         sc_previous_generation = rn_previous_generation (qi_registration input),
         sc_run_id = rn_run_id (qi_registration input), sc_harness = rn_harness (qi_registration input) \<rparr>
     \<and> baseline input = Verified projection (rp_turn_id projection))"

definition fenced :: "ReconciliationInput \<Rightarrow> Registry \<Rightarrow> bool" where
  "fenced input r \<longleftrightarrow> (\<forall>p. map_of (rg_producers r) (rn_producer_id (qi_registration input)) = Some p \<longrightarrow> pd_blocked p)"

definition installed_ok ::
    "store_codec \<Rightarrow> ReconciliationInput \<Rightarrow> Registry \<Rightarrow> ReconciliationProgress \<Rightarrow> bool" where
  "installed_ok codec input r prog = (case prog of
     Installed generation rv \<Rightarrow> proven input
       \<and> (\<exists>discarded. answered codec (reconcile_request input discarded) (Ok (Registered generation rv)))
       \<and> (\<exists>p. map_of (rg_producers r) (rn_producer_id (qi_registration input)) = Some p
            \<and> \<not> pd_blocked p \<and> pr_generation (pd_registration p) = generation
            \<and> pr_allowed_signals (pd_registration p) = qi_allowed_signals input
            \<and> pd_next p = Some (rn_next_sequence (qi_registration input)))
   | _ \<Rightarrow> fenced input r)"

lemma proven_iff: "is_verified (baseline input) \<longleftrightarrow> proven input"
proof (cases "qi_evidence input")
  case (Some e)
  then show ?thesis
    by (cases "rv_expected_scope e")
      (auto simp: proven_def is_verified_def baseline_def Let_def split: sum.splits ReconciliationBaseline.splits if_splits)
qed (simp add: proven_def is_verified_def baseline_def)

definition reconcile_ok ::
    "store_codec \<Rightarrow> ReconciliationInput \<Rightarrow> DatabaseWorker \<Rightarrow> ReconciliationJob \<Rightarrow> bool" where
  "reconcile_ok codec input w job \<longleftrightarrow> rj_input job = input \<and> rj_verified job = is_verified (baseline input)
     \<and> installed_ok codec input (rj_registry job) (rj_progress job)
     \<and> (\<not> rj_done job \<longrightarrow> fenced input (rj_registry job))
     \<and> (\<exists>discarded. operation_ok w (rj_operation job) (reconcile_request input discarded))"

lemma install_committed_cases:
  assumes "install_committed r registration = (r', x)"
  shows "case x of Err _ \<Rightarrow> r' = r
    | Ok _ \<Rightarrow> \<exists>scope. map_of (rg_producers r') (pr_producer_id registration) = Some (Producer_new scope registration)"
  using assms
  by (auto simp: install_committed_def Let_def insert_new_def put_def map_of_update
      split: sum.splits prod.splits option.splits if_splits)

lemma new_fenced:
  assumes "ReconciliationJob_new registry input = (r, Ok job)"
  shows "fenced input (rj_registry job)" "rj_input job = input" "rj_verified job = is_verified (baseline input)"
    "\<not> rj_done job" "rj_progress job = ReconciliationProgress.Pending"
    "\<exists>discarded. rj_operation job = Operation_new (reconcile_request input discarded)"
  using assms
  by (auto simp: ReconciliationJob_new_def Let_def fenced_def invalidate_generation_def invalidate_def
      discard_queued_def put_def map_of_update split: sum.splits prod.splits option.splits if_splits)

lemma received_ok:
  assumes "rj_input job = input" and "rj_verified job = is_verified (baseline input)" and "fenced input (rj_registry job)"
    and "\<And>response. result = Ok response \<Longrightarrow> answered codec (reconcile_request input discarded) (Ok response)"
    and "received job result = (job', prog)"
  shows "installed_ok codec input (rj_registry job') prog" "rj_input job' = input"
    "rj_verified job' = rj_verified job" "rj_done job' = rj_done job" "rj_operation job' = rj_operation job"
proof -
  have "installed_ok codec input (rj_registry job') prog \<and> rj_input job' = input
      \<and> rj_verified job' = rj_verified job \<and> rj_done job' = rj_done job \<and> rj_operation job' = rj_operation job"
  proof (cases "\<exists>generation rv. result = Ok (Registered generation rv) \<and> rj_verified job")
    case True
    then obtain generation rv where r: "result = Ok (Registered generation rv)" "rj_verified job" by blast
    let ?reg = "\<lparr> pr_producer_id = rn_producer_id (qi_registration input), pr_generation = generation,
      pr_run_id = rn_run_id (qi_registration input), pr_harness = rn_harness (qi_registration input),
      pr_uid = qi_uid input, pr_allowed_signals = qi_allowed_signals input,
      pr_next_sequence = rn_next_sequence (qi_registration input) \<rparr>"
    obtain r' x where i: "install_committed (rj_registry job) ?reg = (r', x)"
      by (cases "install_committed (rj_registry job) ?reg")
    have "proven input" using r(2) assms(2) proven_iff by simp
    with install_committed_cases [OF i] r i assms(1,3,5) assms(4) [OF r(1)] show ?thesis
      by (cases x) (auto simp: received_def Let_def installed_ok_def Producer_new_def)
  next
    case False
    with assms(1,3,5) show ?thesis
      by (auto simp: received_def installed_ok_def split: sum.splits Response.splits if_splits)
  qed
  then show "installed_ok codec input (rj_registry job') prog" "rj_input job' = input"
    "rj_verified job' = rj_verified job" "rj_done job' = rj_done job" "rj_operation job' = rj_operation job"
    by simp_all
qed

lemma reconcile_poll_ok:
  assumes "worker_reachable codec w" and "reconcile_ok codec input w job"
  obtains w' job' prog where "reconcile_poll codec w job = Some (w', job', prog)" "worker_reachable codec w'"
    "reconcile_ok codec input w' job'" "rj_progress job' = prog"
proof (cases "rj_done job")
  case True
  with assms that show ?thesis by (simp add: reconcile_poll_def)
next
  case False
  with assms(2) obtain discarded where job: "rj_input job = input" "rj_verified job = is_verified (baseline input)"
    and fence: "fenced input (rj_registry job)"
    and op: "operation_ok w (rj_operation job) (reconcile_request input discarded)" by (auto simp: reconcile_ok_def)
  obtain w1 op1 p where p: "Operation_poll codec w (rj_operation job) = Some (w1, op1, p)"
    and reach: "worker_reachable codec w1" and op1: "operation_ok w1 op1 (reconcile_request input discarded)"
    and ans: "result_answers codec (reconcile_request input discarded) p"
    by (rule intent.poll_owned [OF assms(1) op])
  show ?thesis
  proof (cases p)
    case (Result result)
    let ?job = "job\<lparr> rj_operation := op1, rj_done := True \<rparr>"
    obtain job' prog where r: "received ?job result = (job', prog)" by (cases "received ?job result")
    have "\<And>response. result = Ok response \<Longrightarrow> answered codec (reconcile_request input discarded) (Ok response)"
      using ans Result by (simp add: result_answers_def)
    with received_ok [of ?job input result codec discarded job' prog] r job fence
    have job': "installed_ok codec input (rj_registry job') prog" "rj_input job' = input"
      "rj_verified job' = is_verified (baseline input)" "rj_done job'" "rj_operation job' = op1" by simp_all
    show ?thesis
    proof (rule that [OF _ reach])
      show "reconcile_poll codec w job = Some (w1, job'\<lparr> rj_progress := prog \<rparr>, prog)"
        using False p Result r by (simp add: reconcile_poll_def)
      show "reconcile_ok codec input w1 (job'\<lparr> rj_progress := prog \<rparr>)"
        using job' op1 by (auto simp: reconcile_ok_def)
    qed simp
  qed (use False p reach job fence op1 that in
      \<open>auto simp: reconcile_poll_def reconcile_ok_def installed_ok_def Let_def\<close>)
qed

lemma reconcile_run_ok:
  "reconcile_run codec input w job \<Longrightarrow> worker_reachable codec w \<and> reconcile_ok codec input w job"
proof (induction rule: reconcile_run.induct)
  case (created w registry registry' job)
  note new = new_fenced [OF created(2)]
  from new(6) obtain discarded where "rj_operation job = Operation_new (reconcile_request input discarded)" by blast
  then have "operation_ok w (rj_operation job) (reconcile_request input discarded)" by simp
  with created(1) new show ?case by (auto simp: reconcile_ok_def installed_ok_def)
next
  case (meanwhile w job w')
  then obtain discarded where op: "operation_ok w (rj_operation job) (reconcile_request input discarded)"
    by (auto simp: reconcile_ok_def)
  from meanwhile.IH have "worker_reachable codec w" by simp
  from intent.aside_law [OF this op meanwhile.hyps(2)] meanwhile.IH show ?case by (auto simp: reconcile_ok_def)
next
  case (polled w job w' job' prog)
  from polled.IH have "worker_reachable codec w" "reconcile_ok codec input w job" by simp_all
  then obtain w2 job2 prog2 where "reconcile_poll codec w job = Some (w2, job2, prog2)" "worker_reachable codec w2"
    "reconcile_ok codec input w2 job2" by (rule reconcile_poll_ok)
  with polled.hyps(2) show ?case by simp
qed

subsection \<open>A concrete reconciliation\<close>

definition sample_evidence :: ReconciliationEvidence where
  "sample_evidence = (let scope = \<lparr> sc_producer_id = sample_producer, sc_previous_generation = None,
         sc_run_id = sample_run, sc_harness = Claude \<rparr>;
       runtime = \<lparr> ri_boot_id = replicate 16 1, ri_pid = 42, ri_start_ticks = 9 \<rparr>
     in \<lparr> rv_expected_scope = scope, rv_observed_scope = scope, rv_expected_runtime = runtime,
          rv_observed_runtime = runtime, rv_current_boot = replicate 16 1, rv_process = Alive,
          rv_freshness = ObservationState.Fresh, rv_current_turn = KnownNone \<rparr>)"

definition sample_grants :: ReconciliationInput where
  "sample_grants = \<lparr> qi_registration = rx_registration sample_reconciliation, qi_evidence = Some sample_evidence,
     qi_uid = 1000, qi_allowed_signals = EventKind_ALL, qi_resolved_turn = None, qi_continued_turn = None \<rparr>"

definition empty_worker :: DatabaseWorker where
  "empty_worker = sample_worker\<lparr> wo_engine := \<lparr> en_connection = Some initialize, en_owner = 0, en_files = no_files \<rparr> \<rparr>"

definition sample_reconcile_job :: ReconciliationJob where
  "sample_reconcile_job = \<lparr> rj_registry = Registry_new 0 1, rj_input = sample_grants,
     rj_operation = Operation_new (Reconcile sample_reconciliation), rj_verified = True, rj_done = False,
     rj_progress = ReconciliationProgress.Pending \<rparr>"

lemma empty_worker_reachable: "worker_reachable codec empty_worker"
  by (rule worker_reachable.started [OF engine_reachable.created [OF sample_open]])
    (simp add: start_def empty_worker_def sample_worker_def)

lemma sample_grants_request: "baseline sample_grants = Verified sample_baseline None"
  "reconcile_request sample_grants 0 = Reconcile sample_reconciliation"
proof -
  show b: "baseline sample_grants = Verified sample_baseline None"
    by (simp add: baseline_def sample_grants_def sample_evidence_def sample_reconciliation_def sample_baseline_def
        reconcile_projection_def Let_def)
  show "reconcile_request sample_grants 0 = Reconcile sample_reconciliation"
    unfolding reconcile_request_def b by (simp add: sample_grants_def sample_reconciliation_def u64_of_usize_def)
qed

lemma sample_new: "ReconciliationJob_new (Registry_new 0 1) sample_grants = (Registry_new 0 1, Ok sample_reconcile_job)"
proof -
  obtain policy where "ObservationPolicy_new EventKind_ALL ObservationState.Fresh = Ok policy"
    using ObservationPolicy_new_total [OF EventKind_ALL_set(2)] by blast
  moreover have "invalidate_generation (Registry_new 0 1) k g = (Registry_new 0 1, Ok 0)" for k g
    by (simp add: invalidate_generation_def Registry_new_def)
  moreover have "qi_allowed_signals sample_grants = EventKind_ALL" "qi_resolved_turn sample_grants = None"
    by (simp_all add: sample_grants_def)
  ultimately show ?thesis
    using sample_grants_request by (simp add: ReconciliationJob_new_def sample_reconcile_job_def is_verified_def)
qed

lemma sample_installed:
  obtains w job w' job' where "reconcile_run sample_store sample_grants w job"
    "reconcile_poll sample_store w job = Some (w', job', Installed sample_generation (Revision 1))"
proof -
  let ?request = "Reconcile sample_reconciliation"
  let ?t = "\<lparr> ti_pending = 0, ti_received = False \<rparr>"
  let ?w = "serve_round sample_store sample_io (enqueued empty_worker ?request)"
  let ?job = "sample_reconcile_job\<lparr> rj_operation := \<lparr> ox_request = None, ox_ticket = Some ?t \<rparr> \<rparr>"
  have valid: "validate_request sample_store ?request = Ok ()"
    unfolding validate_request_def by code_simp
  have first: "reconcile_poll sample_store empty_worker sample_reconcile_job
      = Some (enqueued empty_worker ?request, ?job, ReconciliationProgress.Pending)"
    by (simp add: reconcile_poll_def sample_reconcile_job_def Operation_poll_def Operation_new_def
        try_submit_def valid pool_submit_def enqueued_def empty_worker_def sample_worker_def
        MAX_OUTSTANDING_def poll_ticket_def wait_timeout_def map_of_update)
  have served: "map_of (wo_replies ?w) 0 = Some (Some (Ok (Registered sample_generation (Revision 1))))"
    by (simp add: serve_round_def serve_poll_def serve_execute_def serve_release_def enqueued_def
        empty_worker_def sample_worker_def sample_execute contains_key_def map_of_update release_pending_def)
  have signals: "unique_signals EventKind_ALL = Ok EventKind_ALL" by code_simp
  have "\<exists>w' job'. reconcile_poll sample_store ?w ?job = Some (w', job', Installed sample_generation (Revision 1))"
    using served by (simp add: reconcile_poll_def sample_reconcile_job_def Operation_poll_def poll_ticket_def wait_timeout_def
        received_def sample_grants_def Let_def install_committed_def signals Registry_new_def MAX_PRODUCERS_def
        discard_queued_def split: prod.split)
  then obtain w' job' where second: "reconcile_poll sample_store ?w ?job = Some (w', job', Installed sample_generation (Revision 1))"
    by blast
  from reconcile_run.polled [OF reconcile_run.created [OF empty_worker_reachable sample_new] first]
  have run: "reconcile_run sample_store sample_grants (enqueued empty_worker ?request) ?job" .
  from reconcile_run.meanwhile [OF reconcile_run.meanwhile [OF reconcile_run.meanwhile [OF run unlabelled [OF worker_step.polled]]
      unlabelled [OF worker_step.ran]] unlabelled [OF worker_step.released]]
  have "reconcile_run sample_store sample_grants ?w ?job" by (simp add: serve_round_def)
  from that [OF this second] show ?thesis .
qed

subsection \<open>Property of reconciliation jobs\<close>

text \<open>C29: Fresh proof. Every poll of a reconciliation job returns, in every interleaving with the worker's other users.
  It reports a generation as installed only when the input's evidence verified for exactly the
  registration's producer, run, harness and previous generation, and the store answered that
  generation to the request carrying the verified baseline; the registry then admits the producer
  under that generation, with the granted signals and the registered sequence. Every other
  progress (pending, refused, unknown, unavailable) leaves the producer blocked.\<close>

theorem reconcile_installs_proven:
  assumes "reconcile_run codec input w job"
  shows "\<exists>w' job' prog. reconcile_poll codec w job = Some (w', job', prog) \<and> (case prog of
      Installed generation rv \<Rightarrow> proven input
        \<and> (\<exists>discarded. answered codec (reconcile_request input discarded) (Ok (Registered generation rv)))
        \<and> (\<exists>p. map_of (rg_producers (rj_registry job')) (rn_producer_id (qi_registration input)) = Some p
             \<and> \<not> pd_blocked p \<and> pr_generation (pd_registration p) = generation
             \<and> pr_allowed_signals (pd_registration p) = qi_allowed_signals input
             \<and> pd_next p = Some (rn_next_sequence (qi_registration input)))
    | _ \<Rightarrow> \<forall>p. map_of (rg_producers (rj_registry job')) (rn_producer_id (qi_registration input)) = Some p \<longrightarrow> pd_blocked p)"
proof -
  from reconcile_run_ok [OF assms] obtain w' job' prog where poll: "reconcile_poll codec w job = Some (w', job', prog)"
    and "reconcile_ok codec input w' job'" "rj_progress job' = prog" by (metis reconcile_poll_ok)
  then have "installed_ok codec input (rj_registry job') prog" by (simp add: reconcile_ok_def)
  with poll show ?thesis unfolding installed_ok_def fenced_def by blast
qed

lemma reconcile_installs_proven_witness: "proven sample_grants"
proof -
  obtain w job w' job' where "reconcile_run sample_store sample_grants w job"
    "reconcile_poll sample_store w job = Some (w', job', Installed sample_generation (Revision 1))" by (rule sample_installed)
  with reconcile_installs_proven [OF this(1)] show ?thesis by simp
qed

end
