(* ===== verification/Spool_Cleanup.thy ===== *)
theory Spool_Cleanup
  imports Spool
begin

section \<open>Cleanup and the metadata log (recovery/cleanup.rs, logs.rs)\<close>

text \<open>
  A preview selects and holds files, an application removes exactly those still unchanged; the log
  appends bounded records to the first of four fixed files and rotates them. What the kernel answers
  is an argument. Field prefixes: \<open>cp_\<close> \<open>CleanupPlan\<close>, \<open>cu_\<close> \<open>CleanupResult\<close>, \<open>lr_\<close> \<open>LogRecord\<close>, \<open>lo_\<close> \<open>log_io\<close>.
\<close>

subsection \<open>Preview (cleanup.rs)\<close>

datatype CleanupReason = Expired | PrivacyDisabled | RetiredGeneration ProducerId ProducerGeneration

record CleanupPlan =
  cp_selected :: "EntryHandle list"
  cp_protected :: nat
  cp_deferred :: nat
  cp_revision :: u64
  cp_owner :: nat

record CleanupResult =
  cu_removed_files :: nat
  cu_removed_bytes :: u64
  cu_failure :: "RecoveryError option"

definition eligible_files :: "CleanupPlan \<Rightarrow> nat" where
  "eligible_files plan = length (cp_selected plan)"

definition eligible_bytes :: "CleanupPlan \<Rightarrow> u64" where
  "eligible_bytes plan = sum_list (map (\<lambda>held. Entry_bytes (hd_entry held)) (cp_selected plan))"

definition disposable :: "CleanupReason \<Rightarrow> u64 \<Rightarrow> Entry \<Rightarrow> bool" where
  "disposable reason now_ms entry = (case en_spool entry of
     Some name \<Rightarrow> (case reason of
         Expired \<Rightarrow> expired name now_ms
       | PrivacyDisabled \<Rightarrow> True
       | RetiredGeneration producer generation \<Rightarrow> sn_producer name = producer \<and> sn_generation name = generation)
   | None \<Rightarrow> reason = PrivacyDisabled \<and> is_log (en_name entry))"

definition drop_handles :: "Directory \<Rightarrow> EntryHandle list \<Rightarrow> Directory" where
  "drop_handles d handles = fold (\<lambda>held d. drop_handle d held) handles d"

fun preview_entries ::
    "CleanupReason \<Rightarrow> u64 \<Rightarrow> Directory \<Rightarrow> CleanupPlan \<Rightarrow> Entry list \<Rightarrow> Directory \<times> (RecoveryError + CleanupPlan)" where
  "preview_entries reason now_ms d plan [] = (d, Ok plan)"
| "preview_entries reason now_ms d plan (entry # entries) =
     (if disposable reason now_ms entry \<and> length (cp_selected plan) < MAX_CLEANUP_BATCH
      then (case hold d entry of
          (d, Err e) \<Rightarrow> (drop_handles d (cp_selected plan), Err e)
        | (d, Ok held) \<Rightarrow> preview_entries reason now_ms d (plan\<lparr> cp_selected := cp_selected plan @ [held] \<rparr>) entries)
      else if disposable reason now_ms entry
      then preview_entries reason now_ms d (plan\<lparr> cp_deferred := cp_deferred plan + 1 \<rparr>) entries
      else if en_name entry \<noteq> LOCK
      then preview_entries reason now_ms d (plan\<lparr> cp_protected := cp_protected plan + 1 \<rparr>) entries
      else preview_entries reason now_ms d plan entries)"

definition preview_cleanup ::
    "ArtifactStore \<Rightarrow> CleanupReason \<Rightarrow> u64 \<Rightarrow> ArtifactStore \<times> (RecoveryError + CleanupPlan)" where
  "preview_cleanup s reason now_ms = try_st (s, scan (as_directory s)) (\<lambda>s entries.
     case preview_entries reason now_ms (as_directory s)
         \<lparr> cp_selected = [], cp_protected = 0, cp_deferred = 0, cp_revision = as_revision s,
           cp_owner = dr_authority (as_directory s) \<rparr> entries of
       (d, x) \<Rightarrow> (s\<lparr> as_directory := d \<rparr>, x))"

subsection \<open>Application\<close>

text \<open>\<open>env n\<close>: whether the unlink, and the sync after it, of the file number \<open>n\<close> fail.\<close>

fun remove_selected ::
    "(nat \<Rightarrow> bool \<times> bool) \<Rightarrow> ArtifactStore \<Rightarrow> CleanupResult \<Rightarrow> EntryHandle list \<Rightarrow> ArtifactStore \<times> CleanupResult" where
  "remove_selected env s done_so_far [] = (s, done_so_far)"
| "remove_selected env s done_so_far (held # handles) =
     (case unlink (fst (env (cu_removed_files done_so_far))) (as_directory s) held of
       (d, Err e) \<Rightarrow> (s\<lparr> as_directory := drop_handles d (held # handles), as_unknown_gap := True \<rparr>,
         done_so_far\<lparr> cu_failure := Some e \<rparr>)
     | (d, Ok _) \<Rightarrow>
         let sync_fails = snd (env (cu_removed_files done_so_far));
             done_so_far = done_so_far\<lparr> cu_removed_files := cu_removed_files done_so_far + 1,
               cu_removed_bytes := cu_removed_bytes done_so_far + Entry_bytes (hd_entry held) \<rparr>;
             s = s\<lparr> as_directory := d \<rparr>;
             s = (if en_spool (hd_entry held) \<noteq> None
                  then s\<lparr> as_discarded_artifacts := saturating_add (as_discarded_artifacts s) 1, as_unknown_gap := True \<rparr>
                  else s)
         in if sync_fails
            then (s\<lparr> as_directory := drop_handles d (held # handles), as_unknown_gap := True \<rparr>,
              done_so_far\<lparr> cu_failure := Some Io \<rparr>)
            else remove_selected env (s\<lparr> as_directory := drop_handle d held \<rparr>) done_so_far handles)"

fun validate_all :: "Directory \<Rightarrow> EntryHandle list \<Rightarrow> RecoveryError + unit" where
  "validate_all d [] = Ok ()"
| "validate_all d (held # handles) = and_then (validate_held d held) (\<lambda>_. validate_all d handles)"

definition spool_apply_cleanup ::
    "(nat \<Rightarrow> bool \<times> bool) \<Rightarrow> ArtifactStore \<Rightarrow> CleanupPlan \<Rightarrow> ArtifactStore \<times> (RecoveryError + CleanupResult)" where
  "spool_apply_cleanup env s plan =
     (case try_st
        (if cp_revision plan \<noteq> as_revision s \<or> cp_owner plan \<noteq> dr_authority (as_directory s)
         then (s, Err IdentityChanged) else (s, Ok ())) (\<lambda>s _.
        try_st (s, scan (as_directory s)) (\<lambda>s _.
        try_st (s, validate_all (as_directory s) (cp_selected plan)) (\<lambda>s _.
        (s, changing s)))) of
       (s, Err e) \<Rightarrow> (s\<lparr> as_directory := drop_handles (as_directory s) (cp_selected plan) \<rparr>, Err e)
     | (_, Ok s) \<Rightarrow>
         (case remove_selected env s \<lparr> cu_removed_files = 0, cu_removed_bytes = 0, cu_failure = None \<rparr>
             (cp_selected plan) of
           (s, result) \<Rightarrow> (s, Ok result)))"

subsection \<open>The metadata log (logs.rs)\<close>

datatype LogReason =
    StorageUnavailable | UnsupportedAdapter | MissingHook | RecoveryDropped | CleanupCompleted
  | ReconciliationRequired

record LogRecord =
  lr_observed_ms :: u64
  lr_reason :: LogReason
  lr_count :: u64
  lr_unknown_gap :: bool

text \<open>
  What the JSON library and the kernel answer: the record's bytes; of rotation, whether removal and
  each renaming and the syncs after them fail, and the metadata a renamed file has; of the append,
  the opening, a created file's metadata, the bytes taken, the metadata after it and the syncs.
\<close>

record log_io =
  lo_print :: "LogRecord \<Rightarrow> string option"
  lo_remove :: "bool \<times> bool"
  lo_rename :: "nat \<Rightarrow> bool \<times> bool"
  lo_renamed :: "Stat \<Rightarrow> Stat"
  lo_open :: bool
  lo_created :: Stat
  lo_write :: "nat option"
  lo_written :: Stat
  lo_sync :: bool
  lo_directory_sync :: bool

fun hold_all ::
    "Directory \<Rightarrow> EntryHandle list \<Rightarrow> Entry list \<Rightarrow> Directory \<times> (RecoveryError + EntryHandle list)" where
  "hold_all d handles [] = (d, Ok handles)"
| "hold_all d handles (entry # entries) = (case hold d entry of
     (d, Err e) \<Rightarrow> (drop_handles d handles, Err e)
   | (d, Ok held) \<Rightarrow> hold_all d (handles @ [held]) entries)"

definition named :: "string \<Rightarrow> EntryHandle list \<Rightarrow> EntryHandle option" where
  "named name = find (\<lambda>held. en_name (hd_entry held) = name)"

fun rotate_down :: "log_io \<Rightarrow> EntryHandle list \<Rightarrow> Directory \<Rightarrow> nat list \<Rightarrow> Directory \<times> (RecoveryError + unit)" where
  "rotate_down env handles d [] = (d, Ok ())"
| "rotate_down env handles d (i # rest) = (case named (LOG_NAMES ! i) handles of
     None \<Rightarrow> rotate_down env handles d rest
   | Some held \<Rightarrow>
       try_st (d, validate_held d held) (\<lambda>d _.
       case map_of (dr_files d) (LOG_NAMES ! i) of
         None \<Rightarrow> (d, Err Io)
       | Some file \<Rightarrow>
           if fst (lo_rename env i) \<or> contains_key (dr_files d) (LOG_NAMES ! (i + 1)) then (d, Err Io)
           else
             let d = d\<lparr> dr_files := AList.delete (LOG_NAMES ! i) (dr_files d)
                   @ [(LOG_NAMES ! (i + 1), file\<lparr> fl_stat := lo_renamed env (fl_stat file) \<rparr>)] \<rparr>
             in if snd (lo_rename env i) then (d, Err Io) else rotate_down env handles d rest))"

definition rotate_logs :: "log_io \<Rightarrow> Directory \<Rightarrow> Entry list \<Rightarrow> Directory \<times> (RecoveryError + unit)" where
  "rotate_logs env d entries = (case hold_all d [] (filter (\<lambda>entry. is_log (en_name entry)) entries) of
     (d, Err e) \<Rightarrow> (d, Err e)
   | (d, Ok handles) \<Rightarrow>
       (case try_st (d, validate_all d handles) (\<lambda>d _.
           try_st (case named (LOG_NAMES ! 3) handles of
               None \<Rightarrow> (d, Ok ())
             | Some oldest \<Rightarrow> remove_held (fst (lo_remove env)) (snd (lo_remove env)) d oldest) (\<lambda>d _.
           rotate_down env handles d [2, 1, 0])) of
         (d, x) \<Rightarrow> (drop_handles d handles, x)))"

text \<open>Opening the current file and the checks on what was opened.\<close>

definition open_log :: "log_io \<Rightarrow> Directory \<Rightarrow> Entry option \<Rightarrow> Directory \<times> (RecoveryError + fs_file)" where
  "open_log env d current =
     (let name = LOG_NAMES ! 0 in
      if \<not> lo_open env then (d, Err Io)
      else case (current, map_of (dr_files d) name) of
        (Some _, None) \<Rightarrow> (d, Err Io)
      | (Some _, Some file) \<Rightarrow> (d, Ok file)
      | (None, Some _) \<Rightarrow> (d, Err Io)
      | (None, None) \<Rightarrow>
          let file = \<lparr> fl_stat = lo_created env, fl_content = [] \<rparr>
          in (d\<lparr> dr_files := dr_files d @ [(name, file)] \<rparr>, Ok file))"

definition append_record ::
    "log_io \<Rightarrow> Directory \<Rightarrow> Entry option \<Rightarrow> string \<Rightarrow> Directory \<times> (RecoveryError + unit)" where
  "append_record env d current bytes =
     (let name = LOG_NAMES ! 0 in
      try_st (open_log env d current) (\<lambda>d file.
      try_st (d, private_file (fl_stat file) (dr_uid d)) (\<lambda>d _.
      if (case current of None \<Rightarrow> False | Some entry \<Rightarrow> Identity_from_stat (fl_stat file) \<noteq> Ok (en_identity entry))
      then (d, Err IdentityChanged)
      else if st_size (fl_stat file) < 0 then (d, Err UnsafePath)
      else if unat MAX_LOG_BYTES < nat (st_size (fl_stat file)) + length bytes then (d, Err BoundExceeded)
      else
        try_st (d, file_identity d name file) (\<lambda>d _.
        case lo_write env of
          None \<Rightarrow> (d, Err Io)
        | Some n \<Rightarrow>
            let file = \<lparr> fl_stat = lo_written env, fl_content = fl_content file @ take n bytes \<rparr>;
                d = d\<lparr> dr_files := AList.update name file (dr_files d) \<rparr>
            in if n \<noteq> length bytes then (d, Err Io)
               else try_st (d, file_identity d name file) (\<lambda>d _.
                 if \<not> lo_sync env \<or> \<not> lo_directory_sync env then (d, Err Io) else (d, Ok ()))))))"

definition write_log :: "log_io \<Rightarrow> ArtifactStore \<Rightarrow> LogRecord \<Rightarrow> ArtifactStore \<times> (RecoveryError + unit)" where
  "write_log env s record =
     try_st (s, ok_or InvalidRecord (lo_print env record)) (\<lambda>s printed.
     let bytes = printed @ [newline] in
     if 256 < length bytes then (s, Err BoundExceeded)
     else
       try_st (s, scan (as_directory s)) (\<lambda>s entries.
       let current = find (\<lambda>entry. en_name entry = LOG_NAMES ! 0) entries;
           rotate = (case current of None \<Rightarrow> False
             | Some entry \<Rightarrow> MAX_LOG_BYTES < Entry_bytes entry + of_nat (length bytes)) in
       try_st (s, changing s) (\<lambda>_ s.
       try_st (if rotate
           then (case rotate_logs env (as_directory s) entries of (d, x) \<Rightarrow> (s\<lparr> as_directory := d \<rparr>, x))
           else (s, Ok ())) (\<lambda>s _.
       try_st (s, scan (as_directory s)) (\<lambda>s entries.
       case append_record env (as_directory s) (find (\<lambda>entry. en_name entry = LOG_NAMES ! 0) entries) bytes of
         (d, x) \<Rightarrow> (s\<lparr> as_directory := d \<rparr>, x))))))"

definition append_log :: "log_io \<Rightarrow> ArtifactStore \<Rightarrow> LogRecord \<Rightarrow> ArtifactStore \<times> (RecoveryError + unit)" where
  "append_log env s record = (case write_log env s record of
     (s, Err e) \<Rightarrow> (failure s, Err e)
   | (s, Ok _) \<Rightarrow> (s, Ok ()))"

end
