(* ===== verification/Cleanup_Safety.thy ===== *)
theory Cleanup_Safety
  imports Spool_Cleanup Spool_Safety
begin

section \<open>What cleanup and the log promise\<close>

text \<open>
  A cleanup removes exactly files its preview selected and found unchanged, and never the lock; the
  log's four files stay within a mebibyte each, whatever fails, and nothing else is touched.
\<close>

subsection \<open>Preview\<close>

lemma drop_handles_frame_all [simp]:
  "dr_files (drop_handles d handles) = dr_files d" "dr_authority (drop_handles d handles) = dr_authority d"
  "dr_uid (drop_handles d handles) = dr_uid d" "dr_check (drop_handles d handles) = dr_check d"
  unfolding drop_handles_def by (induction handles arbitrary: d) simp_all

lemma hold_Ok: "hold d entry = (d', Ok held) \<Longrightarrow> hd_entry held = entry"
  by (erule hold_cases) simp_all

lemma preview_entries_Ok:
  "preview_entries reason now d plan entries = (d', Ok plan') \<Longrightarrow> length (cp_selected plan) \<le> MAX_CLEANUP_BATCH
     \<Longrightarrow> map hd_entry (cp_selected plan')
           = take MAX_CLEANUP_BATCH (map hd_entry (cp_selected plan) @ filter (disposable reason now) entries)
       \<and> dr_files d' = dr_files d
       \<and> length (cp_selected plan') + cp_deferred plan'
           = length (cp_selected plan) + cp_deferred plan + length (filter (disposable reason now) entries)"
proof (induction reason now d plan entries rule: preview_entries.induct)
  case (2 reason now d plan entry entries)
  show ?case
  proof (cases "disposable reason now entry \<and> length (cp_selected plan) < MAX_CLEANUP_BATCH")
    case True
    with 2(5) obtain d1 held where h: "hold d entry = (d1, Ok held)"
      and r: "preview_entries reason now d1 (plan\<lparr> cp_selected := cp_selected plan @ [held] \<rparr>) entries = (d', Ok plan')"
      by (auto split: prod.splits sum.splits)
    from 2(1) [OF True h [symmetric] refl r] True hold_Ok [OF h] hold_frame [OF h] show ?thesis by simp
  next
    case False
    with 2(2-6) show ?thesis by (auto split: if_splits)
  qed
qed simp

lemma scan_entry:
  assumes "scan d = Ok entries" and "entry \<in> set entries"
  shows "en_spool entry = SpoolName_parse (en_name entry)"
proof -
  from scan_Ok(1) [OF assms(1)] have "set entries = entry_at ` set (dr_files d)"
    by (metis set_mset_mset set_map)
  with assms(2) show ?thesis by (auto simp: entry_at_def)
qed

subsection \<open>Application\<close>

text \<open>\<open>files_without\<close>: the directory after the removal of some held entries, each found unchanged.\<close>

definition held_names :: "EntryHandle list \<Rightarrow> string set" where
  "held_names handles = (\<lambda>held. en_name (hd_entry held)) ` set handles"

definition unchanged :: "(string \<times> fs_file) list \<Rightarrow> EntryHandle \<Rightarrow> bool" where
  "unchanged files held \<longleftrightarrow> (\<exists>file. map_of files (en_name (hd_entry held)) = Some file
     \<and> Identity_from_stat (fl_stat file) = Ok (en_identity (hd_entry held)))"

definition files_without ::
    "(string \<times> fs_file) list \<Rightarrow> EntryHandle list \<Rightarrow> (string \<times> fs_file) list \<Rightarrow> bool" where
  "files_without files removed files' \<longleftrightarrow> (\<forall>held\<in>set removed. unchanged files held)
     \<and> (\<forall>name. map_of files' name = (if name \<in> held_names removed then None else map_of files name))"

lemma unlink_cases:
  assumes "unlink fails d held = (d', x)"
  obtains (refused) e where "d' = d" "x = Err e"
  | (removed) "x = Ok ()" "dr_files d' = AList.delete (en_name (hd_entry held)) (dr_files d)" "unchanged (dr_files d) held"
      "dr_authority d' = dr_authority d"
proof (cases "and_then (open_handle d held) (\<lambda>_. validate_held d held)")
  case (Inl e)
  then show ?thesis using assms refused [of e] by (simp add: unlink_def)
next
  case (Inr u)
  then have "unchanged (dr_files d) held" by (auto simp: and_then_Ok validate_held_Ok unchanged_def)
  then show ?thesis using assms Inr refused removed by (auto simp: unlink_def split: if_splits)
qed

lemma files_without_step:
  assumes "unchanged files held" and "files_without (AList.delete (en_name (hd_entry held)) files) removed files'"
  shows "files_without files (held # removed) files'"
proof -
  have "unchanged files h" if "unchanged (AList.delete (en_name (hd_entry held)) files) h" for h
    using that by (auto simp: unchanged_def map_of_delete split: if_splits)
  with assms show ?thesis by (auto simp: files_without_def held_names_def map_of_delete)
qed

lemma remove_selected_Ok:
  "remove_selected env s result handles = (s', result') \<Longrightarrow> cu_failure result = None
     \<Longrightarrow> \<exists>k\<le>length handles. cu_removed_files result' = cu_removed_files result + k
       \<and> (cu_failure result' = None \<longrightarrow> k = length handles)
       \<and> cu_removed_bytes result' = cu_removed_bytes result + sum_list (map (\<lambda>h. Entry_bytes (hd_entry h)) (take k handles))
       \<and> files_without (dr_files (as_directory s)) (take k handles) (dr_files (as_directory s'))
       \<and> as_revision s' = as_revision s \<and> (as_unknown_gap s \<longrightarrow> as_unknown_gap s')
       \<and> (cu_failure result' \<noteq> None \<or> (\<exists>h\<in>set (take k handles). en_spool (hd_entry h) \<noteq> None) \<longrightarrow> as_unknown_gap s')"
proof (induction handles arbitrary: s result)
  case Nil
  then show ?case by (simp add: files_without_def held_names_def)
next
  case (Cons held handles)
  note prems = Cons.prems
  obtain d x where u: "unlink (fst (env (cu_removed_files result))) (as_directory s) held = (d, x)"
    by (cases "unlink (fst (env (cu_removed_files result))) (as_directory s) held")
  then show ?case
  proof (cases rule: unlink_cases)
    case (refused e)
    then show ?thesis using prems u by (intro exI [of _ 0]) (auto simp: files_without_def held_names_def)
  next
    case removed
    show ?thesis
    proof (cases "snd (env (cu_removed_files result))")
      case True
      have "files_without (dr_files (as_directory s)) [held] (dr_files d)"
        using removed(2,3) by (simp add: files_without_def held_names_def map_of_delete)
      then show ?thesis using prems u removed(1) True
        by (intro exI [of _ 1]) (auto simp: Let_def)
    next
      case False
      let ?s = "s\<lparr> as_directory := d \<rparr>"
      let ?s1 = "if en_spool (hd_entry held) \<noteq> None
          then ?s\<lparr> as_discarded_artifacts := saturating_add (as_discarded_artifacts ?s) 1, as_unknown_gap := True \<rparr> else ?s"
      let ?s2 = "?s1\<lparr> as_directory := drop_handle d held \<rparr>"
      let ?r = "result\<lparr> cu_removed_files := cu_removed_files result + 1,
          cu_removed_bytes := cu_removed_bytes result + Entry_bytes (hd_entry held) \<rparr>"
      have rec: "remove_selected env ?s2 ?r handles = (s', result')"
        using prems(1) u removed(1) False by (simp add: Let_def split: if_splits)
      obtain k where k: "k \<le> length handles" "cu_removed_files result' = cu_removed_files ?r + k"
        "cu_failure result' = None \<longrightarrow> k = length handles"
        "cu_removed_bytes result' = cu_removed_bytes ?r + sum_list (map (\<lambda>h. Entry_bytes (hd_entry h)) (take k handles))"
        "files_without (dr_files (as_directory ?s2)) (take k handles) (dr_files (as_directory s'))"
        "as_revision s' = as_revision ?s2" "as_unknown_gap ?s2 \<longrightarrow> as_unknown_gap s'"
        "cu_failure result' \<noteq> None \<or> (\<exists>h\<in>set (take k handles). en_spool (hd_entry h) \<noteq> None) \<longrightarrow> as_unknown_gap s'"
        using Cons.IH [OF rec] prems(2) by auto
      moreover have "files_without (dr_files (as_directory s)) (take (Suc k) (held # handles)) (dr_files (as_directory s'))"
        using files_without_step [OF removed(3), of "take k handles"] k(5) removed(2) by simp
      ultimately show ?thesis using k(1-4,6-8) by (intro exI [of _ "Suc k"]) (auto simp: add.assoc)
    qed
  qed
qed

lemma spool_apply_cases:
  assumes "spool_apply_cleanup env s plan = (s', x)"
  obtains (refused) e where "x = Err e" "dr_files (as_directory s') = dr_files (as_directory s)"
  | (applied) s1 result where "x = Ok result"
      "remove_selected env s1 \<lparr> cu_removed_files = 0, cu_removed_bytes = 0, cu_failure = None \<rparr> (cp_selected plan) = (s', result)"
      "as_directory s1 = as_directory s"
proof -
  let ?check = "try_st (if cp_revision plan \<noteq> as_revision s \<or> cp_owner plan \<noteq> dr_authority (as_directory s)
       then (s, Err IdentityChanged) else (s, Ok ())) (\<lambda>s _.
     try_st (s, scan (as_directory s)) (\<lambda>s _.
     try_st (s, validate_all (as_directory s) (cp_selected plan)) (\<lambda>s _. (s, changing s))))"
  obtain s0 y where c: "?check = (s0, y)" by (cases ?check)
  then have s0: "s0 = s" by (auto simp: try_st_eq split: if_splits)
  show ?thesis
  proof (cases y)
    case (Inl e)
    with assms c s0 have "s' = s\<lparr> as_directory := drop_handles (as_directory s) (cp_selected plan) \<rparr>" "x = Err e"
      by (simp_all add: spool_apply_cleanup_def)
    then show ?thesis by (intro refused) simp_all
  next
    case (Inr s1)
    with c s0 have "changing s = Ok s1" by (auto simp: try_st_eq split: if_splits)
    then have "as_directory s1 = as_directory s" by (auto simp: changing_def map_ok_Ok)
    with assms c Inr applied show ?thesis by (auto simp: spool_apply_cleanup_def split: prod.splits)
  qed
qed

subsection \<open>The log\<close>

text \<open>
  \<open>true_sizes\<close>: the metadata of every file tells its length, as the kernel's does. \<open>kept\<close> is what a
  step of a rotation keeps.
\<close>

definition logs_within :: "Directory \<Rightarrow> bool" where
  "logs_within d \<longleftrightarrow> (\<forall>name file. is_log name \<longrightarrow> map_of (dr_files d) name = Some file
     \<longrightarrow> length (fl_content file) \<le> unat MAX_LOG_BYTES)"

definition true_sizes :: "Directory \<Rightarrow> bool" where
  "true_sizes d \<longleftrightarrow> (\<forall>name file. map_of (dr_files d) name = Some file \<longrightarrow> st_size (fl_stat file) = int (length (fl_content file)))"

definition same_others :: "Directory \<Rightarrow> Directory \<Rightarrow> bool" where
  "same_others d d' \<longleftrightarrow> (\<forall>name. \<not> is_log name \<longrightarrow> map_of (dr_files d') name = map_of (dr_files d) name)"

definition kept :: "Directory \<Rightarrow> Directory \<Rightarrow> bool" where
  "kept d d' \<longleftrightarrow> same_others d d' \<and> (true_sizes d \<longrightarrow> true_sizes d') \<and> (logs_within d \<longrightarrow> logs_within d')"

lemma kept_files: "dr_files d' = dr_files d \<Longrightarrow> kept d d'"
  by (simp add: kept_def same_others_def true_sizes_def logs_within_def)

lemma kept_trans: "kept d d1 \<Longrightarrow> kept d1 d2 \<Longrightarrow> kept d d2"
  by (simp add: kept_def same_others_def)

lemma log_name: "i < 4 \<Longrightarrow> is_log (LOG_NAMES ! i)"
  unfolding is_log_def by (rule nth_mem) (simp add: LOG_NAMES_def)

lemma kept_delete:
  assumes "is_log name" and "dr_files d' = AList.delete name (dr_files d)"
  shows "kept d d'"
  using assms by (auto simp: kept_def same_others_def true_sizes_def logs_within_def map_of_delete split: if_splits)

lemma kept_move:
  assumes "is_log source" and "is_log target" and "map_of (dr_files d) source = Some file"
    and "st_size stat = st_size (fl_stat file)"
    and "dr_files d' = AList.delete source (dr_files d) @ [(target, file\<lparr> fl_stat := stat \<rparr>)]"
  shows "kept d d'"
  using assms
  by (auto simp: kept_def same_others_def true_sizes_def logs_within_def map_of_delete map_add_def
      split: if_splits option.splits)

lemma unlink_kept:
  assumes "unlink fails d held = (d', x)" and "is_log (en_name (hd_entry held))"
  shows "kept d d'"
  using assms(1)
proof (cases rule: unlink_cases)
  case removed
  with assms(2) show ?thesis by (auto intro: kept_delete)
qed (simp add: kept_files)

lemma remove_kept:
  assumes "remove_held fails sync_fails d held = (d', x)" and "is_log (en_name (hd_entry held))"
  shows "kept d d'"
proof -
  obtain d1 y where u: "unlink fails d held = (d1, y)" by (cases "unlink fails d held")
  with assms(1) have "d' = d1" by (cases y) (auto simp: remove_held_def split: if_splits)
  with unlink_kept [OF u assms(2)] show ?thesis by simp
qed

lemma named_Some: "named name handles = Some held \<Longrightarrow> en_name (hd_entry held) = name"
  by (auto simp: named_def find_Some_iff)

lemma rotate_down_kept:
  "rotate_down env handles d indices = (d', x) \<Longrightarrow> set indices \<subseteq> {0, 1, 2}
     \<Longrightarrow> (\<And>stat. st_size (lo_renamed env stat) = st_size stat) \<Longrightarrow> kept d d'"
proof (induction indices arbitrary: d)
  case (Cons i rest)
  then have i: "i < 3" "i + 1 < 4" by auto
  note names = log_name [of i] log_name [OF i(2)]
  show ?case
  proof (cases "named (LOG_NAMES ! i) handles")
    case None
    with Cons show ?thesis by simp
  next
    case (Some held)
    show ?thesis
    proof (cases "validate_held d held = Ok () \<and> map_of (dr_files d) (LOG_NAMES ! i) \<noteq> None
        \<and> \<not> (fst (lo_rename env i) \<or> contains_key (dr_files d) (LOG_NAMES ! (i + 1)))")
      case False
      then have "d' = d" using Cons.prems(1) Some
        by (cases "validate_held d held") (auto split: option.splits if_splits)
      then show ?thesis by (simp add: kept_files)
    next
      case True
      then obtain f where f: "map_of (dr_files d) (LOG_NAMES ! i) = Some f" by blast
      let ?d = "d\<lparr> dr_files := AList.delete (LOG_NAMES ! i) (dr_files d)
          @ [(LOG_NAMES ! (i + 1), f\<lparr> fl_stat := lo_renamed env (fl_stat f) \<rparr>)] \<rparr>"
      have moved: "kept d ?d"
        by (rule kept_move [OF names(1) names(2) f Cons.prems(3)]) (use i in simp_all)
      show ?thesis
      proof (cases "snd (lo_rename env i)")
        case True
        then have "d' = ?d" using Cons.prems(1) Some f \<open>validate_held d held = Ok () \<and> _\<close> by simp
        with moved show ?thesis by simp
      next
        case False
        then have "rotate_down env handles ?d rest = (d', x)"
          using Cons.prems(1) Some f \<open>validate_held d held = Ok () \<and> _\<close> by simp
        from kept_trans [OF moved Cons.IH [OF this]] Cons.prems(2,3) show ?thesis by simp
      qed
    qed
  qed
qed (simp add: kept_files)

lemma hold_all_frame: "hold_all d handles entries = (d', x) \<Longrightarrow> dr_files d' = dr_files d"
proof (induction entries arbitrary: d handles)
  case (Cons entry entries)
  obtain d1 y where h: "hold d entry = (d1, y)" by (cases "hold d entry")
  from hold_frame [OF h] Cons.prems Cons.IH [of d1] h show ?case by (cases y) auto
qed simp

lemma rotate_logs_kept:
  assumes "rotate_logs env d entries = (d', x)" and "\<And>stat. st_size (lo_renamed env stat) = st_size stat"
  shows "kept d d'"
proof -
  obtain d1 y where h: "hold_all d [] (filter (\<lambda>entry. is_log (en_name entry)) entries) = (d1, y)"
    by (cases "hold_all d [] (filter (\<lambda>entry. is_log (en_name entry)) entries)")
  have one: "kept d d1" by (rule kept_files [OF hold_all_frame [OF h]])
  show ?thesis
  proof (cases y)
    case (Inl e)
    with assms(1) h one show ?thesis by (simp add: rotate_logs_def)
  next
    case (Inr handles)
    let ?oldest = "case named (LOG_NAMES ! 3) handles of None \<Rightarrow> (d1, Ok ())
      | Some oldest \<Rightarrow> remove_held (fst (lo_remove env)) (snd (lo_remove env)) d1 oldest"
    obtain d2 z where o: "?oldest = (d2, z)" by (cases ?oldest)
    then have two: "kept d1 d2"
      using remove_kept named_Some log_name [of 3] by (fastforce simp: kept_files split: option.splits)
    obtain d3 u where r: "rotate_down env handles d2 [2, 1, 0] = (d3, u)" by (cases "rotate_down env handles d2 [2, 1, 0]")
    have three: "kept d2 d3" by (rule rotate_down_kept [OF r _ assms(2)]) simp
    have "dr_files d' = dr_files d1 \<or> dr_files d' = dr_files d2 \<or> dr_files d' = dr_files d3"
      using assms(1) h Inr o r by (cases "validate_all d1 handles"; cases z) (auto simp: rotate_logs_def)
    then show ?thesis using one two three kept_trans kept_files by metis
  qed
qed

definition log_opened :: "Directory \<Rightarrow> Directory \<Rightarrow> fs_file \<Rightarrow> bool" where
  "log_opened d d' opened \<longleftrightarrow> same_others d d' \<and> (logs_within d \<longrightarrow> logs_within d')
     \<and> map_of (dr_files d') (LOG_NAMES ! 0) = Some opened
     \<and> (true_sizes d \<longrightarrow> length (fl_content opened) \<le> nat (st_size (fl_stat opened)))"

lemma open_log_cases:
  assumes "open_log env d current = (d', x)"
  obtains (refused) e where "d' = d" "x = Err e" | (opened) f where "x = Ok f" "log_opened d d' f"
proof (cases "\<exists>f. x = Ok f")
  case True
  then obtain f where f: "x = Ok f" by blast
  show ?thesis
  proof (cases "map_of (dr_files d) (LOG_NAMES ! 0)")
    case None
    with assms f have "d' = d\<lparr> dr_files := dr_files d @ [(LOG_NAMES ! 0, f)] \<rparr>" "fl_content f = []"
      by (auto simp: open_log_def Let_def split: if_splits option.splits)
    with None log_name [of 0] have "log_opened d d' f"
      by (auto simp: log_opened_def same_others_def logs_within_def map_add_def split: option.splits if_splits)
    with f show ?thesis by (rule opened)
  next
    case (Some g)
    with assms f have "d' = d" "g = f" by (auto simp: open_log_def Let_def split: if_splits option.splits)
    with Some have "log_opened d d' f" by (auto simp: log_opened_def same_others_def true_sizes_def)
    with f show ?thesis by (rule opened)
  qed
next
  case False
  with assms show ?thesis
    by (intro refused [of "projl x"]) (auto simp: open_log_def Let_def split: if_splits option.splits)
qed

lemma append_record_kept:
  assumes "append_record env d current bytes = (d', x)" and "logs_within d" and "true_sizes d"
  shows "same_others d d' \<and> logs_within d'
    \<and> (x = Ok () \<longrightarrow> (\<exists>f before. map_of (dr_files d') (LOG_NAMES ! 0) = Some f \<and> fl_content f = before @ bytes))"
proof -
  obtain d1 y where o: "open_log env d current = (d1, y)" by (cases "open_log env d current")
  then show ?thesis
  proof (cases rule: open_log_cases)
    case (refused e)
    with assms o show ?thesis by (auto simp: append_record_def Let_def same_others_def)
  next
    case (opened f)
    then have f: "same_others d d1" "logs_within d1" "map_of (dr_files d1) (LOG_NAMES ! 0) = Some f"
      "length (fl_content f) \<le> nat (st_size (fl_stat f))" using assms(2,3) by (simp_all add: log_opened_def)
    show ?thesis
    proof (cases "\<exists>n. unat MAX_LOG_BYTES \<ge> nat (st_size (fl_stat f)) + length bytes \<and> lo_write env = Some n
        \<and> dr_files d' = AList.update (LOG_NAMES ! 0) \<lparr> fl_stat = lo_written env, fl_content = fl_content f @ take n bytes \<rparr> (dr_files d1)
        \<and> (x = Ok () \<longrightarrow> n = length bytes)")
      case True
      then obtain n where n: "length (fl_content f @ take n bytes) \<le> unat MAX_LOG_BYTES"
        "dr_files d' = AList.update (LOG_NAMES ! 0) \<lparr> fl_stat = lo_written env, fl_content = fl_content f @ take n bytes \<rparr> (dr_files d1)"
        "x = Ok () \<longrightarrow> n = length bytes" using f(4) by fastforce
      then show ?thesis using f(1,2) log_name [of 0]
        by (auto simp: same_others_def logs_within_def map_of_update)
    next
      case False
      with assms(1) o opened(1) have "d' = d1 \<and> x \<noteq> Ok ()"
        by (auto simp: append_record_def Let_def try_st_def split: sum.splits prod.splits if_splits option.splits)
      with f show ?thesis by simp
    qed
  qed
qed

lemma write_log_steps:
  assumes "write_log env s record = (s', x)" and "\<And>stat. st_size (lo_renamed env stat) = st_size stat"
  obtains (failed) "kept (as_directory s) (as_directory s')" "x \<noteq> Ok ()"
  | (appended) d current printed where "kept (as_directory s) d" "lo_print env record = Some printed"
      "append_record env d current (printed @ [newline]) = (as_directory s', x)"
proof (cases "\<exists>printed entries s1. lo_print env record = Some printed \<and> length printed < 256
    \<and> scan (as_directory s) = Ok entries \<and> changing s = Ok s1")
  case False
  then have "s' = s \<and> x \<noteq> Ok ()" using assms(1)
    by (auto simp: write_log_def try_st_def Let_def ok_or_Err ok_or_Ok split: sum.splits prod.splits if_splits option.splits)
  then show ?thesis by (auto intro: failed kept_files)
next
  case True
  then obtain printed entries s1 where p: "lo_print env record = Some printed" "length printed < 256"
    "scan (as_directory s) = Ok entries" "changing s = Ok s1" by blast
  then have s1: "as_directory s1 = as_directory s" by (auto simp: changing_def map_ok_Ok)
  obtain d y where rotated: "(d, y) = (if case find (\<lambda>entry. en_name entry = LOG_NAMES ! 0) entries of None \<Rightarrow> False
        | Some entry \<Rightarrow> MAX_LOG_BYTES < Entry_bytes entry + of_nat (Suc (length printed))
      then rotate_logs env (as_directory s) entries else (as_directory s, Ok ()))" by (metis surj_pair)
  then have d: "kept (as_directory s) d"
    using rotate_logs_kept [of env "as_directory s" entries d y] assms(2) kept_files [of d "as_directory s"]
    by (auto split: if_splits)
  show ?thesis
  proof (cases "y = Ok () \<and> is_ok (scan d)")
    case False
    with assms(1) p s1 rotated have "as_directory s' = d \<and> x \<noteq> Ok ()"
      by (auto simp: write_log_def try_st_def Let_def is_ok_def split: sum.splits prod.splits if_splits option.splits)
    with d show ?thesis by (auto intro: failed)
  next
    case True
    then obtain entries2 where "scan d = Ok entries2" by (auto simp: is_ok_iff)
    with True assms(1) p s1 rotated have
      "append_record env d (find (\<lambda>entry. en_name entry = LOG_NAMES ! 0) entries2) (printed @ [newline]) = (as_directory s', x)"
      by (auto simp: write_log_def Let_def split: prod.splits if_splits option.splits)
    with d p(1) show ?thesis by (rule appended)
  qed
qed

text \<open>What every part of an append keeps of the store.\<close>

definition attempts :: "u64 \<Rightarrow> ArtifactStore \<times> 'a \<Rightarrow> bool" where
  "attempts n r \<longleftrightarrow> as_rejected_attempts (fst r) = n"

lemma attempts_then: "attempts n m \<Longrightarrow> (\<And>s x. as_rejected_attempts s = n \<Longrightarrow> attempts n (f s x)) \<Longrightarrow> attempts n (try_st m f)"
  by (auto simp: attempts_def try_st_def split: prod.splits sum.splits)

lemma attempts_changing:
  "as_rejected_attempts s = n \<Longrightarrow> (\<And>s. as_rejected_attempts s = n \<Longrightarrow> attempts n (f s)) \<Longrightarrow> attempts n (try_st (s, changing s) (\<lambda>_ s. f s))"
  by (auto simp: attempts_def try_st_def changing_def map_ok_Ok split: sum.splits)

lemma attempts_pair: "as_rejected_attempts s = n \<Longrightarrow> attempts n (s, x)"
    "as_rejected_attempts s = n \<Longrightarrow> attempts n (case r of (d, x) \<Rightarrow> (s\<lparr> as_directory := d \<rparr>, x))"
  by (auto simp: attempts_def split: prod.splits)

lemma attempts_if: "attempts n a \<Longrightarrow> attempts n b \<Longrightarrow> attempts n (if c then a else b)"
  by simp

lemma write_log_attempts: "write_log env s record = (s', x) \<Longrightarrow> as_rejected_attempts s' = as_rejected_attempts s"
proof -
  have "attempts (as_rejected_attempts s) (write_log env s record)"
    unfolding write_log_def Let_def
    by (intro attempts_changing attempts_then attempts_if attempts_pair | simp)+
  then show "write_log env s record = (s', x) \<Longrightarrow> as_rejected_attempts s' = as_rejected_attempts s" by (simp add: attempts_def)
qed

subsection \<open>Properties\<close>

text \<open>C30: Reviewed cleanup. A preview changes no file and selects exactly the first 128 entries, in the order of its scan, that
  the reason disposes of, counts the others as deferred, and never selects the lock. Applied later, to whatever the directory has become, the plan removes files only in its
  order and only while each still is the very file the preview saw; exactly the reported number is
  gone, every other file is as it was, and an application that refuses removes nothing. Lost
  spooled events and partial failures are recorded as an unknown gap.\<close>

theorem cleanup_removes_reviewed:
  assumes "preview_cleanup s reason now = (s1, Ok plan)" and "spool_apply_cleanup env s2 plan = (s3, x)"
  shows "dr_files (as_directory s1) = dr_files (as_directory s)
    \<and> (\<exists>entries. scan (as_directory s) = Ok entries
        \<and> map hd_entry (cp_selected plan) = take 128 (filter (disposable reason now) entries)
        \<and> length (cp_selected plan) + cp_deferred plan = length (filter (disposable reason now) entries))
    \<and> (\<forall>held\<in>set (cp_selected plan). disposable reason now (hd_entry held) \<and> en_name (hd_entry held) \<noteq> LOCK)
    \<and> (case x of
        Err e \<Rightarrow> dr_files (as_directory s3) = dr_files (as_directory s2)
      | Ok result \<Rightarrow>
          let removed = take (cu_removed_files result) (cp_selected plan) in
          cu_removed_files result \<le> eligible_files plan \<and> (cu_failure result = None \<longrightarrow> removed = cp_selected plan)
          \<and> files_without (dr_files (as_directory s2)) removed (dr_files (as_directory s3))
          \<and> (cu_failure result \<noteq> None \<or> (\<exists>held\<in>set removed. en_spool (hd_entry held) \<noteq> None) \<longrightarrow> as_unknown_gap s3))"
proof -
  let ?plan = "\<lparr> cp_selected = [], cp_protected = 0, cp_deferred = 0, cp_revision = as_revision s,
    cp_owner = dr_authority (as_directory s) \<rparr>"
  from assms(1) obtain entries where scan: "scan (as_directory s) = Ok entries"
    by (cases "scan (as_directory s)") (auto simp: preview_cleanup_def)
  obtain d y where p: "preview_entries reason now (as_directory s) ?plan entries = (d, y)"
    by (cases "preview_entries reason now (as_directory s) ?plan entries")
  with assms(1) scan have s1: "s1 = s\<lparr> as_directory := d \<rparr>" and pre: "preview_entries reason now (as_directory s) ?plan entries = (d, Ok plan)"
    by (simp_all add: preview_cleanup_def)
  from preview_entries_Ok [OF pre] have selected: "map hd_entry (cp_selected plan) = take MAX_CLEANUP_BATCH (filter (disposable reason now) entries)"
    and files: "dr_files d = dr_files (as_directory s)"
    and rest: "length (cp_selected plan) + cp_deferred plan = length (filter (disposable reason now) entries)" by simp_all
  have "\<exists>entries. scan (as_directory s) = Ok entries
        \<and> map hd_entry (cp_selected plan) = take 128 (filter (disposable reason now) entries)
        \<and> length (cp_selected plan) + cp_deferred plan = length (filter (disposable reason now) entries)"
    using scan selected rest by (auto simp: MAX_CLEANUP_BATCH_def)
  moreover have "disposable reason now (hd_entry held) \<and> en_name (hd_entry held) \<noteq> LOCK" if "held \<in> set (cp_selected plan)" for held
  proof -
    from that have "hd_entry held \<in> set (take MAX_CLEANUP_BATCH (filter (disposable reason now) entries))"
      unfolding selected [symmetric] by simp
    then have "hd_entry held \<in> set entries" "disposable reason now (hd_entry held)" by (auto dest: in_set_takeD)
    with scan_entry [OF scan] show ?thesis
      by (auto simp: disposable_def lock_none lock_nolog split: option.splits)
  qed
  moreover have "case x of Err e \<Rightarrow> dr_files (as_directory s3) = dr_files (as_directory s2)
      | Ok result \<Rightarrow> let removed = take (cu_removed_files result) (cp_selected plan) in
          cu_removed_files result \<le> eligible_files plan \<and> (cu_failure result = None \<longrightarrow> removed = cp_selected plan)
          \<and> files_without (dr_files (as_directory s2)) removed (dr_files (as_directory s3))
          \<and> (cu_failure result \<noteq> None \<or> (\<exists>held\<in>set removed. en_spool (hd_entry held) \<noteq> None) \<longrightarrow> as_unknown_gap s3)"
    using assms(2)
  proof (cases rule: spool_apply_cases)
    case (applied s4 result)
    from remove_selected_Ok [OF applied(2)] show ?thesis
      unfolding applied(1) by (auto simp: Let_def eligible_files_def applied(3))
  qed simp
  ultimately show ?thesis unfolding s1 by (simp add: files)
qed

lemma sample_listing: "scan (as_directory (sample_staged n)) = Ok
    [hd_entry (ry_held sample_entry), \<lparr> en_name = LOCK, en_identity = \<lparr> id_device = 7, id_inode = 9, id_bytes = 0,
       id_modified = (0, 0), id_changed = (0, 0) \<rparr>, en_spool = None \<rparr>]
  \<or> scan (as_directory (sample_staged n)) = Ok
    [\<lparr> en_name = LOCK, en_identity = \<lparr> id_device = 7, id_inode = 9, id_bytes = 0,
       id_modified = (0, 0), id_changed = (0, 0) \<rparr>, en_spool = None \<rparr>, hd_entry (ry_held sample_entry)]"
  by (simp add: scan_def sample_staged_def sample_artifacts_def sample_directory_def scan_entries_def sample_private
      sample_identity lock_none counts_def MAX_SPOOL_FILES_def LOG_FILES_def sample_spool_name_def sample_parse_name
      filename_nolog lock_nolog sample_entry_def)

definition sample_plan :: CleanupPlan where
  "sample_plan = \<lparr> cp_selected = [ry_held sample_entry], cp_protected = 0, cp_deferred = 0, cp_revision = 1, cp_owner = 0 \<rparr>"

lemma sample_preview: "preview_cleanup (sample_staged 0) PrivacyDisabled 0 = (sample_staged 1, Ok sample_plan)"
proof -
  have hold: "hold (as_directory (sample_staged 0)) (hd_entry (ry_held sample_entry)) = (as_directory (sample_staged 1), Ok (ry_held sample_entry))"
    by (simp add: sample_staged_def sample_artifacts_def sample_directory_def sample_entry_def sample_spool_name_def
      directory_simps SpoolName_new_def)
  have spool: "en_spool (hd_entry (ry_held sample_entry)) \<noteq> None" by (simp add: sample_entry_def)
  show ?thesis using sample_listing [of 0] hold spool
    by (auto simp: preview_cleanup_def disposable_def MAX_CLEANUP_BATCH_def lock_nolog sample_plan_def)
      (auto simp: sample_staged_def sample_artifacts_def sample_directory_def sample_entry_def)
qed

lemma sample_apply_review: "\<exists>s3 result. spool_apply_cleanup (\<lambda>_. (False, False)) (sample_staged 1) sample_plan = (s3, Ok result)
    \<and> cu_removed_files result = 1 \<and> cu_failure result = None"
proof -
  have scan: "\<exists>entries. scan (as_directory (sample_staged 1)) = Ok entries" using sample_listing [of 1] by auto
  have held: "validate_held (as_directory (sample_staged 1)) (ry_held sample_entry) = Ok ()"
    "open_handle (as_directory (sample_staged 1)) (ry_held sample_entry) = Ok \<lparr> fl_stat = sample_stat 1, fl_content = ''r'' \<rparr>"
    by (simp_all add: sample_staged_def sample_artifacts_def sample_directory_def sample_entry_def sample_spool_name_def
      directory_simps SpoolName_new_def)
  have "cp_revision sample_plan = as_revision (sample_staged 1)" "cp_owner sample_plan = dr_authority (as_directory (sample_staged 1))"
    "changing (sample_staged 1) = Ok ((sample_staged 1)\<lparr> as_revision := 2 \<rparr>)"
    by (simp_all add: sample_plan_def sample_staged_def sample_artifacts_def sample_directory_def changing_def checked_add_def)
  with scan held show ?thesis
    by (auto simp: spool_apply_cleanup_def sample_plan_def unlink_def Let_def)
qed

lemma cleanup_removes_reviewed_witness:
  "\<exists>s3 :: ArtifactStore. map_of (dr_files (as_directory s3)) (filename sample_spool_name) = None
    \<and> map_of (dr_files (as_directory s3)) LOCK \<noteq> None \<and> as_unknown_gap s3"
proof -
  obtain s3 result where a: "spool_apply_cleanup (\<lambda>_. (False, False)) (sample_staged 1) sample_plan = (s3, Ok result)"
    "cu_removed_files result = 1" using sample_apply_review by blast
  from cleanup_removes_reviewed [OF sample_preview a(1)] a(2)
  have "files_without (dr_files (as_directory (sample_staged 1))) [ry_held sample_entry] (dr_files (as_directory s3))"
    "(\<exists>held\<in>set [ry_held sample_entry]. en_spool (hd_entry held) \<noteq> None) \<longrightarrow> as_unknown_gap s3"
    by (auto simp: Let_def sample_plan_def)
  moreover have "en_spool (hd_entry (ry_held sample_entry)) \<noteq> None" "en_name (hd_entry (ry_held sample_entry)) = filename sample_spool_name"
    by (simp_all add: sample_entry_def)
  ultimately show ?thesis
    by (intro exI [of _ s3]) (auto simp: files_without_def held_names_def filename_nolog(1) [symmetric]
        sample_staged_def sample_artifacts_def sample_directory_def)
qed

text \<open>C31: Bounded log. Whatever fails on the way, an append leaves every one of the four log files within one
  mebibyte and every other file as it was, provided the metadata tells the true sizes and renaming
  keeps them. When it succeeds, the record with its newline is the end of the current file; when it
  fails, one more rejected attempt is counted, up to the counter's maximum, and an unknown gap is recorded.\<close>

theorem log_is_bounded:
  assumes "append_log env s record = (s', x)" and "logs_within (as_directory s)" and "true_sizes (as_directory s)"
    and "\<And>stat. st_size (lo_renamed env stat) = st_size stat"
  shows "logs_within (as_directory s') \<and> same_others (as_directory s) (as_directory s')
    \<and> (case x of
        Ok _ \<Rightarrow> \<exists>printed f before. lo_print env record = Some printed
          \<and> map_of (dr_files (as_directory s')) ''metadata.0.log'' = Some f \<and> fl_content f = before @ printed @ [newline]
      | Err _ \<Rightarrow> as_rejected_attempts s' = saturating_add (as_rejected_attempts s) 1 \<and> as_unknown_gap s')"
proof -
  obtain s1 y where w: "write_log env s record = (s1, y)" by (cases "write_log env s record")
  have d: "as_directory s' = as_directory s1" and x: "x = y"
    and gap: "\<And>e. y = Err e \<Longrightarrow> as_rejected_attempts s' = saturating_add (as_rejected_attempts s) 1 \<and> as_unknown_gap s'"
    using assms(1) w write_log_attempts [OF w] by (auto simp: append_log_def failure_def split: sum.splits)
  have name: "LOG_NAMES ! 0 = ''metadata.0.log''" by (simp add: LOG_NAMES_def)
  from w assms(4) show ?thesis
  proof (cases rule: write_log_steps)
    case failed
    with assms(2) gap show ?thesis unfolding d x by (cases y) (auto simp: kept_def)
  next
    case (appended e current printed)
    then have "logs_within e" "true_sizes e" "same_others (as_directory s) e"
      using assms(2,3) by (simp_all add: kept_def)
    with append_record_kept [OF appended(3)] appended(2) gap show ?thesis
      unfolding d x name by (cases y) (auto simp: same_others_def)
  qed
qed

definition sample_log_io :: log_io where
  "sample_log_io = \<lparr> lo_print = (\<lambda>_. Some ''{}''), lo_remove = (False, False), lo_rename = (\<lambda>_. (False, False)),
     lo_renamed = (\<lambda>stat. stat), lo_open = True, lo_created = sample_stat 0, lo_write = Some 3,
     lo_written = sample_stat 3, lo_sync = True, lo_directory_sync = True \<rparr>"

definition sample_log_record :: LogRecord where
  "sample_log_record = \<lparr> lr_observed_ms = 5, lr_reason = MissingHook, lr_count = 1, lr_unknown_gap = False \<rparr>"

lemma sample_append: "\<exists>s'. append_log sample_log_io sample_artifacts sample_log_record = (s', Ok ())"
proof -
  let ?f = "\<lparr> fl_stat = sample_stat 0, fl_content = [] \<rparr>" and ?g = "\<lparr> fl_stat = sample_stat 3, fl_content = ''{}'' @ [newline] \<rparr>"
  let ?d = "sample_directory\<lparr> dr_files := dr_files sample_directory @ [(''metadata.0.log'', ?f)] \<rparr>"
  let ?e = "sample_directory\<lparr> dr_files := dr_files sample_directory @ [(''metadata.0.log'', ?g)] \<rparr>"
  have lock: "LOCK \<noteq> ''metadata.0.log''" "LOG_NAMES ! 0 = ''metadata.0.log''" by (simp_all add: LOCK_def LOG_NAMES_def)
  have same: "file_identity ?d ''metadata.0.log'' ?f \<noteq> Err e" "file_identity ?e ''metadata.0.log'' ?g \<noteq> Err e" for e
    using lock by (simp_all add: file_identity_def sample_directory_def sample_private sample_identity)
  have open_new: "open_log sample_log_io sample_directory None = (?d, Ok ?f)"
    using lock by (simp add: open_log_def Let_def sample_log_io_def sample_directory_def)
  have st: "private_file (fl_stat ?f) (dr_uid ?d) = Ok ()" "st_size (fl_stat ?f) = 0"
    by (simp_all add: sample_private sample_directory_def) (simp add: sample_stat_def)
  obtain i where i: "file_identity ?d ''metadata.0.log'' ?f = Ok i" using same(1) by (cases "file_identity ?d ''metadata.0.log'' ?f") auto
  obtain j where j: "file_identity ?e ''metadata.0.log'' ?g = Ok j" using same(2) by (cases "file_identity ?e ''metadata.0.log'' ?g") auto
  have io: "lo_write sample_log_io = Some 3" "lo_written sample_log_io = sample_stat 3" "lo_sync sample_log_io"
    "lo_directory_sync sample_log_io" "lo_print sample_log_io sample_log_record = Some ''{}''" by (simp_all add: sample_log_io_def)
  have update: "AList.update ''metadata.0.log'' ?g (dr_files ?d) = dr_files ?e"
    using lock by (simp add: sample_directory_def)
  have "append_record sample_log_io sample_directory None (''{}'' @ [newline]) = (?e, Ok ())"
    unfolding append_record_def Let_def lock(2) open_new try_st_simps st i io
    using update j io by (simp add: MAX_LOG_BYTES_def)
  then show ?thesis
    using lock by (simp add: append_log_def write_log_def Let_def io sample_scan changing_def checked_add_def sample_artifacts_def)
qed

lemma log_is_bounded_witness:
  "\<exists>(s' :: ArtifactStore) f before. map_of (dr_files (as_directory s')) ''metadata.0.log'' = Some f \<and> fl_content f = before @ ''{}'' @ [newline]"
proof -
  obtain s' where a: "append_log sample_log_io sample_artifacts sample_log_record = (s', Ok ())" using sample_append by blast
  have "logs_within (as_directory sample_artifacts)" "true_sizes (as_directory sample_artifacts)"
    by (auto simp: logs_within_def true_sizes_def sample_artifacts_def sample_directory_def sample_stat_def split: if_splits)
  from log_is_bounded [OF a this] show ?thesis by (auto simp: sample_log_io_def)
qed

end
