(* ===== verification/Manager_Types.thy ===== *)
theory Manager_Types
  imports Store_Write Spool_Files
begin

section \<open>The vocabulary of the manager (manager/mod.rs, projects/mod.rs, runtime/mod.rs, runtime/control.rs, runtime/process.rs)\<close>

text \<open>
  What the manager persists and answers: its errors, projects, presets and tasks, the managed run of
  a task, and the control state kept beside it, with the checks each record passes before it is
  stored. Record fields: \<open>pj_\<close> \<open>Project\<close>, \<open>ps_\<close> \<open>Preset\<close>, \<open>ta_\<close> \<open>Task\<close>, \<open>pg_\<close> \<open>Page\<close>, \<open>pr_\<close> \<open>ProcessIdentity\<close>,
  \<open>mr_\<close> \<open>ManagedRun\<close>, \<open>pp_\<close> \<open>PaneIdentity\<close>, \<open>wi_\<close> \<open>WindowIdentity\<close>, \<open>ti_\<close> \<open>TerminalIntent\<close>, \<open>ct_\<close> \<open>ControlState\<close>.
  The JSON library is the argument \<open>catalog_codec\<close>: per record the bytes it writes and the record it reads.
\<close>

subsection \<open>Vocabulary (projects/mod.rs)\<close>

definition MAX_PROJECTS :: nat where "MAX_PROJECTS = 1000"
definition MAX_PRESETS :: nat where "MAX_PRESETS = 100"
definition MAX_TASKS :: nat where "MAX_TASKS = 10000"
definition PAGE_SIZE :: nat where "PAGE_SIZE = 100"

datatype ProjectError = InvalidInput | UnsafePath | IdentityChanged

fun ProjectError_display :: "ProjectError \<Rightarrow> string" where
  "ProjectError_display InvalidInput = ''invalid project or preset input''"
| "ProjectError_display UnsafePath = ''path must be absolute, owned, accessible and free of symlinks''"
| "ProjectError_display IdentityChanged = ''saved path identity changed; registration needs review''"

record PathIdentity =
  pi_device :: u64
  pi_inode :: u64

record Project =
  pj_id :: ProjectId
  pj_label :: TaskLabel
  pj_root :: LocalPath
  pj_identity :: PathIdentity

record Preset =
  ps_name :: string
  ps_executable :: LocalPath
  ps_identity :: PathIdentity
  ps_profile :: string

record Task =
  ta_id :: TaskId
  ta_project_id :: ProjectId
  ta_preset :: string
  ta_label :: TaskLabel

record 'a Page =
  pg_revision :: Revision
  pg_items :: "'a list"
  pg_next_after :: "string option"

datatype CatalogRequest =
    AddProject LocalPath TaskLabel
  | AddPreset string LocalPath string
  | AddTask ProjectId string TaskLabel
  | Projects "ProjectId option"
  | Presets "string option"
  | Tasks ProjectId "TaskId option"
  | GetTask TaskId

datatype CatalogResponse =
    ProjectAdded Project | PresetAdded Preset | TaskAdded Task
  | ProjectPage "Project Page" | PresetPage "Preset Page" | TaskPage "Task Page"
  | Launch Project Preset Task

definition is_ascii_alphanumeric :: "char \<Rightarrow> bool" where
  "is_ascii_alphanumeric c \<longleftrightarrow> is_ascii_digit c \<or> (of_char c :: nat) \<in> {65..90} \<union> {97..122}"

definition name_valid :: "string \<Rightarrow> ProjectError + unit" where
  "name_valid v =
     (if v = [] \<or> 64 < length v \<or> \<not> list_all (\<lambda>b. is_ascii_alphanumeric b \<or> b = CHR ''_'' \<or> b = CHR ''-'') v
        \<or> take 1 v = ''-''
      then Err InvalidInput else Ok ())"

definition CatalogRequest_validate :: "CatalogRequest \<Rightarrow> ProjectError + unit" where
  "CatalogRequest_validate request = (case request of
     AddPreset name _ profile \<Rightarrow> and_then (name_valid name) (\<lambda>_. name_valid profile)
   | AddTask _ preset _ \<Rightarrow> name_valid preset
   | Presets (Some name) \<Rightarrow> name_valid name
   | _ \<Rightarrow> Ok ())"

definition CatalogRequest_is_read :: "CatalogRequest \<Rightarrow> bool" where
  "CatalogRequest_is_read request = (case request of
     Projects _ \<Rightarrow> True | Presets _ \<Rightarrow> True | Tasks _ _ \<Rightarrow> True | GetTask _ \<Rightarrow> True | _ \<Rightarrow> False)"

definition project_error :: "ProjectError \<Rightarrow> StorageError" where
  "project_error e = (case e of
     InvalidInput \<Rightarrow> StorageError.InvalidRequest | UnsafePath \<Rightarrow> StorageError.UnsafePath | IdentityChanged \<Rightarrow> StorageError.Conflict)"

subsection \<open>Errors (manager/mod.rs)\<close>

datatype ManagerError =
    InvalidRequest | UnsafePath | Unavailable | Conflict | Busy | PersistenceUnavailable
  | RuntimeUnavailable | UnknownOutcome | OwnershipUnverified | ActionUnavailable | ConcurrentWriter

fun ManagerError_display :: "ManagerError \<Rightarrow> string" where
  "ManagerError_display OwnershipUnverified = ''runtime ownership cannot be verified; no control performed''"
| "ManagerError_display ActionUnavailable = ''action unavailable for this runtime or supported desktop''"
| "ManagerError_display ConcurrentWriter =
     ''another managed attempt may write this project root; inspect it or repeat with --allow-shared-checkout''"
| "ManagerError_display ManagerError.InvalidRequest = ''invalid manager command''"
| "ManagerError_display ManagerError.UnsafePath = ''unsafe manager or runtime path''"
| "ManagerError_display Unavailable = ''manager unavailable; start manager serve''"
| "ManagerError_display ManagerError.Conflict = ''state changed; list before retrying''"
| "ManagerError_display Busy = ''manager capacity reached; retry later''"
| "ManagerError_display ManagerError.PersistenceUnavailable = ''manager persistence unavailable''"
| "ManagerError_display RuntimeUnavailable = ''terminal runtime unavailable; inspect supported prerequisites''"
| "ManagerError_display UnknownOutcome =
     ''reply unavailable; operation may have committed or started; list before retrying''"

definition manager_error_io :: "'e \<Rightarrow> ManagerError" where "manager_error_io _ = RuntimeUnavailable"
definition manager_error_ipc :: "'e \<Rightarrow> ManagerError" where "manager_error_ipc _ = Unavailable"
definition manager_error_project :: "ProjectError \<Rightarrow> ManagerError" where
  "manager_error_project _ = ManagerError.UnsafePath"

definition manager_error_storage :: "StorageError \<Rightarrow> ManagerError" where
  "manager_error_storage error = (case error of
     StorageError.Conflict \<Rightarrow> ManagerError.Conflict
   | StorageError.InvalidRequest \<Rightarrow> ManagerError.InvalidRequest
   | StorageError.UnsafePath \<Rightarrow> ManagerError.UnsafePath
   | ResourceExhausted \<Rightarrow> Busy
   | _ \<Rightarrow> ManagerError.PersistenceUnavailable)"

subsection \<open>Processes (process.rs)\<close>

record ProcessIdentity =
  pr_pid :: u32
  pr_start_ticks :: u64
  pr_boot_id :: string

definition ProcessIdentity_validate :: "ProcessIdentity \<Rightarrow> ManagerError + unit" where
  "ProcessIdentity_validate p =
     (if pr_pid p = 0 \<or> pr_start_ticks p = 0 \<or> \<not> is_ok (RunId_from_str (pr_boot_id p))
      then Err ManagerError.InvalidRequest else Ok ())"

subsection \<open>Managed runs (runtime/mod.rs)\<close>

definition MAX_MANAGED_RUNS :: nat where "MAX_MANAGED_RUNS = 1000"
definition RUN_PAGE_SIZE :: nat where "RUN_PAGE_SIZE = 10"

record ManagedRun =
  mr_id :: RunId
  mr_task_id :: TaskId
  mr_project_id :: ProjectId
  mr_runtime_root :: LocalPath
  mr_server :: "ProcessIdentity option"

definition run_unit :: "ManagedRun \<Rightarrow> string" where
  "run_unit run = ''harbormaster-runtime-'' @ RunId_as_str (mr_id run) @ ''.service''"

text \<open>\<open>Path::join\<close>: an absolute argument replaces the path, a separator is added where none ends it.\<close>

definition path_join :: "string \<Rightarrow> string \<Rightarrow> string" where
  "path_join p s =
     (if take 1 s = ''/'' then s else if p = [] \<or> last p = CHR ''/'' then p @ s else p @ ''/'' @ s)"

definition run_directory :: "ManagedRun \<Rightarrow> string" where
  "run_directory run = path_join (path_join (LocalPath_as_str (mr_runtime_root run)) ''harbormaster/runners'')
     (RunId_as_str (mr_id run))"

datatype RuntimeState = Uncertain | Running | Exited | Unavailable_runtime

record RunView =
  vw_run :: ManagedRun
  vw_unit :: string
  vw_state :: RuntimeState
  vw_limited_visibility :: bool

datatype RunnerRequest =
    GetRun RunId
  | ByTask TaskId
  | Reserve TaskId LocalPath
  | Identify RunId ProcessIdentity
  | ListRuns ProjectId "RunId option"

datatype RunnerResponse =
    Found "ManagedRun option"
  | Reserved ManagedRun bool
  | Identified ManagedRun
  | Listed "ManagedRun Page"

subsection \<open>Control state (control.rs)\<close>

record PaneIdentity =
  pp_process :: ProcessIdentity
  pp_pane :: string
  pp_session :: string

record WindowIdentity =
  wi_address :: string
  wi_compositor :: string
  wi_client :: ProcessIdentity
  wi_tty :: string

record TerminalIntent =
  ti_nonce :: RunId
  ti_process :: "ProcessIdentity option"
  ti_window :: "WindowIdentity option"

record ControlState =
  ct_id :: RunId
  ct_launch_nonce :: "RunId option"
  ct_invocation :: "string option"
  ct_pane :: "PaneIdentity option"
  ct_terminal :: "TerminalIntent option"
  ct_stopped :: bool
  ct_ending :: bool

record catalog_codec =
  kc_project :: "Project \<Rightarrow> string option"
  kc_preset :: "Preset \<Rightarrow> string option"
  kc_task :: "Task \<Rightarrow> string option"
  kc_run :: "ManagedRun \<Rightarrow> string option"
  kc_control :: "ControlState \<Rightarrow> string option"
  kd_project :: "string \<Rightarrow> Project option"
  kd_preset :: "string \<Rightarrow> Preset option"
  kd_task :: "string \<Rightarrow> Task option"
  kd_run :: "string \<Rightarrow> ManagedRun option"
  kd_control :: "string \<Rightarrow> ControlState option"

definition ControlState_new :: "RunId \<Rightarrow> RunId option \<Rightarrow> ControlState" where
  "ControlState_new i launch_nonce = \<lparr> ct_id = i, ct_launch_nonce = launch_nonce, ct_invocation = None,
     ct_pane = None, ct_terminal = None, ct_stopped = False, ct_ending = False \<rparr>"

definition decimal :: "string \<Rightarrow> bool" where
  "decimal v \<longleftrightarrow> v \<noteq> [] \<and> length v \<le> 10 \<and> list_all is_ascii_digit v"

definition target :: "string \<Rightarrow> char \<Rightarrow> bool" where
  "target v mark = (case strip_prefix [mark] v of None \<Rightarrow> False | Some s \<Rightarrow> decimal s)"

definition is_ascii_hexdigit :: "char \<Rightarrow> bool" where
  "is_ascii_hexdigit c \<longleftrightarrow> is_lower_hex c \<or> 65 \<le> byte c \<and> byte c \<le> 70"

definition hex :: "string \<Rightarrow> nat \<Rightarrow> bool" where
  "hex v len \<longleftrightarrow> length v = len \<and> list_all is_ascii_hexdigit v"

definition address :: "string \<Rightarrow> bool" where
  "address v = (case strip_prefix ''0x'' v of None \<Rightarrow> False
     | Some s \<Rightarrow> s \<noteq> [] \<and> length s \<le> 16 \<and> hex s (length s))"

definition component :: "string \<Rightarrow> bool" where
  "component v \<longleftrightarrow> v \<noteq> [] \<and> length v \<le> 128 \<and> list_all (\<lambda>b. is_ascii_alphanumeric b \<or> b \<in> set ''_.-'') v"

definition terminal_unit :: "TerminalIntent \<Rightarrow> string" where
  "terminal_unit t = ''harbormaster-terminal-'' @ RunId_as_str (ti_nonce t) @ ''.service''"

definition app_id :: "TerminalIntent \<Rightarrow> string" where
  "app_id t = ''harbormaster.'' @ RunId_as_str (ti_nonce t)"

definition TerminalIntent_validate :: "TerminalIntent \<Rightarrow> ManagerError + unit" where
  "TerminalIntent_validate t =
     (if ti_window t \<noteq> None \<and> ti_process t = None then Err ManagerError.InvalidRequest
      else
        and_then (case ti_process t of Some p \<Rightarrow> ProcessIdentity_validate p | None \<Rightarrow> Ok ()) (\<lambda>_.
        case ti_window t of
          None \<Rightarrow> Ok ()
        | Some window \<Rightarrow>
            and_then (ProcessIdentity_validate (wi_client window)) (\<lambda>_.
            if \<not> address (wi_address window) \<or> \<not> component (wi_compositor window)
               \<or> \<not> (case strip_prefix ''/dev/pts/'' (wi_tty window) of None \<Rightarrow> False | Some s \<Rightarrow> decimal s)
            then Err ManagerError.InvalidRequest else Ok ())))"

definition ControlState_validate :: "catalog_codec \<Rightarrow> ControlState \<Rightarrow> ManagerError + unit" where
  "ControlState_validate codec c =
     and_then (ok_or ManagerError.InvalidRequest (kc_control codec c)) (\<lambda>bytes.
     if 8192 < length bytes \<or> (case ct_invocation c of None \<Rightarrow> False | Some s \<Rightarrow> \<not> hex s 32)
     then Err ManagerError.InvalidRequest
     else if ct_pane c \<noteq> None \<and> ct_invocation c = None \<or> ct_terminal c \<noteq> None \<and> ct_pane c = None
       \<or> ct_stopped c \<and> \<not> ct_ending c
     then Err ManagerError.InvalidRequest
     else
       and_then (case ct_pane c of
           None \<Rightarrow> Ok ()
         | Some pane \<Rightarrow>
             and_then (ProcessIdentity_validate (pp_process pane)) (\<lambda>_.
             if \<not> target (pp_pane pane) CHR ''%'' \<or> \<not> target (pp_session pane) CHR ''$''
             then Err ManagerError.InvalidRequest else Ok ())) (\<lambda>_.
       case ct_terminal c of None \<Rightarrow> Ok () | Some t \<Rightarrow> TerminalIntent_validate t))"

datatype RuntimeRequest =
    GetControl RunId
  | SaveControl ControlState
  | OtherWriters ProjectId TaskId

datatype RuntimeResponse =
    StateFound "ControlState option"
  | Saved
  | WritersFound bool

end
