(* ===== verification/Project_Paths.thy ===== *)
theory Project_Paths
  imports Manager_Types
begin

unbundle bit_operations_syntax

section \<open>Owned paths and the prepared launch (projects/paths.rs, projects/launch.rs)\<close>

text \<open>
  A path is walked from the root, one component at a time, each opened without following a symbolic
  link and checked by its metadata. What the kernel answers is the argument \<open>path_env\<close>: for the
  names that lead to a directory, whether \<open>mkdirat\<close> made it or found it, the metadata behind its
  descriptor, and the metadata of the executable opened there (\<open>None\<close>: the call failed). The
  descriptor of a directory is the list of names that lead to it; its device and inode are those of
  its first \<open>fstat\<close>. A \<open>Command\<close> is what it would spawn: \<open>sc_\<close> program, arguments, directory, environment.
\<close>

subsection \<open>Path::components\<close>

datatype Component = RootDir | CurDir | ParentDir | Normal string

definition component_of :: "string \<Rightarrow> Component" where
  "component_of piece = (if piece = ''..'' then ParentDir else Normal piece)"

definition components :: "string \<Rightarrow> Component list" where
  "components s =
     (let pieces = filter (\<lambda>p. p \<noteq> []) (split_on CHR ''/'' s);
          names = map component_of (filter (\<lambda>p. p \<noteq> ''.'') pieces)
      in if take 1 s = ''/'' then RootDir # names
         else if pieces \<noteq> [] \<and> hd pieces = ''.'' then CurDir # names else names)"

fun component_text :: "Component \<Rightarrow> string" where
  "component_text RootDir = ''/''"
| "component_text CurDir = ''.''"
| "component_text ParentDir = ''..''"
| "component_text (Normal name) = name"

definition components_path :: "Component list \<Rightarrow> string" where
  "components_path cs = foldl path_join [] (map component_text cs)"

definition file_name :: "string \<Rightarrow> string option" where
  "file_name s = (case rev (components s) of Normal name # _ \<Rightarrow> Some name | _ \<Rightarrow> None)"

definition path_parent :: "string \<Rightarrow> string option" where
  "path_parent s = (case rev (components s) of
     [] \<Rightarrow> None | RootDir # _ \<Rightarrow> None | _ # rest \<Rightarrow> Some (components_path (rev rest)))"

subsection \<open>paths.rs\<close>

record path_env =
  pe_uid :: u32
  pe_mkdir :: "string list \<Rightarrow> bool"
  pe_dir :: "string list \<Rightarrow> Stat option"
  pe_executable :: "string list \<Rightarrow> Stat option"

definition safe :: "path_env \<Rightarrow> Stat \<Rightarrow> ProjectError + unit" where
  "safe env stat =
     (if (st_uid stat \<noteq> pe_uid env \<and> st_uid stat \<noteq> 0) \<or> st_mode stat AND 18 \<noteq> 0
      then Err ProjectError.UnsafePath else Ok ())"

fun walk :: "path_env \<Rightarrow> bool \<Rightarrow> string list \<Rightarrow> Component list \<Rightarrow> ProjectError + string list" where
  "walk env create fd [] = Ok fd"
| "walk env create fd (part # parts) =
     and_then (case part of
         RootDir \<Rightarrow> Ok fd
       | Normal name \<Rightarrow> if create \<and> \<not> pe_mkdir env (fd @ [name]) then Err ProjectError.UnsafePath else Ok (fd @ [name])
       | _ \<Rightarrow> Err ProjectError.UnsafePath) (\<lambda>fd.
     and_then (ok_or ProjectError.UnsafePath (pe_dir env fd)) (\<lambda>stat.
     and_then (safe env stat) (\<lambda>_.
     walk env create fd parts)))"

definition directory :: "path_env \<Rightarrow> string \<Rightarrow> bool \<Rightarrow> ProjectError + string list" where
  "directory env path create =
     (if take 1 path \<noteq> ''/'' \<or> 4096 < length path then Err ProjectError.UnsafePath
      else and_then (ok_or ProjectError.UnsafePath (pe_dir env [])) (\<lambda>_. walk env create [] (components path)))"

definition open_path :: "path_env \<Rightarrow> string \<Rightarrow> bool \<Rightarrow> ProjectError + Stat" where
  "open_path env path executable =
     and_then
       (if executable then
          if file_name path \<noteq> Some ''hermes'' then Err InvalidInput
          else
            and_then (ok_or ProjectError.UnsafePath (path_parent path)) (\<lambda>up.
            and_then (directory env up False) (\<lambda>parent.
            ok_or ProjectError.UnsafePath (pe_executable env parent)))
        else
          and_then (directory env path False) (\<lambda>fd. ok_or ProjectError.UnsafePath (pe_dir env fd))) (\<lambda>stat.
     and_then (safe env stat) (\<lambda>_.
     if executable \<and> (\<not> st_regular stat \<or> st_mode stat AND 73 = 0 \<or> st_mode stat AND 3072 \<noteq> 0)
     then Err ProjectError.UnsafePath else Ok stat))"

definition path_identity :: "path_env \<Rightarrow> string \<Rightarrow> bool \<Rightarrow> ProjectError + PathIdentity" where
  "path_identity env path executable =
     (if components_path (components path) \<noteq> path then Err ProjectError.UnsafePath
      else map_ok (\<lambda>stat. \<lparr> pi_device = st_dev stat, pi_inode = st_ino stat \<rparr>) (open_path env path executable))"

definition open_identity :: "path_env \<Rightarrow> string \<Rightarrow> bool \<Rightarrow> PathIdentity \<Rightarrow> ProjectError + Stat" where
  "open_identity env path executable expected =
     and_then (open_path env path executable) (\<lambda>stat.
     if st_dev stat \<noteq> pi_device expected \<or> st_ino stat \<noteq> pi_inode expected then Err ProjectError.IdentityChanged
     else Ok stat)"

text \<open>\<open>runtime::private_directory\<close>: a canonical path whose directory is the user's own, mode 0700.\<close>

definition private_directory :: "path_env \<Rightarrow> string \<Rightarrow> bool \<Rightarrow> ManagerError + string list" where
  "private_directory env path create =
     (if components_path (components path) \<noteq> path then Err ManagerError.UnsafePath
      else
        and_then (map_err manager_error_project (directory env path create)) (\<lambda>fd.
        and_then (ok_or ManagerError.UnsafePath (pe_dir env fd)) (\<lambda>stat.
        if st_uid stat \<noteq> pe_uid env \<or> st_mode stat AND 4095 \<noteq> 448 then Err ManagerError.UnsafePath else Ok fd)))"

subsection \<open>launch.rs\<close>

record spawn_command =
  sc_program :: string
  sc_args :: "string list"
  sc_cwd :: "string option"
  sc_env :: "(string \<times> string) list"

record LaunchPreview =
  lp_task_id :: TaskId
  lp_executable :: LocalPath
  lp_cwd :: LocalPath
  lp_argv :: "string list"

record PreparedLaunch =
  pl_project :: Project
  pl_preset :: Preset
  pl_task :: Task

definition revalidate :: "path_env \<Rightarrow> PreparedLaunch \<Rightarrow> ProjectError + unit" where
  "revalidate env p =
     and_then (path_identity env (LocalPath_as_str (pj_root (pl_project p))) False) (\<lambda>root.
     if root \<noteq> pj_identity (pl_project p) then Err ProjectError.IdentityChanged
     else
       and_then (path_identity env (LocalPath_as_str (ps_executable (pl_preset p))) True) (\<lambda>executable.
       if executable \<noteq> ps_identity (pl_preset p) then Err ProjectError.IdentityChanged else Ok ()))"

definition PreparedLaunch_new :: "path_env \<Rightarrow> Project \<Rightarrow> Preset \<Rightarrow> Task \<Rightarrow> ProjectError + PreparedLaunch" where
  "PreparedLaunch_new env project preset task =
     (if pj_id project \<noteq> ta_project_id task \<or> ps_name preset \<noteq> ta_preset task then Err InvalidInput
      else
        and_then (name_valid (ps_name preset)) (\<lambda>_.
        and_then (name_valid (ps_profile preset)) (\<lambda>_.
        let prepared = \<lparr> pl_project = project, pl_preset = preset, pl_task = task \<rparr>
        in map_ok (\<lambda>_. prepared) (revalidate env prepared))))"

definition launch_preview :: "PreparedLaunch \<Rightarrow> LaunchPreview" where
  "launch_preview p = \<lparr> lp_task_id = ta_id (pl_task p), lp_executable = ps_executable (pl_preset p),
     lp_cwd = pj_root (pl_project p), lp_argv = [''-p'', ps_profile (pl_preset p), ''chat''] \<rparr>"

definition launch_value_ok :: "string \<Rightarrow> bool" where
  "launch_value_ok v \<longleftrightarrow> length v \<le> 128 \<and> list_all (\<lambda>b. is_ascii_alphanumeric b \<or> b \<in> set ''_-.@'') v"

definition launch_env :: "(string \<times> string) list \<Rightarrow> string \<Rightarrow> (string \<times> string) list" where
  "launch_env parent home =
     foldl (\<lambda>env key. case map_of parent key of
         Some v \<Rightarrow> if launch_value_ok v then AList.update key v env else env
       | None \<Rightarrow> env)
       [(''HOME'', home), (''PATH'', ''/usr/local/bin:/usr/bin:/bin'')]
       [''LANG'', ''LC_ALL'', ''TERM'', ''COLORTERM'']"

definition launch_command ::
    "path_env \<Rightarrow> PreparedLaunch \<Rightarrow> (string \<times> string) list \<Rightarrow> ProjectError + spawn_command" where
  "launch_command env p parent =
     and_then (revalidate env p) (\<lambda>_.
     and_then (ok_or InvalidInput (case map_of parent ''HOME'' of
         Some v \<Rightarrow> if take 1 v = ''/'' \<and> length v \<le> 4096 \<and> \<not> has_control v then Some v else None
       | None \<Rightarrow> None)) (\<lambda>home.
     Ok \<lparr> sc_program = LocalPath_as_str (ps_executable (pl_preset p)), sc_args = lp_argv (launch_preview p),
        sc_cwd = Some (LocalPath_as_str (pj_root (pl_project p))), sc_env = launch_env parent home \<rparr>))"

subsection \<open>What an accepted path guarantees\<close>

text \<open>The directory is the user's or root's, and writable by no group and no other user.\<close>

definition guarded :: "path_env \<Rightarrow> Stat \<Rightarrow> bool" where
  "guarded env stat \<longleftrightarrow> (st_uid stat = pe_uid env \<or> st_uid stat = 0) \<and> st_mode stat AND 18 = 0"

lemma safe_Ok [result_simps]: "safe env stat = Ok u \<longleftrightarrow> guarded env stat"
  by (auto simp: safe_def guarded_def)

definition names_of :: "Component list \<Rightarrow> string list" where
  "names_of parts = map component_text (filter (\<lambda>c. c \<noteq> RootDir) parts)"

lemma walk_Ok:
  "walk env create fd parts = Ok fd' \<Longrightarrow>
     fd' = fd @ names_of parts \<and> set parts \<subseteq> insert RootDir (range Normal) \<and>
     (\<forall>i\<in>{length fd<..length fd'}. \<exists>stat. pe_dir env (take i fd') = Some stat \<and> guarded env stat)"
proof (induction parts arbitrary: fd)
  case Nil
  then show ?case by (simp add: names_of_def)
next
  case (Cons part parts)
  show ?case
  proof (cases part)
    case RootDir
    with Cons.prems have "walk env create fd parts = Ok fd'" by (auto simp: result_simps)
    from Cons.IH [OF this] RootDir show ?thesis by (auto simp: names_of_def)
  next
    case (Normal name)
    with Cons.prems obtain stat where stat: "pe_dir env (fd @ [name]) = Some stat" "guarded env stat"
      and rest: "walk env create (fd @ [name]) parts = Ok fd'"
      by (auto simp: result_simps split: if_splits)
    from Cons.IH [OF rest] have fd': "fd' = fd @ name # names_of parts"
      and shape: "set parts \<subseteq> insert RootDir (range Normal)"
      and later: "\<forall>i\<in>{Suc (length fd)<..length fd'}. \<exists>stat. pe_dir env (take i fd') = Some stat \<and> guarded env stat"
      by auto
    have "\<exists>stat. pe_dir env (take i fd') = Some stat \<and> guarded env stat" if i: "length fd < i" "i \<le> length fd'" for i
    proof (cases "i = Suc (length fd)")
      case True
      with stat fd' show ?thesis by simp
    next
      case False
      with i later show ?thesis by simp
    qed
    with Normal fd' shape show ?thesis by (auto simp: names_of_def)
  qed (use Cons.prems in auto)
qed

lemma directory_Ok:
  assumes "directory env path create = Ok fd"
  shows "take 1 path = ''/''" "length path \<le> 4096" "fd = names_of (components path)"
    "set (components path) \<subseteq> insert RootDir (range Normal)"
    "\<forall>i\<le>length fd. \<exists>stat. pe_dir env (take i fd) = Some stat \<and> guarded env stat"
proof -
  from assms have path: "take 1 path = ''/''" "length path \<le> 4096" and w: "walk env create [] (components path) = Ok fd"
    by (auto simp: directory_def result_simps split: if_splits)
  show "take 1 path = ''/''" "length path \<le> 4096" by (fact path)+
  from walk_Ok [OF w] show "fd = names_of (components path)" "set (components path) \<subseteq> insert RootDir (range Normal)"
    by simp_all
  obtain parts where "components path = RootDir # parts"
    using path(1) by (simp add: components_def Let_def)
  with w have "\<exists>stat. pe_dir env [] = Some stat \<and> guarded env stat" by (auto simp: result_simps)
  with walk_Ok [OF w] show "\<forall>i\<le>length fd. \<exists>stat. pe_dir env (take i fd) = Some stat \<and> guarded env stat"
    by (metis greaterThanAtMost_iff le_zero_eq linorder_neqE_nat list.size(3) not_less_zero take0)
qed

subsection \<open>Text and components of an absolute path\<close>

definition plain :: "string \<Rightarrow> bool" where
  "plain name \<longleftrightarrow> name \<noteq> [] \<and> CHR ''/'' \<notin> set name \<and> name \<noteq> ''.''"

lemma split_on_pieces: "p \<in> set (split_on d s) \<Longrightarrow> d \<notin> set p"
proof (induction s arbitrary: p)
  case (Cons c s)
  then show ?case by (cases "split_on d s") (auto split: if_splits)
qed simp

lemma split_on_slashed:
  "CHR ''/'' \<notin> set n \<Longrightarrow> \<forall>m\<in>set ns. CHR ''/'' \<notin> set m \<Longrightarrow>
     split_on CHR ''/'' (n @ concat (map (Cons CHR ''/'') ns)) = n # ns"
proof (induction ns arbitrary: n)
  case Nil
  then show ?case by (simp add: split_on_single)
next
  case (Cons m ns)
  then show ?case by (simp add: split_on_append)
qed

lemma path_join_plain:
  assumes "plain n" and "p \<noteq> []" and "last p \<noteq> CHR ''/''"
  shows "path_join p n = p @ CHR ''/'' # n" and "last (p @ CHR ''/'' # n) \<noteq> CHR ''/''"
proof -
  obtain c m where n: "n = c # m" using assms(1) by (cases n) (auto simp: plain_def)
  have "c \<noteq> CHR ''/''" using assms(1) by (auto simp: plain_def n)
  then show "path_join p n = p @ CHR ''/'' # n" using assms(2,3) by (simp add: path_join_def n)
  have "last n \<in> set n" by (simp add: n)
  then show "last (p @ CHR ''/'' # n) \<noteq> CHR ''/''" using assms(1) by (auto simp: plain_def n)
qed

lemma foldl_path_join:
  "\<forall>n\<in>set ns. plain n \<Longrightarrow> p \<noteq> [] \<Longrightarrow> last p \<noteq> CHR ''/'' \<Longrightarrow>
     foldl path_join p ns = p @ concat (map (Cons CHR ''/'') ns)"
proof (induction ns arbitrary: p)
  case Nil
  then show ?case by simp
next
  case (Cons n ns)
  then have n: "plain n" by simp
  have "foldl path_join (p @ CHR ''/'' # n) ns = (p @ CHR ''/'' # n) @ concat (map (Cons CHR ''/'') ns)"
    using Cons.prems(1) path_join_plain(2) [OF n Cons.prems(2,3)] by (intro Cons.IH) simp_all
  with path_join_plain(1) [OF n Cons.prems(2,3)] show ?case by simp
qed

definition absolute :: "string list \<Rightarrow> Component list" where
  "absolute names = RootDir # map component_of names"

lemma component_text_of [simp]: "component_text (component_of n) = n"
  by (simp add: component_of_def)

lemma components_path_absolute:
  assumes "\<forall>n\<in>set ns. plain n"
  shows "components_path (absolute ns) = (if ns = [] then ''/'' else concat (map (Cons CHR ''/'') ns))"
proof (cases ns)
  case Nil
  then show ?thesis by (simp add: components_path_def absolute_def path_join_def)
next
  case (Cons n ms)
  from assms Cons have n: "plain n" by simp
  then obtain c m where c: "n = c # m" "c \<noteq> CHR ''/''" by (cases n) (auto simp: plain_def)
  have "last n \<in> set n" by (simp add: c)
  with n have last: "last (CHR ''/'' # n) \<noteq> CHR ''/''" by (auto simp: plain_def c)
  have "foldl path_join [] (''/'' # n # ms) = foldl path_join (CHR ''/'' # n) ms"
    using c by (simp add: path_join_def)
  also have "\<dots> = (CHR ''/'' # n) @ concat (map (Cons CHR ''/'') ms)"
    using assms last by (intro foldl_path_join) (auto simp: Cons)
  finally show ?thesis by (simp add: Cons components_path_def absolute_def o_def)
qed

lemma components_absolute:
  assumes "\<forall>n\<in>set ns. plain n"
  shows "components (components_path (absolute ns)) = absolute ns"
proof (cases "ns = []")
  case True
  then show ?thesis by (simp add: components_path_def absolute_def path_join_def components_def)
next
  case False
  let ?s = "concat (map (Cons CHR ''/'') ns)"
  from False have head: "take 1 ?s = ''/''" by (cases ns) auto
  from split_on_slashed [of "[]" ns] assms have pieces: "split_on CHR ''/'' ?s = [] # ns"
    by (auto simp: plain_def)
  from assms have same: "filter (\<lambda>p. p \<noteq> []) ns = ns" "filter (\<lambda>p. p \<noteq> ''.'') ns = ns"
    by (auto simp: plain_def filter_id_conv)
  from False have joined: "components_path (absolute ns) = ?s" by (simp add: components_path_absolute [OF assms])
  show ?thesis using head unfolding joined by (simp add: components_def pieces same absolute_def)
qed

lemma components_of_absolute:
  assumes "take 1 path = ''/''"
  shows "\<exists>ns. (\<forall>n\<in>set ns. plain n) \<and> components path = absolute ns"
proof (intro exI conjI)
  let ?ns = "filter (\<lambda>p. p \<noteq> ''.'') (filter (\<lambda>p. p \<noteq> []) (split_on CHR ''/'' path))"
  from assms show "components path = absolute ?ns" by (simp add: components_def absolute_def Let_def)
  show "\<forall>n\<in>set ?ns. plain n" by (auto simp: plain_def dest: split_on_pieces)
qed

lemma names_of_absolute [simp]: "names_of (absolute ns) = ns"
  by (induction ns) (auto simp: names_of_def absolute_def component_of_def)

lemma directory_absolute:
  assumes "directory env path create = Ok fd"
  shows "components path = absolute fd" and "\<forall>n\<in>set fd. plain n \<and> n \<noteq> ''..''"
proof -
  from components_of_absolute [OF directory_Ok(1) [OF assms]] obtain ns
    where ns: "\<forall>n\<in>set ns. plain n" "components path = absolute ns" by blast
  with directory_Ok(3) [OF assms] show eq: "components path = absolute fd" by simp
  from eq ns have "absolute fd = absolute ns" by simp
  then have "map component_text (absolute fd) = map component_text (absolute ns)" by simp
  then have "fd = ns" by (simp add: absolute_def o_def)
  moreover have "n \<noteq> ''..''" if "n \<in> set fd" for n
  proof
    assume "n = ''..''"
    with that have "ParentDir \<in> set (components path)" by (force simp: eq absolute_def component_of_def)
    with directory_Ok(4) [OF assms] show False by auto
  qed
  ultimately show "\<forall>n\<in>set fd. plain n \<and> n \<noteq> ''..''" using ns by blast
qed

text \<open>The parent of a path that ends in a file name.\<close>

lemma parent_of_file:
  assumes "file_name path = Some name" and "path_parent path = Some up" and "directory env up create = Ok dirs"
    and "take 1 path = ''/''"
  shows "components path = absolute (dirs @ [name])"
proof -
  from assms(1) obtain rest where rev: "rev (components path) = Normal name # rest"
    by (auto simp: file_name_def split: list.splits Component.splits)
  then have c: "components path = rev rest @ [Normal name]" by (metis rev_rev_ident rev.simps(2))
  with rev assms(2) have up: "up = components_path (rev rest)" by (simp add: path_parent_def)
  from components_of_absolute [OF assms(4)] obtain ns where ns: "\<forall>n\<in>set ns. plain n" "components path = absolute ns"
    by blast
  from ns(2) c have last: "ns \<noteq> []" "component_of (last ns) = Normal name" 
    by (auto simp: absolute_def map_butlast last_map snoc_eq_iff_butlast Cons_eq_append_conv split: if_splits)
  have "butlast (components path) = rev rest" by (simp add: c)
  then have front: "rev rest = absolute (butlast ns)" using last(1) by (simp add: ns(2) absolute_def map_butlast)
  from last(2) have "component_text (component_of (last ns)) = name" by simp
  then have name: "last ns = name" by simp
  have "components up = absolute (butlast ns)"
    unfolding up front using ns(1) by (intro components_absolute) (auto dest: in_set_butlastD)
  with directory_Ok(3) [OF assms(3)] have "dirs = butlast ns" by simp
  moreover have "butlast ns @ [name] = ns" using last(1) by (simp flip: name)
  ultimately show ?thesis by (simp add: ns(2))
qed

text \<open>A relative path keeps its first byte through the components; only an absolute one has an absolute parent.\<close>

lemma foldl_head:
  "\<forall>n\<in>set ns. n \<noteq> [] \<and> CHR ''/'' \<notin> set n \<Longrightarrow> p \<noteq> [] \<Longrightarrow> take 1 (foldl path_join p ns) = take 1 p"
proof (induction ns arbitrary: p)
  case (Cons n ns)
  from Cons.prems have "take 1 n \<noteq> ''/''" by (cases n) auto
  then have join: "path_join p n \<noteq> []" "take 1 (path_join p n) = take 1 p"
    using Cons.prems(2) by (cases p; simp add: path_join_def)+
  from Cons.prems have "\<forall>m\<in>set ns. m \<noteq> [] \<and> CHR ''/'' \<notin> set m" by simp
  from Cons.IH [OF this join(1)] join(2) show ?case by simp
qed simp

lemma relative_components:
  assumes "take 1 path \<noteq> ''/''" and "c \<in> set (components path)"
  shows "component_text c \<noteq> [] \<and> CHR ''/'' \<notin> set (component_text c)"
  using assms by (auto simp: components_def Let_def dest: split_on_pieces split: if_splits)

lemma parent_absolute:
  assumes "path_parent path = Some up" and "take 1 up = ''/''"
  shows "take 1 path = ''/''"
proof (rule ccontr)
  assume rel: "take 1 path \<noteq> ''/''"
  from assms(1) obtain c rest where rev: "rev (components path) = c # rest" and up: "up = components_path (rev rest)"
    by (auto simp: path_parent_def split: list.splits Component.splits)
  from rev have "components path = rev rest @ [c]" by (metis rev_rev_ident rev.simps(2))
  with relative_components [OF rel] have all: "\<forall>n\<in>set (map component_text (rev rest)). n \<noteq> [] \<and> CHR ''/'' \<notin> set n"
    by auto
  show False
  proof (cases "map component_text (rev rest)")
    case Nil
    with up assms(2) show False by (simp add: components_path_def)
  next
    case (Cons n ns)
    with all have n: "n \<noteq> []" "CHR ''/'' \<notin> set n" and ns: "\<forall>m\<in>set ns. m \<noteq> [] \<and> CHR ''/'' \<notin> set m" by auto
    from n have "take 1 n \<noteq> ''/''" by (cases n) auto
    with up Cons foldl_head [OF ns n(1)] assms(2) show False by (simp add: components_path_def path_join_def split: if_splits)
  qed
qed

lemma open_path_Ok:
  assumes "open_path env path executable = Ok stat"
  shows "\<exists>dirs. directory env (if executable then the (path_parent path) else path) False = Ok dirs \<and> guarded env stat \<and>
    (if executable then file_name path = Some ''hermes'' \<and> path_parent path \<noteq> None \<and> pe_executable env dirs = Some stat
       \<and> st_regular stat \<and> st_mode stat AND 73 \<noteq> 0 \<and> st_mode stat AND 3072 = 0
     else pe_dir env dirs = Some stat)"
  using assms by (auto simp: open_path_def result_simps split: if_splits)

text \<open>C32: A path is given an identity only when its text is the canonical absolute one (no empty, dot or
  dot-dot component), every directory from the root to it belongs to the user or root and is writable
  by nobody else, and, for an executable, the file is a regular one named hermes, executable and
  without set-user or set-group bits. The identity is the device and inode of what was opened.
\<close>

theorem identity_is_guarded:
  assumes "path_identity env path executable = Ok identity"
  shows "\<exists>dirs stat. path = components_path (absolute (if executable then dirs @ [''hermes''] else dirs))
    \<and> (\<forall>n\<in>set dirs. n \<noteq> [] \<and> CHR ''/'' \<notin> set n \<and> n \<noteq> ''.'' \<and> n \<noteq> ''..'')
    \<and> (\<forall>i\<le>length dirs. \<exists>s. pe_dir env (take i dirs) = Some s \<and> guarded env s)
    \<and> guarded env stat \<and> identity = \<lparr> pi_device = st_dev stat, pi_inode = st_ino stat \<rparr>
    \<and> (if executable then pe_executable env dirs = Some stat \<and> st_regular stat \<and> st_mode stat AND 73 \<noteq> 0
         \<and> st_mode stat AND 3072 = 0
       else pe_dir env dirs = Some stat)"
proof -
  from assms obtain stat where canonical: "components_path (components path) = path"
    and op: "open_path env path executable = Ok stat" and i: "identity = \<lparr> pi_device = st_dev stat, pi_inode = st_ino stat \<rparr>"
    by (auto simp: path_identity_def result_simps split: if_splits)
  from open_path_Ok [OF op] obtain dirs
    where dir: "directory env (if executable then the (path_parent path) else path) False = Ok dirs"
      and stat: "guarded env stat"
      and opened: "if executable then file_name path = Some ''hermes'' \<and> path_parent path \<noteq> None \<and> pe_executable env dirs = Some stat
       \<and> st_regular stat \<and> st_mode stat AND 73 \<noteq> 0 \<and> st_mode stat AND 3072 = 0 else pe_dir env dirs = Some stat"
    by blast
  have "components path = absolute (if executable then dirs @ [''hermes''] else dirs)"
  proof (cases executable)
    case True
    with opened dir obtain up where up: "path_parent path = Some up" "directory env up False = Ok dirs" by auto
    from parent_absolute [OF up(1) directory_Ok(1) [OF up(2)]] have "take 1 path = ''/''" .
    from parent_of_file [OF _ up this, of "''hermes''"] opened True show ?thesis by simp
  next
    case False
    with directory_absolute(1) dir show ?thesis by simp
  qed
  with canonical have "path = components_path (absolute (if executable then dirs @ [''hermes''] else dirs))" by simp
  with directory_absolute(2) [OF dir] directory_Ok(5) [OF dir] stat i opened show ?thesis
    by (intro exI [of _ dirs] exI [of _ stat]) (auto simp: plain_def)
qed

definition sample_path_stat :: "u32 \<Rightarrow> Stat" where
  "sample_path_stat mode = \<lparr> st_regular = True, st_uid = 1000, st_mode = mode, st_nlink = 1, st_dev = 7, st_ino = 42,
     st_size = 0, st_mtime = (0, 0), st_ctime = (0, 0) \<rparr>"

definition sample_paths :: path_env where
  "sample_paths = \<lparr> pe_uid = 1000, pe_mkdir = (\<lambda>_. True), pe_dir = (\<lambda>_. Some (sample_path_stat 448)),
     pe_executable = (\<lambda>_. Some (sample_path_stat 493)) \<rparr>"

lemma identity_is_guarded_witness:
  "\<exists>dirs (stat :: Stat). ''/opt/hermes'' = components_path (absolute (if True then dirs @ [''hermes''] else dirs))
    \<and> (\<forall>n\<in>set dirs. n \<noteq> [] \<and> CHR ''/'' \<notin> set n \<and> n \<noteq> ''.'' \<and> n \<noteq> ''..'')
    \<and> (\<forall>i\<le>length dirs. \<exists>s. pe_dir sample_paths (take i dirs) = Some s \<and> guarded sample_paths s)
    \<and> guarded sample_paths stat \<and> \<lparr> pi_device = 7, pi_inode = 42 \<rparr> = \<lparr> pi_device = st_dev stat, pi_inode = st_ino stat \<rparr>
    \<and> (if True then pe_executable sample_paths dirs = Some stat \<and> st_regular stat \<and> st_mode stat AND 73 \<noteq> 0
         \<and> st_mode stat AND 3072 = 0
       else pe_dir sample_paths dirs = Some stat)"
proof (rule identity_is_guarded)
  show "path_identity sample_paths ''/opt/hermes'' True = Ok \<lparr> pi_device = 7, pi_inode = 42 \<rparr>"
    by code_simp
qed

end
