(* ===== verification/Machine.thy ===== *)
theory Machine
  imports Project_Paths
begin

section \<open>The machine the runtime acts on (runtime/process.rs, runtime/command.rs)\<close>

text \<open>
  The runtime asks the kernel, \<open>systemd\<close>, \<open>tmux\<close> and the compositor, and acts through processes it
  spawns and signals it sends. Their answers are the argument \<open>machine\<close>: a function of the number of
  calls made so far, so that nothing is assumed to stay as it was between two calls. What the
  program does is kept in \<open>wd_effects\<close>, in order, beside the files of the run directories. A fallible
  operation is an \<open>act\<close> on some state, an \<open>io\<close> on the world: it takes it and returns it with its result; \<open>io_then\<close> is \<open>?\<close> followed by
  the rest. Prefixes: \<open>wd_\<close> \<open>world\<close>, \<open>mc_\<close> \<open>machine\<close>, \<open>me_\<close> \<open>Meta\<close>, \<open>ch_\<close> \<open>child\<close>, \<open>rd_\<close> \<open>round\<close>.
\<close>

subsection \<open>Calls\<close>

record Meta =
  me_file :: bool
  me_socket :: bool
  me_uid :: u32
  me_mode :: u32
  me_nlink :: u64
  me_dev :: u64
  me_ino :: u64

text \<open>One turn of the loop that collects a child's output: the read, the clock, the child.\<close>

datatype read_result = Data string | Retry | ReadFailed

record round =
  rd_read :: read_result
  rd_late :: bool
  rd_status :: "bool option option"

record child =
  ch_nonblocking :: bool
  ch_rounds :: "round list"

datatype effect =
    Spawned spawn_command
  | KilledChild
  | Terminated ProcessIdentity
  | MadeDirectory string
  | Wrote string
  | Renamed string string
  | Executed PathIdentity PathIdentity spawn_command

record world =
  wd_now :: nat
  wd_effects :: "effect list"
  wd_files :: "(string \<times> string) list"

text \<open>
  A failing \<open>metadata\<close> says whether the path was not found; \<open>mc_written\<close> is how many bytes of a new
  file reach it (\<open>None\<close>: it could not be created), \<open>mc_ok\<close> whether a call without
  other answer succeeds, \<open>mc_late\<close> whether a deadline has passed and \<open>mc_descriptor\<close> a descriptor's number.
\<close>

record machine =
  mc_uid :: u32
  mc_metadata :: "nat \<Rightarrow> string \<Rightarrow> bool + Meta"
  mc_symlink_metadata :: "nat \<Rightarrow> string \<Rightarrow> bool + Meta"
  mc_text :: "nat \<Rightarrow> string \<Rightarrow> string option"
  mc_link :: "nat \<Rightarrow> string \<Rightarrow> string option"
  mc_spawn :: "nat \<Rightarrow> spawn_command \<Rightarrow> child option"
  mc_pidfd :: "nat \<Rightarrow> u32 \<Rightarrow> bool"
  mc_signal :: "nat \<Rightarrow> ProcessIdentity \<Rightarrow> bool"
  mc_exited :: "nat \<Rightarrow> ProcessIdentity \<Rightarrow> nat \<Rightarrow> bool option"
  mc_paths :: "nat \<Rightarrow> path_env"
  mc_var :: "nat \<Rightarrow> string \<Rightarrow> string option"
  mc_written :: "nat \<Rightarrow> string \<Rightarrow> nat option"
  mc_ok :: "nat \<Rightarrow> bool"
  mc_late :: "nat \<Rightarrow> bool"
  mc_descriptor :: "nat \<Rightarrow> nat"

type_synonym ('s, 'a) act = "'s \<Rightarrow> 's \<times> (ManagerError + 'a)"
type_synonym 'a io = "(world, 'a) act"

definition done_io :: "ManagerError + 'a \<Rightarrow> ('s, 'a) act" where
  "done_io r w = (w, r)"

definition query :: "(nat \<Rightarrow> ManagerError + 'a) \<Rightarrow> 'a io" where
  "query f w = (w\<lparr> wd_now := Suc (wd_now w) \<rparr>, f (wd_now w))"

definition act :: "effect \<Rightarrow> (nat \<Rightarrow> ManagerError + 'a) \<Rightarrow> 'a io" where
  "act e f w = query f (w\<lparr> wd_effects := wd_effects w @ [e] \<rparr>)"

definition io_then :: "('s, 'a) act \<Rightarrow> ('a \<Rightarrow> ('s, 'b) act) \<Rightarrow> ('s, 'b) act" where
  "io_then m f w = try_st (m w) (\<lambda>w x. f x w)"

text \<open>The result as a value: \<open>is_ok\<close>, \<open>if let\<close>, \<open>let _ =\<close>.\<close>

definition attempt :: "('s, 'a) act \<Rightarrow> ('s, ManagerError + 'a) act" where
  "attempt m w = (case m w of (w, r) \<Rightarrow> (w, Ok r))"

definition ensure_io :: "bool \<Rightarrow> ManagerError \<Rightarrow> ('s, unit) act" where
  "ensure_io c e = done_io (ensure c e)"

lemma done_io_eq: "done_io r w = (w', r') \<longleftrightarrow> w' = w \<and> r' = r"
  by (auto simp: done_io_def)

lemma io_then_eq:
  "io_then m f w = (w', r) \<longleftrightarrow>
     (\<exists>e. m w = (w', Err e) \<and> r = Err e) \<or> (\<exists>w1 x. m w = (w1, Ok x) \<and> f x w1 = (w', r))"
  by (simp add: io_then_def try_st_eq)

lemma io_then_Ok: "io_then m f w = (w', Ok y) \<longleftrightarrow> (\<exists>w1 x. m w = (w1, Ok x) \<and> f x w1 = (w', Ok y))"
  by (auto simp: io_then_eq)

lemma attempt_eq: "attempt m w = (w', r) \<longleftrightarrow> (\<exists>q. m w = (w', q) \<and> r = Ok q)"
  by (auto simp: attempt_def split: prod.splits)

lemma ensure_io_Ok: "ensure_io c e w = (w', Ok u) \<longleftrightarrow> w' = w \<and> c"
  by (auto simp: ensure_io_def done_io_def ensure_def)

subsection \<open>Text\<close>

text \<open>White space is that of ASCII: the texts read here are written by the kernel and by \<open>systemctl\<close>.\<close>

definition is_whitespace :: "char \<Rightarrow> bool" where
  "is_whitespace c \<longleftrightarrow> byte c = 32 \<or> 9 \<le> byte c \<and> byte c \<le> 13"

definition trim :: "string \<Rightarrow> string" where
  "trim s = rev (dropWhile is_whitespace (rev (dropWhile is_whitespace s)))"

definition split_whitespace :: "string \<Rightarrow> string list" where
  "split_whitespace s = filter (\<lambda>p. p \<noteq> []) (split_on CHR '' '' (map (\<lambda>c. if is_whitespace c then CHR '' '' else c) s))"

definition split_once :: "char \<Rightarrow> string \<Rightarrow> (string \<times> string) option" where
  "split_once d s = (if d \<in> set s
     then Some (takeWhile (\<lambda>c. c \<noteq> d) s, tl (dropWhile (\<lambda>c. c \<noteq> d) s)) else None)"

definition rsplit_once :: "char \<Rightarrow> string \<Rightarrow> (string \<times> string) option" where
  "rsplit_once d s = map_option (\<lambda>(a, b). (rev b, rev a)) (split_once d (rev s))"

definition text_lines :: "string \<Rightarrow> string list" where
  "text_lines s =
     (let pieces = split_on newline s;
          ended = map (\<lambda>p. if p \<noteq> [] \<and> last p = carriage_return then butlast p else p) (butlast pieces)
      in if last pieces = [] then ended else ended @ [last pieces])"

text \<open>\<open>parse\<close> of an unsigned integer below a bound: an optional plus sign and digits.\<close>

definition parse_unsigned :: "nat \<Rightarrow> string \<Rightarrow> nat option" where
  "parse_unsigned bound s =
     (let digits = (if take 1 s = ''+'' then tl s else s)
      in if digits \<noteq> [] \<and> list_all is_ascii_digit digits \<and> digits_value digits < bound then Some (digits_value digits)
         else None)"

definition parse_u32 :: "string \<Rightarrow> u32 option" where
  "parse_u32 s = map_option of_nat (parse_unsigned (2 ^ 32) s)"

definition u32_display :: "u32 \<Rightarrow> string" where
  "u32_display n = show_nat (unat n)"

definition is_continuation :: "nat \<Rightarrow> bool" where
  "is_continuation b \<longleftrightarrow> 128 \<le> b \<and> b < 192"

fun utf8_valid :: "nat list \<Rightarrow> bool" where
  "utf8_valid [] = True"
| "utf8_valid (a # r) =
     (if a < 128 then utf8_valid r
      else if 194 \<le> a \<and> a \<le> 223 then
        (case r of b # s \<Rightarrow> is_continuation b \<and> utf8_valid s | _ \<Rightarrow> False)
      else if 224 \<le> a \<and> a \<le> 239 then
        (case r of b # c # s \<Rightarrow> is_continuation b \<and> is_continuation c \<and> (a = 224 \<longrightarrow> 160 \<le> b) \<and> (a = 237 \<longrightarrow> b < 160)
             \<and> utf8_valid s
         | _ \<Rightarrow> False)
      else if 240 \<le> a \<and> a \<le> 244 then
        (case r of b # c # d # s \<Rightarrow> is_continuation b \<and> is_continuation c \<and> is_continuation d
             \<and> (a = 240 \<longrightarrow> 144 \<le> b) \<and> (a = 244 \<longrightarrow> b < 144) \<and> utf8_valid s
         | _ \<Rightarrow> False)
      else False)"

subsection \<open>command.rs\<close>

fun collect :: "nat \<Rightarrow> string \<Rightarrow> round list \<Rightarrow> ManagerError + string" where
  "collect limit bytes [] = Err UnknownOutcome"
| "collect limit bytes (r # rounds) =
     (case rd_read r of
        ReadFailed \<Rightarrow> Err RuntimeUnavailable
      | reading \<Rightarrow>
          let eof = (reading = Data []);
              bytes = bytes @ (case reading of Data chunk \<Rightarrow> chunk | _ \<Rightarrow> [])
          in if limit < length bytes \<or> rd_late r then Err UnknownOutcome
             else (case rd_status r of
                 None \<Rightarrow> Err RuntimeUnavailable
               | Some None \<Rightarrow> collect limit bytes rounds
               | Some (Some success) \<Rightarrow>
                   if \<not> success then Err RuntimeUnavailable
                   else if eof then
                     (if utf8_valid (map byte bytes) then Ok bytes else Err RuntimeUnavailable)
                   else collect limit bytes rounds))"

definition bounded_output :: "machine \<Rightarrow> spawn_command \<Rightarrow> nat \<Rightarrow> string io" where
  "bounded_output m command limit =
     io_then (act (Spawned command) (\<lambda>t. ok_or RuntimeUnavailable (mc_spawn m t command))) (\<lambda>child.
     let result = (if ch_nonblocking child then collect limit [] (ch_rounds child) else Err RuntimeUnavailable)
     in if is_ok result then done_io result
        else io_then (act KilledChild (\<lambda>_. Ok ())) (\<lambda>_. done_io result))"

definition run_command :: "machine \<Rightarrow> spawn_command \<Rightarrow> string io" where
  "run_command m command = bounded_output m command 8192"

definition compositor :: "machine \<Rightarrow> spawn_command \<Rightarrow> string io" where
  "compositor m command = bounded_output m command 262144"

subsection \<open>process.rs\<close>

definition io_metadata :: "machine \<Rightarrow> string \<Rightarrow> Meta io" where
  "io_metadata m path = query (\<lambda>t. map_err manager_error_io (mc_metadata m t path))"

definition io_symlink_metadata :: "machine \<Rightarrow> string \<Rightarrow> Meta io" where
  "io_symlink_metadata m path = query (\<lambda>t. map_err manager_error_io (mc_symlink_metadata m t path))"

definition read_bounded :: "machine \<Rightarrow> string \<Rightarrow> nat \<Rightarrow> string io" where
  "read_bounded m path limit = query (\<lambda>t.
     and_then (ok_or RuntimeUnavailable (mc_text m t path)) (\<lambda>text.
     if limit < length text then Err RuntimeUnavailable else Ok text))"

definition proc_path :: "u32 \<Rightarrow> string \<Rightarrow> string" where
  "proc_path pid name = ''/proc/'' @ u32_display pid @ name"

definition start_ticks_of :: "string \<Rightarrow> ManagerError + u64" where
  "start_ticks_of stat =
     and_then (ok_or RuntimeUnavailable (rsplit_once CHR '')'' stat)) (\<lambda>(_, suffix).
     let fields = split_whitespace suffix in
     if fields = [] \<or> hd fields \<in> {''Z'', ''X'', ''x''} then Err RuntimeUnavailable
     else ok_or RuntimeUnavailable
       (if 19 < length fields then map_option of_nat (parse_unsigned (2 ^ 64) (fields ! 19)) else None))"

definition process_read :: "machine \<Rightarrow> u32 \<Rightarrow> ProcessIdentity io" where
  "process_read m pid =
     io_then (ensure_io (pid \<noteq> 0) RuntimeUnavailable) (\<lambda>_.
     io_then (io_metadata m (proc_path pid [])) (\<lambda>meta.
     io_then (ensure_io (me_uid meta = mc_uid m) RuntimeUnavailable) (\<lambda>_.
     io_then (read_bounded m (proc_path pid ''/stat'') 4096) (\<lambda>stat.
     io_then (done_io (start_ticks_of stat)) (\<lambda>start_ticks.
     io_then (read_bounded m ''/proc/sys/kernel/random/boot_id'' 64) (\<lambda>text.
     let boot_id = trim text in
     io_then (ensure_io (is_ok (RunId_from_str boot_id)) RuntimeUnavailable) (\<lambda>_.
     done_io (Ok \<lparr> pr_pid = pid, pr_start_ticks = start_ticks, pr_boot_id = boot_id \<rparr>))))))))"

definition process_current :: "machine \<Rightarrow> ProcessIdentity \<Rightarrow> bool io" where
  "process_current m p =
     io_then (attempt (process_read m (pr_pid p))) (\<lambda>actual. done_io (Ok (actual = Ok p)))"

text \<open>A held process keeps the descriptor of the identity that was pinned.\<close>

datatype HeldProcess = HeldProcess (held: ProcessIdentity)

definition process_pin :: "machine \<Rightarrow> ProcessIdentity \<Rightarrow> HeldProcess io" where
  "process_pin m p =
     io_then (done_io (ProcessIdentity_validate p)) (\<lambda>_.
     io_then (process_current m p) (\<lambda>current.
     io_then (ensure_io current OwnershipUnverified) (\<lambda>_.
     io_then (ensure_io (unat (pr_pid p) < 2 ^ 31) OwnershipUnverified) (\<lambda>_.
     io_then (query (\<lambda>t. if mc_pidfd m t (pr_pid p) then Ok () else Err ActionUnavailable)) (\<lambda>_.
     io_then (process_current m p) (\<lambda>current.
     io_then (ensure_io current OwnershipUnverified) (\<lambda>_.
     done_io (Ok (HeldProcess p)))))))))"

definition process_gone :: "machine \<Rightarrow> ProcessIdentity \<Rightarrow> bool io" where
  "process_gone m p =
     io_then (attempt (process_read m (pr_pid p))) (\<lambda>actual. case actual of
       Ok q \<Rightarrow> done_io (Ok (q \<noteq> p))
     | Err _ \<Rightarrow> query (\<lambda>t. Ok (mc_metadata m t (proc_path (pr_pid p) []) = Err True)))"

definition held_exited :: "machine \<Rightarrow> HeldProcess \<Rightarrow> nat \<Rightarrow> bool io" where
  "held_exited m h seconds = query (\<lambda>t. ok_or UnknownOutcome (mc_exited m t (held h) seconds))"

definition held_terminate :: "machine \<Rightarrow> HeldProcess \<Rightarrow> unit io" where
  "held_terminate m h =
     io_then (held_exited m h 0) (\<lambda>exited.
     io_then (ensure_io (\<not> exited) OwnershipUnverified) (\<lambda>_.
     act (Terminated (held h)) (\<lambda>t. if mc_signal m t (held h) then Ok () else Err UnknownOutcome)))"

subsection \<open>Which effects an operation has\<close>

text \<open>The effects it adds satisfy \<open>P\<close>, and the calls it makes are later ones.\<close>

definition only :: "(effect \<Rightarrow> bool) \<Rightarrow> 'a io \<Rightarrow> bool" where
  "only P op \<longleftrightarrow> (\<forall>w w' r. op w = (w', r) \<longrightarrow>
     wd_now w \<le> wd_now w' \<and> (\<exists>es. wd_effects w' = wd_effects w @ es \<and> list_all P es))"

named_theorems only_intros \<open>the effects of an operation from those of its parts\<close>

lemma only_done [only_intros]: "only P (done_io r)"
  by (auto simp: only_def done_io_def)

lemma only_ensure [only_intros]: "only P (ensure_io c e)"
  by (simp add: ensure_io_def only_done)

lemma only_query [only_intros]: "only P (query f)"
  by (auto simp: only_def query_def)

lemma only_act: "P e \<Longrightarrow> only P (act e f)"
  by (auto simp: only_def act_def query_def)

lemma only_then [only_intros]:
  assumes "only P op" and "\<And>x. only P (f x)"
  shows "only P (io_then op f)"
  unfolding only_def
proof (intro allI impI)
  fix w w' r assume "io_then op f w = (w', r)"
  then consider e where "op w = (w', Err e)" | w1 x where "op w = (w1, Ok x)" "f x w1 = (w', r)"
    by (auto simp: io_then_eq)
  then show "wd_now w \<le> wd_now w' \<and> (\<exists>es. wd_effects w' = wd_effects w @ es \<and> list_all P es)"
  proof cases
    case 1
    with assms(1) show ?thesis by (auto simp: only_def)
  next
    case 2
    with assms(1) obtain es where es: "wd_now w \<le> wd_now w1" "wd_effects w1 = wd_effects w @ es" "list_all P es"
      by (fastforce simp: only_def)
    from 2 assms(2) obtain fs where "wd_now w1 \<le> wd_now w'" "wd_effects w' = wd_effects w1 @ fs" "list_all P fs"
      by (fastforce simp: only_def)
    with es show ?thesis by (intro conjI exI [of _ "es @ fs"]) simp_all
  qed
qed

lemma only_attempt [only_intros]: "only P op \<Longrightarrow> only P (attempt op)"
  by (fastforce simp: only_def attempt_eq)

lemma only_if [only_intros]: "only P a \<Longrightarrow> only P b \<Longrightarrow> only P (if c then a else b)"
  by simp

lemma only_mono: "only P op \<Longrightarrow> (\<And>e. P e \<Longrightarrow> Q e) \<Longrightarrow> only Q op"
  by (fastforce simp: only_def list_all_iff)

lemma only_reads [only_intros]:
  "only P (io_metadata m path)" "only P (io_symlink_metadata m path)" "only P (read_bounded m path limit)"
  "only P (held_exited m h n)"
  by (simp_all add: io_metadata_def io_symlink_metadata_def read_bounded_def held_exited_def only_query)

lemma only_process_read [only_intros]: "only P (process_read m pid)"
  unfolding process_read_def Let_def by (intro only_intros)

lemma only_process_current [only_intros]: "only P (process_current m p)"
  unfolding process_current_def by (intro only_intros)

lemma only_process_pin [only_intros]: "only P (process_pin m p)"
  unfolding process_pin_def by (intro only_intros)

lemma only_process_gone [only_intros]: "only P (process_gone m p)"
  unfolding process_gone_def by (intro only_intros) (auto split: sum.splits intro: only_intros)

lemma only_terminate: "P (Terminated (held h)) \<Longrightarrow> only P (held_terminate m h)"
  unfolding held_terminate_def by (intro only_intros only_act)

lemma only_bounded: "P (Spawned command) \<Longrightarrow> P KilledChild \<Longrightarrow> only P (bounded_output m command limit)"
  unfolding bounded_output_def Let_def by (intro only_intros only_act)

lemma collect_bounded: "collect limit bytes rounds = Ok text \<Longrightarrow> length text \<le> limit"
  by (induction limit bytes rounds rule: collect.induct) (auto simp: Let_def split: read_result.splits option.splits if_splits)

lemma process_read_pid: "process_read m pid w = (w', Ok p) \<Longrightarrow> pr_pid p = pid"
  by (auto simp: process_read_def io_then_Ok done_io_eq Let_def)

lemma pin_holds: "process_pin m p w = (w', Ok h) \<Longrightarrow> held h = p"
  by (auto simp: process_pin_def io_then_Ok done_io_eq)

end
