(* ===== verification/Handoff.thy ===== *)
theory Handoff
  imports Machine
begin

section \<open>The one-use launch of a run (runtime/handoff.rs)\<close>

text \<open>
  A run's directory holds \<open>launch.json\<close> until the pane's command claims it by renaming it to
  \<open>claimed.json\<close>, which no later claim replaces. The bytes of a \<open>Launch\<close> are those of the JSON library,
  the argument \<open>handoff_codec\<close>. A successful \<open>exec\<close> does not return: its result \<open>Ok\<close> stands for the new
  image. A write may stop part way (\<open>mc_written\<close>) and leaves what it wrote.
\<close>

record Launch =
  hl_project :: Project
  hl_preset :: Preset
  hl_task :: Task
  hl_home :: LocalPath

record handoff_codec =
  hc_encode :: "Launch \<Rightarrow> string option"
  hc_decode :: "string \<Rightarrow> Launch option"

subsection \<open>Files of a run directory\<close>

definition io_private_directory :: "machine \<Rightarrow> string \<Rightarrow> bool \<Rightarrow> string list io" where
  "io_private_directory m path create =
     (if create then act (MadeDirectory path) (\<lambda>t. private_directory (mc_paths m t) path True)
      else query (\<lambda>t. private_directory (mc_paths m t) path False))"

definition io_call :: "machine \<Rightarrow> ManagerError \<Rightarrow> unit io" where
  "io_call m e = query (\<lambda>t. if mc_ok m t then Ok () else Err e)"

definition file_of :: "string \<Rightarrow> string option io" where
  "file_of path w = (w, Ok (map_of (wd_files w) path))"

definition try_exists :: "machine \<Rightarrow> string \<Rightarrow> bool io" where
  "try_exists m path =
     io_then (io_call m RuntimeUnavailable) (\<lambda>_. io_then (file_of path) (\<lambda>found. done_io (Ok (found \<noteq> None))))"

definition put_file :: "string \<Rightarrow> string \<Rightarrow> unit io" where
  "put_file path data w = (w\<lparr> wd_files := AList.update path data (wd_files w) \<rparr>, Ok ())"

definition create_new :: "machine \<Rightarrow> string \<Rightarrow> string \<Rightarrow> unit io" where
  "create_new m path data =
     io_then (file_of path) (\<lambda>found.
     io_then (ensure_io (found = None) ManagerError.UnsafePath) (\<lambda>_.
     io_then (act (Wrote path) (\<lambda>t. ok_or ManagerError.UnsafePath (mc_written m t path))) (\<lambda>n.
     io_then (put_file path (take n data)) (\<lambda>_.
     io_then (ensure_io (length data \<le> n) RuntimeUnavailable) (\<lambda>_.
     io_call m RuntimeUnavailable)))))"

definition rename_new :: "machine \<Rightarrow> string \<Rightarrow> string \<Rightarrow> unit io" where
  "rename_new m old new =
     io_then (file_of old) (\<lambda>data.
     io_then (file_of new) (\<lambda>taken.
     io_then (ensure_io (data \<noteq> None \<and> taken = None) UnknownOutcome) (\<lambda>_.
     io_then (act (Renamed old new) (\<lambda>t. if mc_ok m t then Ok () else Err UnknownOutcome)) (\<lambda>_.
     \<lambda>w. (w\<lparr> wd_files := AList.update new (the data) (AList.delete old (wd_files w)) \<rparr>, Ok ())))))"

definition load :: "machine \<Rightarrow> handoff_codec \<Rightarrow> string \<Rightarrow> Launch io" where
  "load m codec path =
     io_then (file_of path) (\<lambda>found.
     io_then (io_call m ManagerError.UnsafePath) (\<lambda>_.
     io_then (done_io (ok_or ManagerError.UnsafePath found)) (\<lambda>data.
     io_then (query (\<lambda>t. map_err (\<lambda>_. ManagerError.UnsafePath) (mc_symlink_metadata m t path))) (\<lambda>stat.
     io_then (ensure_io (me_uid stat = mc_uid m \<and> me_mode stat AND 4095 = 384 \<and> me_file stat \<and> me_nlink stat = 1)
       ManagerError.UnsafePath) (\<lambda>_.
     io_then (io_call m RuntimeUnavailable) (\<lambda>_.
     io_then (ensure_io (length data \<le> 32768) ManagerError.InvalidRequest) (\<lambda>_.
     done_io (ok_or ManagerError.InvalidRequest (hc_decode codec data)))))))))"

subsection \<open>handoff.rs\<close>

definition launch_file :: "string \<Rightarrow> string" where "launch_file dir = path_join dir ''launch.json''"
definition claimed_file :: "string \<Rightarrow> string" where "claimed_file dir = path_join dir ''claimed.json''"

definition handoff_create ::
    "machine \<Rightarrow> handoff_codec \<Rightarrow> ManagedRun \<Rightarrow> Project \<Rightarrow> Preset \<Rightarrow> Task \<Rightarrow> LocalPath \<Rightarrow> unit io" where
  "handoff_create m codec run project preset task home =
     (let dir = run_directory run in
      io_then (done_io (ok_or ManagerError.UnsafePath (path_parent dir))) (\<lambda>up.
      io_then (io_private_directory m up True) (\<lambda>_.
      io_then (query (\<lambda>t. case mc_metadata m t dir of
         Ok _ \<Rightarrow> Ok True | Err absent \<Rightarrow> if absent then Ok False else Err RuntimeUnavailable)) (\<lambda>exists.
      io_then (if exists then done_io (Ok ())
         else act (MadeDirectory dir) (\<lambda>t. if mc_ok m t then Ok () else Err RuntimeUnavailable)) (\<lambda>_.
      io_then (io_private_directory m dir False) (\<lambda>_.
      io_then (done_io (ok_or ManagerError.InvalidRequest (hc_encode codec
         \<lparr> hl_project = project, hl_preset = preset, hl_task = task, hl_home = home \<rparr>))) (\<lambda>data.
      io_then (ensure_io (length data \<le> 32768) ManagerError.InvalidRequest) (\<lambda>_.
      io_then (try_exists m (claimed_file dir)) (\<lambda>claimed.
      io_then (ensure_io (\<not> claimed) UnknownOutcome) (\<lambda>_.
      io_then (try_exists m (launch_file dir)) (\<lambda>present.
      if present then
        io_then (load m codec (launch_file dir)) (\<lambda>launch.
        io_then (done_io (ok_or ManagerError.InvalidRequest (hc_encode codec launch))) (\<lambda>existing.
        ensure_io (existing = data) OwnershipUnverified))
      else create_new m (launch_file dir) data)))))))))))"

definition handoff_pending :: "machine \<Rightarrow> handoff_codec \<Rightarrow> ManagedRun \<Rightarrow> bool io" where
  "handoff_pending m codec run =
     (let dir = run_directory run in
      io_then (io_private_directory m dir False) (\<lambda>_.
      io_then (try_exists m (claimed_file dir)) (\<lambda>claimed.
      if claimed then done_io (Ok False)
      else
        io_then (try_exists m (launch_file dir)) (\<lambda>present.
        if \<not> present then done_io (Ok False)
        else io_then (load m codec (launch_file dir)) (\<lambda>_. done_io (Ok True))))))"

definition io_open_identity :: "machine \<Rightarrow> LocalPath \<Rightarrow> bool \<Rightarrow> PathIdentity \<Rightarrow> unit io" where
  "io_open_identity m path executable expected = query (\<lambda>t.
     map_err manager_error_project (map_ok (\<lambda>_. ()) (open_identity (mc_paths m t) (LocalPath_as_str path) executable expected)))"

definition worker_command :: "nat \<Rightarrow> spawn_command \<Rightarrow> spawn_command" where
  "worker_command descriptor configured =
     \<lparr> sc_program = ''/proc/self/fd/'' @ show_nat descriptor, sc_args = sc_args configured, sc_cwd = None,
       sc_env = sc_env configured \<rparr>"

definition handoff_worker :: "machine \<Rightarrow> handoff_codec \<Rightarrow> string \<Rightarrow> unit io" where
  "handoff_worker m codec dir =
     io_then (io_private_directory m dir False) (\<lambda>_.
     io_then (rename_new m (launch_file dir) (claimed_file dir)) (\<lambda>_.
     io_then (io_call m UnknownOutcome) (\<lambda>_.
     io_then (load m codec (claimed_file dir)) (\<lambda>launch.
     io_then (io_open_identity m (pj_root (hl_project launch)) False (pj_identity (hl_project launch))) (\<lambda>_.
     io_then (io_open_identity m (ps_executable (hl_preset launch)) True (ps_identity (hl_preset launch))) (\<lambda>_.
     io_then (query (\<lambda>t. map_err manager_error_project
       (PreparedLaunch_new (mc_paths m t) (hl_project launch) (hl_preset launch) (hl_task launch)))) (\<lambda>prepared.
     io_then (query (\<lambda>t. map_err manager_error_project
       (launch_command (mc_paths m t) prepared [(''HOME'', LocalPath_as_str (hl_home launch)), (''TERM'', ''tmux-256color'')])))
       (\<lambda>configured.
     io_then (query (\<lambda>t. Ok (mc_descriptor m t))) (\<lambda>descriptor.
     io_then (io_call m ManagerError.UnsafePath) (\<lambda>_.
     io_then (io_call m ManagerError.UnsafePath) (\<lambda>_.
     act (Executed (ps_identity (hl_preset launch)) (pj_identity (hl_project launch)) (worker_command descriptor configured))
       (\<lambda>t. if mc_ok m t then Ok () else Err RuntimeUnavailable))))))))))))"

subsection \<open>A launch is executed once\<close>

definition executions :: "effect list \<Rightarrow> effect list" where
  "executions = filter (\<lambda>e. case e of Executed _ _ _ \<Rightarrow> True | _ \<Rightarrow> False)"

lemma executions_append [simp]: "executions (es @ fs) = executions es @ executions fs"
  by (simp add: executions_def)

definition present :: "string \<Rightarrow> world \<Rightarrow> bool" where
  "present path w \<longleftrightarrow> map_of (wd_files w) path \<noteq> None"

text \<open>An operation that keeps the file \<open>path\<close> where it is and executes nothing.\<close>

definition keeps :: "string \<Rightarrow> 'a io \<Rightarrow> bool" where
  "keeps path op \<longleftrightarrow> (\<forall>w w' r. op w = (w', r) \<longrightarrow>
     (present path w \<longrightarrow> present path w') \<and> executions (wd_effects w') = executions (wd_effects w))"

named_theorems keeps_intros \<open>operations that keep a file and execute nothing\<close>

lemma keeps_done [keeps_intros]: "keeps path (done_io r)"
  by (simp add: keeps_def done_io_def)

lemma keeps_ensure [keeps_intros]: "keeps path (ensure_io c e)"
  by (simp add: ensure_io_def keeps_done)

lemma keeps_query [keeps_intros]: "keeps path (query f)"
  by (auto simp: keeps_def query_def present_def)

lemma keeps_act: "executions [e] = [] \<Longrightarrow> keeps path (act e f)"
  by (auto simp: keeps_def act_def query_def present_def)

lemma keeps_acts [keeps_intros]: "keeps path (act (MadeDirectory p) f)" "keeps path (act (Wrote p) g)" "keeps path (act (Renamed p q) h)"
  by (simp_all add: keeps_act executions_def)

lemma keeps_then [keeps_intros]: "keeps path op \<Longrightarrow> (\<And>x. keeps path (f x)) \<Longrightarrow> keeps path (io_then op f)"
  unfolding keeps_def io_then_eq by metis

lemma keeps_if [keeps_intros]: "keeps path a \<Longrightarrow> keeps path b \<Longrightarrow> keeps path (if c then a else b)"
  by simp

lemma keeps_file_of [keeps_intros]: "keeps path (file_of p)"
  by (simp add: keeps_def file_of_def)

lemma keeps_put [keeps_intros]: "keeps path (put_file p data)"
  by (auto simp: keeps_def put_file_def present_def update_conv')

lemma keeps_calls [keeps_intros]: "keeps path (io_call m e)" "keeps path (io_private_directory m p create)"
    "keeps path (io_open_identity m q x i)"
  unfolding io_call_def io_private_directory_def io_open_identity_def by (intro keeps_intros)+

lemma keeps_exists [keeps_intros]: "keeps path (try_exists m p)"
  unfolding try_exists_def by (intro keeps_intros)

lemma keeps_create_new [keeps_intros]: "keeps path (create_new m p data)"
  unfolding create_new_def by (intro keeps_intros)

lemma keeps_load [keeps_intros]: "keeps path (load m codec p)"
  unfolding load_def by (intro keeps_intros)

lemma keeps_create: "keeps path (handoff_create m codec run project preset task home)"
  unfolding handoff_create_def Let_def by (intro keeps_intros)

lemma file_of_eq: "file_of path w = (w', r) \<longleftrightarrow> w' = w \<and> r = Ok (map_of (wd_files w) path)"
  by (auto simp: file_of_def)

lemma rename_claims:
  assumes "rename_new m old new w = (w', Ok u)"
  shows "\<not> present new w" and "executions (wd_effects w') = executions (wd_effects w)" and "wd_now w \<le> wd_now w'"
    and "\<exists>data. map_of (wd_files w) old = Some data \<and> map_of (wd_files w') new = Some data"
  using assms by (auto simp: rename_new_def io_then_Ok file_of_eq ensure_io_Ok act_def query_def present_def executions_def
      update_conv' split: if_splits)

lemma rename_fails:
  assumes "rename_new m old new w = (w', Err e)"
  shows "executions (wd_effects w') = executions (wd_effects w)" and "present new w \<Longrightarrow> present new w'"
  using assms by (auto simp: rename_new_def io_then_eq file_of_eq ensure_io_def done_io_def ensure_def act_def query_def
      present_def executions_def split: if_splits)

text \<open>An operation that changes no file, executes nothing and takes its answers in order.\<close>

definition calm :: "'a io \<Rightarrow> bool" where
  "calm op \<longleftrightarrow> (\<forall>w w' r. op w = (w', r) \<longrightarrow> wd_files w' = wd_files w \<and> wd_now w \<le> wd_now w'
     \<and> executions (wd_effects w') = executions (wd_effects w))"

named_theorems calm_intros \<open>operations that change no file and execute nothing\<close>

lemma calm_basic [calm_intros]: "calm (done_io r)" "calm (ensure_io c e)" "calm (query f)" "calm (file_of p)"
  by (auto simp: calm_def done_io_def ensure_io_def query_def file_of_def)

lemma calm_then [calm_intros]: "calm op \<Longrightarrow> (\<And>x. calm (f x)) \<Longrightarrow> calm (io_then op f)"
  unfolding calm_def by (fastforce simp: io_then_eq)

lemma calm_calls [calm_intros]: "calm (io_call m e)" "calm (io_open_identity m q x i)" "calm (io_private_directory m p False)"
  unfolding io_call_def io_open_identity_def io_private_directory_def if_False by (intro calm_intros)+

lemma calm_load [calm_intros]: "calm (load m codec p)"
  unfolding load_def by (intro calm_intros)

lemma calm_step:
  assumes "io_then op f w = (w', r)" and "calm op"
  obtains (stopped) "executions (wd_effects w') = executions (wd_effects w)" "wd_files w' = wd_files w"
  | (went) w1 x where "op w = (w1, Ok x)" "f x w1 = (w', r)" "wd_files w1 = wd_files w" "wd_now w \<le> wd_now w1"
      "executions (wd_effects w1) = executions (wd_effects w)"
  using assms unfolding calm_def io_then_eq by metis

lemma query_result: "query f w = (w1, Ok x) \<Longrightarrow> f (wd_now w) = Ok x \<and> wd_now w1 = Suc (wd_now w)"
  by (auto simp: query_def)

lemma ok_or_sym: "Ok y = ok_or e r \<longleftrightarrow> r = Some y"
  using ok_or_Ok [of e r y] by metis

lemma load_Ok:
  "load m codec p w = (w1, Ok launch) \<Longrightarrow> \<exists>data. map_of (wd_files w) p = Some data \<and> hc_decode codec data = Some launch"
  by (auto simp: load_def io_then_Ok file_of_eq done_io_eq ok_or_Ok ok_or_sym io_call_def query_def)

definition worker_rest :: "machine \<Rightarrow> handoff_codec \<Rightarrow> string \<Rightarrow> unit io" where
  "worker_rest m codec dir =
     io_then (io_call m UnknownOutcome) (\<lambda>_.
     io_then (load m codec (claimed_file dir)) (\<lambda>launch.
     io_then (io_open_identity m (pj_root (hl_project launch)) False (pj_identity (hl_project launch))) (\<lambda>_.
     io_then (io_open_identity m (ps_executable (hl_preset launch)) True (ps_identity (hl_preset launch))) (\<lambda>_.
     io_then (query (\<lambda>t. map_err manager_error_project
       (PreparedLaunch_new (mc_paths m t) (hl_project launch) (hl_preset launch) (hl_task launch)))) (\<lambda>prepared.
     io_then (query (\<lambda>t. map_err manager_error_project
       (launch_command (mc_paths m t) prepared [(''HOME'', LocalPath_as_str (hl_home launch)), (''TERM'', ''tmux-256color'')])))
       (\<lambda>configured.
     io_then (query (\<lambda>t. Ok (mc_descriptor m t))) (\<lambda>descriptor.
     io_then (io_call m ManagerError.UnsafePath) (\<lambda>_.
     io_then (io_call m ManagerError.UnsafePath) (\<lambda>_.
     act (Executed (ps_identity (hl_preset launch)) (pj_identity (hl_project launch)) (worker_command descriptor configured))
       (\<lambda>t. if mc_ok m t then Ok () else Err RuntimeUnavailable))))))))))"

text \<open>What an execution of a launch rests on: the answers the machine gave, in order, between two moments.\<close>

definition launched :: "machine \<Rightarrow> Launch \<Rightarrow> nat \<Rightarrow> nat \<Rightarrow> effect \<Rightarrow> bool" where
  "launched m launch start finish e \<longleftrightarrow> (\<exists>t1 t2 t3 t4 configured descriptor prepared.
     start \<le> t1 \<and> t1 < t2 \<and> t2 < t3 \<and> t3 < t4 \<and> t4 < finish
     \<and> is_ok (open_identity (mc_paths m t1) (LocalPath_as_str (pj_root (hl_project launch))) False (pj_identity (hl_project launch)))
     \<and> is_ok (open_identity (mc_paths m t2) (LocalPath_as_str (ps_executable (hl_preset launch))) True (ps_identity (hl_preset launch)))
     \<and> PreparedLaunch_new (mc_paths m t3) (hl_project launch) (hl_preset launch) (hl_task launch) = Ok prepared
     \<and> launch_command (mc_paths m t4) prepared
         [(''HOME'', LocalPath_as_str (hl_home launch)), (''TERM'', ''tmux-256color'')] = Ok configured
     \<and> e = Executed (ps_identity (hl_preset launch)) (pj_identity (hl_project launch)) (worker_command descriptor configured))"

lemma open_result:
  "io_open_identity m p x i w = (w1, Ok u) \<Longrightarrow> is_ok (open_identity (mc_paths m (wd_now w)) (LocalPath_as_str p) x i) \<and> wd_now w1 = Suc (wd_now w)"
  by (cases "open_identity (mc_paths m (wd_now w)) (LocalPath_as_str p) x i") (auto simp: io_open_identity_def query_def)

lemma worker_rest_executes:
  assumes "worker_rest m codec dir w = (w', r)"
  shows "wd_files w' = wd_files w \<and> (executions (wd_effects w') = executions (wd_effects w) \<or>
    (\<exists>data launch e. map_of (wd_files w) (claimed_file dir) = Some data \<and> hc_decode codec data = Some launch
       \<and> executions (wd_effects w') = executions (wd_effects w) @ [e] \<and> launched m launch (wd_now w) (wd_now w') e))"
  using assms unfolding worker_rest_def
proof (cases rule: calm_step [OF _ calm_calls(1), consumes 1, case_names stopped went])
  case (went w1 u1)
  note f1 = went
  from f1(2) show ?thesis
  proof (cases rule: calm_step [OF _ calm_load, consumes 1, case_names stopped went])
    case (went w2 launch)
    note f2 = went
    from load_Ok [OF f2(1)] f1(3) obtain data where data: "map_of (wd_files w) (claimed_file dir) = Some data"
      "hc_decode codec data = Some launch" by auto
    from f2(2) show ?thesis
    proof (cases rule: calm_step [OF _ calm_calls(2), consumes 1, case_names stopped went])
      case (went w3 u3)
      note f3 = went
      from f3(2) show ?thesis
      proof (cases rule: calm_step [OF _ calm_calls(2), consumes 1, case_names stopped went])
        case (went w4 u4)
        note f4 = went
        from f4(2) show ?thesis
        proof (cases rule: calm_step [OF _ calm_basic(3), consumes 1, case_names stopped went])
          case (went w5 prepared)
          note f5 = went
          from f5(2) show ?thesis
          proof (cases rule: calm_step [OF _ calm_basic(3), consumes 1, case_names stopped went])
            case (went w6 configured)
            note f6 = went
            from f6(2) show ?thesis
            proof (cases rule: calm_step [OF _ calm_basic(3), consumes 1, case_names stopped went])
              case (went w7 descriptor)
              note f7 = went
              from f7(2) show ?thesis
              proof (cases rule: calm_step [OF _ calm_calls(1), consumes 1, case_names stopped went])
                case (went w8 u8)
                note f8 = went
                from f8(2) show ?thesis
                proof (cases rule: calm_step [OF _ calm_calls(1), consumes 1, case_names stopped went])
                  case (went w9 u9)
                  let ?e = "Executed (ps_identity (hl_preset launch)) (pj_identity (hl_project launch)) (worker_command descriptor configured)"
                  have "executions (wd_effects w') = executions (wd_effects w) @ [?e]" "wd_now w' = Suc (wd_now w9)" "wd_files w' = wd_files w"
                    using went f1 f2 f3 f4 f5 f6 f7 f8 by (auto simp: act_def query_def executions_def)
                  moreover have "launched m launch (wd_now w) (wd_now w') ?e"
                    unfolding launched_def
                    using open_result [OF f3(1)] open_result [OF f4(1)] query_result [OF f5(1)] query_result [OF f6(1)]
                      f1(4) f2(4) f7(4) f8(4) went(4) calculation(2)
                    by (intro exI [of _ "wd_now w2"] exI [of _ "wd_now w3"] exI [of _ "wd_now w4"] exI [of _ "wd_now w5"]
                        exI [of _ configured] exI [of _ descriptor] exI [of _ prepared]) (simp add: map_err_Ok)
                  ultimately show ?thesis using data by blast
                qed (use f1 f2 f3 f4 f5 f6 f7 f8 in simp)
              qed (use f1 f2 f3 f4 f5 f6 f7 in simp)
            qed (use f1 f2 f3 f4 f5 f6 in simp)
          qed (use f1 f2 f3 f4 f5 in simp)
        qed (use f1 f2 f3 f4 in simp)
      qed (use f1 f2 f3 in simp)
    qed (use f1 f2 in simp)
  qed (use f1 in simp)
qed simp

lemma handoff_worker_split:
  "handoff_worker m codec dir = io_then (io_private_directory m dir False) (\<lambda>_.
     io_then (rename_new m (launch_file dir) (claimed_file dir)) (\<lambda>_. worker_rest m codec dir))"
  unfolding handoff_worker_def worker_rest_def ..

text \<open>A worker that executes has just made the claim, of the launch it executes.\<close>

definition claim_executed :: "machine \<Rightarrow> handoff_codec \<Rightarrow> string \<Rightarrow> world \<Rightarrow> world \<Rightarrow> effect \<Rightarrow> bool" where
  "claim_executed m codec dir w w' e \<longleftrightarrow> (\<exists>data launch.
     map_of (wd_files w) (launch_file dir) = Some data \<and> \<not> present (claimed_file dir) w
     \<and> map_of (wd_files w') (claimed_file dir) = Some data \<and> hc_decode codec data = Some launch \<and> launched m launch (wd_now w) (wd_now w') e)"

lemma launched_mono: "launched m launch start finish e \<Longrightarrow> start' \<le> start \<Longrightarrow> launched m launch start' finish e"
  unfolding launched_def by (elim exE conjE, intro exI conjI) (erule (1) order.trans, assumption+)

lemma worker_claims:
  assumes "handoff_worker m codec dir w = (w', r)"
  shows "(present (claimed_file dir) w \<longrightarrow> present (claimed_file dir) w') \<and>
     (executions (wd_effects w') = executions (wd_effects w) \<or>
      \<not> present (claimed_file dir) w \<and> present (claimed_file dir) w' \<and>
      (\<exists>e. executions (wd_effects w') = executions (wd_effects w) @ [e] \<and> claim_executed m codec dir w w' e))"
  using assms unfolding handoff_worker_split
proof (cases rule: calm_step [OF _ calm_calls(3), consumes 1, case_names stopped went])
  case stopped
  then show ?thesis by (simp add: present_def)
next
  case (went w1 u)
  let ?c = "claimed_file dir"
  from went(2) consider e where "rename_new m (launch_file dir) ?c w1 = (w', Err e)"
    | w2 v where "rename_new m (launch_file dir) ?c w1 = (w2, Ok v)" "worker_rest m codec dir w2 = (w', r)"
    by (auto simp: io_then_eq)
  then show ?thesis
  proof cases
    case 1
    from rename_fails [OF this] went show ?thesis by (simp add: present_def)
  next
    case 2
    from rename_claims [OF 2(1)] obtain data where claim: "\<not> present ?c w1" "executions (wd_effects w2) = executions (wd_effects w1)"
      "wd_now w1 \<le> wd_now w2" "map_of (wd_files w1) (launch_file dir) = Some data" "map_of (wd_files w2) ?c = Some data"
      by blast
    from worker_rest_executes [OF 2(2)] show ?thesis
    proof (elim conjE disjE exE)
      fix data' launch e
      assume "map_of (wd_files w2) ?c = Some data'" "hc_decode codec data' = Some launch" "wd_files w' = wd_files w2"
        "executions (wd_effects w') = executions (wd_effects w2) @ [e]" "launched m launch (wd_now w2) (wd_now w') e"
      with claim went launched_mono [of m launch "wd_now w2" "wd_now w'" e "wd_now w"] show ?thesis
        by (auto simp: claim_executed_def present_def)
    qed (use claim went in \<open>simp add: present_def\<close>)
  qed
qed

subsection \<open>Any number of activations\<close>

datatype handoff_event =
    Create machine ManagedRun Project Preset Task LocalPath
  | Activate machine

fun handoff_step :: "handoff_codec \<Rightarrow> string \<Rightarrow> handoff_event \<Rightarrow> world \<Rightarrow> world" where
  "handoff_step codec dir (Create m run project preset task home) w =
     fst (handoff_create m codec run project preset task home w)"
| "handoff_step codec dir (Activate m) w = fst (handoff_worker m codec dir w)"

definition handoff_history :: "handoff_codec \<Rightarrow> string \<Rightarrow> world \<Rightarrow> handoff_event list \<Rightarrow> world" where
  "handoff_history codec dir = foldl (\<lambda>w step. handoff_step codec dir step w)"

lemma handoff_step_once:
  "(present (claimed_file dir) w \<longrightarrow> present (claimed_file dir) (handoff_step codec dir step w)) \<and>
   (executions (wd_effects (handoff_step codec dir step w)) = executions (wd_effects w) \<or>
    \<not> present (claimed_file dir) w \<and> present (claimed_file dir) (handoff_step codec dir step w) \<and>
    (\<exists>e m. executions (wd_effects (handoff_step codec dir step w)) = executions (wd_effects w) @ [e] \<and> step = Activate m
       \<and> claim_executed m codec dir w (handoff_step codec dir step w) e))"
proof (cases step)
  case (Create m run project preset task home)
  obtain w' r where r: "handoff_create m codec run project preset task home w = (w', r)" by fastforce
  from keeps_create [of "claimed_file dir" m codec run project preset task home] r
  have "(present (claimed_file dir) w \<longrightarrow> present (claimed_file dir) w') \<and> executions (wd_effects w') = executions (wd_effects w)"
    unfolding keeps_def by blast
  then show ?thesis by (simp add: Create r)
next
  case (Activate m)
  obtain w' r where r: "handoff_worker m codec dir w = (w', r)" by fastforce
  from worker_claims [OF r] show ?thesis by (auto simp: Activate r)
qed

lemma handoff_history_once:
  "(present (claimed_file dir) w \<longrightarrow> executions (wd_effects (handoff_history codec dir w steps)) = executions (wd_effects w)) \<and>
   (executions (wd_effects (handoff_history codec dir w steps)) = executions (wd_effects w) \<or>
    (\<exists>e before m after. executions (wd_effects (handoff_history codec dir w steps)) = executions (wd_effects w) @ [e] \<and>
       steps = before @ Activate m # after \<and>
       claim_executed m codec dir (handoff_history codec dir w before)
         (handoff_step codec dir (Activate m) (handoff_history codec dir w before)) e))"
proof (induction steps arbitrary: w)
  case Nil
  then show ?case by (simp add: handoff_history_def)
next
  case (Cons step steps)
  let ?w = "handoff_step codec dir step w"
  have run: "handoff_history codec dir w (step # xs) = handoff_history codec dir ?w xs" for xs
    by (simp add: handoff_history_def)
  have none: "handoff_history codec dir w [] = w" by (simp add: handoff_history_def)
  note IH = Cons.IH [of ?w, folded run]
  from handoff_step_once [of dir w codec step] show ?case
  proof (elim conjE disjE exE)
    assume keep: "present (claimed_file dir) w \<longrightarrow> present (claimed_file dir) ?w"
      and same: "executions (wd_effects ?w) = executions (wd_effects w)"
    from IH keep show ?case unfolding same by (metis append_Cons)
  next
    fix e m assume "\<not> present (claimed_file dir) w" "present (claimed_file dir) ?w" "step = Activate m"
      "executions (wd_effects ?w) = executions (wd_effects w) @ [e]" "claim_executed m codec dir w ?w e"
    with IH show ?case
      by (intro conjI disjI2 exI [of _ e] exI [of _ "[]"] exI [of _ m] exI [of _ steps]) (simp_all add: none)
  qed
qed

subsection \<open>What is executed\<close>

lemma launch_env_keys: "fst ` set (launch_env parent home) \<subseteq> {''HOME'', ''PATH'', ''LANG'', ''LC_ALL'', ''TERM'', ''COLORTERM''}"
proof -
  have keys: "fst ` set (AList.update k v xs) = insert k (fst ` set xs)" for k v :: string and xs
    by (simp add: dom_update)
  show ?thesis
    by (auto simp: launch_env_def keys split: option.splits)
qed

lemma launch_command_Ok:
  assumes "launch_command env p parent = Ok command"
  shows "sc_args command = [''-p'', ps_profile (pl_preset p), ''chat'']"
    and "fst ` set (sc_env command) \<subseteq> {''HOME'', ''PATH'', ''LANG'', ''LC_ALL'', ''TERM'', ''COLORTERM''}"
    and "path_identity env (LocalPath_as_str (pj_root (pl_project p))) False = Ok (pj_identity (pl_project p))"
    and "path_identity env (LocalPath_as_str (ps_executable (pl_preset p))) True = Ok (ps_identity (pl_preset p))"
proof -
  from assms obtain home where "command = \<lparr> sc_program = LocalPath_as_str (ps_executable (pl_preset p)),
      sc_args = [''-p'', ps_profile (pl_preset p), ''chat''],
      sc_cwd = Some (LocalPath_as_str (pj_root (pl_project p))), sc_env = launch_env parent home \<rparr>"
    and valid: "revalidate env p = Ok ()"
    by (auto simp: launch_command_def launch_preview_def result_simps)
  then show "sc_args command = [''-p'', ps_profile (pl_preset p), ''chat'']"
    "fst ` set (sc_env command) \<subseteq> {''HOME'', ''PATH'', ''LANG'', ''LC_ALL'', ''TERM'', ''COLORTERM''}"
    using launch_env_keys [of parent home] by simp_all
  from valid show "path_identity env (LocalPath_as_str (pj_root (pl_project p))) False = Ok (pj_identity (pl_project p))"
    "path_identity env (LocalPath_as_str (ps_executable (pl_preset p))) True = Ok (ps_identity (pl_preset p))"
    by (auto simp: revalidate_def result_simps split: if_splits)
qed

lemma prepared_fields:
  "PreparedLaunch_new env project preset task = Ok prepared \<Longrightarrow>
     pl_project prepared = project \<and> pl_preset prepared = preset \<and> pl_task prepared = task"
  by (auto simp: PreparedLaunch_new_def result_simps Let_def split: if_splits)

text \<open>The execution of a launch as the machine's answers between two moments allow it.\<close>

definition launch_execution :: "machine \<Rightarrow> Launch \<Rightarrow> nat \<Rightarrow> nat \<Rightarrow> effect \<Rightarrow> bool" where
  "launch_execution m launch start finish e \<longleftrightarrow>
     (let root = LocalPath_as_str (pj_root (hl_project launch)); program = LocalPath_as_str (ps_executable (hl_preset launch));
          root_id = pj_identity (hl_project launch); program_id = ps_identity (hl_preset launch)
      in \<exists>t1 t2 t3 t4 command.
        start \<le> t1 \<and> t1 < t2 \<and> t2 < t3 \<and> t3 < t4 \<and> t4 < finish \<and>
        is_ok (open_identity (mc_paths m t1) root False root_id) \<and>
        is_ok (open_identity (mc_paths m t2) program True program_id) \<and>
        (\<forall>t\<in>{t3, t4}. path_identity (mc_paths m t) root False = Ok root_id \<and> path_identity (mc_paths m t) program True = Ok program_id) \<and>
        e = Executed program_id root_id command \<and>
        sc_args command = [''-p'', ps_profile (hl_preset launch), ''chat''] \<and>
        fst ` set (sc_env command) \<subseteq> {''HOME'', ''PATH'', ''LANG'', ''LC_ALL'', ''TERM'', ''COLORTERM''})"

lemma revalidate_Ok:
  "revalidate env p = Ok u \<Longrightarrow>
     path_identity env (LocalPath_as_str (pj_root (pl_project p))) False = Ok (pj_identity (pl_project p)) \<and>
     path_identity env (LocalPath_as_str (ps_executable (pl_preset p))) True = Ok (ps_identity (pl_preset p))"
  by (auto simp: revalidate_def result_simps split: if_splits)

lemma prepared_revalidated: "PreparedLaunch_new env project preset task = Ok p \<Longrightarrow> revalidate env p = Ok ()"
  by (auto simp: PreparedLaunch_new_def result_simps Let_def split: if_splits)

lemma launched_execution:
  assumes "launched m launch start finish e"
  shows "launch_execution m launch start finish e"
proof -
  from assms obtain t1 t2 t3 t4 configured descriptor prepared
    where t: "start \<le> t1" "t1 < t2" "t2 < t3" "t3 < t4" "t4 < finish"
      and opened: "is_ok (open_identity (mc_paths m t1) (LocalPath_as_str (pj_root (hl_project launch))) False (pj_identity (hl_project launch)))"
        "is_ok (open_identity (mc_paths m t2) (LocalPath_as_str (ps_executable (hl_preset launch))) True (ps_identity (hl_preset launch)))"
      and p: "PreparedLaunch_new (mc_paths m t3) (hl_project launch) (hl_preset launch) (hl_task launch) = Ok prepared"
      and c: "launch_command (mc_paths m t4) prepared
         [(''HOME'', LocalPath_as_str (hl_home launch)), (''TERM'', ''tmux-256color'')] = Ok configured"
      and e: "e = Executed (ps_identity (hl_preset launch)) (pj_identity (hl_project launch)) (worker_command descriptor configured)"
    unfolding launched_def by blast
  from launch_command_Ok [OF c] revalidate_Ok [OF prepared_revalidated [OF p]] prepared_fields [OF p] t opened e
  show ?thesis unfolding launch_execution_def Let_def
    by (intro exI [of _ t1] exI [of _ t2] exI [of _ t3] exI [of _ t4] exI [of _ "worker_command descriptor configured"])
      (simp add: worker_command_def)
qed

text \<open>C37: A run is launched once. Whatever creations and activations of a run's directory happen, in
  whatever order, against whatever answers of the machine, and with whatever writes that stop part
  way: at most one execution is ever attempted. It is made by one of the activations, which found the
  launch unclaimed and leaves the same bytes claimed, and it is of the launch these bytes decode to.
  During that activation that activation's machine confirmed, at successive calls, that the object opened at the
  project's root and then the one opened at the preset's executable have the identities the launch carries, and
  twice more that both paths still lead to them; these two identities are what is executed, with the
  profile's chat as arguments and only the six fixed variables in the environment.\<close>

theorem launch_executed_once:
  "\<exists>es. executions (wd_effects (handoff_history codec dir w steps)) = executions (wd_effects w) @ es \<and> length es \<le> 1 \<and>
     (\<forall>e\<in>set es. \<exists>before m after data launch w1 w2.
        steps = before @ Activate m # after \<and>
        w1 = handoff_history codec dir w before \<and> w2 = handoff_step codec dir (Activate m) w1 \<and>
        map_of (wd_files w1) (launch_file dir) = Some data \<and> map_of (wd_files w1) (claimed_file dir) = None \<and>
        map_of (wd_files w2) (claimed_file dir) = Some data \<and> hc_decode codec data = Some launch \<and>
        launch_execution m launch (wd_now w1) (wd_now w2) e)"
proof -
  from handoff_history_once [of dir w codec steps] show ?thesis
  proof (elim conjE disjE exE)
    assume "executions (wd_effects (handoff_history codec dir w steps)) = executions (wd_effects w)"
    then show ?thesis by (intro exI [of _ "[]"]) simp
  next
    fix e before m after
    let ?w1 = "handoff_history codec dir w before"
    assume es: "executions (wd_effects (handoff_history codec dir w steps)) = executions (wd_effects w) @ [e]"
      and steps: "steps = before @ Activate m # after"
      and claim: "claim_executed m codec dir ?w1 (handoff_step codec dir (Activate m) ?w1) e"
    from claim obtain data launch where c: "map_of (wd_files ?w1) (launch_file dir) = Some data"
      "map_of (wd_files ?w1) (claimed_file dir) = None"
      "map_of (wd_files (handoff_step codec dir (Activate m) ?w1)) (claimed_file dir) = Some data"
      "hc_decode codec data = Some launch"
      "launch_execution m launch (wd_now ?w1) (wd_now (handoff_step codec dir (Activate m) ?w1)) e"
      unfolding claim_executed_def present_def using launched_execution by blast
    from es steps c show ?thesis by (intro exI [of _ "[e]"]) (simp del: handoff_step.simps, blast)
  qed
qed

end
