(* ===== verification/Runtime.thy ===== *)
theory Runtime
  imports Handoff
begin

section \<open>The terminal backend: starting, observing and ending a run (runtime/service.rs, runtime/ownership.rs)\<close>

text \<open>
  A run is a \<open>tmux\<close> server in a transient \<open>systemd\<close> unit with one pane. Before anything is attached or
  ended, what the run recorded is compared with what the unit, the kernel and \<open>tmux\<close> say now. A method
  on \<open>&mut ControlState\<close> returns the state it leaves, which an error leaves as it was. Prefixes:
  \<open>bk_\<close> \<open>Backend\<close>, \<open>sv_\<close> \<open>Server\<close>, \<open>pn_\<close> \<open>Pane\<close>.
\<close>

record Backend =
  bk_root :: LocalPath
  bk_home :: string
  bk_session_runtime :: "string option"
  bk_executable :: string

record Server =
  sv_identity :: ProcessIdentity
  sv_invocation :: string
  sv_held :: HeldProcess

record Pane =
  pn_identity :: PaneIdentity
  pn_dead :: bool

subsection \<open>Commands\<close>

definition backend_command :: "Backend \<Rightarrow> string \<Rightarrow> spawn_command" where
  "backend_command b executable =
     \<lparr> sc_program = executable, sc_args = [], sc_cwd = None,
       sc_env = [(''HOME'', bk_home b), (''PATH'', ''/usr/bin:/bin''), (''LC_ALL'', ''C'')]
         @ (case bk_session_runtime b of None \<Rightarrow> [] | Some root \<Rightarrow> [(''XDG_RUNTIME_DIR'', root)]) \<rparr>"

definition with_args :: "spawn_command \<Rightarrow> string list \<Rightarrow> spawn_command" where
  "with_args c args = c\<lparr> sc_args := sc_args c @ args \<rparr>"

definition backend_new :: "machine \<Rightarrow> string \<Rightarrow> string \<Rightarrow> Backend io" where
  "backend_new m root executable =
     io_then (query (\<lambda>t. ok_or ManagerError.UnsafePath (mc_var m t ''HOME''))) (\<lambda>home.
     io_then (query (\<lambda>t. map_err manager_error_project (directory (mc_paths m t) home False))) (\<lambda>_.
     io_then (ensure_io (is_ok (LocalPath_from_str home)) ManagerError.UnsafePath) (\<lambda>_.
     io_then (done_io (map_err (\<lambda>_. ManagerError.UnsafePath) (LocalPath_from_str root))) (\<lambda>root.
     io_then (query (\<lambda>t. Ok (mc_var m t ''XDG_RUNTIME_DIR''))) (\<lambda>session.
     io_then (io_call m RuntimeUnavailable) (\<lambda>_.
     done_io (Ok \<lparr> bk_root = root, bk_home = home, bk_session_runtime = session, bk_executable = executable \<rparr>)))))))"

fun trusted_tools :: "machine \<Rightarrow> (Meta \<Rightarrow> bool) \<Rightarrow> ManagerError \<Rightarrow> string list \<Rightarrow> unit io" where
  "trusted_tools m trusted e [] = done_io (Ok ())"
| "trusted_tools m trusted e (path # paths) =
     io_then (io_metadata m path) (\<lambda>info.
     io_then (ensure_io (trusted info) e) (\<lambda>_.
     trusted_tools m trusted e paths))"

definition preflight :: "machine \<Rightarrow> Backend \<Rightarrow> unit io" where
  "preflight m b =
     io_then (done_io (ok_or RuntimeUnavailable (bk_session_runtime b))) (\<lambda>session.
     io_then (io_private_directory m session False) (\<lambda>_.
     io_then (ensure_io (length (LocalPath_as_str (bk_root b)) + 67 < 104 \<and> take 1 (bk_executable b) = ''/'')
       ManagerError.UnsafePath) (\<lambda>_.
     io_then (attempt (io_metadata m (bk_executable b))) (\<lambda>info.
     io_then (ensure_io (case info of Ok i \<Rightarrow> me_file i | Err _ \<Rightarrow> False) ManagerError.UnsafePath) (\<lambda>_.
     trusted_tools m (\<lambda>i. me_file i \<and> me_uid i = 0 \<and> me_mode i AND 18 = 0 \<and> me_mode i AND 73 \<noteq> 0) RuntimeUnavailable
       [''/usr/bin/tmux'', ''/usr/bin/systemd-run'', ''/usr/bin/systemctl'', ''/usr/bin/env''])))))"

definition socket_path :: "ManagedRun \<Rightarrow> string" where
  "socket_path run = path_join (run_directory run) ''tmux.sock''"

definition run_description :: "ManagedRun \<Rightarrow> RunId \<Rightarrow> string" where
  "run_description run nonce = ''Harbormaster runtime '' @ RunId_as_str (mr_id run) @ '' '' @ RunId_as_str nonce"

definition start_command :: "Backend \<Rightarrow> ManagedRun \<Rightarrow> RunId \<Rightarrow> ManagerError + spawn_command" where
  "start_command b run nonce =
     and_then (ok_or RuntimeUnavailable (bk_session_runtime b)) (\<lambda>session.
     Ok (with_args (backend_command b ''/usr/bin/systemd-run'')
       ([''--user'', ''--no-ask-password'', ''--quiet'', ''--collect'', ''--service-type=exec'', ''--expand-environment=no'']
        @ [''--unit='' @ run_unit run, ''--description='' @ run_description run nonce]
        @ [''--property=KillMode=control-group'', ''--property=Restart=no'', ''--property=TimeoutStopSec=5'',
           ''--property=UMask=0077'', ''--property=StandardInput=null'', ''--property=StandardOutput=null'',
           ''--property=StandardError=null'', ''--'', ''/usr/bin/env'', ''-i'']
        @ [''HOME='' @ bk_home b, ''XDG_RUNTIME_DIR='' @ session]
        @ [''PATH=/usr/bin:/bin'', ''LC_ALL=C'', ''/usr/bin/tmux'', ''-D'', ''-f'', ''/dev/null'', ''-S'', socket_path run])))"

definition tmux :: "machine \<Rightarrow> Backend \<Rightarrow> ManagedRun \<Rightarrow> spawn_command io" where
  "tmux m b run =
     io_then (io_private_directory m (run_directory run) False) (\<lambda>_.
     io_then (io_symlink_metadata m (socket_path run)) (\<lambda>stat.
     io_then (ensure_io (me_socket stat \<and> me_uid stat = mc_uid m \<and> me_mode stat AND 63 = 0) ManagerError.UnsafePath) (\<lambda>_.
     done_io (Ok (with_args (backend_command b ''/usr/bin/tmux'') [''-S'', socket_path run])))))"

subsection \<open>Properties of a unit (ownership.rs)\<close>

fun property_lines :: "(string \<times> string) list \<Rightarrow> string list \<Rightarrow> ManagerError + (string \<times> string) list" where
  "property_lines acc [] = Ok acc"
| "property_lines acc (line # rest) =
     and_then (ok_or OwnershipUnverified (split_once CHR ''='' line)) (\<lambda>(key, v).
     if map_of acc key \<noteq> None then Err OwnershipUnverified else property_lines (AList.update key v acc) rest)"

definition unit_properties :: "machine \<Rightarrow> Backend \<Rightarrow> string \<Rightarrow> (string \<times> string) list io" where
  "unit_properties m b u =
     io_then (run_command m (with_args (backend_command b ''/usr/bin/systemctl'')
       [''--user'', ''show'', ''--no-pager'',
        ''--property=MainPID,InvocationID,ControlGroup,PartOf,BindsTo,KillMode,Description,ActiveState'', u])) (\<lambda>text.
     done_io (property_lines [] (text_lines text)))"

definition property :: "(string \<times> string) list \<Rightarrow> string \<Rightarrow> string io" where
  "property values key = done_io (ok_or OwnershipUnverified (map_of values key))"

definition cgroup :: "machine \<Rightarrow> u32 \<Rightarrow> string io" where
  "cgroup m pid =
     io_then (read_bounded m (proc_path pid ''/cgroup'') 2048) (\<lambda>v.
     io_then (done_io (ok_or OwnershipUnverified (strip_prefix ''0::/'' (trim v)))) (\<lambda>group.
     io_then (ensure_io (newline \<notin> set group \<and> carriage_return \<notin> set group) OwnershipUnverified) (\<lambda>_.
     done_io (Ok (''/'' @ group)))))"

definition check_executable :: "machine \<Rightarrow> u32 \<Rightarrow> string \<Rightarrow> unit io" where
  "check_executable m pid path =
     io_then (io_metadata m (proc_path pid ''/exe'')) (\<lambda>actual.
     io_then (io_metadata m path) (\<lambda>expected.
     ensure_io (me_dev actual = me_dev expected \<and> me_ino actual = me_ino expected) OwnershipUnverified))"

definition owned_server :: "machine \<Rightarrow> Backend \<Rightarrow> ManagedRun \<Rightarrow> ControlState \<Rightarrow> Server io" where
  "owned_server m b run c =
     io_then (unit_properties m b (run_unit run)) (\<lambda>values.
     io_then (property values ''PartOf'') (\<lambda>part_of.
     io_then (property values ''BindsTo'') (\<lambda>binds_to.
     io_then (property values ''KillMode'') (\<lambda>kill_mode.
     io_then (property values ''ActiveState'') (\<lambda>active.
     io_then (ensure_io (part_of = [] \<and> binds_to = [] \<and> kill_mode = ''control-group'' \<and> active = ''active'')
       OwnershipUnverified) (\<lambda>_.
     io_then (property values ''InvocationID'') (\<lambda>invocation.
     io_then (ensure_io (hex invocation 32 \<and> (ct_invocation c = None \<or> ct_invocation c = Some invocation))
       OwnershipUnverified) (\<lambda>_.
     io_then (case ct_launch_nonce c of
         Some nonce \<Rightarrow> io_then (property values ''Description'') (\<lambda>d. ensure_io (d = run_description run nonce) OwnershipUnverified)
       | None \<Rightarrow> ensure_io (mr_server run \<noteq> None) OwnershipUnverified) (\<lambda>_.
     io_then (property values ''MainPID'') (\<lambda>main_pid.
     io_then (done_io (ok_or OwnershipUnverified (parse_u32 main_pid))) (\<lambda>pid.
     io_then (process_read m pid) (\<lambda>identity.
     io_then (ensure_io (mr_server run = None \<or> mr_server run = Some identity) OwnershipUnverified) (\<lambda>_.
     io_then (cgroup m (pr_pid identity)) (\<lambda>group.
     io_then (property values ''ControlGroup'') (\<lambda>control_group.
     io_then (ensure_io (group = control_group) OwnershipUnverified) (\<lambda>_.
     io_then (check_executable m (pr_pid identity) ''/usr/bin/tmux'') (\<lambda>_.
     io_then (process_pin m identity) (\<lambda>h.
     done_io (Ok \<lparr> sv_identity = identity, sv_invocation = invocation, sv_held = h \<rparr>)))))))))))))))))))"

definition pane_of :: "machine \<Rightarrow> Backend \<Rightarrow> ManagedRun \<Rightarrow> Server \<Rightarrow> Pane io" where
  "pane_of m b run server =
     io_then (tmux m b run) (\<lambda>command.
     io_then (run_command m (with_args command [''list-panes'', ''-a'', ''-F'',
       ''#{pid}:#{session_name}:#{session_id}:#{pane_id}:#{pane_dead}:#{pane_pid}''])) (\<lambda>text.
     let rows = text_lines text; fields = split_on CHR '':'' (hd rows) in
     io_then (ensure_io (length rows = 1) OwnershipUnverified) (\<lambda>_.
     io_then (ensure_io (length fields = 6 \<and> parse_u32 (fields ! 0) = Some (pr_pid (sv_identity server))
        \<and> fields ! 1 = ''managed'' \<and> target (fields ! 2) CHR ''$'' \<and> target (fields ! 3) CHR ''%''
        \<and> fields ! 4 \<in> {''0'', ''1''}) OwnershipUnverified) (\<lambda>_.
     io_then (process_current m (sv_identity server)) (\<lambda>current.
     io_then (ensure_io current OwnershipUnverified) (\<lambda>_.
     io_then (done_io (ok_or OwnershipUnverified (parse_u32 (fields ! 5)))) (\<lambda>pid.
     io_then (if fields ! 4 = ''0'' then process_read m pid
        else done_io (Ok \<lparr> pr_pid = pid, pr_start_ticks = 0, pr_boot_id = [] \<rparr>)) (\<lambda>process.
     done_io (Ok \<lparr> pn_identity = \<lparr> pp_process = process, pp_pane = fields ! 3, pp_session = fields ! 2 \<rparr>,
       pn_dead = (fields ! 4 = ''1'') \<rparr>)))))))))"

definition owned_pane ::
    "machine \<Rightarrow> Backend \<Rightarrow> ManagedRun \<Rightarrow> ControlState \<Rightarrow> Server \<Rightarrow> (PaneIdentity \<times> HeldProcess) io" where
  "owned_pane m b run c server =
     io_then (pane_of m b run server) (\<lambda>pane.
     io_then (ensure_io (\<not> pn_dead pane \<and> (ct_pane c = None \<or> ct_pane c = Some (pn_identity pane))) OwnershipUnverified) (\<lambda>_.
     io_then (cgroup m (pr_pid (pp_process (pn_identity pane)))) (\<lambda>group.
     let scope = last (split_on CHR ''/'' group) in
     io_then (done_io (ok_or OwnershipUnverified (Option.bind (strip_prefix ''tmux-spawn-'' scope) (strip_suffix ''.scope'')))) (\<lambda>nonce.
     io_then (ensure_io (is_ok (RunId_from_str nonce)) OwnershipUnverified) (\<lambda>_.
     io_then (unit_properties m b scope) (\<lambda>values.
     io_then (property values ''PartOf'') (\<lambda>part_of.
     io_then (ensure_io (part_of = run_unit run) OwnershipUnverified) (\<lambda>_.
     io_then (property values ''ControlGroup'') (\<lambda>control_group.
     io_then (ensure_io (control_group = group) OwnershipUnverified) (\<lambda>_.
     io_then (process_pin m (pp_process (pn_identity pane))) (\<lambda>h.
     done_io (Ok (pn_identity pane, h)))))))))))))"

definition reconcile_run :: "machine \<Rightarrow> Backend \<Rightarrow> ManagedRun \<Rightarrow> ControlState \<Rightarrow> (ControlState \<times> ProcessIdentity) io" where
  "reconcile_run m b run c =
     io_then (owned_server m b run c) (\<lambda>server.
     io_then (owned_pane m b run c server) (\<lambda>(pane, _).
     done_io (Ok (c\<lparr> ct_invocation := Some (sv_invocation server), ct_pane := Some pane \<rparr>, sv_identity server))))"

definition identify_server :: "machine \<Rightarrow> Backend \<Rightarrow> ManagedRun \<Rightarrow> ControlState \<Rightarrow> (ControlState \<times> ProcessIdentity) io" where
  "identify_server m b run c =
     io_then (owned_server m b run c) (\<lambda>server.
     done_io (Ok (c\<lparr> ct_invocation := Some (sv_invocation server) \<rparr>, sv_identity server)))"

subsection \<open>Ending a run\<close>

definition matching_dead_pane :: "Pane \<Rightarrow> PaneIdentity \<Rightarrow> unit io" where
  "matching_dead_pane pane saved =
     ensure_io (pn_dead pane \<and> pp_pane (pn_identity pane) = pp_pane saved
       \<and> pp_session (pn_identity pane) = pp_session saved
       \<and> pr_pid (pp_process (pn_identity pane)) = pr_pid (pp_process saved)) OwnershipUnverified"

definition end_complete :: "machine \<Rightarrow> Backend \<Rightarrow> ManagedRun \<Rightarrow> ControlState \<Rightarrow> bool io" where
  "end_complete m b run c =
     (case (ct_ending c, mr_server run, ct_pane c) of
        (True, Some server, pane) \<Rightarrow>
          io_then (process_current m server) (\<lambda>alive.
          if alive then done_io (Ok False)
          else (case pane of
              None \<Rightarrow> done_io (Ok False)
            | Some p \<Rightarrow>
                io_then (process_current m (pp_process p)) (\<lambda>alive.
                if alive then done_io (Ok False)
                else
                  io_then (attempt (unit_properties m b (run_unit run))) (\<lambda>values.
                  done_io (Ok (case values of
                      Err _ \<Rightarrow> False
                    | Ok v \<Rightarrow> map_of v ''ActiveState'' \<in> {Some ''inactive'', Some ''failed''}))))))
      | _ \<Rightarrow> done_io (Ok False))"

definition end_target :: "machine \<Rightarrow> Backend \<Rightarrow> ManagedRun \<Rightarrow> ControlState \<Rightarrow> (Server \<times> HeldProcess option) io" where
  "end_target m b run c =
     io_then (done_io (ok_or OwnershipUnverified (ct_pane c))) (\<lambda>saved.
     io_then (owned_server m b run c) (\<lambda>server.
     io_then (pane_of m b run server) (\<lambda>current.
     if pn_dead current then
       io_then (matching_dead_pane current saved) (\<lambda>_. done_io (Ok (server, None)))
     else
       io_then (owned_pane m b run c server) (\<lambda>(_, h). done_io (Ok (server, Some h))))))"

definition can_end :: "machine \<Rightarrow> Backend \<Rightarrow> ManagedRun \<Rightarrow> ControlState \<Rightarrow> bool io" where
  "can_end m b run c =
     io_then (end_complete m b run c) (\<lambda>complete.
     if complete then done_io (Ok True)
     else io_then (attempt (end_target m b run c)) (\<lambda>found. done_io (Ok (is_ok found))))"

definition terminate_and_wait :: "machine \<Rightarrow> HeldProcess \<Rightarrow> unit io" where
  "terminate_and_wait m h =
     io_then (held_terminate m h) (\<lambda>_.
     io_then (held_exited m h 3) (\<lambda>exited.
     ensure_io exited UnknownOutcome))"

definition end_run :: "machine \<Rightarrow> Backend \<Rightarrow> ManagedRun \<Rightarrow> ControlState \<Rightarrow> unit io" where
  "end_run m b run c =
     io_then (end_complete m b run c) (\<lambda>complete.
     if complete then done_io (Ok ())
     else
       io_then (end_target m b run c) (\<lambda>(server, pane).
       io_then (case pane of None \<Rightarrow> done_io (Ok ()) | Some p \<Rightarrow> terminate_and_wait m p) (\<lambda>_.
       io_then (done_io (ok_or OwnershipUnverified (ct_pane c))) (\<lambda>saved.
       io_then (pane_of m b run server) (\<lambda>current.
       io_then (matching_dead_pane current saved) (\<lambda>_.
       io_then (owned_server m b run c) (\<lambda>_.
       terminate_and_wait m (sv_held server))))))))"

subsection \<open>Starting and observing a run (service.rs)\<close>

definition server_identity :: "machine \<Rightarrow> Backend \<Rightarrow> ManagedRun \<Rightarrow> ProcessIdentity io" where
  "server_identity m b run =
     io_then (run_command m (with_args (backend_command b ''/usr/bin/systemctl'')
       [''--user'', ''show'', ''--no-pager'', ''--property=MainPID'', ''--property=PartOf'', ''--property=BindsTo'',
        ''--property=KillMode'', run_unit run])) (\<lambda>text.
     let values = rev (List.map_filter (split_once CHR ''='') (text_lines text)) in
     io_then (ensure_io (map_of values ''PartOf'' = Some [] \<and> map_of values ''BindsTo'' = Some []
       \<and> map_of values ''KillMode'' = Some ''control-group'') RuntimeUnavailable) (\<lambda>_.
     io_then (done_io (ok_or RuntimeUnavailable (Option.bind (map_of values ''MainPID'') parse_u32))) (\<lambda>pid.
     process_read m pid)))"

text \<open>The wait for the socket: at most a hundred turns of twenty milliseconds before the deadline.\<close>

fun await_socket :: "machine \<Rightarrow> string \<Rightarrow> nat \<Rightarrow> unit io" where
  "await_socket m path 0 = done_io (Ok ())"
| "await_socket m path (Suc n) =
     io_then (query (\<lambda>t. Ok (is_ok (mc_metadata m t path) \<or> mc_late m t))) (\<lambda>finished.
     if finished then done_io (Ok ()) else await_socket m path n)"

definition start_run ::
    "machine \<Rightarrow> handoff_codec \<Rightarrow> Backend \<Rightarrow> ManagedRun \<Rightarrow> Project \<Rightarrow> Preset \<Rightarrow> Task \<Rightarrow> RunId \<Rightarrow> ProcessIdentity io" where
  "start_run m codec b run project preset task nonce =
     io_then (done_io (map_err (\<lambda>_. ManagerError.UnsafePath) (LocalPath_from_str (bk_home b)))) (\<lambda>home.
     io_then (handoff_create m codec run project preset task home) (\<lambda>_.
     io_then (done_io (start_command b run nonce)) (\<lambda>command.
     io_then (attempt (run_command m command)) (\<lambda>_.
     io_then (await_socket m (socket_path run) 100) (\<lambda>_.
     server_identity m b run)))))"

definition start_pane :: "machine \<Rightarrow> Backend \<Rightarrow> ManagedRun \<Rightarrow> unit io" where
  "start_pane m b run =
     io_then (tmux m b run) (\<lambda>configure.
     io_then (run_command m (with_args configure [''set-option'', ''-g'', ''remain-on-exit'', ''on''])) (\<lambda>_.
     io_then (tmux m b run) (\<lambda>command.
     io_then (run_command m (with_args command [''new-session'', ''-d'', ''-s'', ''managed'', ''-c'', run_directory run,
       bk_executable b, ''runtime-worker'', run_directory run])) (\<lambda>_.
     done_io (Ok ())))))"

definition ensure_pane :: "machine \<Rightarrow> handoff_codec \<Rightarrow> Backend \<Rightarrow> ManagedRun \<Rightarrow> ControlState \<Rightarrow> unit io" where
  "ensure_pane m codec b run c =
     io_then (owned_server m b run c) (\<lambda>server.
     io_then (attempt (pane_of m b run server)) (\<lambda>pane.
     if is_ok pane then done_io (Ok ())
     else
       io_then (ensure_io (ct_launch_nonce c \<noteq> None) UnknownOutcome) (\<lambda>_.
       io_then (handoff_pending m codec run) (\<lambda>pending.
       io_then (ensure_io pending UnknownOutcome) (\<lambda>_.
       io_then (attempt (start_pane m b run)) (\<lambda>_.
       io_then (pane_of m b run server) (\<lambda>_. done_io (Ok ()))))))))"

definition pane_state :: "machine \<Rightarrow> Backend \<Rightarrow> ManagedRun \<Rightarrow> RuntimeState io" where
  "pane_state m b run =
     io_then (tmux m b run) (\<lambda>command.
     io_then (run_command m (with_args command [''display-message'', ''-p'', ''-t'', ''=managed:'',
       ''#{pid}:#{pane_dead}:#{pane_pid}''])) (\<lambda>text.
     let fields = split_on CHR '':'' (trim text) in
     io_then (done_io (ok_or RuntimeUnavailable (mr_server run))) (\<lambda>server.
     io_then (ensure_io (length fields = 3 \<and> parse_u32 (fields ! 0) = Some (pr_pid server)) RuntimeUnavailable) (\<lambda>_.
     io_then (process_current m server) (\<lambda>current.
     io_then (ensure_io current RuntimeUnavailable) (\<lambda>_.
     if fields ! 1 = ''1'' then done_io (Ok Exited)
     else if fields ! 1 = ''0'' then
       io_then (done_io (ok_or RuntimeUnavailable (parse_u32 (fields ! 2)))) (\<lambda>pid.
       io_then (process_read m pid) (\<lambda>_. done_io (Ok Running)))
     else done_io (Err RuntimeUnavailable)))))))"

definition observe_run :: "machine \<Rightarrow> Backend \<Rightarrow> ManagedRun \<Rightarrow> RunView io" where
  "observe_run m b run =
     io_then (case mr_server run of
         None \<Rightarrow> done_io (Ok Uncertain)
       | Some server \<Rightarrow>
           io_then (process_current m server) (\<lambda>current.
           if \<not> current then done_io (Ok Unavailable_runtime)
           else io_then (attempt (pane_state m b run)) (\<lambda>found.
             done_io (Ok (case found of Ok s \<Rightarrow> s | Err _ \<Rightarrow> Uncertain))))) (\<lambda>s.
     done_io (Ok \<lparr> vw_run = run, vw_unit = run_unit run, vw_state = s, vw_limited_visibility = True \<rparr>))"

end
