(* ===== verification/Desktop.thy ===== *)
theory Desktop
  imports Runtime
begin

section \<open>Terminals and windows of a run (runtime/desktop.rs, runtime/terminal.rs, runtime/association.rs)\<close>

text \<open>
  A terminal is a \<open>foot\<close> process in a unit of its own, attached to the run's session; its window is the
  one the compositor lists for that process under the intent's application id. What the compositor
  answers in JSON is read by the argument \<open>window_codec\<close>. Prefixes: \<open>dk_\<close> \<open>Desktop\<close>, \<open>wn_\<close> \<open>Window\<close>.
\<close>

record Desktop =
  dk_display :: string
  dk_compositor :: string

record Window =
  wn_address :: string
  wn_pid :: u32
  wn_app_id :: string

record window_codec =
  wc_windows :: "string \<Rightarrow> Window list option"
  wc_window :: "string \<Rightarrow> Window option"

subsection \<open>desktop.rs\<close>

definition trusted_tool :: "Meta \<Rightarrow> bool" where
  "trusted_tool i \<longleftrightarrow> me_file i \<and> me_uid i = 0 \<and> me_mode i AND 3090 = 0 \<and> me_mode i AND 73 \<noteq> 0"

definition Desktop_new :: "machine \<Rightarrow> Backend \<Rightarrow> Desktop io" where
  "Desktop_new m b =
     io_then (query (\<lambda>t. ok_or ActionUnavailable (mc_var m t ''WAYLAND_DISPLAY''))) (\<lambda>display.
     io_then (query (\<lambda>t. ok_or ActionUnavailable (mc_var m t ''HYPRLAND_INSTANCE_SIGNATURE''))) (\<lambda>signature.
     io_then (ensure_io (component display \<and> component signature) ActionUnavailable) (\<lambda>_.
     io_then (done_io (ok_or ActionUnavailable (bk_session_runtime b))) (\<lambda>root.
     io_then (io_private_directory m root False) (\<lambda>_.
     io_then (io_symlink_metadata m (path_join root display)) (\<lambda>socket.
     io_then (ensure_io (me_socket socket \<and> me_uid socket = mc_uid m) ActionUnavailable) (\<lambda>_.
     io_then (trusted_tools m trusted_tool ActionUnavailable [''/usr/bin/foot'', ''/usr/bin/hyprctl'']) (\<lambda>_.
     done_io (Ok \<lparr> dk_display = display, dk_compositor = signature \<rparr>)))))))))"

definition desktop_command :: "Backend \<Rightarrow> Desktop \<Rightarrow> spawn_command" where
  "desktop_command b d =
     (let c = backend_command b ''/usr/bin/hyprctl''
      in c\<lparr> sc_env := sc_env c @ [(''HYPRLAND_INSTANCE_SIGNATURE'', dk_compositor d)] \<rparr>)"

definition desktop_windows :: "machine \<Rightarrow> window_codec \<Rightarrow> Backend \<Rightarrow> Desktop \<Rightarrow> Window list io" where
  "desktop_windows m wc b d =
     io_then (compositor m (with_args (desktop_command b d) [''-j'', ''clients''])) (\<lambda>text.
     io_then (done_io (ok_or ActionUnavailable (wc_windows wc text))) (\<lambda>windows.
     io_then (ensure_io (length windows \<le> 128) ActionUnavailable) (\<lambda>_.
     done_io (Ok windows))))"

definition desktop_active :: "machine \<Rightarrow> window_codec \<Rightarrow> Backend \<Rightarrow> Desktop \<Rightarrow> Window io" where
  "desktop_active m wc b d =
     io_then (compositor m (with_args (desktop_command b d) [''-j'', ''activewindow''])) (\<lambda>text.
     done_io (ok_or OwnershipUnverified (wc_window wc text)))"

subsection \<open>terminal.rs\<close>

definition desktop_available :: "machine \<Rightarrow> Backend \<Rightarrow> bool io" where
  "desktop_available m b = io_then (attempt (Desktop_new m b)) (\<lambda>d. done_io (Ok (is_ok d)))"

definition terminal_description :: "ManagedRun \<Rightarrow> TerminalIntent \<Rightarrow> string" where
  "terminal_description run intent =
     ''Harbormaster terminal '' @ RunId_as_str (mr_id run) @ '' '' @ RunId_as_str (ti_nonce intent)"

definition terminal_process :: "machine \<Rightarrow> Backend \<Rightarrow> ManagedRun \<Rightarrow> TerminalIntent \<Rightarrow> ProcessIdentity io" where
  "terminal_process m b run intent =
     io_then (unit_properties m b (terminal_unit intent)) (\<lambda>values.
     io_then (property values ''Description'') (\<lambda>d.
     io_then (property values ''PartOf'') (\<lambda>part_of.
     io_then (property values ''BindsTo'') (\<lambda>binds_to.
     io_then (property values ''KillMode'') (\<lambda>kill_mode.
     io_then (property values ''ActiveState'') (\<lambda>active.
     io_then (ensure_io (d = terminal_description run intent \<and> part_of = [] \<and> binds_to = []
       \<and> kill_mode = ''control-group'' \<and> active = ''active'') OwnershipUnverified) (\<lambda>_.
     io_then (property values ''MainPID'') (\<lambda>main_pid.
     io_then (done_io (ok_or OwnershipUnverified (parse_u32 main_pid))) (\<lambda>pid.
     io_then (process_read m pid) (\<lambda>process.
     io_then (ensure_io (ti_process intent = None \<or> ti_process intent = Some process) OwnershipUnverified) (\<lambda>_.
     io_then (cgroup m (pr_pid process)) (\<lambda>group.
     io_then (property values ''ControlGroup'') (\<lambda>control_group.
     io_then (ensure_io (group = control_group) OwnershipUnverified) (\<lambda>_.
     io_then (check_executable m (pr_pid process) ''/usr/bin/foot'') (\<lambda>_.
     io_then (process_pin m process) (\<lambda>_.
     done_io (Ok process)))))))))))))))))"

definition terminal_command :: "Backend \<Rightarrow> ManagedRun \<Rightarrow> TerminalIntent \<Rightarrow> Desktop \<Rightarrow> ManagerError + spawn_command" where
  "terminal_command b run intent d =
     and_then (ok_or ActionUnavailable (bk_session_runtime b)) (\<lambda>session.
     Ok (with_args (backend_command b ''/usr/bin/systemd-run'')
       ([''--user'', ''--quiet'', ''--collect'', ''--no-ask-password'', ''--service-type=exec'', ''--expand-environment=no'']
        @ [''--unit='' @ terminal_unit intent, ''--description='' @ terminal_description run intent]
        @ [''--property=KillMode=control-group'', ''--property=TimeoutStopSec=5'', ''--property=UMask=0077'',
           ''--property=StandardInput=null'', ''--property=StandardOutput=null'', ''--property=StandardError=null'',
           ''--'', ''/usr/bin/env'', ''-i'']
        @ [''HOME='' @ bk_home b, ''XDG_RUNTIME_DIR='' @ session, ''WAYLAND_DISPLAY='' @ dk_display d]
        @ [''PATH=/usr/bin:/bin'', ''LC_ALL=C'', ''/usr/bin/foot'', ''--config=/dev/null'', ''--log-level=none'', ''--log-no-syslog'']
        @ [''--app-id='' @ app_id intent, ''--title=Harbormaster'']
        @ [''/usr/bin/tmux'', ''-S'', socket_path run, ''attach-session'', ''-t'', ''=managed''])))"

definition start_terminal :: "machine \<Rightarrow> Backend \<Rightarrow> ManagedRun \<Rightarrow> ControlState \<Rightarrow> ProcessIdentity io" where
  "start_terminal m b run c =
     io_then (Desktop_new m b) (\<lambda>desktop.
     io_then (owned_server m b run c) (\<lambda>server.
     io_then (owned_pane m b run c server) (\<lambda>_.
     io_then (done_io (ok_or ManagerError.InvalidRequest (ct_terminal c))) (\<lambda>intent.
     io_then (attempt (terminal_process m b run intent)) (\<lambda>found. case found of
       Ok found_process \<Rightarrow> done_io (Ok found_process)
     | Err _ \<Rightarrow>
         io_then (ensure_io (ti_process intent = None) OwnershipUnverified) (\<lambda>_.
         io_then (done_io (terminal_command b run intent desktop)) (\<lambda>command.
         io_then (attempt (run_command m command)) (\<lambda>_.
         terminal_process m b run intent))))))))"

subsection \<open>association.rs\<close>

text \<open>One line of \<open>list-clients\<close>: \<open>None\<close> when it is another session's or another process's client.\<close>

definition client_line :: "machine \<Rightarrow> ProcessIdentity \<Rightarrow> string \<Rightarrow> string \<Rightarrow> (ProcessIdentity \<times> string) option io" where
  "client_line m foot session line =
     (let fields = split_on CHR '':'' line in
      if length fields \<noteq> 3 \<or> fields ! 1 \<noteq> session then done_io (Ok None)
      else (case parse_u32 (fields ! 0) of
          None \<Rightarrow> done_io (Ok None)
        | Some pid \<Rightarrow>
            io_then (attempt (process_read m pid)) (\<lambda>found. case found of
              Err _ \<Rightarrow> done_io (Ok None)
            | Ok client \<Rightarrow>
                io_then (read_bounded m (proc_path pid ''/stat'') 4096) (\<lambda>stat.
                let parent = (case rsplit_once CHR '')'' stat of
                    None \<Rightarrow> None
                  | Some (_, tail) \<Rightarrow>
                      if 1 < length (split_whitespace tail) then parse_u32 (split_whitespace tail ! 1) else None) in
                if parent \<noteq> Some (pr_pid foot) then done_io (Ok None)
                else
                  io_then (query (\<lambda>t. ok_or RuntimeUnavailable (mc_link m t (proc_path pid ''/fd/0'')))) (\<lambda>tty.
                  io_then (ensure_io (tty = fields ! 2) OwnershipUnverified) (\<lambda>_.
                  io_then (process_pin m client) (\<lambda>_.
                  done_io (Ok (Some (client, fields ! 2))))))))))"

fun client_lines ::
    "machine \<Rightarrow> ProcessIdentity \<Rightarrow> string \<Rightarrow> (ProcessIdentity \<times> string) list \<Rightarrow> string list \<Rightarrow> (ProcessIdentity \<times> string) list io" where
  "client_lines m foot session found [] = done_io (Ok found)"
| "client_lines m foot session found (line # rest) =
     io_then (client_line m foot session line) (\<lambda>one.
     client_lines m foot session (found @ (case one of None \<Rightarrow> [] | Some c \<Rightarrow> [c])) rest)"

definition tmux_client ::
    "machine \<Rightarrow> Backend \<Rightarrow> ManagedRun \<Rightarrow> ProcessIdentity \<Rightarrow> string \<Rightarrow> (ProcessIdentity \<times> string) io" where
  "tmux_client m b run foot session =
     io_then (tmux m b run) (\<lambda>command.
     io_then (run_command m (with_args command [''list-clients'', ''-F'', ''#{client_pid}:#{session_id}:#{client_tty}''])) (\<lambda>text.
     io_then (client_lines m foot session [] (text_lines text)) (\<lambda>found.
     io_then (ensure_io (length found = 1) OwnershipUnverified) (\<lambda>_.
     io_then (process_current m foot) (\<lambda>current.
     io_then (ensure_io current OwnershipUnverified) (\<lambda>_.
     done_io (ok_or OwnershipUnverified (if found = [] then None else Some (last found)))))))))"

definition associate :: "machine \<Rightarrow> window_codec \<Rightarrow> Backend \<Rightarrow> ManagedRun \<Rightarrow> ControlState \<Rightarrow> WindowIdentity io" where
  "associate m wc b run c =
     io_then (Desktop_new m b) (\<lambda>desktop.
     io_then (owned_server m b run c) (\<lambda>server.
     io_then (owned_pane m b run c server) (\<lambda>(pane, _).
     io_then (done_io (ok_or ActionUnavailable (ct_terminal c))) (\<lambda>intent.
     io_then (done_io (ok_or OwnershipUnverified (ti_process intent))) (\<lambda>process.
     io_then (terminal_process m b run intent) (\<lambda>actual.
     io_then (ensure_io (actual = process) OwnershipUnverified) (\<lambda>_.
     io_then (process_pin m process) (\<lambda>_.
     io_then (desktop_windows m wc b desktop) (\<lambda>windows.
     let found = filter (\<lambda>w. wn_pid w = pr_pid process \<and> wn_app_id w = app_id intent) windows in
     io_then (ensure_io (length found = 1 \<and> address (wn_address (hd found))) OwnershipUnverified) (\<lambda>_.
     io_then (tmux_client m b run process (pp_session pane)) (\<lambda>(client, tty).
     let association = \<lparr> wi_address = wn_address (hd found), wi_compositor = dk_compositor desktop,
           wi_client = client, wi_tty = tty \<rparr> in
     io_then (ensure_io (ti_window intent = None \<or> ti_window intent = Some association) OwnershipUnverified) (\<lambda>_.
     done_io (Ok association)))))))))))))"

text \<open>The three seconds of the wait, in turns of fifty milliseconds, end at \<open>mc_late\<close>.\<close>

fun wait_association ::
    "machine \<Rightarrow> window_codec \<Rightarrow> Backend \<Rightarrow> ManagedRun \<Rightarrow> ControlState \<Rightarrow> nat \<Rightarrow> WindowIdentity io" where
  "wait_association m wc b run c 0 = associate m wc b run c"
| "wait_association m wc b run c (Suc n) =
     io_then (attempt (associate m wc b run c)) (\<lambda>found. case found of
       Ok window \<Rightarrow> done_io (Ok window)
     | Err e \<Rightarrow>
         io_then (query (\<lambda>t. Ok (mc_late m t))) (\<lambda>late.
         if late then done_io (Err e) else wait_association m wc b run c n))"

definition matches_window :: "Window \<Rightarrow> WindowIdentity \<Rightarrow> ProcessIdentity \<Rightarrow> string \<Rightarrow> bool" where
  "matches_window w expected p app \<longleftrightarrow> address (wn_address w) \<and> wn_address w = wi_address expected
     \<and> wn_pid w = pr_pid p \<and> wn_app_id w = app"

definition focus_expression :: "string \<Rightarrow> string" where
  "focus_expression a = ''hl.dsp.focus({window='' @ [CHR 0x22] @ ''address:'' @ a @ [CHR 0x22] @ ''})''"

definition focus_window :: "machine \<Rightarrow> window_codec \<Rightarrow> Backend \<Rightarrow> ManagedRun \<Rightarrow> ControlState \<Rightarrow> WindowIdentity io" where
  "focus_window m wc b run c =
     io_then (Desktop_new m b) (\<lambda>desktop.
     io_then (done_io (ok_or ActionUnavailable (Option.bind (ct_terminal c) ti_window))) (\<lambda>expected.
     io_then (associate m wc b run c) (\<lambda>association.
     io_then (ensure_io (association = expected) OwnershipUnverified) (\<lambda>_.
     io_then (run_command m (with_args (desktop_command b desktop) [''dispatch'', focus_expression (wi_address association)])) (\<lambda>_.
     io_then (desktop_active m wc b desktop) (\<lambda>active.
     io_then (done_io (ok_or ActionUnavailable (ct_terminal c))) (\<lambda>intent.
     io_then (done_io (ok_or OwnershipUnverified (ti_process intent))) (\<lambda>process.
     io_then (ensure_io (matches_window active association process (app_id intent)) OwnershipUnverified) (\<lambda>_.
     io_then (associate m wc b run c) (\<lambda>again.
     io_then (ensure_io (again = association) OwnershipUnverified) (\<lambda>_.
     done_io (Ok association))))))))))))"

end
