(* ===== verification/Runtime_Safety.thy ===== *)
theory Runtime_Safety
  imports Desktop
begin

section \<open>What the runtime does to the machine\<close>

text \<open>
  Which effects each operation of the backend can have, whatever the machine answers: the programs
  spawned and their environment, the files written, the processes signalled and the launches executed.
\<close>

subsection \<open>Effects of the operations\<close>

text \<open>A program of the fixed list, run without a directory of its own and in the fixed environment.\<close>

definition trusted_spawn :: "spawn_command \<Rightarrow> bool" where
  "trusted_spawn c \<longleftrightarrow>
     sc_program c \<in> {''/usr/bin/systemctl'', ''/usr/bin/systemd-run'', ''/usr/bin/tmux'', ''/usr/bin/hyprctl''}
     \<and> sc_cwd c = None \<and> map_of (sc_env c) ''PATH'' = Some ''/usr/bin:/bin''
     \<and> fst ` set (sc_env c) \<subseteq> {''HOME'', ''PATH'', ''LC_ALL'', ''XDG_RUNTIME_DIR'', ''HYPRLAND_INSTANCE_SIGNATURE''}"

fun trusted :: "effect \<Rightarrow> bool" where
  "trusted (Spawned c) = trusted_spawn c"
| "trusted KilledChild = True"
| "trusted _ = False"

text \<open>Of these, a program that asks: none is told to \<open>dispatch\<close> anything to the compositor.\<close>

definition asking :: "spawn_command \<Rightarrow> bool" where
  "asking c \<longleftrightarrow> trusted_spawn c \<and> take 1 (sc_args c) \<noteq> [''dispatch'']"

fun asks :: "effect \<Rightarrow> bool" where
  "asks (Spawned c) = asking c"
| "asks KilledChild = True"
| "asks _ = False"

lemma asks_trusted: "asks e \<Longrightarrow> trusted e"
  by (cases e) (simp_all add: asking_def)

lemma trusted_with_args [simp]: "trusted_spawn (with_args c args) = trusted_spawn c"
  by (simp add: trusted_spawn_def with_args_def)

lemma trusted_backend:
  "e \<in> {''/usr/bin/systemctl'', ''/usr/bin/systemd-run'', ''/usr/bin/tmux'', ''/usr/bin/hyprctl''} \<Longrightarrow>
     trusted_spawn (backend_command b e)"
  by (auto simp: trusted_spawn_def backend_command_def split: option.splits)

lemma trusted_desktop: "trusted_spawn (desktop_command b d)"
  by (auto simp: trusted_spawn_def desktop_command_def backend_command_def split: option.splits)

lemma asking_backend:
  "e \<in> {''/usr/bin/systemctl'', ''/usr/bin/systemd-run'', ''/usr/bin/tmux'', ''/usr/bin/hyprctl''} \<Longrightarrow> x \<noteq> ''dispatch'' \<Longrightarrow>
     asking (with_args (backend_command b e) (x # xs))"
  by (simp add: asking_def trusted_backend) (simp add: with_args_def backend_command_def)

lemma asking_desktop: "x \<noteq> ''dispatch'' \<Longrightarrow> asking (with_args (desktop_command b d) (x # xs))"
  by (simp add: asking_def trusted_desktop) (simp add: with_args_def desktop_command_def backend_command_def)

lemma asking_with_args: "asking c \<Longrightarrow> sc_args c \<noteq> [] \<Longrightarrow> asking (with_args c args)"
  by (cases "sc_args c") (simp_all add: asking_def with_args_def trusted_spawn_def)

lemma asking_start: "start_command b run nonce = Ok c \<Longrightarrow> asking c"
  by (auto simp: start_command_def result_simps asking_backend)

lemma asking_terminal: "terminal_command b run intent d = Ok c \<Longrightarrow> asking c"
  by (auto simp: terminal_command_def result_simps asking_backend)

lemma done_io_Ok: "done_io r w = (w', Ok x) \<longleftrightarrow> w' = w \<and> r = Ok x"
  by (auto simp: done_io_def)

lemmas io_Ok = io_then_Ok done_io_Ok ensure_io_Ok

text \<open>The continuation runs only on a result of the first operation.\<close>

lemma only_after:
  assumes "only P op" and "\<And>w w1 x. op w = (w1, Ok x) \<Longrightarrow> only P (f x)"
  shows "only P (io_then op f)"
  unfolding only_def
proof (intro allI impI)
  fix w w' r assume "io_then op f w = (w', r)"
  then consider e where "op w = (w', Err e)" | w1 x where "op w = (w1, Ok x)" "f x w1 = (w', r)"
    by (auto simp: io_then_eq)
  then show "wd_now w \<le> wd_now w' \<and> (\<exists>es. wd_effects w' = wd_effects w @ es \<and> list_all P es)"
  proof cases
    case 1
    with assms(1) show ?thesis by (auto simp: only_def)
  next
    case 2
    from 2(1) assms(1) obtain es where es: "wd_now w \<le> wd_now w1" "wd_effects w1 = wd_effects w @ es" "list_all P es"
      by (fastforce simp: only_def)
    from 2(2) assms(2) [OF 2(1)] obtain fs where "wd_now w1 \<le> wd_now w'" "wd_effects w' = wd_effects w1 @ fs" "list_all P fs"
      by (fastforce simp: only_def)
    with es show ?thesis by (intro conjI exI [of _ "es @ fs"]) simp_all
  qed
qed

lemma only_cases [only_intros]:
  "only P a \<Longrightarrow> (\<And>x. only P (f x)) \<Longrightarrow> only P (case v of None \<Rightarrow> a | Some x \<Rightarrow> f x)"
  "(\<And>e. only P (h e)) \<Longrightarrow> (\<And>x. only P (g x)) \<Longrightarrow> only P (case s of Inl e \<Rightarrow> h e | Inr x \<Rightarrow> g x)"
  "(\<And>x y. only P (k x y)) \<Longrightarrow> only P (case p of (x, y) \<Rightarrow> k x y)"
  by (simp_all split: option.split sum.split prod.split)

lemma only_act' [only_intros]: "P e \<Longrightarrow> only P (act e f)"
  by (rule only_act)

lemma only_run [only_intros]:
  "P (Spawned c) \<Longrightarrow> P KilledChild \<Longrightarrow> only P (run_command m c)"
  "P (Spawned c) \<Longrightarrow> P KilledChild \<Longrightarrow> only P (compositor m c)"
  unfolding run_command_def compositor_def by (rule only_bounded; assumption)+

lemma only_calls [only_intros]: "only P (io_call m e)" "only P (io_private_directory m p False)"
  "only P (file_of p)" "only P (try_exists m p)" "only P (put_file p data)" "only P (property values key)"
  "only P (check_executable m pid p)" "only P (cgroup m pid)"
  unfolding io_call_def io_private_directory_def try_exists_def property_def check_executable_def cgroup_def if_False
  by (intro only_intros | simp add: only_def file_of_def put_file_def)+

lemma only_load [only_intros]: "only P (load m codec p)"
  unfolding load_def by (intro only_intros)

lemma only_tools [only_intros]: "only P (trusted_tools m f e paths)"
  by (induction paths) (auto intro!: only_intros)

lemma only_await [only_intros]: "only P (await_socket m path n)"
  by (induction n) (auto intro!: only_intros)

lemma only_trusted_tmux: "only P (tmux m b run)"
  unfolding tmux_def by (intro only_intros)

lemma tmux_asking: "tmux m b run w = (w', Ok c) \<Longrightarrow> asking c \<and> sc_args c \<noteq> []"
  by (auto simp: tmux_def io_Ok asking_backend) (simp add: with_args_def)

definition quiet :: "'a io \<Rightarrow> bool" where
  "quiet op \<longleftrightarrow> only asks op"

lemma quiet_only: "(\<And>P. only P op) \<Longrightarrow> quiet op"
  by (simp add: quiet_def)

lemma quiet_then: "quiet op \<Longrightarrow> (\<And>x. quiet (f x)) \<Longrightarrow> quiet (io_then op f)"
  unfolding quiet_def by (rule only_then)

lemma quiet_run: "asking c \<Longrightarrow> quiet (run_command m c)" "asking c \<Longrightarrow> quiet (compositor m c)"
  unfolding quiet_def by (intro only_intros; simp)+

lemma quiet_tmux: "(\<And>c. asking c \<Longrightarrow> sc_args c \<noteq> [] \<Longrightarrow> quiet (f c)) \<Longrightarrow> quiet (io_then (tmux m b run) f)"
  unfolding quiet_def by (intro only_after only_trusted_tmux) (auto dest: tmux_asking)

named_theorems quiet_intros \<open>operations that only ask\<close>

lemmas quiet_base [quiet_intros] = quiet_then quiet_run quiet_tmux
  only_done [THEN quiet_only] only_ensure [THEN quiet_only] only_query [THEN quiet_only] only_reads [THEN quiet_only]
  only_process_read [THEN quiet_only] only_process_current [THEN quiet_only] only_process_pin [THEN quiet_only]
  only_process_gone [THEN quiet_only] only_calls [THEN quiet_only] only_load [THEN quiet_only] only_tools [THEN quiet_only]
  only_await [THEN quiet_only]

lemma quiet_cases [quiet_intros]:
  "quiet op \<Longrightarrow> quiet (attempt op)"
  "quiet a \<Longrightarrow> quiet b \<Longrightarrow> quiet (if c then a else b)"
  "quiet a \<Longrightarrow> (\<And>x. quiet (f x)) \<Longrightarrow> quiet (case v of None \<Rightarrow> a | Some x \<Rightarrow> f x)"
  "(\<And>e. quiet (h e)) \<Longrightarrow> (\<And>x. quiet (g x)) \<Longrightarrow> quiet (case s of Inl e \<Rightarrow> h e | Inr x \<Rightarrow> g x)"
  "(\<And>x y. quiet (k x y)) \<Longrightarrow> quiet (case p of (x, y) \<Rightarrow> k x y)"
  unfolding quiet_def by (intro only_intros; simp)+

lemma quiet_units [quiet_intros]: "quiet (unit_properties m b u)"
  unfolding unit_properties_def by (intro quiet_intros) (simp add: asking_backend)

lemma quiet_server [quiet_intros]: "quiet (owned_server m b run c)"
  unfolding owned_server_def by (intro quiet_intros)

lemma quiet_pane_of [quiet_intros]: "quiet (pane_of m b run server)"
  unfolding pane_of_def Let_def by (intro quiet_intros) (simp add: asking_with_args)

lemma quiet_pane [quiet_intros]: "quiet (owned_pane m b run c server)"
  unfolding owned_pane_def Let_def by (intro quiet_intros)

lemma quiet_dead [quiet_intros]: "quiet (matching_dead_pane pane saved)"
  unfolding matching_dead_pane_def by (intro quiet_intros)

lemma quiet_complete [quiet_intros]: "quiet (end_complete m b run c)"
  unfolding end_complete_def by (auto split: bool.split option.split intro!: quiet_intros)

lemma quiet_target [quiet_intros]: "quiet (end_target m b run c)"
  unfolding end_target_def by (intro quiet_intros)

lemma quiet_observers [quiet_intros]:
  "quiet (backend_new m root executable)" "quiet (preflight m b)" "quiet (reconcile_run m b run c)"
  "quiet (identify_server m b run c)" "quiet (can_end m b run c)"
  unfolding backend_new_def preflight_def reconcile_run_def identify_server_def can_end_def by (intro quiet_intros)+

lemma quiet_observe [quiet_intros]: "quiet (pane_state m b run)" "quiet (observe_run m b run)"
proof -
  show s: "quiet (pane_state m b run)" unfolding pane_state_def Let_def by (intro quiet_intros) (simp add: asking_with_args)
  show "quiet (observe_run m b run)" unfolding observe_run_def by (intro quiet_intros s)
qed

lemma quiet_server_identity [quiet_intros]: "quiet (server_identity m b run)"
  unfolding server_identity_def Let_def by (intro quiet_intros) (simp add: asking_backend)

lemma quiet_pending [quiet_intros]: "quiet (handoff_pending m codec run)"
  unfolding handoff_pending_def Let_def by (intro quiet_intros)

lemma quiet_start_pane [quiet_intros]: "quiet (start_pane m b run)"
  unfolding start_pane_def by (intro quiet_intros) (simp_all add: asking_with_args)

lemma quiet_ensure_pane [quiet_intros]: "quiet (ensure_pane m codec b run c)"
  unfolding ensure_pane_def by (intro quiet_intros)

lemma quiet_desktop [quiet_intros]: "quiet (Desktop_new m b)" "quiet (desktop_available m b)"
  "quiet (desktop_windows m wc b d)" "quiet (desktop_active m wc b d)" "quiet (terminal_process m b run intent)"
  unfolding Desktop_new_def desktop_available_def desktop_windows_def desktop_active_def terminal_process_def
  by (intro quiet_intros; simp add: asking_desktop)+

lemma quiet_terminal [quiet_intros]: "quiet (start_terminal m b run c)"
proof -
  have started: "quiet (io_then (done_io (terminal_command b run intent d)) (\<lambda>command.
     io_then (attempt (run_command m command)) (\<lambda>_. terminal_process m b run intent)))" for intent d
    unfolding quiet_def
    by (rule only_after) (auto simp: done_io_Ok intro!: only_intros quiet_intros [unfolded quiet_def] dest: asking_terminal)
  show ?thesis unfolding start_terminal_def by (intro quiet_intros started)
qed

lemma quiet_client [quiet_intros]: "quiet (client_line m foot session line)"
  unfolding client_line_def Let_def by (intro quiet_intros)

lemma quiet_clients [quiet_intros]: "quiet (client_lines m foot session found lines)"
  by (induction m foot session found lines rule: client_lines.induct) (auto intro!: quiet_intros)

lemma quiet_tmux_client [quiet_intros]: "quiet (tmux_client m b run foot session)"
  unfolding tmux_client_def by (intro quiet_intros) (simp add: asking_with_args)

lemma quiet_associate [quiet_intros]: "quiet (associate m wc b run c)"
  unfolding associate_def Let_def by (intro quiet_intros)

lemma quiet_wait [quiet_intros]: "quiet (wait_association m wc b run c n)"
  by (induction n) (auto intro!: quiet_intros)

lemma only_focus: "only trusted (focus_window m wc b run c)"
proof -
  have asks: "only trusted op" if "quiet op" for op :: "'a io"
    using that asks_trusted unfolding quiet_def by (rule only_mono)
  show ?thesis
    unfolding focus_window_def by (intro only_intros asks [OF quiet_associate] asks [OF quiet_desktop(1)] asks [OF quiet_desktop(4)])
      (simp_all add: trusted_desktop)
qed

lemma only_create: "only (\<lambda>e. e \<in> {MadeDirectory (run_directory run), Wrote (launch_file (run_directory run))}
    \<union> MadeDirectory ` set_option (path_parent (run_directory run))) (handoff_create m codec run project preset task home)"
  unfolding handoff_create_def Let_def
proof (rule only_after)
  fix w w1 up
  assume "done_io (ok_or ManagerError.UnsafePath (path_parent (run_directory run))) w = (w1, Ok up)"
  then have up: "path_parent (run_directory run) = Some up" by (auto simp: done_io_Ok result_simps)
  let ?P = "\<lambda>e. e \<in> {MadeDirectory (run_directory run), Wrote (launch_file (run_directory run))}
    \<union> MadeDirectory ` set_option (path_parent (run_directory run))"
  have "only ?P (create_new m (launch_file (run_directory run)) data)" for data
    unfolding create_new_def by (intro only_intros) simp
  moreover have "only ?P (io_private_directory m up True)"
    unfolding io_private_directory_def by (simp add: up only_act)
  ultimately show "only ?P (io_then (io_private_directory m up True) (\<lambda>_.
      io_then (query (\<lambda>t. case mc_metadata m t (run_directory run) of
         Ok _ \<Rightarrow> Ok True | Err absent \<Rightarrow> if absent then Ok False else Err RuntimeUnavailable)) (\<lambda>exists.
      io_then (if exists then done_io (Ok ())
         else act (MadeDirectory (run_directory run)) (\<lambda>t. if mc_ok m t then Ok () else Err RuntimeUnavailable)) (\<lambda>_.
      io_then (io_private_directory m (run_directory run) False) (\<lambda>_.
      io_then (done_io (ok_or ManagerError.InvalidRequest (hc_encode codec
         \<lparr> hl_project = project, hl_preset = preset, hl_task = task, hl_home = home \<rparr>))) (\<lambda>data.
      io_then (ensure_io (length data \<le> 32768) ManagerError.InvalidRequest) (\<lambda>_.
      io_then (try_exists m (claimed_file (run_directory run))) (\<lambda>claimed.
      io_then (ensure_io (\<not> claimed) UnknownOutcome) (\<lambda>_.
      io_then (try_exists m (launch_file (run_directory run))) (\<lambda>present.
      if present then
        io_then (load m codec (launch_file (run_directory run))) (\<lambda>launch.
        io_then (done_io (ok_or ManagerError.InvalidRequest (hc_encode codec launch))) (\<lambda>existing.
        ensure_io (existing = data) OwnershipUnverified))
      else create_new m (launch_file (run_directory run)) data))))))))))"
    by (intro only_intros) simp_all
qed (rule only_done)

lemma only_start_run: "only (\<lambda>e. asks e \<or> e \<in> {MadeDirectory (run_directory run), Wrote (launch_file (run_directory run))}
    \<union> MadeDirectory ` set_option (path_parent (run_directory run))) (start_run m codec b run project preset task nonce)"
  (is "only ?P _")
proof -
  have started: "only ?P (io_then (done_io (start_command b run nonce)) (\<lambda>command.
     io_then (attempt (run_command m command)) (\<lambda>_.
     io_then (await_socket m (socket_path run) 100) (\<lambda>_.
     server_identity m b run))))"
    by (rule only_mono [of asks], rule only_after)
      (auto simp: done_io_Ok intro!: only_intros quiet_server_identity [unfolded quiet_def] dest: asking_start)
  show ?thesis
    unfolding start_run_def
    by (intro only_then only_done started only_mono [OF only_create]) simp
qed

lemma only_end: "only (\<lambda>e. asks e \<or> (\<exists>p. e = Terminated p)) (end_run m b run c)"
proof -
  let ?P = "\<lambda>e. asks e \<or> (\<exists>p. e = Terminated p)"
  have asks: "only ?P op" if "quiet op" for op :: "'a io"
    by (rule only_mono [OF that [unfolded quiet_def]]) simp
  have wait: "only ?P (terminate_and_wait m h)" for h
    unfolding terminate_and_wait_def held_terminate_def held_exited_def by (intro only_intros) simp_all
  show ?thesis
    unfolding end_run_def
    by (intro only_intros wait asks [OF quiet_complete] asks [OF quiet_target] asks [OF quiet_pane_of]
        asks [OF quiet_dead] asks [OF quiet_server])
qed

text \<open>C40: Every program the backend spawns is one of four fixed ones, started without a shell in an
  environment of at most five fixed variables with the fixed search path. Building and checking the
  backend, identifying, observing, reconciling, opening and attaching a run, finding its window and deciding whether it
  can end only ask, whatever the machine answers: they write no file, signal no process and dispatch
  nothing to the compositor. Ending a run adds only signals, focusing it only dispatches, and
  starting it only the creation of its directories and of its launch file.\<close>

theorem runtime_effects_fixed:
  "only asks (backend_new m root executable) \<and> only asks (preflight m b) \<and> only asks (desktop_available m b)
   \<and> only asks (observe_run m b run) \<and> only asks (identify_server m b run c) \<and> only asks (reconcile_run m b run c)
   \<and> only asks (start_pane m b run) \<and> only asks (ensure_pane m codec b run c) \<and> only asks (start_terminal m b run c)
   \<and> only asks (associate m wc b run c) \<and> only asks (wait_association m wc b run c n) \<and> only asks (can_end m b run c)
   \<and> only (\<lambda>e. asks e \<or> (\<exists>p. e = Terminated p)) (end_run m b run c) \<and> only trusted (focus_window m wc b run c)
   \<and> only (\<lambda>e. asks e \<or> e \<in> {MadeDirectory (run_directory run), Wrote (launch_file (run_directory run))}
        \<union> MadeDirectory ` set_option (path_parent (run_directory run))) (start_run m codec b run project preset task nonce)"
  unfolding quiet_def [symmetric] by (intro conjI quiet_intros only_start_run only_focus only_end)

subsection \<open>Whom an end signals\<close>

fun signalled :: "effect list \<Rightarrow> ProcessIdentity list" where
  "signalled [] = []"
| "signalled (Terminated p # es) = p # signalled es"
| "signalled (_ # es) = signalled es"

lemma signalled_append [simp]: "signalled (es @ fs) = signalled es @ signalled fs"
  by (induction es rule: signalled.induct) simp_all

lemma asks_silent: "list_all asks es \<Longrightarrow> signalled es = []"
  by (induction es rule: signalled.induct) simp_all

lemma quiet_signals: "quiet op \<Longrightarrow> op w = (w', r) \<Longrightarrow> signalled (wd_effects w') = signalled (wd_effects w)"
  unfolding quiet_def only_def using asks_silent by fastforce

lemma quiet_now: "quiet op \<Longrightarrow> op w = (w', r) \<Longrightarrow> wd_now w \<le> wd_now w'"
  unfolding quiet_def only_def by blast

text \<open>What is asked between \<open>v\<close> and \<open>v'\<close> is asked while the operation from \<open>w\<close> to \<open>w'\<close> runs.\<close>

definition during :: "world \<Rightarrow> world \<Rightarrow> world \<Rightarrow> world \<Rightarrow> bool" where
  "during w w' v v' \<longleftrightarrow> wd_now w \<le> wd_now v \<and> wd_now v \<le> wd_now v' \<and> wd_now v' \<le> wd_now w'"

lemma terminate_signals:
  assumes "terminate_and_wait m h w = (w', r)"
  shows "wd_now w \<le> wd_now w' \<and>
    (\<exists>ts. signalled (wd_effects w') = signalled (wd_effects w) @ ts \<and> (ts = [] \<and> \<not> is_ok r \<or> ts = [held h]))"
  using assms
  by (auto simp: terminate_and_wait_def held_terminate_def held_exited_def io_then_eq ensure_io_def done_io_def ensure_def
      query_def act_def is_ok_def split: if_splits sum.splits)

lemma owned_server_Ok:
  assumes "owned_server m b run c w = (w', Ok sv)"
  shows "held (sv_held sv) = sv_identity sv" and "mr_server run \<in> {None, Some (sv_identity sv)}"
    and "ct_invocation c \<in> {None, Some (sv_invocation sv)}"
  using assms by (auto simp: owned_server_def io_then_Ok done_io_eq ensure_io_Ok dest: pin_holds)

lemma owned_pane_Ok:
  assumes "owned_pane m b run c sv w = (w', Ok (p, h))"
  shows "held h = pp_process p" and "ct_pane c \<in> {None, Some p}"
  using assms by (auto simp: owned_pane_def Let_def io_then_Ok done_io_eq ensure_io_Ok dest: pin_holds)

lemma end_target_Ok:
  assumes "end_target m b run c w = (w', Ok (sv, ph))"
  shows "\<exists>saved w1. ct_pane c = Some saved \<and> owned_server m b run c w = (w1, Ok sv) \<and> wd_now w1 \<le> wd_now w'
     \<and> (ph = None \<or> (\<exists>h w2. ph = Some h \<and> owned_pane m b run c sv w2 = (w', Ok (saved, h)) \<and> during w1 w' w2 w'))"
proof -
  from assms obtain saved w1 w2 pane where saved: "ct_pane c = Some saved"
    and sv: "owned_server m b run c w = (w1, Ok sv)" "pane_of m b run sv w1 = (w2, Ok pane)"
    and rest: "ph = None \<and> w' = w2 \<or> (\<exists>p h. owned_pane m b run c sv w2 = (w', Ok (p, h)) \<and> ph = Some h)"
    by (auto simp: end_target_def matching_dead_pane_def io_Ok result_simps split: if_splits prod.splits)
  have "p = saved \<and> wd_now w2 \<le> wd_now w'" if "owned_pane m b run c sv w2 = (w', Ok (p, h))" for p h
    using owned_pane_Ok(2) [OF that] saved quiet_now [OF quiet_pane that] by simp
  with rest quiet_now [OF quiet_pane_of sv(2)] have
    "wd_now w1 \<le> wd_now w' \<and> (ph = None \<or> (\<exists>h. ph = Some h \<and> owned_pane m b run c sv w2 = (w', Ok (saved, h)) \<and> during w1 w' w2 w'))"
    unfolding during_def by fastforce
  with saved sv(1) show ?thesis by blast
qed

lemma matching_dead_Ok:
  "matching_dead_pane pane saved w = (w', Ok u) \<longleftrightarrow> w' = w \<and> pn_dead pane \<and> pp_pane (pn_identity pane) = pp_pane saved
     \<and> pp_session (pn_identity pane) = pp_session saved \<and> pr_pid (pp_process (pn_identity pane)) = pr_pid (pp_process saved)"
  by (auto simp: matching_dead_pane_def ensure_io_Ok)

lemma only_now: "only P op \<Longrightarrow> op w = (w', r) \<Longrightarrow> wd_now w \<le> wd_now w'"
  unfolding only_def by blast

lemma end_server_now:
  assumes "io_then (pane_of m b run sv) (\<lambda>current.
      io_then (matching_dead_pane current saved) (\<lambda>_.
      io_then (owned_server m b run c) (\<lambda>_.
      terminate_and_wait m (sv_held sv)))) w = (w', r)"
  shows "wd_now w \<le> wd_now w'"
proof -
  have some: "only (\<lambda>_. True) op" if "quiet op" for op :: "'a io"
    by (rule only_mono [OF that [unfolded quiet_def]]) simp
  have "only (\<lambda>_. True) (terminate_and_wait m (sv_held sv))"
    unfolding terminate_and_wait_def held_terminate_def held_exited_def by (intro only_intros) simp_all
  then have "only (\<lambda>_. True) (io_then (pane_of m b run sv) (\<lambda>current.
      io_then (matching_dead_pane current saved) (\<lambda>_.
      io_then (owned_server m b run c) (\<lambda>_.
      terminate_and_wait m (sv_held sv)))))"
    by (intro only_then some [OF quiet_pane_of] some [OF quiet_dead] some [OF quiet_server])
  from only_now [OF this] assms show ?thesis .
qed

lemma end_server:
  assumes "io_then (pane_of m b run sv) (\<lambda>current.
      io_then (matching_dead_pane current saved) (\<lambda>_.
      io_then (owned_server m b run c) (\<lambda>_.
      terminate_and_wait m (sv_held sv)))) w = (w', r)"
  shows "(signalled (wd_effects w') = signalled (wd_effects w) \<and> \<not> is_ok r) \<or>
    (signalled (wd_effects w') = signalled (wd_effects w) @ [held (sv_held sv)] \<and>
     (\<exists>after pane. pane_of m b run sv w = (after, Ok pane) \<and> during w w' w after
        \<and> signalled (wd_effects after) = signalled (wd_effects w) \<and> pn_dead pane \<and> pp_pane (pn_identity pane) = pp_pane saved
        \<and> pr_pid (pp_process (pn_identity pane)) = pr_pid (pp_process saved)) \<and>
     (\<exists>w1 w2 again. owned_server m b run c w1 = (w2, Ok again) \<and> during w w' w1 w2
        \<and> signalled (wd_effects w2) = signalled (wd_effects w)))"
proof -
  let ?sig = "\<lambda>w. signalled (wd_effects w)"
  note silent = quiet_signals [OF quiet_pane_of, of m b run sv] quiet_signals [OF quiet_server, of m b run c]
  from assms consider e where "pane_of m b run sv w = (w', Err e)" "r = Err e"
    | w1 pane e where "pane_of m b run sv w = (w1, Ok pane)" "matching_dead_pane pane saved w1 = (w', Err e)" "r = Err e"
    | w1 pane e where "pane_of m b run sv w = (w1, Ok pane)" "owned_server m b run c w1 = (w', Err e)" "r = Err e"
    | w1 pane w2 x where "pane_of m b run sv w = (w1, Ok pane)" "matching_dead_pane pane saved w1 = (w1, Ok ())"
        "owned_server m b run c w1 = (w2, Ok x)" "terminate_and_wait m (sv_held sv) w2 = (w', r)"
    by (auto simp: io_then_eq matching_dead_Ok)
  then show ?thesis
  proof cases
    case 1
    with silent(1) show ?thesis by (simp add: is_ok_def)
  next
    case 2
    with silent(1) [OF 2(1)] quiet_signals [OF quiet_dead 2(2)] show ?thesis by (simp add: is_ok_def)
  next
    case 3
    with silent(1) [OF 3(1)] silent(2) [OF 3(2)] show ?thesis by (simp add: is_ok_def)
  next
    case 4
    from silent(1) [OF 4(1)] silent(2) [OF 4(3)] have same: "?sig w1 = ?sig w" "?sig w2 = ?sig w" by simp_all
    have time: "wd_now w \<le> wd_now w1" "wd_now w1 \<le> wd_now w2" "wd_now w2 \<le> wd_now w'"
      using quiet_now [OF quiet_pane_of 4(1)] quiet_now [OF quiet_server 4(3)] terminate_signals [OF 4(4)] by simp_all
    from terminate_signals [OF 4(4)] same have "?sig w' = ?sig w \<and> \<not> is_ok r \<or> ?sig w' = ?sig w @ [held (sv_held sv)]" by auto
    then show ?thesis
    proof
      assume "?sig w' = ?sig w @ [held (sv_held sv)]"
      moreover have "during w w' w1 w2" "during w w' w w1" using time by (simp_all add: during_def)
      then have "\<exists>w1 w2 again. owned_server m b run c w1 = (w2, Ok again) \<and> during w w' w1 w2 \<and> ?sig w2 = ?sig w"
        using 4(3) same(2) by blast
      ultimately show ?thesis using 4(1,2) same(1) \<open>during w w' w w1\<close> by (auto simp: matching_dead_Ok)
    qed simp
  qed
qed

text \<open>The part of an end that acts, after the target has been confirmed.\<close>

lemma end_acts:
  assumes taken: "io_then (case ph of None \<Rightarrow> done_io (Ok ()) | Some p \<Rightarrow> terminate_and_wait m p) (\<lambda>_.
         io_then (done_io (ok_or OwnershipUnverified (ct_pane c))) (\<lambda>saved.
         io_then (pane_of m b run sv) (\<lambda>current.
         io_then (matching_dead_pane current saved) (\<lambda>_.
         io_then (owned_server m b run c) (\<lambda>_.
         terminate_and_wait m (sv_held sv)))))) w = (w', r)"
    and saved: "ct_pane c = Some saved"
    and ph: "ph = None \<or> (\<exists>h. ph = Some h \<and> held h = pp_process saved)"
  shows "\<exists>pre post. signalled (wd_effects w') = signalled (wd_effects w) @ pre @ post \<and> wd_now w \<le> wd_now w' \<and>
    (pre = [] \<or> ph \<noteq> None \<and> pre = [pp_process saved]) \<and>
    (post = [] \<and> \<not> is_ok r \<or>
     post = [held (sv_held sv)] \<and>
     (\<exists>before after pane. during w w' before after \<and> signalled (wd_effects after) = signalled (wd_effects w) @ pre
          \<and> pane_of m b run sv before = (after, Ok pane) \<and> pn_dead pane
          \<and> pp_pane (pn_identity pane) = pp_pane saved
          \<and> pr_pid (pp_process (pn_identity pane)) = pr_pid (pp_process saved)) \<and>
     (\<exists>w1 w2 again. owned_server m b run c w1 = (w2, Ok again) \<and> during w w' w1 w2
          \<and> signalled (wd_effects w2) = signalled (wd_effects w) @ pre))"
proof -
  let ?sig = "\<lambda>w. signalled (wd_effects w)"
  let ?rest = "io_then (pane_of m b run sv) (\<lambda>current.
      io_then (matching_dead_pane current saved) (\<lambda>_.
      io_then (owned_server m b run c) (\<lambda>_.
      terminate_and_wait m (sv_held sv))))"
  let ?pre = "\<lambda>pre. pre = [] \<or> ph \<noteq> None \<and> pre = [pp_process saved]"
  from taken consider (stuck) pre where "?sig w' = ?sig w @ pre" "?pre pre" "\<not> is_ok r" "wd_now w \<le> wd_now w'"
    | (on) w3 pre where "?sig w3 = ?sig w @ pre" "?pre pre" "?rest w3 = (w', r)" "wd_now w \<le> wd_now w3"
  proof (cases ph)
    case None
    with taken have "?rest w = (w', r)" by (simp add: saved io_then_eq [of "done_io _"] done_io_def)
    then show thesis by (intro on [of w "[]"]) simp_all
  next
    case (Some h)
    with ph have h: "held h = pp_process saved" by simp
    from taken consider e where "terminate_and_wait m h w = (w', Err e)" "r = Err e"
      | w3 u where "terminate_and_wait m h w = (w3, Ok u)" "?rest w3 = (w', r)"
      by (auto simp: Some saved io_then_eq [of "done_io _"] io_then_eq [of "terminate_and_wait m h"] done_io_def)
    then show thesis
    proof cases
      case 1
      with terminate_signals [OF 1(1)] h Some show thesis by (auto simp: is_ok_def intro: stuck)
    next
      case 2
      with terminate_signals [OF 2(1)] h Some show thesis by (auto simp: is_ok_def intro: on)
    qed
  qed
  then show ?thesis
  proof cases
    case stuck
    then show ?thesis by (intro exI [of _ pre] exI [of _ "[]"]) simp
  next
    case on
    have over: "wd_now w \<le> wd_now w'" using on(4) end_server_now [OF on(3)] by simp
    from end_server [OF on(3)] show ?thesis
    proof (elim disjE)
      assume "?sig w' = ?sig w3 \<and> \<not> is_ok r"
      with on(1,2) over show ?thesis by (intro exI [of _ pre] exI [of _ "[]"]) simp
    next
      assume "?sig w' = ?sig w3 @ [held (sv_held sv)] \<and> (\<exists>after pane. pane_of m b run sv w3 = (after, Ok pane)
          \<and> during w3 w' w3 after \<and> ?sig after = ?sig w3 \<and> pn_dead pane \<and> pp_pane (pn_identity pane) = pp_pane saved
          \<and> pr_pid (pp_process (pn_identity pane)) = pr_pid (pp_process saved)) \<and>
        (\<exists>w1 w2 again. owned_server m b run c w1 = (w2, Ok again) \<and> during w3 w' w1 w2 \<and> ?sig w2 = ?sig w3)"
      moreover have "during w w' v v'" if "during w3 w' v v'" for v v' using that on(4) by (simp add: during_def)
      ultimately show ?thesis using on(1,2) over
        by (intro exI [of _ pre] exI [of _ "[held (sv_held sv)]"] conjI) (simp_all, blast+)
    qed
  qed
qed

text \<open>C38: An end signals no process but the run's own. It signals nothing, and then succeeds only if the end was
  already complete; or, during the end and before its first signal, the machine confirmed the run's unit and the
  identity of its server (\<open>owned_server\<close>), which is the one the run recorded, if it recorded one. What it then
  signals is at most the process of the pane the run saved, once the machine confirmed that pane as
  the run's own and alive, and after it that server, only once \<open>tmux\<close> has listed the saved
  pane as dead and the unit and identity have been confirmed once more; and unless it
  signalled the server it fails.\<close>

theorem end_signals_owned:
  assumes "end_run m b run c w = (w', r)"
  shows "\<exists>ts. signalled (wd_effects w') = signalled (wd_effects w) @ ts \<and>
    (ts = [] \<and> (is_ok r \<longrightarrow> snd (end_complete m b run c w) = Ok True) \<or>
     (\<exists>saved sv pre post w1 w2. ct_pane c = Some saved \<and> ts = pre @ post
        \<and> owned_server m b run c w1 = (w2, Ok sv) \<and> during w w' w1 w2 \<and> signalled (wd_effects w2) = signalled (wd_effects w)
        \<and> mr_server run \<in> {None, Some (sv_identity sv)} \<and> ct_invocation c \<in> {None, Some (sv_invocation sv)}
        \<and> (pre = [] \<or> pre = [pp_process saved] \<and> (\<exists>w3 w4 h. owned_pane m b run c sv w3 = (w4, Ok (saved, h))
             \<and> during w2 w' w3 w4 \<and> signalled (wd_effects w4) = signalled (wd_effects w)))
        \<and> (post = [] \<and> \<not> is_ok r \<or>
           post = [sv_identity sv]
           \<and> (\<exists>before after pane. pane_of m b run sv before = (after, Ok pane) \<and> during w2 w' before after
                \<and> signalled (wd_effects after) = signalled (wd_effects w) @ pre \<and> pn_dead pane
                \<and> pp_pane (pn_identity pane) = pp_pane saved
                \<and> pr_pid (pp_process (pn_identity pane)) = pr_pid (pp_process saved))
           \<and> (\<exists>w5 w6 again. owned_server m b run c w5 = (w6, Ok again) \<and> during w2 w' w5 w6
                \<and> signalled (wd_effects w6) = signalled (wd_effects w) @ pre))))"
    (is "\<exists>ts. _ = _ @ ts \<and> ?claim ts")
proof -
  note quiet_steps = quiet_signals [OF quiet_complete] quiet_signals [OF quiet_target] quiet_signals [OF quiet_server]
  let ?sig = "\<lambda>w. signalled (wd_effects w)"
  from assms consider (failed) e where "end_complete m b run c w = (w', Err e)" "r = Err e"
    | (complete) "end_complete m b run c w = (w', Ok True)" "r = Ok ()"
    | (untaken) w1 e where "end_complete m b run c w = (w1, Ok False)" "end_target m b run c w1 = (w', Err e)" "r = Err e"
    | (taken) w1 w2 sv ph where "end_complete m b run c w = (w1, Ok False)" "end_target m b run c w1 = (w2, Ok (sv, ph))"
        "io_then (case ph of None \<Rightarrow> done_io (Ok ()) | Some p \<Rightarrow> terminate_and_wait m p) (\<lambda>_.
         io_then (done_io (ok_or OwnershipUnverified (ct_pane c))) (\<lambda>saved.
         io_then (pane_of m b run sv) (\<lambda>current.
         io_then (matching_dead_pane current saved) (\<lambda>_.
         io_then (owned_server m b run c) (\<lambda>_.
         terminate_and_wait m (sv_held sv)))))) w2 = (w', r)"
    by (fastforce simp: end_run_def io_then_eq [of "end_complete m b run c"] io_then_eq [of "end_target m b run c"] done_io_def
        split: if_splits)
  then show ?thesis
  proof cases
    case failed
    with quiet_steps(1) show ?thesis by (intro exI [of _ "[]"]) (auto simp: is_ok_def)
  next
    case complete
    with quiet_steps(1) show ?thesis by (intro exI [of _ "[]"]) auto
  next
    case untaken
    with quiet_steps(1,2) show ?thesis by (intro exI [of _ "[]"]) (auto simp: is_ok_def)
  next
    case taken
    from end_target_Ok [OF taken(2)] obtain saved w3 where saved: "ct_pane c = Some saved"
      and sv: "owned_server m b run c w1 = (w3, Ok sv)" and late: "wd_now w3 \<le> wd_now w2"
      and pane: "ph = None \<or> (\<exists>h w4. ph = Some h \<and> owned_pane m b run c sv w4 = (w2, Ok (saved, h)) \<and> during w3 w2 w4 w2)" by blast
    from pane owned_pane_Ok(1) have ph: "ph = None \<or> (\<exists>h. ph = Some h \<and> held h = pp_process saved)" by blast
    have start: "?sig w1 = ?sig w" "?sig w2 = ?sig w" "?sig w3 = ?sig w"
      using quiet_steps(1) [OF taken(1)] quiet_steps(2) [OF taken(2)] quiet_steps(3) [OF sv] by simp_all
    from end_acts [OF taken(3) saved ph] obtain pre post where sig: "?sig w' = ?sig w @ pre @ post" and over: "wd_now w2 \<le> wd_now w'"
      and pre: "pre = [] \<or> ph \<noteq> None \<and> pre = [pp_process saved]"
      and post: "post = [] \<and> \<not> is_ok r \<or> post = [sv_identity sv] \<and>
     (\<exists>before after pane. during w2 w' before after \<and> ?sig after = ?sig w @ pre \<and> pane_of m b run sv before = (after, Ok pane) \<and> pn_dead pane
          \<and> pp_pane (pn_identity pane) = pp_pane saved
          \<and> pr_pid (pp_process (pn_identity pane)) = pr_pid (pp_process saved)) \<and>
     (\<exists>w1 w2' again. owned_server m b run c w1 = (w2', Ok again) \<and> during w2 w' w1 w2' \<and> ?sig w2' = ?sig w @ pre)"
      unfolding start(2) owned_server_Ok(1) [OF sv] by blast
    have inner: "during w3 w' v v'" if "during w2 w' v v'" for v v' using that late by (simp add: during_def)
    have outer: "during w3 w' v w2" if "during w3 w2 v w2" for v using that over by (simp add: during_def)
    have first: "during w w' w1 w3"
      using quiet_now [OF quiet_complete taken(1)] quiet_now [OF quiet_server sv] late over by (simp add: during_def)
    from pre pane start(2) outer have "pre = [] \<or> pre = [pp_process saved]
        \<and> (\<exists>v v' h. owned_pane m b run c sv v = (v', Ok (saved, h)) \<and> during w3 w' v v' \<and> ?sig v' = ?sig w)" by blast
    with saved sv first start(3) owned_server_Ok(2,3) [OF sv] post inner have "?claim (pre @ post)"
      by (intro disjI2 exI [of _ saved] exI [of _ sv] exI [of _ pre] exI [of _ post] exI [of _ w1] exI [of _ w3]) blast
    with sig show ?thesis by blast
  qed
qed

subsection \<open>What a focus dispatches\<close>

definition dispatches :: "effect list \<Rightarrow> string list list" where
  "dispatches es = List.map_filter (\<lambda>e. case e of
     Spawned c \<Rightarrow> if take 1 (sc_args c) = [''dispatch''] then Some (sc_args c) else None | _ \<Rightarrow> None) es"

lemma dispatches_append [simp]: "dispatches (es @ fs) = dispatches es @ dispatches fs"
  by (simp add: dispatches_def map_filter_def)

lemma asks_dispatches: "list_all asks es \<Longrightarrow> dispatches es = []"
  by (induction es) (auto simp: dispatches_def map_filter_def asking_def split: effect.splits)

lemma quiet_dispatches: "quiet op \<Longrightarrow> op w = (w', r) \<Longrightarrow> dispatches (wd_effects w') = dispatches (wd_effects w)"
  unfolding quiet_def only_def using asks_dispatches by fastforce

lemma associate_Ok: "associate m wc b run c w = (w', Ok a) \<Longrightarrow> address (wi_address a)"
  by (auto simp: associate_def Let_def io_Ok split: prod.splits)

lemma bounded_dispatches:
  "take 1 (sc_args command) = [''dispatch''] \<Longrightarrow> bounded_output m command limit w = (w', r) \<Longrightarrow>
     dispatches (wd_effects w') = dispatches (wd_effects w) @ [sc_args command]"
  by (auto simp: bounded_output_def Let_def io_then_eq act_def query_def done_io_def dispatches_def map_filter_def split: if_splits)

definition focus_rest where
  "focus_rest m wc b run c desktop association =
     io_then (desktop_active m wc b desktop) (\<lambda>active.
     io_then (done_io (ok_or ActionUnavailable (ct_terminal c))) (\<lambda>intent.
     io_then (done_io (ok_or OwnershipUnverified (ti_process intent))) (\<lambda>process.
     io_then (ensure_io (matches_window active association process (app_id intent)) OwnershipUnverified) (\<lambda>_.
     io_then (associate m wc b run c) (\<lambda>again.
     io_then (ensure_io (again = association) OwnershipUnverified) (\<lambda>_.
     done_io (Ok association)))))))"

lemma focus_rest:
  "quiet (focus_rest m wc b run c desktop association)"
  "focus_rest m wc b run c desktop association w = (w', Ok a) \<Longrightarrow> a = association
     \<and> (\<exists>w3. associate m wc b run c w3 = (w', Ok association) \<and> during w w' w3 w'
          \<and> dispatches (wd_effects w3) = dispatches (wd_effects w))"
proof -
  show "quiet (focus_rest m wc b run c desktop association)" unfolding focus_rest_def by (intro quiet_intros)
  assume "focus_rest m wc b run c desktop association w = (w', Ok a)"
  then obtain w3 active where f: "a = association" "desktop_active m wc b desktop w = (w3, Ok active)"
      "associate m wc b run c w3 = (w', Ok association)"
    by (auto simp: focus_rest_def io_Ok)
  then show "a = association \<and> (\<exists>w3. associate m wc b run c w3 = (w', Ok association) \<and> during w w' w3 w'
      \<and> dispatches (wd_effects w3) = dispatches (wd_effects w))"
    using quiet_dispatches [OF quiet_desktop(4) f(2)] quiet_now [OF quiet_desktop(4) f(2)] quiet_now [OF quiet_associate f(3)]
    by (auto simp: during_def)
qed

lemma focus_sends:
  assumes "io_then (run_command m (with_args (desktop_command b desktop) [''dispatch'', focus_expression (wi_address a)]))
      (\<lambda>_. focus_rest m wc b run c desktop a) w = (w', r)"
  shows "dispatches (wd_effects w') = dispatches (wd_effects w) @ [[''dispatch'', focus_expression (wi_address a)]]
    \<and> wd_now w \<le> wd_now w'
    \<and> (r = Ok a \<and> (\<exists>w3. associate m wc b run c w3 = (w', Ok a) \<and> during w w' w3 w'
          \<and> dispatches (wd_effects w3) = dispatches (wd_effects w) @ [[''dispatch'', focus_expression (wi_address a)]])
      \<or> \<not> is_ok r)"
proof -
  let ?args = "[''dispatch'', focus_expression (wi_address a)]"
  let ?go = "run_command m (with_args (desktop_command b desktop) ?args)"
  have args: "sc_args (with_args (desktop_command b desktop) ?args) = ?args"
    by (simp add: with_args_def desktop_command_def backend_command_def Let_def)
  have sent: "?go w = (v, q) \<Longrightarrow> dispatches (wd_effects v) = dispatches (wd_effects w) @ [?args]" for v q
    unfolding run_command_def by (drule bounded_dispatches [rotated]) (simp_all add: args)
  have time: "?go w = (v, q) \<Longrightarrow> wd_now w \<le> wd_now v" for v q
    by (rule only_now [OF only_run(1) [of "\<lambda>_. True"]]) simp_all
  from assms consider e where "?go w = (w', Err e)" "r = Err e"
    | w3 u where "?go w = (w3, Ok u)" "focus_rest m wc b run c desktop a w3 = (w', r)"
    by (auto simp: io_then_eq)
  then show ?thesis
  proof cases
    case 1
    with sent time show ?thesis by (simp add: is_ok_def)
  next
    case 2
    have later: "wd_now w \<le> wd_now w3" "wd_now w3 \<le> wd_now w'" using time [OF 2(1)] quiet_now [OF focus_rest(1) 2(2)] .
    then have inner: "during w w' v v'" if "during w3 w' v v'" for v v' using that by (simp add: during_def)
    from sent [OF 2(1)] quiet_dispatches [OF focus_rest(1) 2(2)]
    have "dispatches (wd_effects w') = dispatches (wd_effects w) @ [?args]" by simp
    with focus_rest(2) [of m wc b run c desktop a w3 w'] 2(2) sent [OF 2(1)] later show ?thesis
      by (cases r) (auto simp: is_ok_def intro: inner)
  qed
qed

text \<open>C39: A focus sends the compositor at most one command, and it is the fixed focus expression
  around the address of the window the run saved. That window has just been found again as the one
  window of the run's own terminal (\<open>associate\<close> has answered it, and nothing was dispatched since), and
  its address is hexadecimal, so that it cannot end the expression's string. A focus succeeds only after
  that command, once that window has been found so again after it, and returns it.\<close>

theorem focus_dispatches_saved:
  assumes "focus_window m wc b run c w = (w', r)"
  shows "\<exists>ds. dispatches (wd_effects w') = dispatches (wd_effects w) @ ds \<and>
    (ds = [] \<and> \<not> is_ok r \<or>
     (\<exists>intent window w1 w2. ct_terminal c = Some intent \<and> ti_window intent = Some window \<and> address (wi_address window)
        \<and> associate m wc b run c w1 = (w2, Ok window) \<and> during w w' w1 w2
        \<and> dispatches (wd_effects w2) = dispatches (wd_effects w)
        \<and> ds = [[''dispatch'', focus_expression (wi_address window)]]
        \<and> (r = Ok window \<and> (\<exists>w3. associate m wc b run c w3 = (w', Ok window) \<and> during w2 w' w3 w'
               \<and> dispatches (wd_effects w3) = dispatches (wd_effects w) @ ds) \<or> \<not> is_ok r)))"
proof -
  let ?d = "\<lambda>w. dispatches (wd_effects w)"
  let ?go = "\<lambda>desktop a. run_command m (with_args (desktop_command b desktop) [''dispatch'', focus_expression (wi_address a)])"
  note silent = quiet_dispatches [OF quiet_desktop(1)] quiet_dispatches [OF quiet_associate]
  from assms consider e where "Desktop_new m b w = (w', Err e)" "r = Err e"
    | w1 desktop e where "Desktop_new m b w = (w1, Ok desktop)" "w' = w1" "r = Err e"
    | w1 desktop e where "Desktop_new m b w = (w1, Ok desktop)" "associate m wc b run c w1 = (w', Err e)" "r = Err e"
    | w1 desktop w2 a e where "Desktop_new m b w = (w1, Ok desktop)" "associate m wc b run c w1 = (w2, Ok a)" "w' = w2" "r = Err e"
    | w1 desktop w2 a intent where "Desktop_new m b w = (w1, Ok desktop)" "associate m wc b run c w1 = (w2, Ok a)"
        "ct_terminal c = Some intent" "ti_window intent = Some a"
        "io_then (?go desktop a) (\<lambda>_. focus_rest m wc b run c desktop a) w2 = (w', r)"
    unfolding focus_window_def focus_rest_def [symmetric]
    by (auto simp: io_then_eq [of "Desktop_new m b"] io_then_eq [of "associate m wc b run c"] io_then_eq [of "done_io _"]
        io_then_eq [of "ensure_io _ _"] ensure_io_def done_io_def ensure_def result_simps bind_eq_Some_conv ok_or_def
        split: if_splits option.splits)
  then show ?thesis
  proof cases
    case 1
    with silent(1) show ?thesis by (intro exI [of _ "[]"]) (simp add: is_ok_def)
  next
    case 2
    with silent(1) show ?thesis by (intro exI [of _ "[]"]) (auto simp: is_ok_def)
  next
    case 3
    with silent(1) [OF 3(1)] silent(2) [OF 3(2)] show ?thesis by (intro exI [of _ "[]"]) (simp add: is_ok_def)
  next
    case 4
    with silent(1) [OF 4(1)] silent(2) [OF 4(2)] show ?thesis by (intro exI [of _ "[]"]) (simp add: is_ok_def)
  next
    case 5
    let ?args = "[''dispatch'', focus_expression (wi_address a)]"
    have here: "?d w2 = ?d w" using silent(1) [OF 5(1)] silent(2) [OF 5(2)] by simp
    have "?d w' = ?d w @ [?args]"
        "r = Ok a \<and> (\<exists>w3. associate m wc b run c w3 = (w', Ok a) \<and> during w2 w' w3 w' \<and> ?d w3 = ?d w @ [?args]) \<or> \<not> is_ok r"
      using focus_sends [OF 5(5)] unfolding here by blast+
    moreover have "during w w' w1 w2"
      using quiet_now [OF quiet_desktop(1) 5(1)] quiet_now [OF quiet_associate 5(2)] focus_sends [OF 5(5)] by (simp add: during_def)
    ultimately show ?thesis using 5(2-4) associate_Ok [OF 5(2)] here
      by (intro exI [of _ "[?args]"]) (simp, blast)
  qed
qed

end
