(* ===== verification/Catalog.thy ===== *)
theory Catalog
  imports Project_Paths
begin

section \<open>Projects, presets and tasks (storage/catalog.rs, storage/catalog/writes.rs)\<close>

text \<open>
  The manager's own tables lie beside the event tables and share the store's revision. A record is
  stored as the bytes the JSON library makes of it (\<open>catalog_codec\<close>). An \<open>INSERT\<close> fails on the keys,
  foreign keys and length checks of its table. The kernel's answers about paths and the reads of
  \<open>/dev/urandom\<close> an operation makes, in order, are the argument \<open>catalog_io\<close>. Row fields: \<open>gw_\<close>
  projects, \<open>sw_\<close> presets, \<open>kw_\<close> tasks, \<open>uw_\<close> runs, \<open>cw_\<close> controls; \<open>ms_\<close> \<open>manager_store\<close>.
\<close>

subsection \<open>Tables (catalog.rs)\<close>

record project_row =
  gw_id :: string
  gw_root :: string
  gw_record :: string

record preset_row =
  sw_name :: string
  sw_record :: string

record task_row =
  kw_id :: string
  kw_project :: string
  kw_preset :: string
  kw_label :: string
  kw_record :: string

record run_row =
  uw_id :: string
  uw_task :: string
  uw_project :: string
  uw_record :: string

record control_row =
  cw_id :: string
  cw_record :: string

record manager_store =
  ms_events :: database
  ms_projects :: "project_row list"
  ms_presets :: "preset_row list"
  ms_tasks :: "task_row list"
  ms_runs :: "run_row list"
  ms_controls :: "control_row list"

definition insert_project_row :: "manager_store \<Rightarrow> project_row \<Rightarrow> StorageError + manager_store" where
  "insert_project_row db row =
     (if (\<exists>r\<in>set (ms_projects db). gw_id r = gw_id row \<or> gw_root r = gw_root row) \<or> 12288 < length (gw_record row)
      then Err StorageError.PersistenceUnavailable
      else Ok (db\<lparr> ms_projects := ms_projects db @ [row] \<rparr>))"

definition insert_preset_row :: "manager_store \<Rightarrow> preset_row \<Rightarrow> StorageError + manager_store" where
  "insert_preset_row db row =
     (if (\<exists>r\<in>set (ms_presets db). sw_name r = sw_name row) \<or> 12288 < length (sw_record row)
      then Err StorageError.PersistenceUnavailable
      else Ok (db\<lparr> ms_presets := ms_presets db @ [row] \<rparr>))"

definition insert_task_row :: "manager_store \<Rightarrow> task_row \<Rightarrow> StorageError + manager_store" where
  "insert_task_row db row =
     (if (\<exists>r\<in>set (ms_tasks db). kw_id r = kw_id row \<or> (kw_project r = kw_project row \<and> kw_label r = kw_label row))
        \<or> \<not> (\<exists>r\<in>set (ms_projects db). gw_id r = kw_project row)
        \<or> \<not> (\<exists>r\<in>set (ms_presets db). sw_name r = kw_preset row) \<or> 4096 < length (kw_record row)
      then Err StorageError.PersistenceUnavailable
      else Ok (db\<lparr> ms_tasks := ms_tasks db @ [row] \<rparr>))"

text \<open>\<open>get\<close>: the record of the first row, decoded.\<close>

definition get_record :: "(string \<Rightarrow> 'a option) \<Rightarrow> ('r \<Rightarrow> string) \<Rightarrow> 'r option \<Rightarrow> StorageError + 'a option" where
  "get_record dec cell row = (case row of
     None \<Rightarrow> Ok None
   | Some r \<Rightarrow> map_ok Some (ok_or CorruptDatabase (dec (cell r))))"

definition encode_record :: "('a \<Rightarrow> string option) \<Rightarrow> 'a \<Rightarrow> StorageError + string" where
  "encode_record encode record = ok_or StorageError.InvalidRequest (encode record)"

definition fresh_id :: "(string \<Rightarrow> ProtocolError + 'a) \<Rightarrow> (u8 list \<times> nat) option \<Rightarrow> StorageError + 'a" where
  "fresh_id from_str entropy =
     and_then (map_err (\<lambda>_. StorageError.PersistenceUnavailable) (fresh entropy)) (\<lambda>g.
     map_err (\<lambda>_. StorageError.PersistenceUnavailable) (from_str (ProducerGeneration_as_str g)))"

definition advanced :: "manager_store \<Rightarrow> Revision \<Rightarrow> manager_store" where
  "advanced db next = db\<lparr> ms_events := advance_revision (ms_events db) next \<rparr>"

definition next_revision :: "manager_store \<Rightarrow> StorageError + Revision" where
  "next_revision db = and_then (revision (ms_events db)) (require_revision (ms_events db))"

subsection \<open>Pages\<close>

fun decode_rows :: "(string \<Rightarrow> 'a option) \<Rightarrow> (string \<times> string) list \<Rightarrow> StorageError + (string \<times> 'a) list" where
  "decode_rows dec [] = Ok []"
| "decode_rows dec ((key, bytes) # rows) =
     and_then (ok_or CorruptDatabase (dec bytes)) (\<lambda>record.
     map_ok (Cons (key, record)) (decode_rows dec rows))"

definition selected :: "string \<Rightarrow> (string \<times> string) list \<Rightarrow> (string \<times> string) list" where
  "selected after rows = take 101 (sort_key fst (filter (\<lambda>row. after < fst row) rows))"

definition page :: "manager_store \<Rightarrow> (string \<Rightarrow> 'a option) \<Rightarrow> (string \<times> string) list \<Rightarrow> StorageError + 'a Page" where
  "page db dec rows =
     and_then (decode_rows dec rows) (\<lambda>entries.
     let more = PAGE_SIZE < length entries;
         entries = take PAGE_SIZE entries;
         next_after = (if more then (if entries = [] then None else Some (fst (last entries))) else None)
     in map_ok (\<lambda>r. \<lparr> pg_revision = r, pg_items = map snd entries, pg_next_after = next_after \<rparr>)
          (revision (ms_events db)))"

definition launch_records :: "catalog_codec \<Rightarrow> manager_store \<Rightarrow> TaskId \<Rightarrow> StorageError + CatalogResponse" where
  "launch_records codec db task_id =
     and_then (get_record (kd_task codec) kw_record (find (\<lambda>r. kw_id r = TaskId_as_str task_id) (ms_tasks db))) (\<lambda>found.
     and_then (ok_or StorageError.InvalidRequest found) (\<lambda>task.
     and_then (get_record (kd_project codec) gw_record
       (find (\<lambda>r. gw_id r = ProjectId_as_str (ta_project_id task)) (ms_projects db))) (\<lambda>found.
     and_then (ok_or CorruptDatabase found) (\<lambda>project.
     and_then (get_record (kd_preset codec) sw_record (find (\<lambda>r. sw_name r = ta_preset task) (ms_presets db))) (\<lambda>found.
     and_then (ok_or CorruptDatabase found) (\<lambda>preset.
     Ok (Launch project preset task)))))))"

subsection \<open>Writes (catalog/writes.rs)\<close>

record catalog_io =
  ci_paths :: path_env
  ci_entropy :: "nat \<Rightarrow> (u8 list \<times> nat) option"

definition add_project ::
    "catalog_codec \<Rightarrow> catalog_io \<Rightarrow> manager_store \<Rightarrow> LocalPath \<Rightarrow> TaskLabel \<Rightarrow> StorageError + manager_store \<times> Project" where
  "add_project codec env db root label =
     and_then (map_err project_error (path_identity (ci_paths env) (LocalPath_as_str root) False)) (\<lambda>identity.
     and_then (get_record (kd_project codec) gw_record (find (\<lambda>r. gw_root r = LocalPath_as_str root) (ms_projects db)))
       (\<lambda>found. case found of
         Some existing \<Rightarrow>
           if pj_label existing = label \<and> pj_identity existing = identity then Ok (db, existing)
           else Err StorageError.Conflict
       | None \<Rightarrow>
           and_then (capacity (length (ms_projects db)) MAX_PROJECTS 1) (\<lambda>_.
           and_then (fresh_id ProjectId_from_str (ci_entropy env 0)) (\<lambda>key.
           let record = \<lparr> pj_id = key, pj_label = label, pj_root = root, pj_identity = identity \<rparr> in
           and_then (next_revision db) (\<lambda>next.
           and_then (encode_record (kc_project codec) record) (\<lambda>bytes.
           and_then (insert_project_row db \<lparr> gw_id = ProjectId_as_str key, gw_root = LocalPath_as_str root,
             gw_record = bytes \<rparr>) (\<lambda>db.
           Ok (advanced db next, record))))))))"

definition add_preset ::
    "catalog_codec \<Rightarrow> catalog_io \<Rightarrow> manager_store \<Rightarrow> string \<Rightarrow> LocalPath \<Rightarrow> string \<Rightarrow> StorageError + manager_store \<times> Preset" where
  "add_preset codec env db name executable profile =
     and_then (map_err project_error (path_identity (ci_paths env) (LocalPath_as_str executable) True)) (\<lambda>identity.
     let record = \<lparr> ps_name = name, ps_executable = executable, ps_identity = identity, ps_profile = profile \<rparr> in
     and_then (get_record (kd_preset codec) sw_record (find (\<lambda>r. sw_name r = name) (ms_presets db)))
       (\<lambda>found. case found of
         Some existing \<Rightarrow> if existing = record then Ok (db, existing) else Err StorageError.Conflict
       | None \<Rightarrow>
           and_then (capacity (length (ms_presets db)) MAX_PRESETS 1) (\<lambda>_.
           and_then (next_revision db) (\<lambda>next.
           and_then (encode_record (kc_preset codec) record) (\<lambda>bytes.
           and_then (insert_preset_row db \<lparr> sw_name = name, sw_record = bytes \<rparr>) (\<lambda>db.
           Ok (advanced db next, record)))))))"

definition add_task ::
    "catalog_codec \<Rightarrow> catalog_io \<Rightarrow> manager_store \<Rightarrow> ProjectId \<Rightarrow> string \<Rightarrow> TaskLabel \<Rightarrow> StorageError + manager_store \<times> Task" where
  "add_task codec env db project_id preset label =
     and_then (and_then (get_record (kd_project codec) gw_record
         (find (\<lambda>r. gw_id r = ProjectId_as_str project_id) (ms_projects db))) (\<lambda>project.
       if project = None then Ok True
       else map_ok (\<lambda>p. p = None) (get_record (kd_preset codec) sw_record (find (\<lambda>r. sw_name r = preset) (ms_presets db)))))
       (\<lambda>missing.
     if missing then Err StorageError.InvalidRequest
     else
       and_then (get_record (kd_task codec) kw_record
         (find (\<lambda>r. kw_project r = ProjectId_as_str project_id \<and> kw_label r = TaskLabel_as_str label) (ms_tasks db)))
         (\<lambda>found. case found of
           Some existing \<Rightarrow> if ta_preset existing = preset then Ok (db, existing) else Err StorageError.Conflict
         | None \<Rightarrow>
             and_then (capacity (length (ms_tasks db)) MAX_TASKS 1) (\<lambda>_.
             and_then (fresh_id TaskId_from_str (ci_entropy env 0)) (\<lambda>key.
             let record = \<lparr> ta_id = key, ta_project_id = project_id, ta_preset = preset, ta_label = label \<rparr> in
             and_then (next_revision db) (\<lambda>next.
             and_then (encode_record (kc_task codec) record) (\<lambda>bytes.
             and_then (insert_task_row db \<lparr> kw_id = TaskId_as_str key, kw_project = ProjectId_as_str project_id,
               kw_preset = preset, kw_label = TaskLabel_as_str label, kw_record = bytes \<rparr>) (\<lambda>db.
             Ok (advanced db next, record))))))))"

definition catalog_execute ::
    "catalog_codec \<Rightarrow> catalog_io \<Rightarrow> manager_store \<Rightarrow> CatalogRequest \<Rightarrow> StorageError + manager_store \<times> CatalogResponse" where
  "catalog_execute codec env db request = (case request of
     AddProject root label \<Rightarrow> map_ok (map_prod id ProjectAdded) (add_project codec env db root label)
   | AddPreset name executable profile \<Rightarrow>
       map_ok (map_prod id PresetAdded) (add_preset codec env db name executable profile)
   | AddTask project_id preset label \<Rightarrow>
       map_ok (map_prod id TaskAdded) (add_task codec env db project_id preset label)
   | Projects after \<Rightarrow> map_ok (\<lambda>p. (db, ProjectPage p)) (page db (kd_project codec)
       (selected (case after of None \<Rightarrow> [] | Some i \<Rightarrow> ProjectId_as_str i) (map (\<lambda>r. (gw_id r, gw_record r)) (ms_projects db))))
   | Presets after \<Rightarrow> map_ok (\<lambda>p. (db, PresetPage p)) (page db (kd_preset codec)
       (selected (case after of None \<Rightarrow> [] | Some name \<Rightarrow> name) (map (\<lambda>r. (sw_name r, sw_record r)) (ms_presets db))))
   | Tasks project_id after \<Rightarrow> map_ok (\<lambda>p. (db, TaskPage p)) (page db (kd_task codec)
       (selected (case after of None \<Rightarrow> [] | Some i \<Rightarrow> TaskId_as_str i)
         (map (\<lambda>r. (kw_id r, kw_record r)) (filter (\<lambda>r. kw_project r = ProjectId_as_str project_id) (ms_tasks db)))))
   | GetTask task_id \<Rightarrow> map_ok (Pair db) (launch_records codec db task_id))"

end
