(* ===== verification/Managed_Runs.thy ===== *)
theory Managed_Runs
  imports Catalog Store_Maintain
begin

section \<open>Managed runs and their control state (storage/runners.rs, storage/runtime_control.rs)\<close>

text \<open>
  A task has at most one managed run, reserved in the store before any process is started; beside it
  lies the control state the manager has confirmed. Both go through the same database as the
  catalog. Rows are read in the order of their table, as \<open>SELECT\<close> without \<open>ORDER BY\<close> scans it.
\<close>

subsection \<open>Rows\<close>

definition insert_run_row :: "manager_store \<Rightarrow> run_row \<Rightarrow> StorageError + manager_store" where
  "insert_run_row db row =
     (if (\<exists>r\<in>set (ms_runs db). uw_id r = uw_id row \<or> uw_task r = uw_task row)
        \<or> \<not> (\<exists>r\<in>set (ms_tasks db). kw_id r = uw_task row)
        \<or> \<not> (\<exists>r\<in>set (ms_projects db). gw_id r = uw_project row) \<or> 8192 < length (uw_record row)
      then Err StorageError.PersistenceUnavailable
      else Ok (db\<lparr> ms_runs := ms_runs db @ [row] \<rparr>))"

definition update_run_row :: "manager_store \<Rightarrow> string \<Rightarrow> string \<Rightarrow> StorageError + manager_store" where
  "update_run_row db i bytes =
     (if (\<exists>r\<in>set (ms_runs db). uw_id r = i) \<and> 8192 < length bytes then Err StorageError.PersistenceUnavailable
      else Ok (db\<lparr> ms_runs := map (\<lambda>r. if uw_id r = i then r\<lparr> uw_record := bytes \<rparr> else r) (ms_runs db) \<rparr>))"

definition insert_control_row :: "manager_store \<Rightarrow> control_row \<Rightarrow> StorageError + manager_store" where
  "insert_control_row db row =
     (if (\<exists>r\<in>set (ms_controls db). cw_id r = cw_id row) \<or> \<not> (\<exists>r\<in>set (ms_runs db). uw_id r = cw_id row)
        \<or> 8192 < length (cw_record row)
      then Err StorageError.PersistenceUnavailable
      else Ok (db\<lparr> ms_controls := ms_controls db @ [row] \<rparr>))"

text \<open>\<open>INSERT .. ON CONFLICT(id) DO UPDATE SET record\<close>.\<close>

definition upsert_control_row :: "manager_store \<Rightarrow> control_row \<Rightarrow> StorageError + manager_store" where
  "upsert_control_row db row =
     (if \<exists>r\<in>set (ms_controls db). cw_id r = cw_id row then
        if 8192 < length (cw_record row) then Err StorageError.PersistenceUnavailable
        else Ok (db\<lparr> ms_controls := map (\<lambda>r. if cw_id r = cw_id row then row else r) (ms_controls db) \<rparr>)
      else insert_control_row db row)"

subsection \<open>runners.rs\<close>

definition run_by_id :: "catalog_codec \<Rightarrow> manager_store \<Rightarrow> RunId \<Rightarrow> StorageError + ManagedRun option" where
  "run_by_id codec db i = get_record (kd_run codec) uw_record (find (\<lambda>r. uw_id r = RunId_as_str i) (ms_runs db))"

definition run_by_task :: "catalog_codec \<Rightarrow> manager_store \<Rightarrow> TaskId \<Rightarrow> StorageError + ManagedRun option" where
  "run_by_task codec db task_id =
     get_record (kd_run codec) uw_record (find (\<lambda>r. uw_task r = TaskId_as_str task_id) (ms_runs db))"

definition reserve_run ::
    "catalog_codec \<Rightarrow> catalog_io \<Rightarrow> manager_store \<Rightarrow> TaskId \<Rightarrow> LocalPath \<Rightarrow> StorageError + manager_store \<times> RunnerResponse" where
  "reserve_run codec env db task_id runtime_root =
     and_then (run_by_task codec db task_id) (\<lambda>existing. case existing of
       Some run \<Rightarrow> Ok (db, Reserved run False)
     | None \<Rightarrow>
         and_then (get_record (kd_task codec) kw_record (find (\<lambda>r. kw_id r = TaskId_as_str task_id) (ms_tasks db))) (\<lambda>found.
         and_then (ok_or StorageError.InvalidRequest found) (\<lambda>task.
         and_then (capacity (length (ms_runs db)) MAX_MANAGED_RUNS 1) (\<lambda>_.
         and_then (fresh_id RunId_from_str (ci_entropy env 0)) (\<lambda>key.
         let run = \<lparr> mr_id = key, mr_task_id = task_id, mr_project_id = ta_project_id task,
               mr_runtime_root = runtime_root, mr_server = None \<rparr> in
         and_then (next_revision db) (\<lambda>next.
         and_then (encode_record (kc_run codec) run) (\<lambda>bytes.
         and_then (insert_run_row db \<lparr> uw_id = RunId_as_str key, uw_task = TaskId_as_str task_id,
           uw_project = ProjectId_as_str (mr_project_id run), uw_record = bytes \<rparr>) (\<lambda>db.
         and_then (fresh_id RunId_from_str (ci_entropy env 1)) (\<lambda>nonce.
         let control = ControlState_new key (Some nonce) in
         and_then (encode_record (kc_control codec) control) (\<lambda>bytes.
         and_then (insert_control_row db \<lparr> cw_id = RunId_as_str key, cw_record = bytes \<rparr>) (\<lambda>db.
         Ok (advanced db next, Reserved run True))))))))))))"

definition identify_run ::
    "catalog_codec \<Rightarrow> manager_store \<Rightarrow> RunId \<Rightarrow> ProcessIdentity \<Rightarrow> StorageError + manager_store \<times> RunnerResponse" where
  "identify_run codec db i server =
     and_then (run_by_id codec db i) (\<lambda>found.
     and_then (ok_or StorageError.InvalidRequest found) (\<lambda>run.
     if mr_server run \<noteq> None \<and> mr_server run \<noteq> Some server then Err StorageError.Conflict
     else
       let run = run\<lparr> mr_server := Some server \<rparr> in
       and_then (next_revision db) (\<lambda>next.
       and_then (encode_record (kc_run codec) run) (\<lambda>bytes.
       and_then (update_run_row db (RunId_as_str i) bytes) (\<lambda>db.
       Ok (advanced db next, Identified run))))))"

text \<open>The rows after the cursor, at most eleven; ten are shown.\<close>

definition run_rows :: "manager_store \<Rightarrow> ProjectId \<Rightarrow> RunId option \<Rightarrow> run_row list" where
  "run_rows db project_id after =
     take 11 (sort_key uw_id (filter (\<lambda>r. uw_project r = ProjectId_as_str project_id
       \<and> (case after of None \<Rightarrow> [] | Some i \<Rightarrow> RunId_as_str i) < uw_id r) (ms_runs db)))"

definition list_runs ::
    "catalog_codec \<Rightarrow> manager_store \<Rightarrow> ProjectId \<Rightarrow> RunId option \<Rightarrow> StorageError + RunnerResponse" where
  "list_runs codec db project_id after =
     and_then (decode_rows (kd_run codec) (map (\<lambda>r. (uw_id r, uw_record r)) (run_rows db project_id after))) (\<lambda>entries.
     let items = map snd entries;
         more = RUN_PAGE_SIZE < length items;
         items = take RUN_PAGE_SIZE items;
         next_after = (if more then (if items = [] then None else Some (RunId_as_str (mr_id (last items)))) else None)
     in map_ok (\<lambda>r. Listed \<lparr> pg_revision = r, pg_items = items, pg_next_after = next_after \<rparr>) (revision (ms_events db)))"

definition runner_execute ::
    "catalog_codec \<Rightarrow> catalog_io \<Rightarrow> manager_store \<Rightarrow> RunnerRequest \<Rightarrow> StorageError + manager_store \<times> RunnerResponse" where
  "runner_execute codec env db request = (case request of
     GetRun i \<Rightarrow> map_ok (\<lambda>found. (db, Found found)) (run_by_id codec db i)
   | ByTask task_id \<Rightarrow> map_ok (\<lambda>found. (db, Found found)) (run_by_task codec db task_id)
   | Reserve task_id runtime_root \<Rightarrow> reserve_run codec env db task_id runtime_root
   | Identify i server \<Rightarrow> identify_run codec db i server
   | ListRuns project_id after \<Rightarrow> map_ok (Pair db) (list_runs codec db project_id after))"

subsection \<open>runtime_control.rs\<close>

definition control_get :: "catalog_codec \<Rightarrow> manager_store \<Rightarrow> string \<Rightarrow> StorageError + ControlState option" where
  "control_get codec db i = get_record (kd_control codec) cw_record (find (\<lambda>r. cw_id r = i) (ms_controls db))"

text \<open>What a saved state refuses to give up.\<close>

definition gives_up :: "ControlState \<Rightarrow> ControlState \<Rightarrow> bool" where
  "gives_up old new \<longleftrightarrow> ct_launch_nonce old \<noteq> ct_launch_nonce new
     \<or> ct_invocation old \<noteq> None \<and> ct_invocation old \<noteq> ct_invocation new
     \<or> ct_pane old \<noteq> None \<and> ct_pane old \<noteq> ct_pane new
     \<or> ct_stopped old \<and> \<not> ct_stopped new
     \<or> ct_ending old \<and> \<not> ct_ending new
     \<or> (case ct_terminal old of None \<Rightarrow> False
         | Some t \<Rightarrow> ti_process t = None
             \<and> (case ct_terminal new of None \<Rightarrow> True | Some later \<Rightarrow> ti_nonce later \<noteq> ti_nonce t))"

definition control_save :: "catalog_codec \<Rightarrow> manager_store \<Rightarrow> ControlState \<Rightarrow> StorageError + manager_store \<times> RuntimeResponse" where
  "control_save codec db new =
     and_then (map_err (\<lambda>_. StorageError.InvalidRequest) (ControlState_validate codec new)) (\<lambda>_.
     and_then (control_get codec db (RunId_as_str (ct_id new))) (\<lambda>old.
     if old = Some new then Ok (db, Saved)
     else if old \<noteq> None \<and> gives_up (the old) new then Err StorageError.Conflict
     else
       and_then (next_revision db) (\<lambda>next.
       and_then (encode_record (kc_control codec) new) (\<lambda>bytes.
       and_then (upsert_control_row db \<lparr> cw_id = RunId_as_str (ct_id new), cw_record = bytes \<rparr>) (\<lambda>db.
       Ok (advanced db next, Saved))))))"

text \<open>The other runs, each joined with its project and, where there is one, its control state.\<close>

fun other_writers ::
    "catalog_codec \<Rightarrow> manager_store \<Rightarrow> PathIdentity \<Rightarrow> nat \<Rightarrow> run_row list \<Rightarrow> StorageError + bool" where
  "other_writers codec db identity seen [] = Ok False"
| "other_writers codec db identity seen (row # rows) =
     (case find (\<lambda>g. gw_id g = uw_project row) (ms_projects db) of
        None \<Rightarrow> other_writers codec db identity seen rows
      | Some project \<Rightarrow>
          if MAX_MANAGED_RUNS \<le> seen then Err StorageError.ResourceExhausted
          else
            and_then (ok_or CorruptDatabase (kd_project codec (gw_record project))) (\<lambda>other.
            and_then (control_get codec db (uw_id row)) (\<lambda>control.
            if pj_identity other = identity \<and> \<not> (case control of None \<Rightarrow> False | Some c \<Rightarrow> ct_stopped c) then Ok True
            else other_writers codec db identity (Suc seen) rows)))"

definition control_execute ::
    "catalog_codec \<Rightarrow> manager_store \<Rightarrow> RuntimeRequest \<Rightarrow> StorageError + manager_store \<times> RuntimeResponse" where
  "control_execute codec db request = (case request of
     GetControl i \<Rightarrow> map_ok (\<lambda>found. (db, StateFound found)) (control_get codec db (RunId_as_str i))
   | SaveControl new \<Rightarrow> control_save codec db new
   | OtherWriters project_id task_id \<Rightarrow>
       and_then (get_record (kd_project codec) gw_record
         (find (\<lambda>r. gw_id r = ProjectId_as_str project_id) (ms_projects db))) (\<lambda>found.
       and_then (ok_or StorageError.InvalidRequest found) (\<lambda>project.
       map_ok (\<lambda>busy. (db, WritersFound busy))
         (other_writers codec db (pj_identity project) 0
           (filter (\<lambda>r. uw_task r \<noteq> TaskId_as_str task_id) (ms_runs db))))))"

subsection \<open>The manager's requests to the store (storage/types.rs, storage/validation.rs, storage/engine.rs)\<close>

text \<open>The whole \<open>Request\<close>: the manager's three kinds, and those of \<open>Store_Maintain\<close> on the event tables.\<close>

datatype ManagerRequest =
    Runner RunnerRequest
  | RuntimeControl RuntimeRequest
  | Catalog CatalogRequest
  | Stored Request

datatype ManagerResponse =
    RunnerDone RunnerResponse
  | ControlDone RuntimeResponse
  | CatalogDone CatalogResponse
  | StoredDone Response

definition manager_validate :: "catalog_codec \<Rightarrow> store_codec \<Rightarrow> ManagerRequest \<Rightarrow> StorageError + unit" where
  "manager_validate codec sk request = (case request of
     RuntimeControl (SaveControl c) \<Rightarrow> map_err (\<lambda>_. StorageError.InvalidRequest) (ControlState_validate codec c)
   | Runner (Identify _ server) \<Rightarrow>
       if pr_pid server = 0 \<or> pr_start_ticks server = 0 \<or> \<not> is_ok (RunId_from_str (pr_boot_id server))
       then Err StorageError.InvalidRequest else Ok ()
   | Catalog request \<Rightarrow> map_err project_error (CatalogRequest_validate request)
   | Stored request \<Rightarrow> validate_request sk request
   | _ \<Rightarrow> Ok ())"

definition manager_execute ::
    "catalog_codec \<Rightarrow> store_codec \<Rightarrow> catalog_io \<Rightarrow> (u8 list \<times> nat) option \<Rightarrow> nat \<Rightarrow> manager_store \<Rightarrow> ManagerRequest
     \<Rightarrow> StorageError + manager_store \<times> ManagerResponse" where
  "manager_execute codec sk env entropy owner db request = (case request of
     Runner request \<Rightarrow> map_ok (map_prod id RunnerDone) (runner_execute codec env db request)
   | RuntimeControl request \<Rightarrow> map_ok (map_prod id ControlDone) (control_execute codec db request)
   | Catalog request \<Rightarrow> map_ok (map_prod id CatalogDone) (catalog_execute codec env db request)
   | Stored request \<Rightarrow> map_ok (map_prod (\<lambda>events. db\<lparr> ms_events := events \<rparr>) StoredDone)
       (answer_request sk entropy owner (ms_events db) request))"

definition manager_dispatch ::
    "catalog_codec \<Rightarrow> store_codec \<Rightarrow> catalog_io \<Rightarrow> engine_io \<Rightarrow> nat \<Rightarrow> ManagerRequest \<Rightarrow> manager_store
     \<Rightarrow> manager_store state_files \<Rightarrow> manager_store state_files \<times> (StorageError + manager_store \<times> ManagerResponse)" where
  "manager_dispatch codec sk env files owner request db stored =
     (if request = Stored Backup
      then map_prod id (map_ok (\<lambda>_. (db, StoredDone BackupComplete))) (backup_create files db stored)
      else (stored, manager_execute codec sk env (eo_entropy files) owner db request))"

definition manager_read_only :: "ManagerRequest \<Rightarrow> bool" where
  "manager_read_only request \<longleftrightarrow> (case request of
     Runner (ListRuns _ _) \<Rightarrow> True | Runner (GetRun _) \<Rightarrow> True | Runner (ByTask _) \<Rightarrow> True
   | RuntimeControl (SaveControl _) \<Rightarrow> False | RuntimeControl _ \<Rightarrow> True
   | Catalog catalog \<Rightarrow> CatalogRequest_is_read catalog
   | Stored request \<Rightarrow> read_only request
   | _ \<Rightarrow> False)"

definition manager_kind :: "manager_store store_kind" where
  "manager_kind = \<lparr> vi_revision = (\<lambda>db. revision (ms_events db)),
     vi_invalidate = (\<lambda>db forced. map_ok (\<lambda>events. db\<lparr> ms_events := events \<rparr>) (invalidate_generations (ms_events db) forced)) \<rparr>"

type_synonym manager_engine = "manager_store store_engine"

text \<open>\<open>Engine::execute\<close> on the manager's whole store, its restoration included.\<close>

definition manager_call ::
    "catalog_codec \<Rightarrow> store_codec \<Rightarrow> catalog_io \<Rightarrow> engine_io \<Rightarrow> manager_engine \<Rightarrow> ManagerRequest
     \<Rightarrow> manager_engine \<times> (StorageError + ManagerResponse)" where
  "manager_call codec sk env files self request =
     try_st (self, manager_validate codec sk request) (\<lambda>self _.
     if (case request of Stored (ApplyCleanup plan) \<Rightarrow> en_owner self \<noteq> cp_owner plan | _ \<Rightarrow> False)
     then (self, Err StorageError.Conflict)
     else
       try_st (self, eo_paths files) (\<lambda>self _.
       if request = Stored RestoreBackup
       then map_prod id (map_ok (\<lambda>n. StoredDone (Restored n))) (restore_store manager_kind files self)
       else serve_request files (manager_read_only request)
         (manager_dispatch codec sk env files (en_owner self) request) self))"

end
