(* ===== verification/Catalog_Safety.thy ===== *)
theory Catalog_Safety
  imports Managed_Runs
begin

section \<open>What the manager's tables keep\<close>

text \<open>
  Every row decodes to a record whose keys are the row's, the keys are unique, every reference leads
  to a row, and the tables stay within their bounds: an invariant of every request. From it: a stored
  task always resolves, a run belongs to its task's project, and a control state only moves forward.
  The JSON library is assumed to read back what it wrote (\<open>codec_ok\<close>).
\<close>

definition codec_ok :: "catalog_codec \<Rightarrow> bool" where
  "codec_ok codec \<longleftrightarrow>
     (\<forall>x b. kc_project codec x = Some b \<longrightarrow> kd_project codec b = Some x) \<and>
     (\<forall>x b. kc_preset codec x = Some b \<longrightarrow> kd_preset codec b = Some x) \<and>
     (\<forall>x b. kc_task codec x = Some b \<longrightarrow> kd_task codec b = Some x) \<and>
     (\<forall>x b. kc_run codec x = Some b \<longrightarrow> kd_run codec b = Some x) \<and>
     (\<forall>x b. kc_control codec x = Some b \<longrightarrow> kd_control codec b = Some x)"

subsection \<open>Rows that hold their record\<close>

definition project_row_ok :: "catalog_codec \<Rightarrow> project_row \<Rightarrow> bool" where
  "project_row_ok codec r \<longleftrightarrow> (case kd_project codec (gw_record r) of None \<Rightarrow> False
     | Some p \<Rightarrow> gw_id r \<noteq> [] \<and> gw_id r = ProjectId_as_str (pj_id p) \<and> gw_root r = LocalPath_as_str (pj_root p))"

definition preset_row_ok :: "catalog_codec \<Rightarrow> preset_row \<Rightarrow> bool" where
  "preset_row_ok codec r \<longleftrightarrow> (case kd_preset codec (sw_record r) of None \<Rightarrow> False | Some p \<Rightarrow> sw_name r = ps_name p)"

definition task_row_ok :: "catalog_codec \<Rightarrow> task_row \<Rightarrow> bool" where
  "task_row_ok codec r \<longleftrightarrow> (case kd_task codec (kw_record r) of None \<Rightarrow> False
     | Some t \<Rightarrow> kw_id r = TaskId_as_str (ta_id t) \<and> kw_project r = ProjectId_as_str (ta_project_id t)
         \<and> kw_preset r = ta_preset t \<and> kw_label r = TaskLabel_as_str (ta_label t))"

definition run_row_ok :: "catalog_codec \<Rightarrow> run_row \<Rightarrow> bool" where
  "run_row_ok codec r \<longleftrightarrow> (case kd_run codec (uw_record r) of None \<Rightarrow> False
     | Some m \<Rightarrow> uw_id r = RunId_as_str (mr_id m) \<and> uw_task r = TaskId_as_str (mr_task_id m)
         \<and> uw_project r = ProjectId_as_str (mr_project_id m))"

definition control_row_ok :: "catalog_codec \<Rightarrow> control_row \<Rightarrow> bool" where
  "control_row_ok codec r \<longleftrightarrow> (case kd_control codec (cw_record r) of None \<Rightarrow> False
     | Some c \<Rightarrow> cw_id r = RunId_as_str (ct_id c) \<and> ControlState_validate codec c = Ok ())"

lemmas row_ok_defs = project_row_ok_def preset_row_ok_def task_row_ok_def run_row_ok_def control_row_ok_def

subsection \<open>The invariant\<close>

definition rows_ok :: "catalog_codec \<Rightarrow> manager_store \<Rightarrow> bool" where
  "rows_ok codec db \<longleftrightarrow> list_all (project_row_ok codec) (ms_projects db) \<and> list_all (preset_row_ok codec) (ms_presets db)
     \<and> list_all (task_row_ok codec) (ms_tasks db) \<and> list_all (run_row_ok codec) (ms_runs db)
     \<and> list_all (control_row_ok codec) (ms_controls db)"

definition unique_keys :: "manager_store \<Rightarrow> bool" where
  "unique_keys db \<longleftrightarrow> distinct (map gw_id (ms_projects db)) \<and> distinct (map gw_root (ms_projects db))
     \<and> distinct (map sw_name (ms_presets db)) \<and> distinct (map kw_id (ms_tasks db))
     \<and> distinct (map (\<lambda>r. (kw_project r, kw_label r)) (ms_tasks db))
     \<and> distinct (map uw_id (ms_runs db)) \<and> distinct (map uw_task (ms_runs db)) \<and> distinct (map cw_id (ms_controls db))"

definition references_ok :: "manager_store \<Rightarrow> bool" where
  "references_ok db \<longleftrightarrow>
     (\<forall>t\<in>set (ms_tasks db). kw_project t \<in> gw_id ` set (ms_projects db) \<and> kw_preset t \<in> sw_name ` set (ms_presets db))
     \<and> (\<forall>r\<in>set (ms_runs db). (uw_task r, uw_project r) \<in> (\<lambda>t. (kw_id t, kw_project t)) ` set (ms_tasks db))
     \<and> (\<forall>c\<in>set (ms_controls db). cw_id c \<in> uw_id ` set (ms_runs db))"

definition tables_bounded :: "manager_store \<Rightarrow> bool" where
  "tables_bounded db \<longleftrightarrow> length (ms_projects db) \<le> MAX_PROJECTS \<and> length (ms_presets db) \<le> MAX_PRESETS
     \<and> length (ms_tasks db) \<le> MAX_TASKS \<and> length (ms_runs db) \<le> MAX_MANAGED_RUNS"

definition manager_ok :: "catalog_codec \<Rightarrow> manager_store \<Rightarrow> bool" where
  "manager_ok codec db \<longleftrightarrow> rows_ok codec db \<and> unique_keys db \<and> references_ok db \<and> tables_bounded db"

lemmas manager_defs = manager_ok_def rows_ok_def unique_keys_def references_ok_def tables_bounded_def

lemma manager_ok_advanced [simp]: "manager_ok codec (advanced db next) = manager_ok codec db"
  by (simp add: manager_defs advanced_def)

lemma advanced_fields [simp]:
  "ms_projects (advanced db next) = ms_projects db" "ms_presets (advanced db next) = ms_presets db"
  "ms_tasks (advanced db next) = ms_tasks db" "ms_runs (advanced db next) = ms_runs db"
  "ms_controls (advanced db next) = ms_controls db"
  by (simp_all add: advanced_def)

lemma capacity_room: "capacity n maximum 1 = Ok u \<Longrightarrow> n < maximum"
  by (auto simp: capacity_def result_simps split: if_splits)

lemma get_record_Ok:
  "get_record dec cell row = Ok found \<longleftrightarrow>
     (row = None \<and> found = None) \<or> (\<exists>r x. row = Some r \<and> dec (cell r) = Some x \<and> found = Some x)"
  by (cases row) (auto simp: get_record_def result_simps)

subsection \<open>Inserting a row\<close>

lemma insert_project_keeps:
  assumes ok: "manager_ok codec db" and ins: "insert_project_row db row = Ok db'" and row: "project_row_ok codec row"
    and room: "length (ms_projects db) < MAX_PROJECTS"
  shows "manager_ok codec db'"
proof -
  from ins have db': "db' = db\<lparr> ms_projects := ms_projects db @ [row] \<rparr>"
    and new: "gw_id row \<notin> gw_id ` set (ms_projects db)" "gw_root row \<notin> gw_root ` set (ms_projects db)"
    by (auto simp: insert_project_row_def split: if_splits)
  show ?thesis using ok row room new by (simp add: db' manager_defs)
qed

lemma insert_preset_keeps:
  assumes ok: "manager_ok codec db" and ins: "insert_preset_row db row = Ok db'" and row: "preset_row_ok codec row"
    and room: "length (ms_presets db) < MAX_PRESETS"
  shows "manager_ok codec db'"
proof -
  from ins have db': "db' = db\<lparr> ms_presets := ms_presets db @ [row] \<rparr>" and new: "sw_name row \<notin> sw_name ` set (ms_presets db)"
    by (auto simp: insert_preset_row_def split: if_splits)
  show ?thesis using ok row room new by (simp add: db' manager_defs)
qed

lemma insert_task_keeps:
  assumes ok: "manager_ok codec db" and ins: "insert_task_row db row = Ok db'" and row: "task_row_ok codec row"
    and room: "length (ms_tasks db) < MAX_TASKS"
  shows "manager_ok codec db'"
proof -
  from ins have db': "db' = db\<lparr> ms_tasks := ms_tasks db @ [row] \<rparr>"
    and new: "kw_id row \<notin> kw_id ` set (ms_tasks db)"
      "(kw_project row, kw_label row) \<notin> (\<lambda>r. (kw_project r, kw_label r)) ` set (ms_tasks db)"
    and refs: "kw_project row \<in> gw_id ` set (ms_projects db)" "kw_preset row \<in> sw_name ` set (ms_presets db)"
    by (auto simp: insert_task_row_def image_iff split: if_splits) metis+
  show ?thesis using ok row room new refs by (simp add: db' manager_defs)
qed

lemma insert_run_keeps:
  assumes ok: "manager_ok codec db" and ins: "insert_run_row db row = Ok db'" and row: "run_row_ok codec row"
    and room: "length (ms_runs db) < MAX_MANAGED_RUNS"
    and ref: "(uw_task row, uw_project row) \<in> (\<lambda>t. (kw_id t, kw_project t)) ` set (ms_tasks db)"
  shows "manager_ok codec db'"
proof -
  from ins have db': "db' = db\<lparr> ms_runs := ms_runs db @ [row] \<rparr>"
    and new: "uw_id row \<notin> uw_id ` set (ms_runs db)" "uw_task row \<notin> uw_task ` set (ms_runs db)"
    by (auto simp: insert_run_row_def split: if_splits)
  show ?thesis using ok row room new ref by (simp add: db' manager_defs)
qed

lemma insert_control_keeps:
  assumes ok: "manager_ok codec db" and ins: "insert_control_row db row = Ok db'" and row: "control_row_ok codec row"
  shows "manager_ok codec db'"
proof -
  from ins have db': "db' = db\<lparr> ms_controls := ms_controls db @ [row] \<rparr>"
    and new: "cw_id row \<notin> cw_id ` set (ms_controls db)" and ref: "cw_id row \<in> uw_id ` set (ms_runs db)"
    by (auto simp: insert_control_row_def image_iff split: if_splits) metis+
  show ?thesis using ok row new ref by (simp add: db' manager_defs)
qed

text \<open>Rows replaced in place keep their key.\<close>

lemma replace_runs:
  assumes "manager_ok codec db" and ids: "map uw_id runs = map uw_id (ms_runs db)"
    and "map (\<lambda>r. (uw_task r, uw_project r)) runs = map (\<lambda>r. (uw_task r, uw_project r)) (ms_runs db)"
    and "list_all (run_row_ok codec) runs"
  shows "manager_ok codec (db\<lparr> ms_runs := runs \<rparr>)"
proof -
  have "uw_id ` set runs = uw_id ` set (ms_runs db)" using ids by (metis list.set_map)
  moreover have "length runs = length (ms_runs db)" using ids by (rule map_eq_imp_length_eq)
  moreover have "map uw_task runs = map uw_task (ms_runs db)"
    using arg_cong [OF assms(3), of "map fst"] by (simp add: o_def)
  moreover have "(\<lambda>r. (uw_task r, uw_project r)) ` set runs = (\<lambda>r. (uw_task r, uw_project r)) ` set (ms_runs db)"
    using assms(3) by (metis list.set_map)
  then have "\<forall>r\<in>set runs. (uw_task r, uw_project r) \<in> (\<lambda>t. (kw_id t, kw_project t)) ` set (ms_tasks db)"
    using assms(1) by (auto simp: manager_defs) (metis (no_types, lifting) image_iff)
  ultimately show ?thesis using assms by (simp add: manager_defs)
qed

lemma replace_controls:
  assumes "manager_ok codec db" and ids: "map cw_id controls = map cw_id (ms_controls db)"
    and "list_all (control_row_ok codec) controls"
  shows "manager_ok codec (db\<lparr> ms_controls := controls \<rparr>)"
proof -
  have "cw_id ` set controls = cw_id ` set (ms_controls db)" using ids by (metis list.set_map)
  then have "\<forall>c\<in>set controls. cw_id c \<in> uw_id ` set (ms_runs db)"
    using assms(1) by (auto simp: manager_defs) (metis (no_types, lifting) image_iff)
  then show ?thesis using assms by (simp add: manager_defs)
qed

lemma update_run_keeps:
  assumes ok: "manager_ok codec db" and up: "update_run_row db i bytes = Ok db'"
    and new: "\<And>r. r \<in> set (ms_runs db) \<Longrightarrow> uw_id r = i \<Longrightarrow> run_row_ok codec (r\<lparr> uw_record := bytes \<rparr>)"
  shows "manager_ok codec db'"
proof -
  let ?f = "\<lambda>r. if uw_id r = i then r\<lparr> uw_record := bytes \<rparr> else r"
  from up have "db' = db\<lparr> ms_runs := map ?f (ms_runs db) \<rparr>" by (auto simp: update_run_row_def split: if_splits)
  moreover have "manager_ok codec (db\<lparr> ms_runs := map ?f (ms_runs db) \<rparr>)"
    using ok new by (intro replace_runs) (auto simp: list_all_iff manager_defs)
  ultimately show ?thesis by simp
qed

lemma upsert_control_keeps:
  assumes ok: "manager_ok codec db" and up: "upsert_control_row db row = Ok db'" and new: "control_row_ok codec row"
  shows "manager_ok codec db'"
proof (cases "\<exists>r\<in>set (ms_controls db). cw_id r = cw_id row")
  case True
  let ?f = "\<lambda>r. if cw_id r = cw_id row then row else r"
  from up True have "db' = db\<lparr> ms_controls := map ?f (ms_controls db) \<rparr>"
    by (auto simp: upsert_control_row_def split: if_splits)
  moreover have "manager_ok codec (db\<lparr> ms_controls := map ?f (ms_controls db) \<rparr>)"
    using ok new by (intro replace_controls) (auto simp: list_all_iff manager_defs)
  ultimately show ?thesis by simp
next
  case False
  with up have "insert_control_row db row = Ok db'" by (auto simp: upsert_control_row_def)
  from insert_control_keeps [OF ok this new] show ?thesis .
qed

subsection \<open>Every request keeps the invariant\<close>

lemma codec_okD:
  assumes "codec_ok codec"
  shows "kc_project codec p = Some b \<Longrightarrow> kd_project codec b = Some p"
    and "kc_preset codec q = Some b \<Longrightarrow> kd_preset codec b = Some q"
    and "kc_task codec t = Some b \<Longrightarrow> kd_task codec b = Some t"
    and "kc_run codec m = Some b \<Longrightarrow> kd_run codec b = Some m"
    and "kc_control codec c = Some b \<Longrightarrow> kd_control codec b = Some c"
  using assms by (auto simp: codec_ok_def)

lemma encode_record_Ok [result_simps]: "encode_record encode x = Ok b \<longleftrightarrow> encode x = Some b"
  by (simp add: encode_record_def result_simps)

lemma fresh_control_valid:
  "kc_control codec (ControlState_new i nonce) = Some b \<Longrightarrow> length b \<le> 8192 \<Longrightarrow>
     ControlState_validate codec (ControlState_new i nonce) = Ok ()"
  by (simp add: ControlState_validate_def ControlState_new_def)

lemma fresh_project_id: "fresh_id ProjectId_from_str entropy = Ok key \<Longrightarrow> ProjectId_as_str key \<noteq> []"
  by (auto simp: fresh_id_def result_simps ProjectId_from_str_def string_type_from_str_def canonical_uuid_def split: if_splits)

lemma add_project_keeps:
  assumes codec: "codec_ok codec" and ok: "manager_ok codec db" and r: "add_project codec env db root label = Ok (db', p)"
  shows "manager_ok codec db'"
proof (cases "db' = db")
  case False
  with r obtain key identity bytes db1 "next" where room: "capacity (length (ms_projects db)) MAX_PROJECTS 1 = Ok ()"
      and key: "fresh_id ProjectId_from_str (ci_entropy env 0) = Ok key"
      and bytes: "kc_project codec \<lparr> pj_id = key, pj_label = label, pj_root = root, pj_identity = identity \<rparr> = Some bytes"
      and db1: "insert_project_row db \<lparr> gw_id = ProjectId_as_str key, gw_root = LocalPath_as_str root, gw_record = bytes \<rparr> = Ok db1"
      and db': "db' = advanced db1 next"
    by (auto simp: add_project_def result_simps Let_def get_record_Ok split: option.splits if_splits)
  have "manager_ok codec db1"
    by (rule insert_project_keeps [OF ok db1])
      (use codec_okD(1) [OF codec bytes] capacity_room [OF room] fresh_project_id [OF key] in \<open>simp_all add: project_row_ok_def\<close>)
  then show ?thesis by (simp add: db')
qed (use ok in simp)

lemma add_preset_keeps:
  assumes codec: "codec_ok codec" and ok: "manager_ok codec db"
    and r: "add_preset codec env db name executable profile = Ok (db', p)"
  shows "manager_ok codec db'"
proof (cases "db' = db")
  case False
  with r obtain identity bytes db1 "next" where room: "capacity (length (ms_presets db)) MAX_PRESETS 1 = Ok ()"
      and bytes: "kc_preset codec \<lparr> ps_name = name, ps_executable = executable, ps_identity = identity, ps_profile = profile \<rparr> = Some bytes"
      and db1: "insert_preset_row db \<lparr> sw_name = name, sw_record = bytes \<rparr> = Ok db1"
      and db': "db' = advanced db1 next"
    by (auto simp: add_preset_def result_simps Let_def get_record_Ok split: option.splits if_splits)
  have "manager_ok codec db1"
    by (rule insert_preset_keeps [OF ok db1])
      (use codec_okD(2) [OF codec bytes] capacity_room [OF room] in \<open>simp_all add: preset_row_ok_def\<close>)
  then show ?thesis by (simp add: db')
qed (use ok in simp)

lemma add_task_keeps:
  assumes codec: "codec_ok codec" and ok: "manager_ok codec db"
    and r: "add_task codec env db project_id preset label = Ok (db', t)"
  shows "manager_ok codec db'"
proof (cases "db' = db")
  case False
  with r obtain key bytes db1 "next" where room: "capacity (length (ms_tasks db)) MAX_TASKS 1 = Ok ()"
      and bytes: "kc_task codec \<lparr> ta_id = key, ta_project_id = project_id, ta_preset = preset, ta_label = label \<rparr> = Some bytes"
      and db1: "insert_task_row db \<lparr> kw_id = TaskId_as_str key, kw_project = ProjectId_as_str project_id,
               kw_preset = preset, kw_label = TaskLabel_as_str label, kw_record = bytes \<rparr> = Ok db1"
      and db': "db' = advanced db1 next"
    unfolding add_task_def and_then_Ok
    by (auto simp: result_simps Let_def get_record_Ok split: option.splits if_splits)
  have "manager_ok codec db1"
    by (rule insert_task_keeps [OF ok db1])
      (use codec_okD(3) [OF codec bytes] capacity_room [OF room] in \<open>simp_all add: task_row_ok_def\<close>)
  then show ?thesis by (simp add: db')
qed (use ok in simp)

lemma catalog_execute_keeps:
  assumes "codec_ok codec" and "manager_ok codec db" and "catalog_execute codec env db request = Ok (db', response)"
  shows "manager_ok codec db'"
  using assms(2,3)
  by (auto simp: catalog_execute_def result_simps map_prod_def split: CatalogRequest.splits prod.splits
      dest: add_project_keeps [OF assms(1,2)] add_preset_keeps [OF assms(1,2)] add_task_keeps [OF assms(1,2)])

lemma stored_task:
  assumes "manager_ok codec db" and "r \<in> set (ms_tasks db)" and "kd_task codec (kw_record r) = Some t"
  shows "kw_id r = TaskId_as_str (ta_id t) \<and> kw_project r = ProjectId_as_str (ta_project_id t) \<and> kw_preset r = ta_preset t"
  using assms by (auto simp: manager_defs list_all_iff task_row_ok_def)

lemma reserve_keeps:
  assumes codec: "codec_ok codec" and ok: "manager_ok codec db" and r: "reserve_run codec env db task_id root = Ok (db', response)"
  shows "manager_ok codec db'"
proof (cases "run_by_task codec db task_id = Ok None")
  case False
  with r ok show ?thesis by (auto simp: reserve_run_def result_simps split: option.splits)
next
  case True
  with r obtain row task key nonce run bytes db1 db2 bytes' "next"
    where row: "find (\<lambda>r. kw_id r = TaskId_as_str task_id) (ms_tasks db) = Some row"
      and task: "kd_task codec (kw_record row) = Some task"
      and room: "capacity (length (ms_runs db)) MAX_MANAGED_RUNS 1 = Ok ()"
      and run: "run = \<lparr> mr_id = key, mr_task_id = task_id, mr_project_id = ta_project_id task,
               mr_runtime_root = root, mr_server = None \<rparr>"
      and bytes: "kc_run codec run = Some bytes"
      and db1: "insert_run_row db \<lparr> uw_id = RunId_as_str key, uw_task = TaskId_as_str task_id,
           uw_project = ProjectId_as_str (ta_project_id task), uw_record = bytes \<rparr> = Ok db1"
      and bytes': "kc_control codec (ControlState_new key (Some nonce)) = Some bytes'"
      and db2: "insert_control_row db1 \<lparr> cw_id = RunId_as_str key, cw_record = bytes' \<rparr> = Ok db2"
      and db': "db' = advanced db2 next"
    by (auto simp: reserve_run_def result_simps Let_def get_record_Ok)
  from find_SomeD [OF row] have mem: "row \<in> set (ms_tasks db)" "kw_id row = TaskId_as_str task_id" by auto
  from stored_task [OF ok mem(1) task] have p: "kw_project row = ProjectId_as_str (ta_project_id task)" by simp
  have ref: "(TaskId_as_str task_id, ProjectId_as_str (ta_project_id task)) \<in> (\<lambda>t. (kw_id t, kw_project t)) ` set (ms_tasks db)"
    by (rule image_eqI [of _ _ row]) (use mem p in simp_all)
  have one: "manager_ok codec db1"
    by (rule insert_run_keeps [OF ok db1]) (use codec_okD(4) [OF codec bytes] run ref capacity_room [OF room] in \<open>simp_all add: run_row_ok_def\<close>)
  have "length bytes' \<le> 8192" using db2 by (auto simp: insert_control_row_def split: if_splits)
  with fresh_control_valid [OF bytes'] codec_okD(5) [OF codec bytes']
  have "control_row_ok codec \<lparr> cw_id = RunId_as_str key, cw_record = bytes' \<rparr>"
    by (simp add: control_row_ok_def ControlState_new_def)
  from insert_control_keeps [OF one db2 this] show ?thesis by (simp add: db')
qed

lemma identify_keeps:
  assumes codec: "codec_ok codec" and ok: "manager_ok codec db" and r: "identify_run codec db i server = Ok (db', response)"
  shows "manager_ok codec db'"
proof -
  from r obtain row run bytes db1 "next"
    where row: "find (\<lambda>r. uw_id r = RunId_as_str i) (ms_runs db) = Some row"
      and run: "kd_run codec (uw_record row) = Some run"
      and bytes: "kc_run codec (run\<lparr> mr_server := Some server \<rparr>) = Some bytes"
      and db1: "update_run_row db (RunId_as_str i) bytes = Ok db1" and db': "db' = advanced db1 next"
    by (auto simp: identify_run_def run_by_id_def result_simps Let_def get_record_Ok split: if_splits)
  from find_SomeD [OF row] have mem: "row \<in> set (ms_runs db)" "uw_id row = RunId_as_str i" by auto
  have same: "r = row" if "r \<in> set (ms_runs db)" "uw_id r = RunId_as_str i" for r
  proof -
    have "inj_on uw_id (set (ms_runs db))" using ok by (simp add: manager_defs distinct_map)
    with that mem show ?thesis by (metis inj_onD)
  qed
  from ok mem(1) run have keys: "run_row_ok codec row" by (simp add: manager_defs list_all_iff)
  have "manager_ok codec db1"
  proof (rule update_run_keeps [OF ok db1])
    fix r assume "r \<in> set (ms_runs db)" "uw_id r = RunId_as_str i"
    with same have "r = row" by blast
    with keys run codec_okD(4) [OF codec bytes] show "run_row_ok codec (r\<lparr> uw_record := bytes \<rparr>)"
      by (simp add: run_row_ok_def)
  qed
  then show ?thesis by (simp add: db')
qed

lemma control_save_keeps:
  assumes codec: "codec_ok codec" and ok: "manager_ok codec db" and r: "control_save codec db new = Ok (db', response)"
  shows "manager_ok codec db'"
proof (cases "db' = db")
  case False
  with r obtain bytes db1 "next" where valid: "ControlState_validate codec new = Ok ()"
      and bytes: "kc_control codec new = Some bytes"
      and db1: "upsert_control_row db \<lparr> cw_id = RunId_as_str (ct_id new), cw_record = bytes \<rparr> = Ok db1"
      and db': "db' = advanced db1 next"
    by (auto simp: control_save_def result_simps split: if_splits)
  have "manager_ok codec db1"
    by (rule upsert_control_keeps [OF ok db1]) (use valid codec_okD(5) [OF codec bytes] in \<open>simp add: control_row_ok_def\<close>)
  then show ?thesis by (simp add: db')
qed (use ok in simp)

lemma manager_ok_events: "manager_ok codec (db\<lparr> ms_events := events \<rparr>) = manager_ok codec db"
  by (simp add: manager_defs)

lemma manager_execute_keeps:
  assumes "codec_ok codec" and "manager_ok codec db" and "manager_execute codec sk env entropy owner db request = Ok (db', response)"
  shows "manager_ok codec db'"
  using assms(2,3)
  by (auto simp: manager_execute_def runner_execute_def control_execute_def result_simps map_prod_def manager_ok_events
      split: ManagerRequest.splits RunnerRequest.splits RuntimeRequest.splits prod.splits
      dest: catalog_execute_keeps [OF assms(1,2)] reserve_keeps [OF assms(1,2)] identify_keeps [OF assms(1,2)]
        control_save_keeps [OF assms(1,2)])

text \<open>So it is kept of every file of the store as well.\<close>

interpretation manager_files: store_contents manager_kind "manager_ok codec" for codec
  by unfold_locales (auto simp: manager_kind_def manager_ok_events map_ok_Ok)

end
