(* ===== verification/Catalog_Properties.thy ===== *)
theory Catalog_Properties
  imports Catalog_Safety Store_Samples
begin

section \<open>Properties of the manager's store\<close>

text \<open>
  What the invariant gives the manager: a history of requests never breaks the tables, a stored task
  always leads to its project and preset, a task has one run however often it is reserved, and a
  confirmed control state is never taken back. The pages of a listing visit every row once.
\<close>

subsection \<open>Histories of requests\<close>

type_synonym manager_step = "catalog_io \<times> engine_io \<times> ManagerRequest"

definition manager_history ::
    "catalog_codec \<Rightarrow> store_codec \<Rightarrow> manager_engine \<Rightarrow> manager_step list \<Rightarrow> manager_engine" where
  "manager_history codec sk = foldl (\<lambda>self (env, files, request). fst (manager_call codec sk env files self request))"

definition empty_store :: "database \<Rightarrow> manager_store" where
  "empty_store db = \<lparr> ms_events = db, ms_projects = [], ms_presets = [], ms_tasks = [], ms_runs = [], ms_controls = [] \<rparr>"

lemma manager_call_cases:
  assumes "manager_call codec sk env files self request = (self', x)"
  obtains (refused) "self' = self"
  | (served) db entropy owner db' response where "en_connection self = Some db" "self' = self\<lparr> en_connection := Some db' \<rparr>"
      "manager_execute codec sk env entropy owner db request = Ok (db', response)"
  | (backup) db stored r where "en_connection self = Some db" "self' = self\<lparr> en_files := stored \<rparr>"
      "backup_create files db (en_files self) = (stored, r)"
  | (restore) r where "request = Stored RestoreBackup" "restore_store manager_kind files self = (self', r)"
proof -
  consider "self' = self"
    | "request = Stored RestoreBackup" "map_prod id (map_ok (\<lambda>n. StoredDone (Restored n))) (restore_store manager_kind files self) = (self', x)"
    | db where "en_connection self = Some db"
      "try_st (on_files (manager_dispatch codec sk env files (en_owner self) request db) self)
        (\<lambda>self (db, response). (self\<lparr> en_connection := Some db \<rparr>, Ok response)) = (self', x)"
    using assms unfolding manager_call_def serve_request_def
    by (cases "en_connection self") (auto simp: try_st_eq split: if_splits)
  then show thesis
  proof cases
    case 2
    then show thesis by (cases "restore_store manager_kind files self") (auto intro: restore)
  next
    case (3 db)
    show thesis
    proof (cases "request = Stored Backup")
      case True
      obtain stored r where "backup_create files db (en_files self) = (stored, r)" by fastforce
      with 3 True show thesis
        by (intro backup) (auto simp: manager_dispatch_def on_files_def try_st_eq map_ok_def split: sum.splits)
    next
      case False
      show thesis
      proof (cases "manager_execute codec sk env (eo_entropy files) (en_owner self) db request")
        case (Inl e)
        with 3 False show thesis by (intro refused) (auto simp: manager_dispatch_def on_files_def)
      next
        case (Inr done')
        obtain db' response where "done' = (db', response)" by fastforce
        with Inr 3 False show thesis by (intro served) (auto simp: manager_dispatch_def on_files_def)
      qed
    qed
  qed (rule refused)
qed

lemma manager_history_Cons:
  "manager_history codec sk self ((env, files, request) # steps)
     = manager_history codec sk (fst (manager_call codec sk env files self request)) steps"
  by (simp add: manager_history_def)

lemma manager_call_keeps:
  assumes "codec_ok codec" and "manager_call codec sk env files self request = (self', x)" and "engine_all (manager_ok codec) self"
  shows "engine_all (manager_ok codec) self'"
  using assms(2)
proof (cases rule: manager_call_cases)
  case (served db entropy owner db' response)
  with assms(3) manager_execute_keeps [OF assms(1)] show ?thesis by (auto simp: engine_all_def)
next
  case (backup db stored r)
  with assms(3) manager_files.backup_create_all show ?thesis by (auto simp: engine_all_def)
next
  case (restore r)
  from manager_files.restore_store_all [OF restore(2) assms(3)] show ?thesis .
qed (use assms(3) in simp)

lemma history_ok:
  assumes "codec_ok codec" and "engine_all (manager_ok codec) self"
  shows "engine_all (manager_ok codec) (manager_history codec sk self steps)"
  using assms(2)
proof (induction steps arbitrary: self)
  case (Cons step steps)
  obtain env files request where step: "step = (env, files, request)" by (cases step)
  obtain self' x where call: "manager_call codec sk env files self request = (self', x)" by fastforce
  from Cons.IH [OF manager_call_keeps [OF assms(1) call Cons.prems]] show ?case
    by (simp add: step manager_history_Cons call)
qed (simp add: manager_history_def)

text \<open>Without a restoration the store stays open, and what every request keeps holds along a history.\<close>

lemma history_induct:
  assumes "en_connection self = Some db" and "P db"
    and "list_all (\<lambda>(env, files, request). request \<noteq> Stored RestoreBackup) steps"
    and "\<And>env entropy owner db db' request response. P db
      \<Longrightarrow> manager_execute codec sk env entropy owner db request = Ok (db', response) \<Longrightarrow> P db'"
  shows "\<exists>db'. en_connection (manager_history codec sk self steps) = Some db' \<and> P db'"
  using assms(1-3)
proof (induction steps arbitrary: self db)
  case (Cons step steps)
  obtain env files request where step: "step = (env, files, request)" by (cases step)
  obtain self' x where call: "manager_call codec sk env files self request = (self', x)" by fastforce
  from Cons.prems(3) have r: "request \<noteq> Stored RestoreBackup" by (simp add: step)
  from call have "\<exists>db'. en_connection self' = Some db' \<and> P db'"
    by (cases rule: manager_call_cases) (use Cons.prems r assms(4) in auto)
  then obtain db' where "en_connection self' = Some db'" "P db'" by blast
  from Cons.IH [OF this] Cons.prems(3) show ?case by (simp add: step manager_history_Cons call)
qed (simp add: manager_history_def)

lemma empty_store_ok: "manager_ok codec (empty_store db)"
  by (simp add: manager_defs empty_store_def)

subsection \<open>Looking a record up\<close>

lemma found_row:
  assumes "find P rows = Some r" and "list_all Q rows"
  shows "r \<in> set rows" and "P r" and "Q r"
  using find_SomeD [OF assms(1)] assms(2) by (auto simp: list_all_iff)

lemma find_member: "x \<in> set xs \<Longrightarrow> P x \<Longrightarrow> find P xs \<noteq> None"
  by (induction xs) auto

lemma launch_records_ok:
  assumes ok: "manager_ok codec db"
  shows "\<forall>r\<in>set (ms_tasks db). kw_id r \<noteq> TaskId_as_str task_id \<Longrightarrow>
      launch_records codec db task_id = Err StorageError.InvalidRequest"
    and "r \<in> set (ms_tasks db) \<Longrightarrow> kw_id r = TaskId_as_str task_id \<Longrightarrow>
      \<exists>project preset task. launch_records codec db task_id = Ok (Launch project preset task) \<and> ta_id task = task_id
        \<and> pj_id project = ta_project_id task \<and> ps_name preset = ta_preset task"
proof -
  assume "\<forall>r\<in>set (ms_tasks db). kw_id r \<noteq> TaskId_as_str task_id"
  then have "find (\<lambda>r. kw_id r = TaskId_as_str task_id) (ms_tasks db) = None" by (simp add: find_None_iff)
  then show "launch_records codec db task_id = Err StorageError.InvalidRequest"
    by (simp add: launch_records_def get_record_def)
next
  assume "r \<in> set (ms_tasks db)" "kw_id r = TaskId_as_str task_id"
  then obtain row where row: "find (\<lambda>r. kw_id r = TaskId_as_str task_id) (ms_tasks db) = Some row"
    using find_member by fastforce
  from ok have rows: "list_all (task_row_ok codec) (ms_tasks db)" "list_all (project_row_ok codec) (ms_projects db)"
    "list_all (preset_row_ok codec) (ms_presets db)" by (simp_all add: manager_defs)
  from found_row [OF row rows(1)] obtain task where task: "kd_task codec (kw_record row) = Some task"
    "TaskId_as_str task_id = TaskId_as_str (ta_id task)" "kw_project row = ProjectId_as_str (ta_project_id task)"
    "kw_preset row = ta_preset task" and mem: "row \<in> set (ms_tasks db)"
    by (auto simp: task_row_ok_def split: option.splits)
  from ok mem have "kw_project row \<in> gw_id ` set (ms_projects db)" "kw_preset row \<in> sw_name ` set (ms_presets db)"
    by (simp_all add: manager_defs)
  with task obtain g s where g: "find (\<lambda>r. gw_id r = ProjectId_as_str (ta_project_id task)) (ms_projects db) = Some g"
    and s: "find (\<lambda>r. sw_name r = ta_preset task) (ms_presets db) = Some s"
    by (metis (mono_tags, lifting) find_member imageE option.exhaust)
  from found_row [OF g rows(2)] obtain project where project: "kd_project codec (gw_record g) = Some project"
    "ProjectId_as_str (ta_project_id task) = ProjectId_as_str (pj_id project)"
    by (auto simp: project_row_ok_def split: option.splits)
  from found_row [OF s rows(3)] obtain preset where preset: "kd_preset codec (sw_record s) = Some preset" "ta_preset task = ps_name preset"
    by (auto simp: preset_row_ok_def split: option.splits)
  show "\<exists>project preset task. launch_records codec db task_id = Ok (Launch project preset task) \<and> ta_id task = task_id
        \<and> pj_id project = ta_project_id task \<and> ps_name preset = ta_preset task"
    using row task g project s preset
    by (auto simp: launch_records_def get_record_def intro: TaskId.expand ProjectId.expand)
qed

subsection \<open>One run for a task\<close>

lemma reserve_stores:
  assumes codec: "codec_ok codec" and r: "reserve_run codec env db task_id root = Ok (db', Reserved run created)"
  shows "run_by_task codec db' task_id = Ok (Some run)"
proof (cases "run_by_task codec db task_id = Ok None")
  case False
  with r show ?thesis by (auto simp: reserve_run_def result_simps Let_def split: option.splits)
next
  case True
  with r obtain key p bytes db1 bytes' db2 "next"
    where bytes: "kc_run codec run = Some bytes"
      and db1: "insert_run_row db \<lparr> uw_id = RunId_as_str key, uw_task = TaskId_as_str task_id,
           uw_project = ProjectId_as_str p, uw_record = bytes \<rparr> = Ok db1"
      and db2: "insert_control_row db1 \<lparr> cw_id = RunId_as_str key, cw_record = bytes' \<rparr> = Ok db2"
      and db': "db' = advanced db2 next"
    by (auto simp: reserve_run_def result_simps Let_def get_record_Ok)
  from db1 have runs1: "ms_runs db1 = ms_runs db @ [\<lparr> uw_id = RunId_as_str key, uw_task = TaskId_as_str task_id,
           uw_project = ProjectId_as_str p, uw_record = bytes \<rparr>]"
    and new: "\<forall>r\<in>set (ms_runs db). uw_task r \<noteq> TaskId_as_str task_id"
    by (auto simp: insert_run_row_def split: if_splits)
  from new have "find (\<lambda>r. uw_task r = TaskId_as_str task_id) (ms_runs db) = None" by (simp add: find_None_iff)
  moreover from db2 have "ms_runs db2 = ms_runs db1" by (auto simp: insert_control_row_def split: if_splits)
  ultimately show ?thesis
    using codec_okD(4) [OF codec bytes] by (simp add: run_by_task_def get_record_def db' runs1 find_append)
qed

subsection \<open>Control states move forward\<close>

definition moves_on :: "ControlState \<Rightarrow> ControlState \<Rightarrow> bool" where
  "moves_on old new \<longleftrightarrow> ct_id new = ct_id old \<and> ct_launch_nonce new = ct_launch_nonce old
     \<and> (ct_invocation old \<noteq> None \<longrightarrow> ct_invocation new = ct_invocation old)
     \<and> (ct_pane old \<noteq> None \<longrightarrow> ct_pane new = ct_pane old)
     \<and> (ct_stopped old \<longrightarrow> ct_stopped new) \<and> (ct_ending old \<longrightarrow> ct_ending new)"

lemma moves_on_refl [simp]: "moves_on c c"
  by (simp add: moves_on_def)

lemma moves_on_trans: "moves_on a b \<Longrightarrow> moves_on b c \<Longrightarrow> moves_on a c"
  by (auto simp: moves_on_def)

lemma control_get_same: "ms_controls db' = ms_controls db \<Longrightarrow> control_get codec db' i = control_get codec db i"
  by (simp add: control_get_def)

lemma control_get_append:
  "control_get codec db i = Ok (Some c) \<Longrightarrow> ms_controls db' = ms_controls db @ rows \<Longrightarrow> control_get codec db' i = Ok (Some c)"
  by (auto simp: control_get_def get_record_Ok find_append)

lemma control_id:
  assumes "manager_ok codec db" and "control_get codec db i = Ok (Some c)"
  shows "RunId_as_str (ct_id c) = i"
proof -
  from assms(2) obtain row where row: "find (\<lambda>r. cw_id r = i) (ms_controls db) = Some row" "kd_control codec (cw_record row) = Some c"
    by (auto simp: control_get_def get_record_Ok)
  from assms(1) have "list_all (control_row_ok codec) (ms_controls db)" by (simp add: manager_defs)
  from found_row [OF row(1) this] row(2) show ?thesis by (simp add: control_row_ok_def)
qed

lemma control_upserted:
  assumes codec: "codec_ok codec" and up: "upsert_control_row db \<lparr> cw_id = j, cw_record = bytes \<rparr> = Ok db'"
    and bytes: "kc_control codec new = Some bytes" and old: "control_get codec db i = Ok (Some c)"
  shows "control_get codec db' i = Ok (Some (if i = j then new else c))"
proof (cases "\<exists>r\<in>set (ms_controls db). cw_id r = j")
  case True
  let ?f = "\<lambda>r. if cw_id r = j then \<lparr> cw_id = j, cw_record = bytes \<rparr> else r"
  from up True have controls: "ms_controls db' = map ?f (ms_controls db)"
    by (auto simp: upsert_control_row_def split: if_splits)
  from old obtain row where row: "find (\<lambda>r. cw_id r = i) (ms_controls db) = Some row" "kd_control codec (cw_record row) = Some c"
    by (auto simp: control_get_def get_record_Ok)
  have "find (\<lambda>r. cw_id r = i) (map ?f (ms_controls db)) = map_option ?f (find (\<lambda>r. cw_id r = i) (ms_controls db))"
    by (rule find_map_same) simp
  then have "find (\<lambda>r. cw_id r = i) (ms_controls db') = Some (?f row)" using row(1) controls by simp
  moreover have "cw_id row = i" using find_SomeD [OF row(1)] by simp
  ultimately show ?thesis
    using row(2) codec_okD(5) [OF codec bytes] by (simp add: control_get_def get_record_def)
next
  case False
  with old have "i \<noteq> j" by (auto simp: control_get_def get_record_Ok dest: find_SomeD)
  moreover from up False have "ms_controls db' = ms_controls db @ [\<lparr> cw_id = j, cw_record = bytes \<rparr>]"
    by (auto simp: upsert_control_row_def insert_control_row_def split: if_splits)
  ultimately show ?thesis using control_get_append [OF old] by simp
qed

lemma save_forward:
  assumes codec: "codec_ok codec" and ok: "manager_ok codec db" and r: "control_save codec db new = Ok (db', response)"
    and old: "control_get codec db i = Ok (Some c)"
  shows "\<exists>c'. control_get codec db' i = Ok (Some c') \<and> moves_on c c'"
proof (cases "db' = db")
  case True
  with old show ?thesis by auto
next
  case False
  from r obtain stored where stored: "control_get codec db (RunId_as_str (ct_id new)) = Ok stored"
    and rest: "(if stored = Some new then Ok (db, Saved)
     else if stored \<noteq> None \<and> gives_up (the stored) new then Err StorageError.Conflict
     else
       and_then (next_revision db) (\<lambda>next.
       and_then (encode_record (kc_control codec) new) (\<lambda>bytes.
       and_then (upsert_control_row db \<lparr> cw_id = RunId_as_str (ct_id new), cw_record = bytes \<rparr>) (\<lambda>db.
       Ok (advanced db next, Saved))))) = Ok (db', response)"
    unfolding control_save_def and_then_Ok by blast
  from rest False have kept: "stored = None \<or> \<not> gives_up (the stored) new" and not_same: "stored \<noteq> Some new"
    by (auto split: if_splits)
  with rest have "and_then (next_revision db) (\<lambda>next.
       and_then (encode_record (kc_control codec) new) (\<lambda>bytes.
       and_then (upsert_control_row db \<lparr> cw_id = RunId_as_str (ct_id new), cw_record = bytes \<rparr>) (\<lambda>db.
       Ok (advanced db next, Saved)))) = Ok (db', response)"
    by (metis (no_types, lifting))
  then obtain bytes db1 "next" where
      bytes: "kc_control codec new = Some bytes"
      and db1: "upsert_control_row db \<lparr> cw_id = RunId_as_str (ct_id new), cw_record = bytes \<rparr> = Ok db1"
      and db': "db' = advanced db1 next"
    by (auto simp: result_simps)
  have get: "control_get codec db' i = Ok (Some (if i = RunId_as_str (ct_id new) then new else c))"
    using control_upserted [OF codec db1 bytes old] by (simp add: db' control_get_def)
  show ?thesis
  proof (cases "i = RunId_as_str (ct_id new)")
    case True
    with stored old have "stored = Some c" by simp
    with kept have "\<not> gives_up c new" by simp
    moreover have "ct_id new = ct_id c" using control_id [OF ok old] True by (metis RunId.expand)
    ultimately have "moves_on c new" by (auto simp: gives_up_def moves_on_def)
    with get True show ?thesis by simp
  qed (use get in simp)
qed

lemma insert_keeps_controls:
  "insert_project_row db g = Ok db' \<Longrightarrow> ms_controls db' = ms_controls db"
  "insert_preset_row db s = Ok db' \<Longrightarrow> ms_controls db' = ms_controls db"
  "insert_task_row db k = Ok db' \<Longrightarrow> ms_controls db' = ms_controls db"
  by (auto simp: insert_project_row_def insert_preset_row_def insert_task_row_def split: if_splits)

lemma add_project_controls:
  "add_project codec env db root label = Ok (db', p) \<Longrightarrow> ms_controls db' = ms_controls db"
  by (auto simp: add_project_def result_simps Let_def get_record_Ok dest: insert_keeps_controls
      split: option.splits if_splits)

lemma add_preset_controls:
  "add_preset codec env db name executable profile = Ok (db', s) \<Longrightarrow> ms_controls db' = ms_controls db"
  by (auto simp: add_preset_def result_simps Let_def get_record_Ok dest: insert_keeps_controls
      split: option.splits if_splits)

lemma add_task_controls:
  "add_task codec env db project_id preset label = Ok (db', t) \<Longrightarrow> ms_controls db' = ms_controls db"
  by (auto simp: add_task_def result_simps Let_def get_record_Ok dest: insert_keeps_controls
      split: option.splits if_splits)

lemmas add_keeps_controls = add_project_controls add_preset_controls add_task_controls

lemma catalog_keeps_controls:
  assumes "catalog_execute codec env db request = Ok (db', response)"
  shows "ms_controls db' = ms_controls db"
  using assms by (auto simp: catalog_execute_def result_simps map_prod_def split: CatalogRequest.splits prod.splits
      dest: add_keeps_controls)

lemma runner_extends_controls:
  assumes "runner_execute codec env db request = Ok (db', response)"
  shows "\<exists>rows. ms_controls db' = ms_controls db @ rows"
proof (cases request)
  case (Reserve task_id root)
  with assms have r: "reserve_run codec env db task_id root = Ok (db', response)" by (simp add: runner_execute_def)
  show ?thesis
  proof (cases "run_by_task codec db task_id = Ok None")
    case False
    with r show ?thesis by (auto simp: reserve_run_def result_simps split: option.splits)
  next
    case True
    with r obtain db1 row db2 row' "next" where "insert_run_row db row = Ok db1" "insert_control_row db1 row' = Ok db2"
      "db' = advanced db2 next"
      by (auto simp: reserve_run_def result_simps Let_def get_record_Ok)
    then show ?thesis by (auto simp: insert_run_row_def insert_control_row_def split: if_splits)
  qed
next
  case (Identify i server)
  with assms show ?thesis
    by (auto simp: runner_execute_def identify_run_def update_run_row_def result_simps Let_def split: if_splits)
qed (use assms in \<open>auto simp: runner_execute_def result_simps\<close>)

lemma execute_forward:
  assumes codec: "codec_ok codec" and ok: "manager_ok codec db"
    and r: "manager_execute codec sk env entropy owner db request = Ok (db', response)"
    and old: "control_get codec db i = Ok (Some c)"
  shows "\<exists>c'. control_get codec db' i = Ok (Some c') \<and> moves_on c c'"
proof (cases request)
  case (Runner q)
  with r obtain response' where "runner_execute codec env db q = Ok (db', response')"
    by (auto simp: manager_execute_def result_simps)
  from runner_extends_controls [OF this] control_get_append [OF old] show ?thesis by fastforce
next
  case (Catalog q)
  with r obtain response' where "catalog_execute codec env db q = Ok (db', response')"
    by (auto simp: manager_execute_def result_simps)
  from catalog_keeps_controls [OF this] old show ?thesis by (auto simp: control_get_def)
next
  case (RuntimeControl q)
  with r obtain response' where q: "control_execute codec db q = Ok (db', response')"
    by (auto simp: manager_execute_def result_simps)
  show ?thesis
  proof (cases q)
    case (SaveControl new)
    with q show ?thesis using save_forward [OF codec ok _ old] by (simp add: control_execute_def)
  qed (use q old in \<open>auto simp: control_execute_def result_simps\<close>)
next
  case (Stored q)
  with r old show ?thesis by (auto simp: manager_execute_def result_simps control_get_def)
qed

subsection \<open>Pages\<close>

lemma decode_rows_Ok:
  "decode_rows dec rows = Ok entries \<longleftrightarrow>
     list_all2 (\<lambda>row entry. dec (snd row) = Some (snd entry) \<and> fst entry = fst row) rows entries"
proof (induction rows arbitrary: entries)
  case Nil
  then show ?case by (cases entries) auto
next
  case (Cons row rows)
  obtain key bytes where row: "row = (key, bytes)" by (cases row)
  show ?case
  proof (cases entries)
    case Nil
    with row show ?thesis by (auto simp: result_simps)
  next
    case (Cons e es)
    obtain k x where "e = (k, x)" by (cases e)
    with row Cons Cons.IH [of es] show ?thesis by (auto simp: result_simps)
  qed
qed

lemma decode_rows_total:
  "\<forall>row\<in>set rows. \<exists>x. dec (snd row) = Some x \<Longrightarrow>
     decode_rows dec rows = Ok (map (\<lambda>row. (fst row, the (dec (snd row)))) rows)"
proof (induction rows)
  case (Cons row rows)
  then show ?case by (cases row) auto
qed simp

text \<open>The rest of a listing after a cursor, in key order.\<close>

definition listing :: "string \<Rightarrow> (string \<times> string) list \<Rightarrow> (string \<times> string) list" where
  "listing after rows = sort_key fst (filter (\<lambda>row. after < fst row) rows)"

lemma selected_listing: "selected after rows = take 101 (listing after rows)"
  by (simp add: selected_def listing_def)

lemma sorted_split:
  "sorted (map fst (xs @ ys)) \<Longrightarrow> distinct (map fst (xs @ ys)) \<Longrightarrow> xs \<noteq> [] \<Longrightarrow>
     filter (\<lambda>row. fst (last xs) < fst row) (xs @ ys) = ys"
  for xs :: "('k :: linorder \<times> 'v) list"
proof (induction xs rule: rev_induct)
  case (snoc x xs)
  then have "\<forall>row\<in>set (xs @ [x]). fst row \<le> fst x" by (auto simp: sorted_append)
  moreover have "\<forall>row\<in>set ys. fst x < fst row"
    using snoc.prems by (auto simp: sorted_append order_less_le image_iff)
  ultimately show ?case by (auto simp: filter_empty_conv filter_id_conv leD)
qed simp

lemma listing_from:
  assumes "distinct (map fst rows)" and "listing after rows = xs @ ys" and "xs \<noteq> []"
  shows "listing (fst (last xs)) rows = ys"
proof -
  have above: "after < fst (last xs)"
  proof -
    have "last xs \<in> set (listing after rows)" using assms(2,3) by simp
    then show ?thesis by (simp add: listing_def)
  qed
  have "listing (fst (last xs)) rows = filter (\<lambda>row. fst (last xs) < fst row) (listing after rows)"
    using above by (auto simp: listing_def filter_sort [symmetric] intro!: arg_cong [where f = "sort_key fst"] filter_cong)
  also have "\<dots> = ys"
    unfolding assms(2)
  proof (rule sorted_split [OF _ _ assms(3)])
    show "sorted (map fst (xs @ ys))" unfolding assms(2) [symmetric] by (simp add: listing_def)
    have "distinct (map fst (filter (\<lambda>row. after < fst row) rows))" by (rule distinct_map_filter [OF assms(1)])
    then show "distinct (map fst (xs @ ys))"
      unfolding assms(2) [symmetric] listing_def distinct_map by simp
  qed
  finally show ?thesis .
qed

lemma page_listing:
  assumes rows: "decode_rows dec (listing after rows) = Ok entries" and r: "revision (ms_events db) = Ok r"
  shows "page db dec (selected after rows) = Ok \<lparr> pg_revision = r, pg_items = map snd (take 100 entries),
     pg_next_after = (if 100 < length (listing after rows) then Some (fst (last (take 100 (listing after rows)))) else None) \<rparr>"
proof -
  from rows have all: "list_all2 (\<lambda>row entry. dec (snd row) = Some (snd entry) \<and> fst entry = fst row) (listing after rows) entries"
    by (simp add: decode_rows_Ok)
  then have len: "length (listing after rows) = length entries" by (rule list_all2_lengthD)
  have keys: "map fst entries = map fst (listing after rows)"
    using all by (intro nth_equalityI) (auto simp: list_all2_conv_all_nth)
  have "decode_rows dec (selected after rows) = Ok (take 101 entries)"
    unfolding decode_rows_Ok selected_listing by (rule list_all2_takeI [OF all])
  moreover have "fst (last (take 100 entries)) = fst (last (take 100 (listing after rows)))" if "100 < length entries"
  proof -
    have "last (map fst (take 100 entries)) = last (map fst (take 100 (listing after rows)))"
      by (simp add: take_map [symmetric] keys)
    with that len show ?thesis by (subst (asm) (1 2) last_map) auto
  qed
  moreover have "take 100 entries \<noteq> []" if "100 < length entries" using that by auto
  ultimately show ?thesis using r len by (simp add: page_def Let_def PAGE_SIZE_def min_def)
qed

text \<open>A client that follows \<open>next_after\<close> until there is none.\<close>

fun project_pages :: "catalog_codec \<Rightarrow> catalog_io \<Rightarrow> manager_store \<Rightarrow> nat \<Rightarrow> ProjectId option \<Rightarrow> StorageError + Project list" where
  "project_pages codec env db 0 after = Err Backpressure"
| "project_pages codec env db (Suc n) after =
     and_then (catalog_execute codec env db (Projects after)) (\<lambda>(_, response). case response of
       ProjectPage p \<Rightarrow> (case pg_next_after p of
           None \<Rightarrow> Ok (pg_items p)
         | Some key \<Rightarrow> map_ok ((@) (pg_items p)) (project_pages codec env db n (Some (ProjectId key))))
     | _ \<Rightarrow> Err CorruptDatabase)"

abbreviation project_rows :: "manager_store \<Rightarrow> (string \<times> string) list" where
  "project_rows db \<equiv> map (\<lambda>r. (gw_id r, gw_record r)) (ms_projects db)"

definition cursor :: "ProjectId option \<Rightarrow> string" where
  "cursor after = (case after of None \<Rightarrow> [] | Some i \<Rightarrow> ProjectId_as_str i)"

lemma cursor_Some: "cursor (Some (ProjectId key)) = key"
  by (simp add: cursor_def)

lemma project_pages_listing:
  assumes keys: "distinct (map fst (project_rows db))" and r: "revision (ms_events db) = Ok r"
    and "decode_rows (kd_project codec) (listing (cursor after) (project_rows db)) = Ok entries"
    and "length (listing (cursor after) (project_rows db)) \<le> 100 * Suc n"
  shows "project_pages codec env db (Suc n) after = Ok (map snd entries)"
  using assms(3,4)
proof (induction n arbitrary: after entries)
  case 0
  then have "length entries \<le> 100" by (auto simp: decode_rows_Ok dest!: list_all2_lengthD)
  with 0 page_listing [OF 0(1) r] show ?case
    by (simp add: catalog_execute_def cursor_def split: option.splits)
next
  case (Suc n)
  let ?rows = "project_rows db"
  let ?L = "listing (cursor after) ?rows"
  from Suc.prems(1) have all: "list_all2 (\<lambda>row entry. kd_project codec (snd row) = Some (snd entry) \<and> fst entry = fst row) ?L entries"
    by (simp add: decode_rows_Ok)
  then have len: "length ?L = length entries" by (rule list_all2_lengthD)
  note step = page_listing [OF Suc.prems(1) r]
  show ?case
  proof (cases "100 < length ?L")
    case False
    with step len show ?thesis
      by (simp add: catalog_execute_def cursor_def split: option.splits)
  next
    case True
    let ?key = "ProjectId (fst (last (take 100 ?L)))"
    have some: "take 100 ?L \<noteq> []" using True by auto
    have rest: "listing (cursor (Some ?key)) ?rows = drop 100 ?L"
      unfolding cursor_Some by (rule listing_from [OF keys _ some]) simp
    have "decode_rows (kd_project codec) (listing (cursor (Some ?key)) ?rows) = Ok (drop 100 entries)"
      unfolding rest decode_rows_Ok by (rule list_all2_dropI [OF all])
    from Suc.IH [OF this] Suc.prems(2) have
      "project_pages codec env db (Suc n) (Some ?key) = Ok (map snd (drop 100 entries))"
      by (simp add: rest)
    moreover have "map snd (take 100 entries) @ map snd (drop 100 entries) = map snd entries"
      by (simp flip: map_append)
    ultimately show ?thesis using step True
      by (simp add: catalog_execute_def cursor_def split: option.splits)
  qed
qed

subsection \<open>Samples\<close>

definition uuid_of :: "char \<Rightarrow> string" where
  "uuid_of c = replicate 8 c @ ''-'' @ replicate 4 c @ ''-'' @ replicate 4 c @ ''-'' @ replicate 4 c @ ''-'' @ replicate 12 c"

definition sample_project :: Project where
  "sample_project = \<lparr> pj_id = ProjectId (uuid_of CHR ''a''), pj_label = TaskLabel ''api'', pj_root = LocalPath ''/srv/api'',
     pj_identity = \<lparr> pi_device = 7, pi_inode = 42 \<rparr> \<rparr>"

definition sample_preset :: Preset where
  "sample_preset = \<lparr> ps_name = ''main'', ps_executable = LocalPath ''/opt/hermes'',
     ps_identity = \<lparr> pi_device = 7, pi_inode = 42 \<rparr>, ps_profile = ''work'' \<rparr>"

definition sample_task :: Task where
  "sample_task = \<lparr> ta_id = TaskId (uuid_of CHR ''b''), ta_project_id = ProjectId (uuid_of CHR ''a''), ta_preset = ''main'',
     ta_label = TaskLabel ''fix'' \<rparr>"

definition sample_managed_run :: "string \<Rightarrow> ManagedRun" where
  "sample_managed_run i = \<lparr> mr_id = RunId i, mr_task_id = TaskId (uuid_of CHR ''b''), mr_project_id = ProjectId (uuid_of CHR ''a''),
     mr_runtime_root = LocalPath ''/run/user/1000'', mr_server = None \<rparr>"

definition sample_control :: "string \<Rightarrow> string \<Rightarrow> bool \<Rightarrow> ControlState" where
  "sample_control i nonce ending = (ControlState_new (RunId i) (Some (RunId nonce)))\<lparr> ct_ending := ending \<rparr>"

definition sample_catalog_codec :: catalog_codec where
  "sample_catalog_codec = \<lparr>
     kc_project = (\<lambda>p. if p = sample_project then Some ''p'' else None),
     kc_preset = (\<lambda>p. if p = sample_preset then Some ''s'' else None),
     kc_task = (\<lambda>t. if t = sample_task then Some ''t'' else None),
     kc_run = (\<lambda>m. if m = sample_managed_run (RunId_as_str (mr_id m)) then Some (RunId_as_str (mr_id m)) else None),
     kc_control = (\<lambda>c. case ct_launch_nonce c of None \<Rightarrow> None
       | Some nonce \<Rightarrow>
           if c = sample_control (RunId_as_str (ct_id c)) (RunId_as_str nonce) (ct_ending c) \<and> length (RunId_as_str (ct_id c)) = 36
           then Some ((if ct_ending c then CHR ''e'' else CHR ''o'') # RunId_as_str (ct_id c) @ RunId_as_str nonce) else None),
     kd_project = (\<lambda>b. if b = ''p'' then Some sample_project else None),
     kd_preset = (\<lambda>b. if b = ''s'' then Some sample_preset else None),
     kd_task = (\<lambda>b. if b = ''t'' then Some sample_task else None),
     kd_run = (\<lambda>b. Some (sample_managed_run b)),
     kd_control = (\<lambda>b. if b = [] then None else Some (sample_control (take 36 (tl b)) (drop 36 (tl b)) (hd b = CHR ''e''))) \<rparr>"

lemma sample_catalog_codec_ok: "codec_ok sample_catalog_codec"
  by (auto simp: codec_ok_def sample_catalog_codec_def split: option.splits if_splits)

definition sample_manager :: manager_store where
  "sample_manager = \<lparr> ms_events = initialize,
     ms_projects = [\<lparr> gw_id = uuid_of CHR ''a'', gw_root = ''/srv/api'', gw_record = ''p'' \<rparr>],
     ms_presets = [\<lparr> sw_name = ''main'', sw_record = ''s'' \<rparr>],
     ms_tasks = [\<lparr> kw_id = uuid_of CHR ''b'', kw_project = uuid_of CHR ''a'', kw_preset = ''main'', kw_label = ''fix'',
       kw_record = ''t'' \<rparr>],
     ms_runs = [], ms_controls = [] \<rparr>"

definition sample_catalog_io :: catalog_io where
  "sample_catalog_io = \<lparr> ci_paths = sample_paths, ci_entropy = (\<lambda>_. sample_entropy) \<rparr>"

lemma sample_manager_ok: "manager_ok sample_catalog_codec sample_manager"
  by code_simp

lemma sample_tables:
  "ms_events sample_manager = initialize"
  "ms_projects sample_manager = [\<lparr> gw_id = uuid_of CHR ''a'', gw_root = ''/srv/api'', gw_record = ''p'' \<rparr>]"
  "ms_tasks sample_manager = [\<lparr> kw_id = uuid_of CHR ''b'', kw_project = uuid_of CHR ''a'', kw_preset = ''main'',
     kw_label = ''fix'', kw_record = ''t'' \<rparr>]"
  "ms_runs sample_manager = []" "ms_controls sample_manager = []"
  by (simp_all add: sample_manager_def)

lemma sample_codes:
  "kd_task sample_catalog_codec ''t'' = Some sample_task"
  "kc_run sample_catalog_codec (sample_managed_run i) = Some i"
  "kd_run sample_catalog_codec i = Some (sample_managed_run i)"
  "length i = 36 \<Longrightarrow> kc_control sample_catalog_codec (sample_control i n e)
     = Some ((if e then CHR ''e'' else CHR ''o'') # i @ n)"
  "length i = 36 \<Longrightarrow> kd_control sample_catalog_codec (c # i @ n) = Some (sample_control i n (c = CHR ''e''))"
  by (simp_all add: sample_catalog_codec_def sample_control_def sample_managed_run_def ControlState_new_def)

lemma sample_room: "capacity 0 MAX_MANAGED_RUNS (Suc 0) = Ok ()"
  by (simp add: capacity_def MAX_MANAGED_RUNS_def)

lemma sample_new_control:
  "length i = 36 \<Longrightarrow> kc_control sample_catalog_codec (ControlState_new (RunId i) (Some (RunId n))) = Some (CHR ''o'' # i @ n)"
  using sample_codes(4) [of i n False] by (simp add: sample_control_def ControlState_new_def)

lemma sample_task_project [simp]: "ta_project_id sample_task = ProjectId (uuid_of CHR ''a'')"
  by (simp add: sample_task_def)

text \<open>The key that the sample entropy gives, and the store after a reservation.\<close>

definition sample_run_key :: string where
  "sample_run_key = ProducerGeneration_as_str sample_generation"

lemma sample_fresh_id: "fresh_id RunId_from_str sample_entropy = Ok (RunId sample_run_key)"
proof -
  have "RunId_from_str (ProducerGeneration_as_str sample_generation) = Ok (RunId sample_run_key)" by code_simp
  then show ?thesis by (simp add: fresh_id_def sample_fresh)
qed

lemma sample_run_key_length: "length sample_run_key = 36"
  by code_simp

lemma sample_revision: "next_revision (sample_manager :: manager_store) = Ok (Revision 1)"
  by (simp add: next_revision_def sample_manager_def initialize_def write_defs)

definition sample_reserved :: manager_store where
  "sample_reserved = sample_manager\<lparr> ms_events := advance_revision initialize (Revision 1),
     ms_runs := [\<lparr> uw_id = sample_run_key, uw_task = uuid_of CHR ''b'', uw_project = uuid_of CHR ''a'', uw_record = sample_run_key \<rparr>],
     ms_controls := [\<lparr> cw_id = sample_run_key, cw_record = CHR ''o'' # sample_run_key @ sample_run_key \<rparr>] \<rparr>"

lemma sample_reserves:
  "reserve_run sample_catalog_codec sample_catalog_io sample_manager (TaskId (uuid_of CHR ''b'')) (LocalPath ''/run/user/1000'')
     = Ok (sample_reserved, Reserved (sample_managed_run sample_run_key) True)"
  unfolding reserve_run_def
  by (simp add: run_by_task_def get_record_def sample_revision sample_room encode_record_def
      sample_fresh_id sample_catalog_io_def sample_tables sample_codes [unfolded sample_managed_run_def] sample_new_control
      insert_run_row_def insert_control_row_def sample_managed_run_def
      sample_run_key_length Let_def advanced_def sample_reserved_def)

definition sample_history :: "manager_step list" where
  "sample_history = [(sample_catalog_io, sample_io, Runner (Reserve (TaskId (uuid_of CHR ''b'')) (LocalPath ''/run/user/1000''))),
     (sample_catalog_io, sample_io, RuntimeControl (SaveControl (sample_control sample_run_key sample_run_key True)))]"

lemma sample_control_valid:
  "length i = 36 \<Longrightarrow> length n = 36 \<Longrightarrow> ControlState_validate sample_catalog_codec (sample_control i n e) = Ok ()"
  by (simp add: ControlState_validate_def sample_codes) (simp add: sample_control_def ControlState_new_def)

definition sample_ended :: manager_store where
  "sample_ended = sample_reserved\<lparr>
     ms_controls := [\<lparr> cw_id = sample_run_key, cw_record = CHR ''e'' # sample_run_key @ sample_run_key \<rparr>],
     ms_events := advance_revision (ms_events sample_reserved) (Revision 2) \<rparr>"

lemma sample_reserved_control:
  "control_get sample_catalog_codec sample_reserved sample_run_key = Ok (Some (sample_control sample_run_key sample_run_key False))"
  using sample_codes(5) [OF sample_run_key_length]
  by (simp add: control_get_def get_record_def sample_reserved_def)

lemma sample_ends:
  "control_save sample_catalog_codec sample_reserved (sample_control sample_run_key sample_run_key True) = Ok (sample_ended, Saved)"
proof -
  let ?c = "\<lambda>e. sample_control sample_run_key sample_run_key e"
  have id: "RunId_as_str (ct_id (?c True)) = sample_run_key" by (simp add: sample_control_def ControlState_new_def)
  have neq: "?c False \<noteq> ?c True" and keeps: "\<not> gives_up (?c False) (?c True)"
    by (simp_all add: sample_control_def ControlState_new_def gives_up_def)
  have "next_revision sample_reserved = Ok (Revision 2)"
    by (simp add: next_revision_def sample_reserved_def initialize_def write_defs advance_revision_def)
  moreover have "ms_controls sample_reserved = [\<lparr> cw_id = sample_run_key, cw_record = CHR ''o'' # sample_run_key @ sample_run_key \<rparr>]"
    by (simp add: sample_reserved_def)
  ultimately show ?thesis
    using neq keeps sample_run_key_length
    by (simp add: control_save_def sample_control_valid id sample_reserved_control encode_record_def sample_codes
        upsert_control_row_def advanced_def sample_ended_def)
qed

definition manager_open :: "manager_store \<Rightarrow> manager_engine" where
  "manager_open db = \<lparr> en_connection = Some db, en_owner = 0, en_files = no_files \<rparr>"

lemmas manager_call_defs = manager_call_def manager_validate_def manager_read_only_def manager_dispatch_def manager_execute_def
  serve_request_def on_files_def sample_io_def manager_open_def

lemma sample_reserve_call:
  "manager_call sample_catalog_codec sample_store sample_catalog_io sample_io (manager_open sample_manager)
     (Runner (Reserve (TaskId (uuid_of CHR ''b'')) (LocalPath ''/run/user/1000'')))
   = (manager_open sample_reserved, Ok (RunnerDone (Reserved (sample_managed_run sample_run_key) True)))"
  by (simp add: manager_call_defs runner_execute_def sample_reserves)

lemma sample_end_call:
  "manager_call sample_catalog_codec sample_store sample_catalog_io sample_io (manager_open sample_reserved)
     (RuntimeControl (SaveControl (sample_control sample_run_key sample_run_key True)))
   = (manager_open sample_ended, Ok (ControlDone Saved))"
  by (simp add: manager_call_defs sample_control_valid sample_run_key_length control_execute_def sample_ends)

lemma sample_history_runs:
  "manager_history sample_catalog_codec sample_store (manager_open sample_manager) sample_history = manager_open sample_ended"
  by (simp add: manager_history_def sample_history_def sample_reserve_call sample_end_call)

lemma manager_open_all: "manager_ok codec db \<Longrightarrow> engine_all (manager_ok codec) (manager_open db)"
  by (simp add: engine_all_def manager_open_def files_all_def no_files_def)

subsection \<open>The properties\<close>

text \<open>C33: The manager's tables stay sound. A store is sound when every row decodes to the record its
  keys name, keys are unique, references lead to rows, a run lies in its task's project and the tables
  are within their bounds. Where the open store and every file beside it are, they all are after every
  history of requests, refused ones, those on the event tables, backups and restorations included.
  The only assumption is that the JSON library reads what it wrote.
\<close>

theorem manager_tables_sound:
  assumes "codec_ok codec" and "engine_all (manager_ok codec) self"
  shows "engine_all (manager_ok codec) (manager_history codec sk self steps)"
  using assms by (rule history_ok)

lemma manager_tables_sound_witness: "manager_ok sample_catalog_codec sample_ended"
  using manager_tables_sound [OF sample_catalog_codec_ok manager_open_all [OF sample_manager_ok], of sample_store sample_history]
  unfolding sample_history_runs by (simp add: engine_all_def manager_open_def)

text \<open>A stored task always resolves. In a sound store the request for a task's launch records either
  finds no such task and says so, or returns the task with the project and the preset it names; it
  never reports a corrupt database, and it changes nothing.
\<close>

lemma stored_task_resolves:
  assumes "manager_ok codec db"
  shows "if TaskId_as_str task_id \<in> kw_id ` set (ms_tasks db)
    then \<exists>project preset task. catalog_execute codec env db (GetTask task_id) = Ok (db, Launch project preset task)
        \<and> ta_id task = task_id \<and> pj_id project = ta_project_id task \<and> ps_name preset = ta_preset task
    else catalog_execute codec env db (GetTask task_id) = Err StorageError.InvalidRequest"
proof (cases "TaskId_as_str task_id \<in> kw_id ` set (ms_tasks db)")
  case True
  then obtain r where "r \<in> set (ms_tasks db)" "kw_id r = TaskId_as_str task_id" by auto
  from launch_records_ok(2) [OF assms this] True show ?thesis by (auto simp: catalog_execute_def)
next
  case False
  then have "\<forall>r\<in>set (ms_tasks db). kw_id r \<noteq> TaskId_as_str task_id" by (metis image_eqI)
  from launch_records_ok(1) [OF assms this] False show ?thesis by (simp add: catalog_execute_def)
qed

lemma stored_task_resolves_witness:
  "\<exists>project preset task. catalog_execute sample_catalog_codec sample_catalog_io sample_manager (GetTask (TaskId (uuid_of CHR ''b'')))
      = Ok (sample_manager, Launch project preset task)
    \<and> ta_id task = TaskId (uuid_of CHR ''b'') \<and> pj_id project = ta_project_id task \<and> ps_name preset = ta_preset task"
  using stored_task_resolves [OF sample_manager_ok, of "TaskId (uuid_of CHR ''b'')" sample_catalog_io]
  by (simp add: sample_tables)

text \<open>C34: A task has one run. Once a reservation has answered, the stored run of the task is the one it
  answered, and reserving again, whatever the root and the entropy, answers the same run as not
  created and leaves the store as it is.
\<close>

theorem reserve_is_once:
  assumes "codec_ok codec" and "reserve_run codec env db task_id root = Ok (db', Reserved run created)"
  shows "runner_execute codec env' db' (ByTask task_id) = Ok (db', Found (Some run))
    \<and> runner_execute codec env' db' (Reserve task_id root') = Ok (db', Reserved run False)"
  using reserve_stores [OF assms] by (simp add: runner_execute_def reserve_run_def)

lemma reserve_is_once_witness:
  "runner_execute sample_catalog_codec sample_catalog_io sample_reserved (ByTask (TaskId (uuid_of CHR ''b'')))
      = Ok (sample_reserved, Found (Some (sample_managed_run sample_run_key)))
    \<and> runner_execute sample_catalog_codec sample_catalog_io sample_reserved
        (Reserve (TaskId (uuid_of CHR ''b'')) (LocalPath ''/elsewhere''))
      = Ok (sample_reserved, Reserved (sample_managed_run sample_run_key) False)"
  using reserve_is_once [OF sample_catalog_codec_ok sample_reserves] .

text \<open>C35: A confirmed control state is never taken back, unless the store is. Along any history of requests that
  does not restore the backup, the store stays open and the state kept for a run keeps its launch
  nonce, its invocation and its pane once they are known, and stays ending and stopped once it is.
\<close>

theorem control_moves_forward:
  assumes codec: "codec_ok codec" and ok: "manager_ok codec db" and conn: "en_connection self = Some db"
    and quiet: "list_all (\<lambda>(env, files, request). request \<noteq> Stored RestoreBackup) steps"
    and old: "control_get codec db i = Ok (Some c)"
  shows "\<exists>db' c'. en_connection (manager_history codec sk self steps) = Some db'
    \<and> control_get codec db' i = Ok (Some c') \<and> ct_launch_nonce c' = ct_launch_nonce c
    \<and> (ct_invocation c \<noteq> None \<longrightarrow> ct_invocation c' = ct_invocation c) \<and> (ct_pane c \<noteq> None \<longrightarrow> ct_pane c' = ct_pane c)
    \<and> (ct_stopped c \<longrightarrow> ct_stopped c') \<and> (ct_ending c \<longrightarrow> ct_ending c')"
proof -
  let ?P = "\<lambda>d. manager_ok codec d \<and> (\<exists>c'. control_get codec d i = Ok (Some c') \<and> moves_on c c')"
  have "\<exists>db'. en_connection (manager_history codec sk self steps) = Some db' \<and> ?P db'"
  proof (rule history_induct [OF conn _ quiet, where P = ?P])
    show "?P db" using ok old by auto
  next
    fix env entropy owner db1 db2 request response
    assume p: "?P db1" and step: "manager_execute codec sk env entropy owner db1 request = Ok (db2, response)"
    from p obtain c1 where c1: "control_get codec db1 i = Ok (Some c1)" "moves_on c c1" by auto
    from p step have "manager_ok codec db2" using manager_execute_keeps [OF codec] by blast
    moreover from execute_forward [OF codec _ step c1(1)] p obtain c2
      where "control_get codec db2 i = Ok (Some c2)" "moves_on c1 c2" by auto
    ultimately show "?P db2" using moves_on_trans [OF c1(2)] by blast
  qed
  then show ?thesis by (auto simp: moves_on_def)
qed

lemma control_moves_forward_witness:
  "\<exists>c'. control_get sample_catalog_codec sample_ended sample_run_key = Ok (Some c')
    \<and> ct_launch_nonce c' = Some (RunId sample_run_key)"
proof -
  have ok: "manager_ok sample_catalog_codec sample_reserved"
    by (rule reserve_keeps [OF sample_catalog_codec_ok sample_manager_ok sample_reserves])
  have conn: "en_connection (manager_open sample_reserved) = Some sample_reserved" by (simp add: manager_open_def)
  have run: "manager_history sample_catalog_codec sample_store (manager_open sample_reserved) (tl sample_history)
      = manager_open sample_ended"
    by (simp add: manager_history_def sample_history_def sample_end_call)
  have "list_all (\<lambda>(env, files, request). request \<noteq> Stored RestoreBackup) (tl sample_history)"
    by (simp add: sample_history_def)
  moreover have "ct_launch_nonce (sample_control sample_run_key sample_run_key False) = Some (RunId sample_run_key)"
    by (simp add: sample_control_def ControlState_new_def)
  ultimately show ?thesis
    using control_moves_forward [OF sample_catalog_codec_ok ok conn _ sample_reserved_control, of "tl sample_history" sample_store] run
    by (auto simp: manager_open_def)
qed

text \<open>C36: The pages of the project listing are complete. A client that follows the cursor through at most
  ten pages gets every stored project once, in the order of the ids, whatever their number.
\<close>

theorem project_pages_complete:
  assumes ok: "manager_ok codec db" and r: "revision (ms_events db) = Ok r"
  shows "\<exists>projects. project_pages codec env db 10 None = Ok projects
    \<and> sorted (map (ProjectId_as_str \<circ> pj_id) projects) \<and> distinct (map pj_id projects)
    \<and> set projects = {p. \<exists>row\<in>set (ms_projects db). kd_project codec (gw_record row) = Some p}"
proof -
  let ?rows = "project_rows db"
  let ?dec = "\<lambda>row. the (kd_project codec (snd row))"
  from ok have rows: "list_all (project_row_ok codec) (ms_projects db)" and keys: "distinct (map fst ?rows)"
    and few: "length (ms_projects db) \<le> 1000"
    by (simp_all add: manager_defs o_def MAX_PROJECTS_def)
  have row: "\<exists>p. kd_project codec (snd row) = Some p \<and> fst row = ProjectId_as_str (pj_id p) \<and> fst row \<noteq> []"
    if "row \<in> set ?rows" for row
    using that rows by (auto simp: list_all_iff project_row_ok_def split: option.splits)
  have all: "filter (\<lambda>row. [] < fst row) ?rows = ?rows"
    unfolding filter_id_conv using row by (metis neq_Nil_conv Nil_less_Cons)
  have L: "listing (cursor None) ?rows = sort_key fst ?rows" by (simp add: listing_def cursor_def all)
  let ?L = "sort_key fst ?rows" and ?es = "map (\<lambda>row. (fst row, ?dec row)) (sort_key fst ?rows)"
  have decoded: "decode_rows (kd_project codec) (listing (cursor None) ?rows) = Ok ?es"
    unfolding L
  proof (rule decode_rows_total)
    show "\<forall>row\<in>set ?L. \<exists>x. kd_project codec (snd row) = Some x" unfolding set_sort using row by blast
  qed
  from project_pages_listing [OF keys r decoded, of 9 env] few
  have pages: "project_pages codec env db 10 None = Ok (map ?dec ?L)" by (simp add: L o_def)
  have keys_dec: "ProjectId_as_str (pj_id (?dec row)) = fst row" if "row \<in> set ?L" for row
    using row [of row] that by auto
  then have names: "map (ProjectId_as_str \<circ> pj_id) (map ?dec ?L) = map fst ?L" by simp
  have "sorted (map (ProjectId_as_str \<circ> pj_id) (map ?dec ?L))" unfolding names by simp
  moreover have "distinct (map fst ?L)" using keys unfolding distinct_map set_sort distinct_sort .
  then have "distinct (map (ProjectId_as_str \<circ> pj_id) (map ?dec ?L))" by (simp only: names)
  then have "distinct (map pj_id (map ?dec ?L))"
    using distinct_map [of ProjectId_as_str "map pj_id (map ?dec ?L)"] by (simp add: comp_assoc)
  moreover have "set (map ?dec ?L) = {p. \<exists>row\<in>set (ms_projects db). kd_project codec (gw_record row) = Some p}"
  proof -
    have "set (map ?dec ?L) = (\<lambda>g. the (kd_project codec (gw_record g))) ` set (ms_projects db)"
      by (simp add: image_image)
    moreover have "\<forall>g\<in>set (ms_projects db). \<exists>p. kd_project codec (gw_record g) = Some p"
      using rows by (auto simp: list_all_iff project_row_ok_def split: option.splits)
    ultimately show ?thesis by force
  qed
  ultimately show ?thesis using pages by blast
qed

lemma project_pages_complete_witness:
  "\<exists>projects. project_pages sample_catalog_codec sample_catalog_io sample_manager 10 None = Ok projects
    \<and> sorted (map (ProjectId_as_str \<circ> pj_id) projects) \<and> distinct (map pj_id projects)
    \<and> set projects = {p. \<exists>row\<in>set (ms_projects sample_manager). kd_project sample_catalog_codec (gw_record row) = Some p}"
proof (rule project_pages_complete [OF sample_manager_ok])
  show "revision (ms_events sample_manager) = Ok (Revision 0)"
    by (simp add: sample_tables initialize_def write_defs)
qed

end
