(* ===== verification/Runtime_Samples.thy ===== *)
theory Runtime_Samples
  imports Runtime_Safety Catalog_Properties "HOL-Library.Code_Target_Nat" "HOL-Library.Code_Target_Int"
begin

section \<open>A machine on which the runtime's operations succeed\<close>

text \<open>
  A run with its server (process 100), its pane (200), a terminal (300) with its client (400), and the
  answers of \<open>systemctl\<close>, \<open>tmux\<close>, the kernel and the compositor about them. From the answer number
  \<open>dead\<close> on, \<open>tmux\<close> lists the pane as dead.
\<close>

lemma is_ascii_alphanumeric_ranges [code]:
  "is_ascii_alphanumeric c \<longleftrightarrow> is_ascii_digit c \<or> 65 \<le> byte c \<and> byte c \<le> 90 \<or> 97 \<le> byte c \<and> byte c \<le> 122"
  by (auto simp: is_ascii_alphanumeric_def)

subsection \<open>The run\<close>

definition sample_boot :: string where "sample_boot = uuid_of CHR ''d''"

definition sample_process :: "u32 \<Rightarrow> ProcessIdentity" where
  "sample_process pid = \<lparr> pr_pid = pid, pr_start_ticks = 77, pr_boot_id = sample_boot \<rparr>"

definition sample_live_run :: ManagedRun where
  "sample_live_run = (sample_managed_run (uuid_of CHR ''c''))\<lparr> mr_server := Some (sample_process 100) \<rparr>"

definition sample_window :: WindowIdentity where
  "sample_window = \<lparr> wi_address = ''0x1f'', wi_compositor = ''hl'', wi_client = sample_process 400, wi_tty = ''/dev/pts/1'' \<rparr>"

definition sample_intent :: TerminalIntent where
  "sample_intent = \<lparr> ti_nonce = RunId (uuid_of CHR ''e''), ti_process = Some (sample_process 300), ti_window = Some sample_window \<rparr>"

definition sample_live_control :: ControlState where
  "sample_live_control = (ControlState_new (RunId (uuid_of CHR ''c'')) (Some (RunId (uuid_of CHR ''e''))))
     \<lparr> ct_pane := Some \<lparr> pp_process = sample_process 200, pp_pane = ''%0'', pp_session = ''$0'' \<rparr>,
       ct_terminal := Some sample_intent, ct_ending := True \<rparr>"

definition sample_backend :: Backend where
  "sample_backend = \<lparr> bk_root = LocalPath ''/run/user/1000'', bk_home = ''/home/u'',
     bk_session_runtime = Some ''/run/user/1000'', bk_executable = ''/usr/bin/harbormaster'' \<rparr>"

subsection \<open>Its machine\<close>

definition unlines :: "string list \<Rightarrow> string" where
  "unlines ls = concat (map (\<lambda>l. l @ [newline]) ls)"

definition sample_scope :: string where
  "sample_scope = ''tmux-spawn-'' @ uuid_of CHR ''f'' @ ''.scope''"

definition sample_unit :: "string \<Rightarrow> string list" where
  "sample_unit u =
     (if u = run_unit sample_live_run then
        [''MainPID=100'', ''InvocationID='' @ replicate 32 CHR ''a'', ''ControlGroup=/run'', ''PartOf='', ''BindsTo='',
         ''KillMode=control-group'', ''Description='' @ run_description sample_live_run (RunId (uuid_of CHR ''e'')),
         ''ActiveState=active'']
      else if u = terminal_unit sample_intent then
        [''MainPID=300'', ''ControlGroup=/foot'', ''PartOf='', ''BindsTo='', ''KillMode=control-group'',
         ''Description='' @ terminal_description sample_live_run sample_intent, ''ActiveState=active'']
      else [''ControlGroup=/'' @ sample_scope, ''PartOf='' @ run_unit sample_live_run])"

definition sample_reply :: "nat \<Rightarrow> nat \<Rightarrow> spawn_command \<Rightarrow> string" where
  "sample_reply dead t c =
     (if sc_program c = ''/usr/bin/systemctl'' then unlines (sample_unit (last (sc_args c)))
      else if ''list-panes'' \<in> set (sc_args c) then
        unlines [''100:managed:$0:%0:'' @ (if t < dead then ''0'' else ''1'') @ '':200'']
      else if ''list-clients'' \<in> set (sc_args c) then unlines [''400:$0:/dev/pts/1'']
      else if ''clients'' \<in> set (sc_args c) then ''W''
      else if ''activewindow'' \<in> set (sc_args c) then ''A''
      else [])"

definition sample_stat :: "string \<Rightarrow> string" where
  "sample_stat path =
     ''1 (x) S '' @ (if path = ''/proc/400/stat'' then ''300'' else ''1'') @ concat (replicate 17 '' 0'') @ '' 77 0''"

definition sample_cgroup :: "string \<Rightarrow> string" where
  "sample_cgroup path = ''0::/'' @ (if path = ''/proc/100/cgroup'' then ''run'' else if path = ''/proc/300/cgroup'' then ''foot''
     else sample_scope) @ [newline]"

definition sample_meta :: "u32 \<Rightarrow> u32 \<Rightarrow> bool \<Rightarrow> Meta" where
  "sample_meta uid mode socket = \<lparr> me_file = (\<not> socket), me_socket = socket, me_uid = uid, me_mode = mode, me_nlink = 1,
     me_dev = 7, me_ino = 42 \<rparr>"

definition sample_machine :: "nat \<Rightarrow> machine" where
  "sample_machine dead = \<lparr> mc_uid = 1000,
     mc_metadata = (\<lambda>t path. Ok (sample_meta (if take 5 path = ''/usr/'' then 0 else 1000) 493 False)),
     mc_symlink_metadata = (\<lambda>t path. Ok (sample_meta 1000 384 (strip_suffix ''.json'' path = None))),
     mc_text = (\<lambda>t path. Some (if strip_suffix ''/stat'' path \<noteq> None then sample_stat path
        else if strip_suffix ''/cgroup'' path \<noteq> None then sample_cgroup path else sample_boot @ [newline])),
     mc_link = (\<lambda>t path. Some ''/dev/pts/1''),
     mc_spawn = (\<lambda>t c. Some \<lparr> ch_nonblocking = True, ch_rounds =
        [\<lparr> rd_read = Data (sample_reply dead t c), rd_late = False, rd_status = Some None \<rparr>,
         \<lparr> rd_read = Data [], rd_late = False, rd_status = Some (Some True) \<rparr>] \<rparr>),
     mc_pidfd = (\<lambda>t pid. True), mc_signal = (\<lambda>t p. True), mc_exited = (\<lambda>t p n. Some (0 < n)),
     mc_paths = (\<lambda>t. sample_paths), mc_var = (\<lambda>t v. Some (if v = ''WAYLAND_DISPLAY'' then ''wayland-1'' else ''hl'')),
     mc_written = (\<lambda>t path. Some 100000), mc_ok = (\<lambda>t. True), mc_late = (\<lambda>t. True), mc_descriptor = (\<lambda>t. 5) \<rparr>"

definition sample_windows :: window_codec where
  "sample_windows =
     (let w = \<lparr> wn_address = ''0x1f'', wn_pid = 300, wn_app_id = app_id sample_intent \<rparr>
      in \<lparr> wc_windows = (\<lambda>s. if s = ''W'' then Some [w] else None), wc_window = (\<lambda>s. if s = ''A'' then Some w else None) \<rparr>)"

definition sample_world :: world where
  "sample_world = \<lparr> wd_now = 0, wd_effects = [], wd_files = [] \<rparr>"


subsection \<open>Running on it\<close>

definition tick :: "nat \<Rightarrow> effect list \<Rightarrow> world \<Rightarrow> world" where
  "tick n es w = w\<lparr> wd_now := n + wd_now w, wd_effects := wd_effects w @ es \<rparr>"

lemma tick_tick [simp]: "tick n es (tick k fs w) = tick (n + k) (fs @ es) w"
  by (simp add: tick_def)

lemma tick_fields [simp]: "wd_now (tick n es w) = n + wd_now w" "wd_effects (tick n es w) = wd_effects w @ es"
    "wd_files (tick n es w) = wd_files w"
  by (simp_all add: tick_def)

lemma step_query: "query f w = (tick 1 [] w, f (wd_now w))"
  by (simp add: query_def tick_def)

lemma step_act: "act e f w = (tick 1 [e] w, f (wd_now w))"
  by (simp add: act_def query_def tick_def)

lemma step_then: "op w = (w1, Ok x) \<Longrightarrow> io_then op f w = f x w1"
  by (simp add: io_then_def)

lemma step_attempt: "op w = (w1, r) \<Longrightarrow> io_then (attempt op) f w = f r w1"
  by (simp add: io_then_def attempt_def)

lemma step_ask: "io_then (query f) g w = (case f (wd_now w) of Inl e \<Rightarrow> (tick 1 [] w, Err e) | Inr x \<Rightarrow> g x (tick 1 [] w))"
  by (simp add: io_then_def step_query try_st_def del: One_nat_def)

lemma step_done: "io_then (done_io (Ok x)) f w = f x w" "io_then (ensure_io c e) f w = (if c then f () w else (w, Err e))"
  by (simp_all add: io_then_def done_io_def ensure_io_def ensure_def)

lemma step_assoc: "io_then (io_then op f) g = io_then op (\<lambda>x. io_then (f x) g)"
  by (auto simp: io_then_def fun_eq_iff try_st_def split: prod.splits sum.splits)

lemmas steps = step_assoc step_query step_act step_then step_attempt step_ask step_done done_io_def

lemma on_metadata: "io_metadata (sample_machine d) path w =
    (tick 1 [] w, Ok (sample_meta (if take 5 path = ''/usr/'' then 0 else 1000) 493 False))"
  by (simp add: io_metadata_def steps sample_machine_def)

lemma on_symlink: "io_symlink_metadata (sample_machine d) path w =
    (tick 1 [] w, Ok (sample_meta 1000 384 (strip_suffix ''.json'' path = None)))"
  by (simp add: io_symlink_metadata_def steps sample_machine_def)

lemma on_private: "private_directory sample_paths path False = Ok fd \<Longrightarrow>
    io_private_directory (sample_machine d) path False w = (tick 1 [] w, Ok fd)"
  by (simp add: io_private_directory_def steps sample_machine_def)

lemma on_command: "length (sample_reply d (wd_now w) c) \<le> 8192 \<Longrightarrow> utf8_valid (map byte (sample_reply d (wd_now w) c)) \<Longrightarrow>
    run_command (sample_machine d) c w = (tick 1 [Spawned c] w, Ok (sample_reply d (wd_now w) c))"
  by (simp add: run_command_def bounded_output_def steps sample_machine_def is_ok_def)

lemma on_compositor: "length (sample_reply d (wd_now w) c) \<le> 262144 \<Longrightarrow> utf8_valid (map byte (sample_reply d (wd_now w) c)) \<Longrightarrow>
    compositor (sample_machine d) c w = (tick 1 [Spawned c] w, Ok (sample_reply d (wd_now w) c))"
  by (simp add: compositor_def bounded_output_def steps sample_machine_def is_ok_def)

lemma on_read:
  "process_read (sample_machine d) 100 w = (tick 3 [] w, Ok (sample_process 100))"
  "process_read (sample_machine d) 200 w = (tick 3 [] w, Ok (sample_process 200))"
  "process_read (sample_machine d) 300 w = (tick 3 [] w, Ok (sample_process 300))"
  "process_read (sample_machine d) 400 w = (tick 3 [] w, Ok (sample_process 400))"
  by (code_simp, simp add: tick_def)+

lemma on_cgroup:
  "cgroup (sample_machine d) 100 w = (tick 1 [] w, Ok ''/run'')"
  "cgroup (sample_machine d) 200 w = (tick 1 [] w, Ok (''/'' @ sample_scope))"
  "cgroup (sample_machine d) 300 w = (tick 1 [] w, Ok ''/foot'')"
  by (code_simp, simp add: tick_def)+

lemma sample_pid [simp]: "pr_pid (sample_process pid) = pid"
  by (simp add: sample_process_def)

lemma on_current: "pid \<in> {100, 200, 300, 400} \<Longrightarrow>
    process_current (sample_machine d) (sample_process pid) w = (tick 3 [] w, Ok True)"
  unfolding process_current_def sample_pid by (elim insertE emptyE) (simp_all add: steps on_read)

lemma sample_process_valid: "pid \<noteq> 0 \<Longrightarrow> ProcessIdentity_validate (sample_process pid) = Ok ()"
proof -
  have "is_ok (RunId_from_str sample_boot)" by code_simp
  then show "pid \<noteq> 0 \<Longrightarrow> ProcessIdentity_validate (sample_process pid) = Ok ()"
    by (simp add: ProcessIdentity_validate_def sample_process_def)
qed

lemma sample_answers [simp]:
  "mc_uid (sample_machine d) = 1000" "mc_pidfd (sample_machine d) t pid" "mc_signal (sample_machine d) t p"
  "mc_exited (sample_machine d) t p n = Some (0 < n)" "mc_ok (sample_machine d) t" "mc_late (sample_machine d) t"
  "mc_paths (sample_machine d) t = sample_paths" "mc_link (sample_machine d) t path = Some ''/dev/pts/1''"
  "mc_var (sample_machine d) t v = Some (if v = ''WAYLAND_DISPLAY'' then ''wayland-1'' else ''hl'')"
  "mc_written (sample_machine d) t path = Some 100000" "mc_descriptor (sample_machine d) t = 5"
  by (simp_all add: sample_machine_def)

lemma on_pin: "pid \<in> {100, 200, 300, 400} \<Longrightarrow>
    process_pin (sample_machine d) (sample_process pid) w = (tick 7 [] w, Ok (HeldProcess (sample_process pid)))"
  unfolding process_pin_def
  by (elim insertE emptyE) (simp_all add: steps on_current sample_process_valid)

lemma on_executable:
  "check_executable (sample_machine d) pid path w = (tick 2 [] w, Ok ())"
  by (simp add: check_executable_def steps on_metadata sample_meta_def ensure_io_def ensure_def)

text \<open>The properties of the three units, as the program reads them.\<close>

definition sample_values :: "string \<Rightarrow> (string \<times> string) list" where
  "sample_values u = map (\<lambda>line. the (split_once CHR ''='' line)) (sample_unit u)"

lemma sample_unit_reads:
  assumes "u \<in> {run_unit sample_live_run, terminal_unit sample_intent, sample_scope}"
  shows "property_lines [] (text_lines (unlines (sample_unit u))) = Ok (sample_values u)
    \<and> length (unlines (sample_unit u)) \<le> 8192 \<and> utf8_valid (map byte (unlines (sample_unit u)))"
proof -
  have "list_all (\<lambda>u. property_lines [] (text_lines (unlines (sample_unit u))) = Ok (sample_values u)
    \<and> length (unlines (sample_unit u)) \<le> 8192 \<and> utf8_valid (map byte (unlines (sample_unit u))))
    [run_unit sample_live_run, terminal_unit sample_intent, sample_scope]"
    by code_simp
  with assms show ?thesis by auto
qed

lemma on_units:
  assumes "u \<in> {run_unit sample_live_run, terminal_unit sample_intent, sample_scope}"
  shows "\<exists>es. unit_properties (sample_machine d) sample_backend u w = (tick 1 es w, Ok (sample_values u)) \<and> list_all asks es"
proof -
  let ?c = "with_args (backend_command sample_backend ''/usr/bin/systemctl'')
       [''--user'', ''show'', ''--no-pager'',
        ''--property=MainPID,InvocationID,ControlGroup,PartOf,BindsTo,KillMode,Description,ActiveState'', u]"
  have reply: "sample_reply d t ?c = unlines (sample_unit u)" for t
    by (simp add: sample_reply_def with_args_def backend_command_def)
  have "run_command (sample_machine d) ?c w = (tick 1 [Spawned ?c] w, Ok (unlines (sample_unit u)))"
    using sample_unit_reads [OF assms] by (subst on_command) (simp_all add: reply)
  then show ?thesis
    using sample_unit_reads [OF assms]
    by (intro exI [of _ "[Spawned ?c]"]) (simp add: unit_properties_def steps asking_backend)
qed

lemma on_property:
  "map_of (sample_values (run_unit sample_live_run)) ''MainPID'' = Some ''100''"
  "map_of (sample_values (run_unit sample_live_run)) ''InvocationID'' = Some (replicate 32 CHR ''a'')"
  "map_of (sample_values (run_unit sample_live_run)) ''ControlGroup'' = Some ''/run''"
  "map_of (sample_values (run_unit sample_live_run)) ''PartOf'' = Some []"
  "map_of (sample_values (run_unit sample_live_run)) ''BindsTo'' = Some []"
  "map_of (sample_values (run_unit sample_live_run)) ''KillMode'' = Some ''control-group''"
  "map_of (sample_values (run_unit sample_live_run)) ''ActiveState'' = Some ''active''"
  "map_of (sample_values (run_unit sample_live_run)) ''Description''
     = Some (run_description sample_live_run (RunId (uuid_of CHR ''e'')))"
  "map_of (sample_values (terminal_unit sample_intent)) ''MainPID'' = Some ''300''"
  "map_of (sample_values (terminal_unit sample_intent)) ''ControlGroup'' = Some ''/foot''"
  "map_of (sample_values (terminal_unit sample_intent)) ''PartOf'' = Some []"
  "map_of (sample_values (terminal_unit sample_intent)) ''BindsTo'' = Some []"
  "map_of (sample_values (terminal_unit sample_intent)) ''KillMode'' = Some ''control-group''"
  "map_of (sample_values (terminal_unit sample_intent)) ''ActiveState'' = Some ''active''"
  "map_of (sample_values (terminal_unit sample_intent)) ''Description'' = Some (terminal_description sample_live_run sample_intent)"
  "map_of (sample_values sample_scope) ''PartOf'' = Some (run_unit sample_live_run)"
  "map_of (sample_values sample_scope) ''ControlGroup'' = Some (''/'' @ sample_scope)"
  by code_simp+

lemma sample_parses:
  "parse_u32 ''100'' = Some 100" "parse_u32 ''200'' = Some 200" "parse_u32 ''300'' = Some 300" "parse_u32 ''400'' = Some 400"
  "hex (replicate 32 CHR ''a'') 32"
  by code_simp+

lemma sample_records [simp]:
  "mr_server sample_live_run = Some (sample_process 100)"
  "ct_launch_nonce sample_live_control = Some (RunId (uuid_of CHR ''e''))"
  "ct_invocation sample_live_control = None"
  "ct_pane sample_live_control = Some \<lparr> pp_process = sample_process 200, pp_pane = ''%0'', pp_session = ''$0'' \<rparr>"
  "ct_terminal sample_live_control = Some sample_intent" "ct_ending sample_live_control"
  "ti_process sample_intent = Some (sample_process 300)" "ti_window sample_intent = Some sample_window"
  by (simp_all add: sample_live_run_def sample_live_control_def ControlState_new_def sample_intent_def)

definition sample_server :: Server where
  "sample_server = \<lparr> sv_identity = sample_process 100, sv_invocation = replicate 32 CHR ''a'',
     sv_held = HeldProcess (sample_process 100) \<rparr>"

lemma on_server:
  "\<exists>es. owned_server (sample_machine d) sample_backend sample_live_run sample_live_control w = (tick 14 es w, Ok sample_server)
     \<and> list_all asks es"
proof -
  obtain es where es: "unit_properties (sample_machine d) sample_backend (run_unit sample_live_run) w
      = (tick 1 es w, Ok (sample_values (run_unit sample_live_run)))" "list_all asks es"
    using on_units [of "run_unit sample_live_run"] by blast
  then show ?thesis
    by (intro exI [of _ es])
      (simp add: owned_server_def property_def steps es(1) on_property sample_parses on_read on_cgroup on_executable on_pin
        ok_or_def sample_server_def)
qed

subsection \<open>Ending the sample run\<close>

definition sample_pane :: "bool \<Rightarrow> Pane" where
  "sample_pane dead = \<lparr> pn_identity = \<lparr> pp_process = (if dead then \<lparr> pr_pid = 200, pr_start_ticks = 0, pr_boot_id = [] \<rparr>
       else sample_process 200), pp_pane = ''%0'', pp_session = ''$0'' \<rparr>, pn_dead = dead \<rparr>"

lemma sample_directories:
  "private_directory sample_paths (run_directory sample_live_run) False
     = Ok [''run'', ''user'', ''1000'', ''harbormaster'', ''runners'', uuid_of CHR ''c'']"
  "private_directory sample_paths ''/run/user/1000'' False = Ok [''run'', ''user'', ''1000'']"
  by code_simp+

lemma on_tmux: "tmux (sample_machine d) sample_backend sample_live_run w =
    (tick 2 [] w, Ok (with_args (backend_command sample_backend ''/usr/bin/tmux'') [''-S'', socket_path sample_live_run]))"
proof -
  have "strip_suffix ''.json'' (socket_path sample_live_run) = None" by code_simp
  then show ?thesis
    by (simp add: tmux_def steps on_private [OF sample_directories(1)] on_symlink sample_meta_def)
qed

definition ask_tmux :: "string list \<Rightarrow> spawn_command" where
  "ask_tmux args = with_args (with_args (backend_command sample_backend ''/usr/bin/tmux'') [''-S'', socket_path sample_live_run]) args"

lemma ask_tmux: "sc_program (ask_tmux args) = ''/usr/bin/tmux''" "sc_args (ask_tmux args) = ''-S'' # socket_path sample_live_run # args"
    "asking (ask_tmux args)"
  by (simp_all add: ask_tmux_def with_args_def backend_command_def)
    (simp add: asking_def trusted_spawn_def sample_backend_def)

lemma on_pane:
  "\<exists>es. pane_of (sample_machine d) sample_backend sample_live_run sample_server w
      = (tick (if wd_now w + 2 < d then 9 else 6) es w, Ok (sample_pane (\<not> wd_now w + 2 < d))) \<and> list_all asks es"
proof -
  let ?c = "ask_tmux [''list-panes'', ''-a'', ''-F'', ''#{pid}:#{session_name}:#{session_id}:#{pane_id}:#{pane_dead}:#{pane_pid}'']"
  let ?text = "\<lambda>f. unlines [''100:managed:$0:%0:'' @ f @ '':200'']"
  have reply: "sample_reply d t ?c = ?text (if t < d then ''0'' else ''1'')" for t
    by (simp add: sample_reply_def ask_tmux)
  have reads: "list_all (\<lambda>f. length (?text f) \<le> 8192 \<and> utf8_valid (map byte (?text f))
      \<and> text_lines (?text f) = [''100:managed:$0:%0:'' @ f @ '':200'']
      \<and> split_on CHR '':'' (''100:managed:$0:%0:'' @ f @ '':200'') = [''100'', ''managed'', ''$0'', ''%0'', f, ''200'']) [''0'', ''1'']"
    by code_simp
  have targets: "target ''$0'' CHR ''$''" "target ''%0'' CHR ''%''" by code_simp+
  have run: "run_command (sample_machine d) ?c (tick 2 [] w)
      = (tick 3 [Spawned ?c] w, Ok (?text (if 2 + wd_now w < d then ''0'' else ''1'')))"
    using reads by (subst on_command) (simp_all add: reply)
  have id: "sv_identity sample_server = sample_process 100" by (simp add: sample_server_def)
  show ?thesis
    using reads targets
    by (intro exI [of _ "[Spawned ?c]"])
      (simp add: pane_of_def Let_def steps on_tmux run ask_tmux(3) flip: ask_tmux_def,
       simp add: steps id sample_parses on_current on_read sample_pane_def add.commute)
qed

lemma on_owned_pane:
  assumes "wd_now w + 2 < d"
  shows "\<exists>es. owned_pane (sample_machine d) sample_backend sample_live_run sample_live_control sample_server w
      = (tick 18 es w, Ok (\<lparr> pp_process = sample_process 200, pp_pane = ''%0'', pp_session = ''$0'' \<rparr>,
          HeldProcess (sample_process 200))) \<and> list_all asks es"
proof -
  obtain es where es: "pane_of (sample_machine d) sample_backend sample_live_run sample_server w
      = (tick 9 es w, Ok (sample_pane False))" "list_all asks es"
    using on_pane [of d w] assms by auto
  obtain fs where fs: "unit_properties (sample_machine d) sample_backend sample_scope (tick 10 es w)
      = (tick 1 fs (tick 10 es w), Ok (sample_values sample_scope))" "list_all asks fs"
    using on_units [of sample_scope] by blast
  have scope: "last (split_on CHR ''/'' (''/'' @ sample_scope)) = sample_scope"
    "Option.bind (strip_prefix ''tmux-spawn-'' sample_scope) (strip_suffix ''.scope'') = Some (uuid_of CHR ''f'')"
    "is_ok (RunId_from_str (uuid_of CHR ''f''))"
    by code_simp+
  have pane: "pn_identity (sample_pane False) = \<lparr> pp_process = sample_process 200, pp_pane = ''%0'', pp_session = ''$0'' \<rparr>"
    "\<not> pn_dead (sample_pane False)" by (simp_all add: sample_pane_def)
  show ?thesis
    using es(2) fs(2)
    by (intro exI [of _ "es @ fs"])
      (simp add: owned_pane_def property_def Let_def steps es(1) pane on_cgroup scope [simplified] on_property on_pin fs(1) ok_or_def)
qed

lemma on_complete: "end_complete (sample_machine d) sample_backend sample_live_run sample_live_control w = (tick 3 [] w, Ok False)"
  by (simp add: end_complete_def steps on_current)

lemma ensure_io_True: "ensure_io True e w = (w, Ok ())"
  by (simp add: ensure_io_def ensure_def done_io_def)

lemma on_terminate: "terminate_and_wait (sample_machine d) h w = (tick 3 [Terminated (held h)] w, Ok ())"
  by (simp add: terminate_and_wait_def held_terminate_def held_exited_def steps ok_or_def ensure_io_True)

lemma sample_end:
  "\<exists>w. end_run (sample_machine 40) sample_backend sample_live_run sample_live_control sample_world = (w, Ok ())
     \<and> signalled (wd_effects w) = [sample_process 200, sample_process 100]"
proof -
  let ?m = "sample_machine 40"
  let ?w = "tick 3 [] sample_world"
  have now: "wd_now sample_world = 0" "wd_effects sample_world = []" by (simp_all add: sample_world_def)
  obtain e1 where e1: "owned_server ?m sample_backend sample_live_run sample_live_control ?w = (tick 14 e1 ?w, Ok sample_server)"
    "list_all asks e1" using on_server by blast
  obtain e2 where e2: "pane_of ?m sample_backend sample_live_run sample_server (tick 17 e1 sample_world)
      = (tick 26 (e1 @ e2) sample_world, Ok (sample_pane False))" "list_all asks e2"
    using on_pane [of 40 "tick 17 e1 sample_world"] by (auto simp: now)
  obtain e3 where e3: "owned_pane ?m sample_backend sample_live_run sample_live_control sample_server (tick 26 (e1 @ e2) sample_world)
      = (tick 44 (e1 @ e2 @ e3) sample_world, Ok (\<lparr> pp_process = sample_process 200, pp_pane = ''%0'', pp_session = ''$0'' \<rparr>,
          HeldProcess (sample_process 200)))" "list_all asks e3"
    using on_owned_pane [of "tick 26 (e1 @ e2) sample_world" 40] by (auto simp: now)
  let ?t1 = "e1 @ e2 @ e3 @ [Terminated (sample_process 200)]"
  obtain e4 where e4: "pane_of ?m sample_backend sample_live_run sample_server (tick 47 ?t1 sample_world)
      = (tick 53 (?t1 @ e4) sample_world, Ok (sample_pane True))" "list_all asks e4"
    using on_pane [of 40 "tick 47 ?t1 sample_world"] by (auto simp: now)
  obtain e5 where e5: "owned_server ?m sample_backend sample_live_run sample_live_control (tick 53 (?t1 @ e4) sample_world)
      = (tick 67 (?t1 @ e4 @ e5) sample_world, Ok sample_server)" "list_all asks e5"
    using on_server [of 40 "tick 53 (?t1 @ e4) sample_world"] by auto
  have panes: "pn_dead (sample_pane True)" "\<not> pn_dead (sample_pane False)"
    "matching_dead_pane (sample_pane True) \<lparr> pp_process = sample_process 200, pp_pane = ''%0'', pp_session = ''$0'' \<rparr> w = (w, Ok ())" for w
    by (simp_all add: sample_pane_def matching_dead_pane_def ensure_io_def ensure_def done_io_def)
  have "end_run ?m sample_backend sample_live_run sample_live_control sample_world
      = (tick 70 (?t1 @ e4 @ e5 @ [Terminated (sample_process 100)]) sample_world, Ok ())"
    using e1(1) e2(1) e3(1) e4(1) e5(1)
    by (simp add: end_run_def end_target_def steps step_then [OF on_complete] on_terminate panes ok_or_def sample_server_def)
  then show ?thesis
    using e1(2) e2(2) e3(2) e4(2) e5(2) asks_silent by (simp add: now)
qed

lemma end_signals_owned_witness:
  "\<exists>w' ts. end_run (sample_machine 40) sample_backend sample_live_run sample_live_control sample_world = (w', Ok ()) \<and>
    signalled (wd_effects w') = signalled (wd_effects sample_world) @ ts \<and>
    (ts = [] \<and> (is_ok (Ok () :: ManagerError + unit) \<longrightarrow>
        snd (end_complete (sample_machine 40) sample_backend sample_live_run sample_live_control sample_world) = Ok True) \<or>
     (\<exists>saved sv pre post w1 w2. ct_pane sample_live_control = Some saved \<and> ts = pre @ post
        \<and> owned_server (sample_machine 40) sample_backend sample_live_run sample_live_control w1 = (w2, Ok sv)
        \<and> during sample_world w' w1 w2 \<and> signalled (wd_effects w2) = signalled (wd_effects sample_world)
        \<and> mr_server sample_live_run \<in> {None, Some (sv_identity sv)}
        \<and> ct_invocation sample_live_control \<in> {None, Some (sv_invocation sv)}
        \<and> (pre = [] \<or> pre = [pp_process saved] \<and> (\<exists>w3 w4 h.
             owned_pane (sample_machine 40) sample_backend sample_live_run sample_live_control sv w3 = (w4, Ok (saved, h))
             \<and> during w2 w' w3 w4 \<and> signalled (wd_effects w4) = signalled (wd_effects sample_world)))
        \<and> (post = [] \<and> \<not> is_ok (Ok () :: ManagerError + unit) \<or>
           post = [sv_identity sv]
           \<and> (\<exists>before after pane. pane_of (sample_machine 40) sample_backend sample_live_run sv before = (after, Ok pane)
                \<and> during w2 w' before after
                \<and> signalled (wd_effects after) = signalled (wd_effects sample_world) @ pre \<and> pn_dead pane
                \<and> pp_pane (pn_identity pane) = pp_pane saved
                \<and> pr_pid (pp_process (pn_identity pane)) = pr_pid (pp_process saved))
           \<and> (\<exists>w5 w6 again. owned_server (sample_machine 40) sample_backend sample_live_run sample_live_control w5 = (w6, Ok again)
                \<and> during w2 w' w5 w6
                \<and> signalled (wd_effects w6) = signalled (wd_effects sample_world) @ pre))))"
proof -
  obtain w where w: "end_run (sample_machine 40) sample_backend sample_live_run sample_live_control sample_world = (w, Ok ())"
    using sample_end by blast
  from end_signals_owned [OF w] w show ?thesis by blast
qed

subsection \<open>Focusing the sample run's window\<close>

definition sample_desktop :: Desktop where
  "sample_desktop = \<lparr> dk_display = ''wayland-1'', dk_compositor = ''hl'' \<rparr>"

lemma sample_display:
  "component ''wayland-1'' \<and> component ''hl''" "strip_suffix ''.json'' (path_join ''/run/user/1000'' ''wayland-1'') = None"
  by code_simp+

lemma on_desktop: "Desktop_new (sample_machine d) sample_backend w = (tick 6 [] w, Ok sample_desktop)"
proof -
  have runtime: "bk_session_runtime sample_backend = Some ''/run/user/1000''" by (simp add: sample_backend_def)
  show ?thesis
    using sample_display
    by (simp add: Desktop_new_def steps ok_or_def runtime on_private [OF sample_directories(2)] on_symlink on_metadata sample_meta_def
        trusted_tool_def sample_desktop_def)
qed

lemma on_terminal:
  "\<exists>es. terminal_process (sample_machine d) sample_backend sample_live_run sample_intent w
      = (tick 14 es w, Ok (sample_process 300)) \<and> list_all asks es"
proof -
  obtain es where es: "unit_properties (sample_machine d) sample_backend (terminal_unit sample_intent) w
      = (tick 1 es w, Ok (sample_values (terminal_unit sample_intent)))" "list_all asks es"
    using on_units [of "terminal_unit sample_intent"] by blast
  then show ?thesis
    by (intro exI [of _ es])
      (simp add: terminal_process_def property_def steps es(1) on_property sample_parses on_read on_cgroup on_executable on_pin ok_or_def)
qed

definition ask_hyprctl :: "string list \<Rightarrow> spawn_command" where
  "ask_hyprctl args = with_args (desktop_command sample_backend sample_desktop) args"

lemma ask_hyprctl: "sc_program (ask_hyprctl args) = ''/usr/bin/hyprctl''" "sc_args (ask_hyprctl args) = args"
  by (simp_all add: ask_hyprctl_def with_args_def desktop_command_def backend_command_def)

lemma asking_hyprctl: "x \<noteq> ''dispatch'' \<Longrightarrow> asking (ask_hyprctl (x # xs))"
  by (simp add: ask_hyprctl_def asking_desktop)

definition sample_listed :: Window where
  "sample_listed = \<lparr> wn_address = ''0x1f'', wn_pid = 300, wn_app_id = app_id sample_intent \<rparr>"

lemma on_windows:
  "desktop_windows (sample_machine d) sample_windows sample_backend sample_desktop w
     = (tick 1 [Spawned (ask_hyprctl [''-j'', ''clients''])] w, Ok [sample_listed])"
  "desktop_active (sample_machine d) sample_windows sample_backend sample_desktop w
     = (tick 1 [Spawned (ask_hyprctl [''-j'', ''activewindow''])] w, Ok sample_listed)"
proof -
  have replies: "sample_reply d t (ask_hyprctl [''-j'', ''clients'']) = ''W''"
    "sample_reply d t (ask_hyprctl [''-j'', ''activewindow'']) = ''A''" for t
    by (simp_all add: sample_reply_def ask_hyprctl)
  have valid: "utf8_valid (map byte ''W'')" "utf8_valid (map byte ''A'')" by code_simp+
  show "desktop_windows (sample_machine d) sample_windows sample_backend sample_desktop w
     = (tick 1 [Spawned (ask_hyprctl [''-j'', ''clients''])] w, Ok [sample_listed])"
    using valid by (simp add: desktop_windows_def steps on_compositor replies ok_or_def flip: ask_hyprctl_def)
      (simp add: sample_windows_def Let_def sample_listed_def steps)
  show "desktop_active (sample_machine d) sample_windows sample_backend sample_desktop w
     = (tick 1 [Spawned (ask_hyprctl [''-j'', ''activewindow''])] w, Ok sample_listed)"
    using valid by (simp add: desktop_active_def steps on_compositor replies ok_or_def flip: ask_hyprctl_def)
      (simp add: sample_windows_def Let_def sample_listed_def steps)
qed

lemma on_client:
  "client_line (sample_machine d) (sample_process 300) ''$0'' ''400:$0:/dev/pts/1'' w
     = (tick 12 [] w, Ok (Some (sample_process 400, ''/dev/pts/1'')))"
proof -
  have fields: "split_on CHR '':'' ''400:$0:/dev/pts/1'' = [''400'', ''$0'', ''/dev/pts/1'']" by code_simp
  have stat: "read_bounded (sample_machine d) (proc_path 400 ''/stat'') 4096 w = (tick 1 [] w, Ok (sample_stat ''/proc/400/stat''))" for w
    by (code_simp, simp add: tick_def)
  have parent: "(case rsplit_once CHR '')'' (sample_stat ''/proc/400/stat'') of None \<Rightarrow> None
      | Some (_, tail) \<Rightarrow> if 1 < length (split_whitespace tail) then parse_u32 (split_whitespace tail ! 1) else None) = Some 300"
    by code_simp
  show ?thesis
    by (simp add: client_line_def Let_def fields sample_parses steps on_read stat parent [unfolded One_nat_def] parent ok_or_def on_pin)
qed

lemma on_tmux_client:
  "\<exists>es. tmux_client (sample_machine d) sample_backend sample_live_run (sample_process 300) ''$0'' w
      = (tick 18 es w, Ok (sample_process 400, ''/dev/pts/1'')) \<and> list_all asks es"
proof -
  let ?c = "ask_tmux [''list-clients'', ''-F'', ''#{client_pid}:#{session_id}:#{client_tty}'']"
  let ?text = "unlines [''400:$0:/dev/pts/1'']"
  have "socket_path sample_live_run \<noteq> ''list-panes''" by code_simp
  then have reply: "sample_reply d t ?c = ?text" for t by (simp add: sample_reply_def ask_tmux)
  have reads: "length ?text \<le> 8192" "utf8_valid (map byte ?text)" "text_lines ?text = [''400:$0:/dev/pts/1'']" by code_simp+
  have run: "run_command (sample_machine d) ?c (tick 2 [] w) = (tick 3 [Spawned ?c] w, Ok ?text)"
    using reads by (subst on_command) (simp_all add: reply)
  show ?thesis
    by (intro exI [of _ "[Spawned ?c]"])
      (simp add: tmux_client_def steps on_tmux run ask_tmux(3) flip: ask_tmux_def,
       simp add: steps reads(3) on_client on_current ok_or_def)
qed

lemma on_associate:
  assumes "wd_now w + 22 < d"
  shows "\<exists>es. associate (sample_machine d) sample_windows sample_backend sample_live_run sample_live_control w
      = (tick 78 es w, Ok sample_window) \<and> list_all asks es"
proof -
  let ?m = "sample_machine d"
  obtain e1 where e1: "owned_server ?m sample_backend sample_live_run sample_live_control (tick 6 [] w) = (tick 20 e1 w, Ok sample_server)"
    "list_all asks e1" using on_server [of d "tick 6 [] w"] by auto
  obtain e2 where e2: "owned_pane ?m sample_backend sample_live_run sample_live_control sample_server (tick 20 e1 w)
      = (tick 38 (e1 @ e2) w, Ok (\<lparr> pp_process = sample_process 200, pp_pane = ''%0'', pp_session = ''$0'' \<rparr>,
          HeldProcess (sample_process 200)))" "list_all asks e2"
    using on_owned_pane [of "tick 20 e1 w" d] assms by auto
  obtain e3 where e3: "terminal_process ?m sample_backend sample_live_run sample_intent (tick 38 (e1 @ e2) w)
      = (tick 52 (e1 @ e2 @ e3) w, Ok (sample_process 300))" "list_all asks e3"
    using on_terminal [of d "tick 38 (e1 @ e2) w"] by auto
  let ?e4 = "e1 @ e2 @ e3 @ [Spawned (ask_hyprctl [''-j'', ''clients''])]"
  obtain e5 where e5: "tmux_client ?m sample_backend sample_live_run (sample_process 300) ''$0'' (tick 60 ?e4 w)
      = (tick 78 (?e4 @ e5) w, Ok (sample_process 400, ''/dev/pts/1''))" "list_all asks e5"
    using on_tmux_client [of d "tick 60 ?e4 w"] by auto
  have listed: "address (wn_address sample_listed)" "wn_pid sample_listed = 300" "wn_app_id sample_listed = app_id sample_intent"
    by code_simp+
  have "associate ?m sample_windows sample_backend sample_live_run sample_live_control w = (tick 78 (?e4 @ e5) w, Ok sample_window)"
    using e1(1) e2(1) e3(1) e5(1)
    by (simp add: associate_def Let_def steps on_desktop ok_or_def on_pin on_windows listed)
      (simp add: sample_listed_def sample_desktop_def sample_window_def steps)
  then show ?thesis
    using e1(2) e2(2) e3(2) e5(2) by (intro exI [of _ "?e4 @ e5"]) (simp add: asking_hyprctl)
qed

lemma sample_focus:
  "\<exists>w. focus_window (sample_machine 4000) sample_windows sample_backend sample_live_run sample_live_control sample_world = (w, Ok sample_window)
     \<and> dispatches (wd_effects w) = [[''dispatch'', focus_expression ''0x1f'']]"
proof -
  let ?m = "sample_machine 4000"
  let ?d = "ask_hyprctl [''dispatch'', focus_expression ''0x1f'']"
  have now: "wd_now sample_world = 0" "wd_effects sample_world = []" by (simp_all add: sample_world_def)
  obtain e1 where e1: "associate ?m sample_windows sample_backend sample_live_run sample_live_control (tick 6 [] sample_world)
      = (tick 84 e1 sample_world, Ok sample_window)" "list_all asks e1"
    using on_associate [of "tick 6 [] sample_world" 4000] by (auto simp: now)
  let ?e2 = "e1 @ [Spawned ?d, Spawned (ask_hyprctl [''-j'', ''activewindow''])]"
  obtain e3 where e3: "associate ?m sample_windows sample_backend sample_live_run sample_live_control (tick 86 ?e2 sample_world)
      = (tick 164 (?e2 @ e3) sample_world, Ok sample_window)" "list_all asks e3"
    using on_associate [of "tick 86 ?e2 sample_world" 4000] by (auto simp: now)
  have valid: "utf8_valid (map byte [])" by simp
  have reply: "sample_reply 4000 t ?d = []" for t
    by (simp add: sample_reply_def ask_hyprctl) (simp add: focus_expression_def)
  have run: "run_command ?m ?d (tick 84 e1 sample_world) = (tick 85 (e1 @ [Spawned ?d]) sample_world, Ok [])"
    by (subst on_command) (simp_all add: reply)
  have address: "wi_address sample_window = ''0x1f''" by (simp add: sample_window_def)
  have matches: "matches_window sample_listed sample_window (sample_process 300) (app_id sample_intent)" by code_simp
  have "focus_window ?m sample_windows sample_backend sample_live_run sample_live_control sample_world
      = (tick 164 (?e2 @ e3) sample_world, Ok sample_window)"
    using e1(1) e3(1)
    by (simp add: focus_window_def steps on_desktop ok_or_def address run on_windows matches flip: ask_hyprctl_def)
  moreover have "dispatches [Spawned ?d, Spawned (ask_hyprctl [''-j'', ''activewindow''])] = [[''dispatch'', focus_expression ''0x1f'']]"
    by (simp add: dispatches_def map_filter_def ask_hyprctl)
  then have "dispatches (?e2 @ e3) = [[''dispatch'', focus_expression ''0x1f'']]"
    unfolding dispatches_append asks_dispatches [OF e1(2)] asks_dispatches [OF e3(2)] by simp
  ultimately show ?thesis by (simp add: now)
qed

lemma focus_dispatches_saved_witness:
  "\<exists>w' ds. focus_window (sample_machine 4000) sample_windows sample_backend sample_live_run sample_live_control sample_world
       = (w', Ok sample_window) \<and>
    dispatches (wd_effects w') = dispatches (wd_effects sample_world) @ ds \<and>
    (ds = [] \<and> \<not> is_ok (Ok sample_window :: ManagerError + WindowIdentity) \<or>
     (\<exists>intent window w1 w2. ct_terminal sample_live_control = Some intent \<and> ti_window intent = Some window \<and> address (wi_address window)
        \<and> associate (sample_machine 4000) sample_windows sample_backend sample_live_run sample_live_control w1 = (w2, Ok window)
        \<and> during sample_world w' w1 w2
        \<and> dispatches (wd_effects w2) = dispatches (wd_effects sample_world)
        \<and> ds = [[''dispatch'', focus_expression (wi_address window)]]
        \<and> (Ok sample_window = (Ok window :: ManagerError + WindowIdentity) \<and> (\<exists>w3.
               associate (sample_machine 4000) sample_windows sample_backend sample_live_run sample_live_control w3 = (w', Ok window)
               \<and> during w2 w' w3 w'
               \<and> dispatches (wd_effects w3) = dispatches (wd_effects sample_world) @ ds)
            \<or> \<not> is_ok (Ok sample_window :: ManagerError + WindowIdentity))))"
proof -
  obtain w where w: "focus_window (sample_machine 4000) sample_windows sample_backend sample_live_run sample_live_control sample_world
       = (w, Ok sample_window)"
    using sample_focus by blast
  from focus_dispatches_saved [OF w] w show ?thesis by blast
qed

subsection \<open>Executing a launch\<close>

definition sample_handoff :: handoff_codec where
  "sample_handoff = \<lparr> hc_encode = (\<lambda>_. Some ''L''),
     hc_decode = (\<lambda>s. if s = ''L'' then Some \<lparr> hl_project = sample_project, hl_preset = sample_preset, hl_task = sample_task,
        hl_home = LocalPath ''/home/u'' \<rparr> else None) \<rparr>"

definition sample_dir :: string where "sample_dir = run_directory sample_live_run"

definition sample_waiting :: world where
  "sample_waiting = sample_world\<lparr> wd_files := [(launch_file sample_dir, ''L'')] \<rparr>"

lemma sample_dir_private:
  "private_directory sample_paths sample_dir False = Ok [''run'', ''user'', ''1000'', ''harbormaster'', ''runners'', uuid_of CHR ''c'']"
  using sample_directories(1) by (simp only: sample_dir_def)

lemma sample_opens:
  "map_ok (\<lambda>_. ()) (open_identity sample_paths (LocalPath_as_str (pj_root sample_project)) False (pj_identity sample_project)) = Ok ()"
  "map_ok (\<lambda>_. ()) (open_identity sample_paths (LocalPath_as_str (ps_executable sample_preset)) True (ps_identity sample_preset)) = Ok ()"
  by code_simp+

lemma sample_prepared:
  "PreparedLaunch_new sample_paths sample_project sample_preset sample_task
     = Ok \<lparr> pl_project = sample_project, pl_preset = sample_preset, pl_task = sample_task \<rparr>"
  by code_simp

lemma sample_command:
  "launch_command sample_paths \<lparr> pl_project = sample_project, pl_preset = sample_preset, pl_task = sample_task \<rparr>
     [(''HOME'', ''/home/u''), (''TERM'', ''tmux-256color'')]
     = Ok \<lparr> sc_program = ''/opt/hermes'', sc_args = [''-p'', ''work'', ''chat''], sc_cwd = Some ''/srv/api'',
         sc_env = [(''HOME'', ''/home/u''), (''PATH'', ''/usr/local/bin:/usr/bin:/bin''), (''TERM'', ''tmux-256color'')] \<rparr>"
  by code_simp

lemma sample_files:
  "strip_suffix ''.json'' (claimed_file sample_dir) \<noteq> None" "launch_file sample_dir \<noteq> claimed_file sample_dir"
  by code_simp+

lemmas sample_launch = sample_dir_private sample_opens sample_prepared sample_command sample_files

lemma claimed_metadata: "mc_symlink_metadata (sample_machine d) t (claimed_file sample_dir) = Ok (sample_meta 1000 384 False)"
  by (simp only: sample_machine_def machine.select_convs sample_launch(6))

definition sample_execution :: effect where
  "sample_execution = Executed (ps_identity sample_preset) (pj_identity sample_project)
     \<lparr> sc_program = ''/proc/self/fd/'' @ show_nat 5, sc_args = [''-p'', ''work'', ''chat''], sc_cwd = None,
         sc_env = [(''HOME'', ''/home/u''), (''PATH'', ''/usr/local/bin:/usr/bin:/bin''), (''TERM'', ''tmux-256color'')] \<rparr>"

lemma sample_activates:
  "\<exists>w. handoff_worker (sample_machine 0) sample_handoff sample_dir sample_waiting = (w, Ok ())
     \<and> wd_effects w = [Renamed (launch_file sample_dir) (claimed_file sample_dir), sample_execution]
     \<and> wd_files w = [(claimed_file sample_dir, ''L'')]"
proof -
  have waiting: "wd_files sample_waiting = [(launch_file sample_dir, ''L'')]" "wd_effects sample_waiting = []"
    by (simp_all add: sample_waiting_def sample_world_def)
  have decoded: "hc_decode sample_handoff ''L'' = Some \<lparr> hl_project = sample_project, hl_preset = sample_preset, hl_task = sample_task,
        hl_home = LocalPath ''/home/u'' \<rparr>"
    by (simp add: sample_handoff_def)
  show ?thesis
    using sample_launch(7)
    by (simp add: claimed_metadata handoff_worker_def rename_new_def load_def file_of_def io_call_def io_open_identity_def steps waiting decoded
        on_private [OF sample_launch(1)] sample_launch(2-5) sample_meta_def ok_or_def worker_command_def sample_execution_def)
qed

lemma launch_executed_once_witness:
  "\<exists>es. executions (wd_effects (handoff_history sample_handoff sample_dir sample_waiting
          [Activate (sample_machine 0), Activate (sample_machine 0)])) = executions (wd_effects sample_waiting) @ es
     \<and> es \<noteq> [] \<and> length es \<le> 1 \<and>
     (\<forall>e\<in>set es. \<exists>before m after data launch w1 w2.
        [Activate (sample_machine 0), Activate (sample_machine 0)] = before @ Activate m # after \<and>
        w1 = handoff_history sample_handoff sample_dir sample_waiting before \<and>
        w2 = handoff_step sample_handoff sample_dir (Activate m) w1 \<and>
        map_of (wd_files w1) (launch_file sample_dir) = Some data \<and> map_of (wd_files w1) (claimed_file sample_dir) = None \<and>
        map_of (wd_files w2) (claimed_file sample_dir) = Some data \<and> hc_decode sample_handoff data = Some launch \<and>
        launch_execution m launch (wd_now w1) (wd_now w2) e)"
proof -
  let ?steps = "[Activate (sample_machine 0), Activate (sample_machine 0)]"
  obtain w1 where w1: "handoff_step sample_handoff sample_dir (Activate (sample_machine 0)) sample_waiting = w1"
    "wd_effects w1 = [Renamed (launch_file sample_dir) (claimed_file sample_dir), sample_execution]"
    using sample_activates by force
  have run: "handoff_history sample_handoff sample_dir sample_waiting ?steps
      = handoff_step sample_handoff sample_dir (Activate (sample_machine 0)) w1"
    by (simp add: handoff_history_def w1(1) del: handoff_step.simps)
  have "executions (wd_effects w1) \<noteq> []" by (simp add: w1(2) executions_def sample_execution_def)
  moreover obtain fs where "executions (wd_effects (handoff_history sample_handoff sample_dir sample_waiting ?steps))
      = executions (wd_effects w1) @ fs"
    unfolding run using handoff_step_once [of sample_dir w1 sample_handoff "Activate (sample_machine 0)"] by auto
  ultimately have some: "executions (wd_effects (handoff_history sample_handoff sample_dir sample_waiting ?steps)) \<noteq> []" by simp
  have none: "executions (wd_effects sample_waiting) = []" by (simp add: sample_waiting_def sample_world_def executions_def)
  from launch_executed_once [of sample_handoff sample_dir sample_waiting ?steps] show ?thesis
  proof (elim exE conjE, intro exI conjI)
    fix es assume "executions (wd_effects (handoff_history sample_handoff sample_dir sample_waiting ?steps))
      = executions (wd_effects sample_waiting) @ es"
    with some none show "es \<noteq> []" by (simp only: append.simps not_False_eq_True)
  qed assumption+
qed

end
