(* ===== verification/Spec2Isabelle.thy ===== *)
theory Spec2Isabelle
  imports Lifecycle Registry Store_Refine Worker Spool_Safety Reconcile_Job Cleanup_Safety Runtime_Samples
begin

text \<open>
  Harbormaster: a verification development (skeleton of the header; completed below).
\<close>

end
